(* ===== verification/Prelude.thy ===== *)
theory Prelude
  imports Complex_Main "HOL-Library.Sublist"
begin

text \<open>
  Shared vocabulary of the development: the model of Python's exceptions and of the loops the
  engine's sources are written in, the string operations they use, and the generic lemmas about
  them.

  A Python \<^verbatim>\<open>float\<close> is modelled by an exact rational. Every finite double is a
  rational, so inputs, comparisons, \<^verbatim>\<open>max\<close>, \<^verbatim>\<open>min\<close> and
  \<^verbatim>\<open>sorted\<close> are exact; what is idealised is the rounding of \<open>+ - * /\<close>, and
  infinities and NaN are not values of the model. A \<^verbatim>\<open>datetime\<close> is modelled by the
  number of seconds since the epoch, in UTC.
\<close>

section \<open>Types shared by every component\<close>

type_synonym price = rat
type_synonym datetime = int

datatype py_error =
    ValidationError string        \<comment> \<open>pydantic rejects a field of the named model\<close>
  | ConfigurationError string     \<comment> \<open>\<^verbatim>\<open>engine.shared.exceptions.ConfigurationError\<close>\<close>
  | ValueError string
  | RuntimeError string
  | IndexError
  | KeyError
  | AttributeError

type_synonym 'a result = "py_error + 'a"

named_theorems no_raise \<open>facts that an operation returns a value instead of raising\<close>
named_theorems shape \<open>facts that describe the value an operation returns\<close>

section \<open>Exceptions and loops that may raise\<close>

fun bindR :: "'e + 'a \<Rightarrow> ('a \<Rightarrow> 'e + 'b) \<Rightarrow> 'e + 'b" where
  "bindR (Inl e) f = Inl e"
| "bindR (Inr x) f = f x"

text \<open>A \<^verbatim>\<open>for\<close> loop that appends one value per element, and one that may skip some.\<close>

fun mapR :: "('a \<Rightarrow> 'e + 'b) \<Rightarrow> 'a list \<Rightarrow> 'e + 'b list" where
  "mapR f [] = Inr []"
| "mapR f (x # xs) = bindR (f x) (\<lambda>y. bindR (mapR f xs) (\<lambda>ys. Inr (y # ys)))"

fun collectR :: "('a \<Rightarrow> 'e + 'b option) \<Rightarrow> 'a list \<Rightarrow> 'e + 'b list" where
  "collectR f [] = Inr []"
| "collectR f (x # xs) =
     bindR (f x) (\<lambda>r. bindR (collectR f xs) (\<lambda>ys.
       Inr (case r of None \<Rightarrow> ys | Some y \<Rightarrow> y # ys)))"

text \<open>The first element of a list for which the body returns a value: a loop with
  \<^verbatim>\<open>return\<close> or \<^verbatim>\<open>break\<close> inside.\<close>

fun firstR :: "('a \<Rightarrow> 'e + 'b option) \<Rightarrow> 'a list \<Rightarrow> 'e + 'b option" where
  "firstR f [] = Inr None"
| "firstR f (x # xs) =
     bindR (f x) (\<lambda>r. case r of None \<Rightarrow> firstR f xs | Some y \<Rightarrow> Inr (Some y))"

text \<open>A loop that threads an accumulator.\<close>

fun foldR :: "('a \<Rightarrow> 's \<Rightarrow> 'e + 's) \<Rightarrow> 'a list \<Rightarrow> 's \<Rightarrow> 'e + 's" where
  "foldR f [] s = Inr s"
| "foldR f (x # xs) s = bindR (f x s) (foldR f xs)"

text \<open>A loop that returns \<^verbatim>\<open>True\<close> at the first element that passes a test.\<close>

fun anyR :: "('a \<Rightarrow> 'e + bool) \<Rightarrow> 'a list \<Rightarrow> 'e + bool" where
  "anyR p [] = Inr False"
| "anyR p (x # xs) = bindR (p x) (\<lambda>b. if b then Inr True else anyR p xs)"

text \<open>A loop that appends the value built at each index that passes a test; building a value may
  read what was appended before.\<close>

definition build_loop :: "(nat \<Rightarrow> bool) \<Rightarrow> (nat \<Rightarrow> 'a list \<Rightarrow> 'e + 'a) \<Rightarrow> nat list \<Rightarrow> 'a list \<Rightarrow> 'e + 'a list" where
  "build_loop test build = foldR (\<lambda>i acc.
     if test i then bindR (build i acc) (\<lambda>x. Inr (acc @ [x])) else Inr acc)"

text \<open>\<^verbatim>\<open>extend\<close> with the results of several loops in turn, and a loop behind a setting.\<close>

definition concatR :: "('e + 'a list) list \<Rightarrow> 'e + 'a list" where
  "concatR rs = bindR (mapR (\<lambda>r. r) rs) (\<lambda>xss. Inr (concat xss))"

definition if_enabled :: "bool \<Rightarrow> ('e + 'a list) \<Rightarrow> 'e + 'a list" where
  "if_enabled enabled r = (if enabled then r else Inr [])"

lemma bindR_eq_Inr [simp]: "bindR m f = Inr y \<longleftrightarrow> (\<exists>x. m = Inr x \<and> f x = Inr y)"
  by (cases m) auto

lemma bindR_assoc: "bindR (bindR m f) g = bindR m (\<lambda>x. bindR (f x) g)"
  by (cases m) auto

lemma mapR_Inr:
  assumes "\<And>x. x \<in> set xs \<Longrightarrow> f x = Inr (g x)"
  shows "mapR f xs = Inr (map g xs)"
  using assms by (induction xs) auto

lemma mapR_total: "(\<exists>ys. mapR f xs = Inr ys) \<longleftrightarrow> (\<forall>x \<in> set xs. \<exists>y. f x = Inr y)"
  by (induction xs) auto

lemma mapR_set: "mapR f xs = Inr ys \<Longrightarrow> y \<in> set ys \<longleftrightarrow> (\<exists>x \<in> set xs. f x = Inr y)"
proof (induction xs arbitrary: ys)
  case (Cons x xs)
  then show ?case by (cases "f x") auto
qed simp

lemma collectR_Inr:
  assumes "\<And>x. x \<in> set xs \<Longrightarrow> f x = Inr (g x)"
  shows "collectR f xs = Inr (List.map_filter g xs)"
  using assms by (induction xs) (auto simp: List.map_filter_simps split: option.splits)

lemma set_map_filter [simp]: "y \<in> set (List.map_filter g xs) \<longleftrightarrow> (\<exists>x \<in> set xs. g x = Some y)"
  by (induction xs) (auto simp: List.map_filter_simps split: option.splits)

lemma collectR_set:
  "collectR f xs = Inr ys \<Longrightarrow> y \<in> set ys \<longleftrightarrow> (\<exists>x \<in> set xs. f x = Inr (Some y))"
  by (induction xs arbitrary: ys) (auto split: option.splits)

lemma collectR_raises:
  "(\<exists>ys. collectR f xs = Inr ys) \<longleftrightarrow> (\<forall>x \<in> set xs. \<exists>r. f x = Inr r)"
  by (induction xs) auto

lemma concatR_Cons: "concatR (r # rs) = Inr xs \<longleftrightarrow> (\<exists>ys zs. r = Inr ys \<and> concatR rs = Inr zs \<and> xs = ys @ zs)"
  by (auto simp: concatR_def)

lemma concatR_Nil: "concatR [] = Inr xs \<longleftrightarrow> xs = []"
  by (auto simp: concatR_def)

lemmas concatR_simps = concatR_Cons concatR_Nil

lemma concatR_total: "(\<exists>xs. concatR rs = Inr xs) \<longleftrightarrow> (\<forall>r \<in> set rs. \<exists>ys. r = Inr ys)"
  by (induction rs) (auto simp: concatR_simps)

lemma concatR_set: "concatR rs = Inr xs \<Longrightarrow> x \<in> set xs \<longleftrightarrow> (\<exists>r \<in> set rs. \<exists>ys. r = Inr ys \<and> x \<in> set ys)"
  by (induction rs arbitrary: xs) (auto simp: concatR_simps)

text \<open>A collecting loop whose body is described by \<open>P\<close> reports exactly what \<open>P\<close> describes.\<close>

lemma collectR_reports:
  assumes "\<And>x. x \<in> set xs \<Longrightarrow> \<exists>r. f x = Inr r \<and> (\<forall>e. r = Some e \<longleftrightarrow> P x e)"
  shows "\<exists>ys. collectR f xs = Inr ys \<and> (\<forall>e. e \<in> set ys \<longleftrightarrow> (\<exists>x \<in> set xs. P x e))"
proof -
  have "\<exists>r. f x = Inr r" if "x \<in> set xs" for x using assms [OF that] by auto
  then have "\<exists>ys. collectR f xs = Inr ys" unfolding collectR_raises by simp
  then obtain ys where ys: "collectR f xs = Inr ys" ..
  have "f x = Inr (Some e) \<longleftrightarrow> P x e" if h: "x \<in> set xs" for x e
  proof -
    obtain r where "f x = Inr r" "\<forall>e. r = Some e \<longleftrightarrow> P x e" using assms [OF h] by blast
    then show ?thesis by simp
  qed
  then have "e \<in> set ys \<longleftrightarrow> (\<exists>x \<in> set xs. P x e)" for e
    unfolding collectR_set [OF ys] by (intro bex_cong refl)
  with ys show ?thesis by simp
qed

lemma firstR_Inr:
  assumes "\<And>x. x \<in> set xs \<Longrightarrow> f x = Inr (g x)"
  shows "firstR f xs = Inr (case filter (\<lambda>x. g x \<noteq> None) xs of [] \<Rightarrow> None | x # _ \<Rightarrow> g x)"
  using assms by (induction xs) (auto split: option.splits)

lemma firstR_Some:
  "firstR f xs = Inr (Some y) \<Longrightarrow> \<exists>x \<in> set xs. f x = Inr (Some y)"
  by (induction xs) (auto split: option.splits)

lemma firstR_find:
  assumes "\<And>x. x \<in> set xs \<Longrightarrow> f x = Inr (if q x then Some (g x) else None)"
  shows "firstR f xs = Inr (map_option g (find q xs))"
  using assms by (induction xs) auto

lemma foldR_append: "foldR f (xs @ ys) s = bindR (foldR f xs s) (foldR f ys)"
proof (induction xs arbitrary: s)
  case (Cons x xs)
  then show ?case by (cases "f x s") simp_all
qed simp

lemma foldR_skip: "(\<And>x. x \<in> set xs \<Longrightarrow> f x s = Inr s) \<Longrightarrow> foldR f xs s = Inr s"
  by (induction xs) simp_all

lemma foldR_cong: "(\<And>x s. x \<in> set xs \<Longrightarrow> f x s = g x s) \<Longrightarrow> foldR f xs s = foldR g xs s"
proof (induction xs arbitrary: s)
  case (Cons x xs)
  then have "foldR f xs = foldR g xs" by auto
  then show ?case using Cons.prems by simp
qed simp

lemma foldR_invariant:
  assumes "foldR f xs s = Inr t" and "I s"
    and "\<And>x u v. x \<in> set xs \<Longrightarrow> I u \<Longrightarrow> f x u = Inr v \<Longrightarrow> I v"
  shows "I t"
  using assms by (induction xs arbitrary: s) auto

lemma foldR_Inr:
  assumes "\<And>x u. x \<in> set xs \<Longrightarrow> I u \<Longrightarrow> \<exists>v. f x u = Inr v \<and> I v" and "I s"
  shows "\<exists>t. foldR f xs s = Inr t \<and> I t"
  using assms
proof (induction xs arbitrary: s)
  case (Cons x xs)
  then obtain v where "f x s = Inr v" "I v" by (metis list.set_intros(1))
  with Cons show ?case by auto
qed simp

lemma foldR_upt:
  assumes "\<And>i u. a \<le> i \<Longrightarrow> i < b \<Longrightarrow> I i u \<Longrightarrow> \<exists>v. f i u = Inr v \<and> I (Suc i) v" and "a \<le> b" and "I a s"
  shows "\<exists>t. foldR f [a..<b] s = Inr t \<and> I b t"
  using assms
proof (induction "b - a" arbitrary: a s)
  case (Suc n)
  then have ab: "a < b" by simp
  obtain v where v: "f a s = Inr v" "I (Suc a) v" using Suc.prems ab by blast
  have "\<exists>t. foldR f [Suc a..<b] v = Inr t \<and> I b t"
    using Suc.hyps(2) Suc.prems(1) ab v(2) by (intro Suc.hyps(1)) auto
  then show ?case using v(1) ab by (simp add: upt_conv_Cons)
qed simp

lemma anyR_Inr:
  assumes "\<And>x. x \<in> set xs \<Longrightarrow> p x = Inr (q x)"
  shows "anyR p xs = Inr (\<exists>x \<in> set xs. q x)"
  using assms by (induction xs) auto

lemma build_loop_ok:
  assumes "\<And>i acc. i \<in> set is \<Longrightarrow> test i \<Longrightarrow> \<forall>x \<in> set acc. good x \<Longrightarrow>
      \<exists>x. build i acc = Inr x \<and> idx x = i \<and> good x"
    and "\<forall>x \<in> set acc. good x"
  shows "\<exists>xs. build_loop test build is acc = Inr (acc @ xs) \<and> map idx xs = filter test is \<and>
      (\<forall>x \<in> set xs. good x)"
  using assms
proof (induction "is" arbitrary: acc)
  case Nil
  then show ?case by (simp add: build_loop_def)
next
  case (Cons i "is")
  show ?case
  proof (cases "test i")
    case True
    obtain x where x: "build i acc = Inr x" "idx x = i" "good x"
      using Cons.prems True by (metis list.set_intros(1))
    have "\<exists>xs. build_loop test build is (acc @ [x]) = Inr ((acc @ [x]) @ xs) \<and>
        map idx xs = filter test is \<and> (\<forall>x \<in> set xs. good x)"
      using Cons.prems x(3) by (intro Cons.IH) auto
    then obtain xs where xs: "build_loop test build is (acc @ [x]) = Inr ((acc @ [x]) @ xs)"
        "map idx xs = filter test is" "\<forall>x \<in> set xs. good x" by blast
    then have "build_loop test build (i # is) acc = Inr (acc @ (x # xs))"
      using True x(1) by (simp add: build_loop_def)
    with xs x True show ?thesis by (intro exI [of _ "x # xs"]) simp
  next
    case False
    have "\<exists>xs. build_loop test build is acc = Inr (acc @ xs) \<and>
        map idx xs = filter test is \<and> (\<forall>x \<in> set xs. good x)"
      using Cons.prems by (intro Cons.IH) auto
    with False show ?thesis by (simp add: build_loop_def)
  qed
qed

section \<open>Scanning a list by index\<close>

text \<open>The first index \<open>j \<ge> i\<close> with \<open>p (xs ! j)\<close>: \<^verbatim>\<open>for j in range(i, len(xs))\<close>
  with a \<^verbatim>\<open>break\<close>.\<close>

definition find_from :: "('a \<Rightarrow> bool) \<Rightarrow> nat \<Rightarrow> 'a list \<Rightarrow> nat option" where
  "find_from p i xs = find (\<lambda>j. p (xs ! j)) [i..<length xs]"

lemma find_upt_Some:
  "find q [i..<n] = Some j \<longleftrightarrow> i \<le> j \<and> j < n \<and> q j \<and> (\<forall>k. i \<le> k \<and> k < j \<longrightarrow> \<not> q k)"
proof (induction "n - i" arbitrary: i)
  case 0
  then show ?case by auto
next
  case (Suc m)
  then have i: "i < n" by simp
  then have *: "[i..<n] = i # [Suc i..<n]" by (rule upt_conv_Cons)
  from Suc have "m = n - Suc i" by simp
  then have IH: "find q [Suc i..<n] = Some j \<longleftrightarrow>
      Suc i \<le> j \<and> j < n \<and> q j \<and> (\<forall>k. Suc i \<le> k \<and> k < j \<longrightarrow> \<not> q k)"
    using Suc.hyps(1) by blast
  show ?case
  proof (cases "q i")
    case True
    then show ?thesis using i by (auto simp: * le_eq_less_or_eq)
  next
    case False
    have "(Suc i \<le> j \<and> j < n \<and> q j \<and> (\<forall>k. Suc i \<le> k \<and> k < j \<longrightarrow> \<not> q k)) \<longleftrightarrow>
        (i \<le> j \<and> j < n \<and> q j \<and> (\<forall>k. i \<le> k \<and> k < j \<longrightarrow> \<not> q k))"
      using False by (metis Suc_leD Suc_leI le_neq_implies_less)
    then show ?thesis using False IH by (simp add: *)
  qed
qed

lemma find_from_Some:
  "find_from p i xs = Some j \<longleftrightarrow>
     i \<le> j \<and> j < length xs \<and> p (xs ! j) \<and> (\<forall>k. i \<le> k \<and> k < j \<longrightarrow> \<not> p (xs ! k))"
  by (simp add: find_from_def find_upt_Some)

lemma find_from_None:
  "find_from p i xs = None \<longleftrightarrow> (\<forall>k. i \<le> k \<and> k < length xs \<longrightarrow> \<not> p (xs ! k))"
  by (auto simp: find_from_def find_None_iff)

text \<open>The confirmation loop of the structure detectors: count consecutive elements with
  \<open>p\<close>, stop at the first one without it or when \<open>req\<close> have been seen.\<close>

fun count_streak :: "('a \<Rightarrow> bool) \<Rightarrow> nat \<Rightarrow> nat \<Rightarrow> 'a list \<Rightarrow> nat" where
  "count_streak p req c [] = c"
| "count_streak p req c (x # xs) =
     (if p x then if req \<le> Suc c then Suc c else count_streak p req (Suc c) xs else c)"

lemma count_streak_reached:
  assumes "c < req"
  shows "req \<le> count_streak p req c xs \<longleftrightarrow>
     req - c \<le> length xs \<and> (\<forall>x \<in> set (take (req - c) xs). p x)"
  using assms
proof (induction xs arbitrary: c)
  case Nil
  then show ?case by simp
next
  case (Cons x xs)
  obtain d where d: "req - c = Suc d" using Cons.prems by (metis Suc_diff_Suc)
  show ?case
  proof (cases "req \<le> Suc c")
    case True
    then have "req - c = 1" using Cons.prems by simp
    then show ?thesis using True Cons.prems by auto
  next
    case False
    then have IH: "req \<le> count_streak p req (Suc c) xs \<longleftrightarrow>
        req - Suc c \<le> length xs \<and> (\<forall>x \<in> set (take (req - Suc c) xs). p x)"
      by (intro Cons.IH) simp
    have "req - Suc c = d" using d by simp
    then show ?thesis using False IH d Cons.prems by auto
  qed
qed

lemma count_streak_full:
  assumes "0 < req"
  shows "req \<le> count_streak p req 0 (drop i xs) \<longleftrightarrow>
     i + req \<le> length xs \<and> (\<forall>k. i \<le> k \<and> k < i + req \<longrightarrow> p (xs ! k))"
    (is "_ \<longleftrightarrow> ?R")
proof -
  have "req \<le> count_streak p req 0 (drop i xs) \<longleftrightarrow>
      req \<le> length xs - i \<and> (\<forall>x \<in> set (take req (drop i xs)). p x)"
    using count_streak_reached [OF assms, of p "drop i xs"] by simp
  also have "\<dots> \<longleftrightarrow> ?R"
  proof (cases "req \<le> length xs - i")
    case True
    then have n: "i + req \<le> length xs" using assms by simp
    have "(\<forall>x \<in> set (take req (drop i xs)). p x) \<longleftrightarrow> (\<forall>m < req. p (xs ! (i + m)))"
      using n by (auto simp: all_set_conv_all_nth)
    also have "\<dots> \<longleftrightarrow> (\<forall>k. i \<le> k \<and> k < i + req \<longrightarrow> p (xs ! k))"
      by (metis add_less_cancel_left le_add1 le_add_diff_inverse)
    finally show ?thesis using n True by simp
  next
    case False
    then show ?thesis using assms by auto
  qed
  finally show ?thesis .
qed

section \<open>Python's \<^verbatim>\<open>max\<close> and \<^verbatim>\<open>min\<close> with a key\<close>

text \<open>\<^verbatim>\<open>max(xs, key=f)\<close> returns the first of the maximal elements; the callers test
  for an empty list first and return \<^verbatim>\<open>None\<close>.\<close>

fun max_key :: "('a \<Rightarrow> 'k::linorder) \<Rightarrow> 'a list \<Rightarrow> 'a option" where
  "max_key f [] = None"
| "max_key f (x # xs) = Some (foldl (\<lambda>b y. if f b < f y then y else b) x xs)"

fun min_key :: "('a \<Rightarrow> 'k::linorder) \<Rightarrow> 'a list \<Rightarrow> 'a option" where
  "min_key f [] = None"
| "min_key f (x # xs) = Some (foldl (\<lambda>b y. if f y < f b then y else b) x xs)"

lemma foldl_max:
  fixes f :: "'a \<Rightarrow> 'k::linorder"
  shows "(let m = foldl (\<lambda>b y. if f b < f y then y else b) x xs in
     m \<in> insert x (set xs) \<and> (\<forall>y \<in> insert x (set xs). f y \<le> f m))"
proof (induction xs arbitrary: x)
  case (Cons a xs)
  show ?case using Cons [of "if f x < f a then a else x"]
    by (auto simp: Let_def split: if_splits intro: order_trans less_imp_le)
qed simp

lemma foldl_min:
  fixes f :: "'a \<Rightarrow> 'k::linorder"
  shows "(let m = foldl (\<lambda>b y. if f y < f b then y else b) x xs in
     m \<in> insert x (set xs) \<and> (\<forall>y \<in> insert x (set xs). f m \<le> f y))"
proof (induction xs arbitrary: x)
  case (Cons a xs)
  show ?case using Cons [of "if f a < f x then a else x"]
    by (auto simp: Let_def split: if_splits intro: order_trans less_imp_le)
qed simp

lemma max_key_Some:
  "max_key f xs = Some m \<Longrightarrow> m \<in> set xs \<and> (\<forall>y \<in> set xs. f y \<le> f m)"
  using foldl_max [of f] by (cases xs) (force simp: Let_def)+

lemma min_key_Some:
  "min_key f xs = Some m \<Longrightarrow> m \<in> set xs \<and> (\<forall>y \<in> set xs. f m \<le> f y)"
  using foldl_min [of f] by (cases xs) (force simp: Let_def)+

lemma max_key_None [simp]: "max_key f xs = None \<longleftrightarrow> xs = []"
  by (cases xs) auto

lemma min_key_None [simp]: "min_key f xs = None \<longleftrightarrow> xs = []"
  by (cases xs) auto

section \<open>Python string operations (ASCII)\<close>

definition startswith :: "string \<Rightarrow> string \<Rightarrow> bool" where
  "startswith s p \<longleftrightarrow> take (length p) s = p"

definition endswith :: "string \<Rightarrow> string \<Rightarrow> bool" where
  "endswith s p \<longleftrightarrow> length p \<le> length s \<and> drop (length s - length p) s = p"

text \<open>\<^verbatim>\<open>sub in s\<close> for strings.\<close>

fun str_in :: "string \<Rightarrow> string \<Rightarrow> bool" where
  "str_in sub [] \<longleftrightarrow> sub = []"
| "str_in sub (c # cs) \<longleftrightarrow> startswith (c # cs) sub \<or> str_in sub cs"

text \<open>\<^verbatim>\<open>s.replace(c, "")\<close> for a one-character \<open>c\<close>.\<close>

definition remove_char :: "char \<Rightarrow> string \<Rightarrow> string" where
  "remove_char c s = filter (\<lambda>d. d \<noteq> c) s"

text \<open>The normalisation every model applies to its symbol:
  \<^verbatim>\<open>v.replace("/", "").replace("_", "")\<close>.\<close>

definition norm_symbol :: "string \<Rightarrow> string" where
  "norm_symbol v = remove_char (CHR ''_'') (remove_char (CHR ''/'') v)"

definition lower_char :: "char \<Rightarrow> char" where
  "lower_char c = (let n = of_char c :: nat in if 65 \<le> n \<and> n \<le> 90 then char_of (n + 32) else c)"

definition upper_char :: "char \<Rightarrow> char" where
  "upper_char c = (let n = of_char c :: nat in if 97 \<le> n \<and> n \<le> 122 then char_of (n - 32) else c)"

definition str_lower :: "string \<Rightarrow> string" where
  "str_lower s = map lower_char s"

definition str_upper :: "string \<Rightarrow> string" where
  "str_upper s = map upper_char s"

definition is_space :: "char \<Rightarrow> bool" where
  "is_space c \<longleftrightarrow> (let n = of_char c :: nat in n = 32 \<or> (9 \<le> n \<and> n \<le> 13) \<or> (28 \<le> n \<and> n \<le> 31))"

definition str_strip :: "string \<Rightarrow> string" where
  "str_strip s = rev (dropWhile is_space (rev (dropWhile is_space s)))"

lemma startswith_append [simp]: "startswith (p @ s) p"
  by (simp add: startswith_def)

lemma startswith_iff: "startswith s p \<longleftrightarrow> (\<exists>t. s = p @ t)"
  by (metis append_eq_conv_conj append_take_drop_id startswith_def)

lemma str_in_iff: "str_in sub s \<longleftrightarrow> (\<exists>a b. s = a @ sub @ b)"
proof (induction s)
  case Nil
  then show ?case by auto
next
  case (Cons c cs)
  have "(\<exists>a b. c # cs = a @ sub @ b) \<longleftrightarrow>
      (\<exists>b. c # cs = sub @ b) \<or> (\<exists>a b. cs = a @ sub @ b)"
    by (metis append_Cons append_Nil list.exhaust list.inject)
  then show ?case using Cons by (auto simp: startswith_iff)
qed

lemma norm_symbol_idem [simp]: "norm_symbol (norm_symbol s) = norm_symbol s"
  by (auto simp: norm_symbol_def remove_char_def intro!: filter_cong)

lemma length_norm_symbol: "length (norm_symbol s) \<le> length s"
  unfolding norm_symbol_def remove_char_def
  using length_filter_le order_trans by blast

text \<open>How pydantic treats the symbol field of a model of this code base: the
  \<^verbatim>\<open>FrozenModel\<close> configuration strips white space, the field's length bounds are checked
  on the stripped text, then the model's validator removes the separators.\<close>

definition symbol_field :: "nat \<Rightarrow> nat \<Rightarrow> string \<Rightarrow> string option" where
  "symbol_field min_length max_length v =
     (let s = str_strip v in
      if min_length \<le> length s \<and> length s \<le> max_length then Some (norm_symbol s) else None)"

abbreviation symbol_ok :: "string \<Rightarrow> bool" where
  "symbol_ok v \<equiv> 3 \<le> length (str_strip v) \<and> length (str_strip v) \<le> 30"

lemma symbol_field_ok [simp]: "symbol_ok v \<Longrightarrow> symbol_field 3 30 v = Some (norm_symbol (str_strip v))"
  by (simp add: symbol_field_def)

lemma symbol_field_Some:
  "symbol_field lo hi v = Some s \<longleftrightarrow>
     lo \<le> length (str_strip v) \<and> length (str_strip v) \<le> hi \<and> s = norm_symbol (str_strip v)"
  by (auto simp: symbol_field_def Let_def split: if_splits)

text \<open>The field validation of a model whose first field is such a symbol: \<open>ok\<close> says that the
  other fields meet their constraints.\<close>

definition mk_model :: "string \<Rightarrow> string \<Rightarrow> bool \<Rightarrow> (string \<Rightarrow> 'a) \<Rightarrow> 'a result" where
  "mk_model name symbol ok build =
     (case symbol_field 3 30 symbol of
        None \<Rightarrow> Inl (ValidationError name)
      | Some s \<Rightarrow> if ok then Inr (build s) else Inl (ValidationError name))"

lemma mk_model_Inr:
  "mk_model name symbol ok build = Inr x \<longleftrightarrow>
     symbol_ok symbol \<and> ok \<and> x = build (norm_symbol (str_strip symbol))"
  by (auto simp: mk_model_def symbol_field_Some split: option.splits)

lemma mk_model_ok [no_raise]:
  "symbol_ok symbol \<Longrightarrow> ok \<Longrightarrow> mk_model name symbol ok build = Inr (build (norm_symbol (str_strip symbol)))"
  by (simp add: mk_model_def)

text \<open>A symbol that is already normalised.\<close>

definition clean_symbol :: "string \<Rightarrow> bool" where
  "clean_symbol s \<longleftrightarrow> symbol_ok s \<and> str_strip s = s \<and> norm_symbol s = s"

lemma clean_symbol_ok: "clean_symbol s \<Longrightarrow> symbol_ok s"
  unfolding clean_symbol_def by blast

lemma mk_model_clean [no_raise]:
  "clean_symbol s \<Longrightarrow> ok \<Longrightarrow> mk_model name s ok build = Inr (build s)"
  using mk_model_ok [of s ok name build] by (auto simp: clean_symbol_def)

lemma bindR_cong [fundef_cong]:
  "m = m' \<Longrightarrow> (\<And>x. m' = Inr x \<Longrightarrow> f x = g x) \<Longrightarrow> bindR m f = bindR m' g"
  by (cases m') auto

section \<open>Python's \<^verbatim>\<open>max\<close> and \<^verbatim>\<open>min\<close> of a sequence\<close>

definition py_max :: "'a::linorder list \<Rightarrow> 'a result" where
  "py_max xs = (case xs of [] \<Rightarrow> Inl (ValueError ''max() arg is an empty sequence'')
     | y # ys \<Rightarrow> Inr (foldl max y ys))"

definition py_min :: "'a::linorder list \<Rightarrow> 'a result" where
  "py_min xs = (case xs of [] \<Rightarrow> Inl (ValueError ''min() arg is an empty sequence'')
     | y # ys \<Rightarrow> Inr (foldl min y ys))"

lemma foldl_max_Max: "foldl max y ys = Max (insert y (set ys))"
  for y :: "'a::linorder"
proof (induction ys arbitrary: y)
  case (Cons z zs)
  then have "foldl max y (z # zs) = Max (insert (max y z) (set zs))" by simp
  also have "\<dots> = Max (insert y (insert z (set zs)))"
    by (cases "zs = []") (simp_all add: max.assoc)
  finally show ?case by simp
qed simp

lemma foldl_min_Min: "foldl min y ys = Min (insert y (set ys))"
  for y :: "'a::linorder"
proof (induction ys arbitrary: y)
  case (Cons z zs)
  then have "foldl min y (z # zs) = Min (insert (min y z) (set zs))" by simp
  also have "\<dots> = Min (insert y (insert z (set zs)))"
    by (cases "zs = []") (simp_all add: min.assoc)
  finally show ?case by simp
qed simp

lemma py_max_Inr [no_raise]: "xs \<noteq> [] \<Longrightarrow> py_max xs = Inr (Max (set xs))"
  by (cases xs) (simp_all add: py_max_def foldl_max_Max)

lemma py_min_Inr [no_raise]: "xs \<noteq> [] \<Longrightarrow> py_min xs = Inr (Min (set xs))"
  by (cases xs) (simp_all add: py_min_def foldl_min_Min)

section \<open>Averages\<close>

lemma average_near:
  fixes a :: rat
  assumes "xs \<noteq> []" and "\<forall>x \<in> set xs. \<bar>x - a\<bar> \<le> d"
  shows "\<bar>sum_list xs / of_nat (length xs) - a\<bar> \<le> d"
proof -
  have "of_nat (length xs) * (a - d) \<le> sum_list xs \<and> sum_list xs \<le> of_nat (length xs) * (a + d)"
    using assms(2)
  proof (induction xs)
    case (Cons x xs)
    then have "a - d \<le> x" "x \<le> a + d" by (auto simp: abs_le_iff)
    with Cons show ?case by (simp add: distrib_right)
  qed simp
  moreover have "(0::rat) < of_nat (length xs)" using assms(1) by simp
  ultimately have "a - d \<le> sum_list xs / of_nat (length xs)" "sum_list xs / of_nat (length xs) \<le> a + d"
    by (simp_all add: pos_le_divide_eq pos_divide_le_eq mult.commute)
  then show ?thesis by (simp add: abs_le_iff)
qed

section \<open>Indexing\<close>

text \<open>\<^verbatim>\<open>xs[i]\<close> for an index that is not negative.\<close>

definition py_nth :: "'a list \<Rightarrow> nat \<Rightarrow> 'a result" where
  "py_nth xs i = (if i < length xs then Inr (xs ! i) else Inl IndexError)"

lemma py_nth_Inr [no_raise]: "i < length xs \<Longrightarrow> py_nth xs i = Inr (xs ! i)"
  by (simp add: py_nth_def)

text \<open>\<^verbatim>\<open>for i in range(n - 1, -1, -1)\<close> with a \<^verbatim>\<open>return\<close>: the last index that passes.\<close>

lemma firstR_down:
  assumes "\<And>i. i < n \<Longrightarrow> f i = Inr (if q i then Some (g i) else None)"
  shows "firstR f (rev [0..<n]) = Inr (if \<exists>i<n. q i then Some (g (GREATEST i. i < n \<and> q i)) else None)"
  using assms
proof (induction n)
  case (Suc n)
  have step: "firstR f (rev [0..<Suc n]) =
      (if q n then Inr (Some (g n)) else firstR f (rev [0..<n]))"
    using Suc.prems [of n] by simp
  show ?case
  proof (cases "q n")
    case True
    then have "(GREATEST i. i < Suc n \<and> q i) = n" by (intro Greatest_equality) auto
    then show ?thesis using True step by auto
  next
    case False
    then have "(\<lambda>i. i < Suc n \<and> q i) = (\<lambda>i. i < n \<and> q i)" by (auto simp: less_Suc_eq)
    then show ?thesis using False step Suc by (auto simp: less_Suc_eq)
  qed
qed simp

lemma last_index:
  fixes q :: "nat \<Rightarrow> bool"
  assumes "\<exists>i<n. q i"
  shows "(GREATEST i. i < n \<and> q i) < n" "q (GREATEST i. i < n \<and> q i)"
    and "k < n \<Longrightarrow> q k \<Longrightarrow> k \<le> (GREATEST i. i < n \<and> q i)"
proof -
  obtain i where "i < n \<and> q i" using assms by blast
  then have "(GREATEST i. i < n \<and> q i) < n \<and> q (GREATEST i. i < n \<and> q i)"
    by (rule GreatestI_nat [where b = n]) simp
  then show "(GREATEST i. i < n \<and> q i) < n" "q (GREATEST i. i < n \<and> q i)" by simp_all
  show "k < n \<Longrightarrow> q k \<Longrightarrow> k \<le> (GREATEST i. i < n \<and> q i)"
    by (rule Greatest_le_nat [where b = n]) simp_all
qed

section \<open>Dictionaries written as literals\<close>

text \<open>\<^verbatim>\<open>table.get(k, d)\<close> for a module-level table.\<close>

definition dict_get :: "('k \<times> 'v) list \<Rightarrow> 'k \<Rightarrow> 'v \<Rightarrow> 'v" where
  "dict_get t k d = (case map_of t k of None \<Rightarrow> d | Some v \<Rightarrow> v)"

section \<open>JSON values\<close>

text \<open>What a JSON decoder returns; an object lists its keys in order, without duplicates.\<close>

datatype json = JNull | JBool bool | JNum rat | JStr string | JList "json list" | JObj "(string \<times> json) list"

end
