(* ===== verification/Constants.thy ===== *)
theory Constants
  imports Prelude
begin

text \<open>
  The enumerations and tables of \<^verbatim>\<open>engine/ta/constants.py\<close> and the timeframe
  hierarchy of \<^verbatim>\<open>engine/ta/common/timeframe/manager.py\<close>. A
  \<^verbatim>\<open>StrEnum\<close> is a datatype with the source's members; a dictionary literal is an
  association list read by \<^const>\<open>map_of\<close> or \<^const>\<open>dict_get\<close>.
\<close>

section \<open>Enumerations\<close>

datatype Timeframe = M1 | M5 | M15 | M30 | H1 | H3 | H4 | H6 | H8 | H12 | D1 | W1 | MN1

definition TIMEFRAME_MINUTES :: "(Timeframe \<times> int) list" where
  "TIMEFRAME_MINUTES =
    [(M1, 1), (M5, 5), (M15, 15), (M30, 30), (H1, 60), (H3, 180), (H4, 240), (H6, 360),
     (H8, 480), (H12, 720), (D1, 1440), (W1, 10080), (MN1, 43200)]"

datatype TimeframeRelation = PARENT | CHILD | SAME | UNRELATED

datatype Session = ASIA | LONDON | NEW_YORK | OVERLAP_LONDON_NY

definition SESSION_UTC_RANGES :: "(Session \<times> int \<times> int) list" where
  "SESSION_UTC_RANGES =
    [(ASIA, 0, 9), (LONDON, 7, 16), (NEW_YORK, 12, 21), (OVERLAP_LONDON_NY, 12, 16)]"

datatype Direction = BULLISH | BEARISH | NEUTRAL

datatype StructureType = BOS | CHOCH | BMS | SMS | SR_FLIP | RS_FLIP

datatype LiquidityType =
  BSL | SSL | EQUAL_HIGHS | EQUAL_LOWS | INDUCEMENT | COMPRESSION | PDH_SWEEP | PDL_SWEEP

datatype ZoneType =
  ORDER_BLOCK | FVG | BREAKER | MITIGATION | SUPPLY | DEMAND | QML | QMH | MPL

datatype CandleType =
    MARUBOZU_BULLISH | MARUBOZU_BEARISH | DOJI | HAMMER | SHOOTING_STAR
  | ENGULFING_BULLISH | ENGULFING_BEARISH | STANDARD_CANDLE

datatype FibonacciLevel =
    LEVEL_0 | LEVEL_236 | LEVEL_382 | LEVEL_50 | LEVEL_618 | LEVEL_705 | LEVEL_786
  | LEVEL_79 | LEVEL_100

definition FIBONACCI_VALUES :: "(FibonacciLevel \<times> rat) list" where
  "FIBONACCI_VALUES =
    [(LEVEL_0, 0), (LEVEL_236, 236 / 1000), (LEVEL_382, 382 / 1000), (LEVEL_50, 5 / 10),
     (LEVEL_618, 618 / 1000), (LEVEL_705, 705 / 1000), (LEVEL_786, 786 / 1000),
     (LEVEL_79, 79 / 100), (LEVEL_100, 1)]"

definition OTE_LEVELS :: "FibonacciLevel list" where
  "OTE_LEVELS = [LEVEL_618, LEVEL_705, LEVEL_786]"

text \<open>The value of a level, which is also \<^verbatim>\<open>str\<close> of its number.\<close>

definition fib_value_str :: "FibonacciLevel \<Rightarrow> string" where
  "fib_value_str level = (case level of LEVEL_0 \<Rightarrow> ''0.0'' | LEVEL_236 \<Rightarrow> ''0.236''
     | LEVEL_382 \<Rightarrow> ''0.382'' | LEVEL_50 \<Rightarrow> ''0.5'' | LEVEL_618 \<Rightarrow> ''0.618'' | LEVEL_705 \<Rightarrow> ''0.705''
     | LEVEL_786 \<Rightarrow> ''0.786'' | LEVEL_79 \<Rightarrow> ''0.79'' | LEVEL_100 \<Rightarrow> ''1.0'')"

datatype PriceZone = PREMIUM | EQUILIBRIUM | DISCOUNT

section \<open>The timeframe hierarchy\<close>

definition HIERARCHY :: "Timeframe list" where
  "HIERARCHY = [M1, M5, M15, M30, H1, H3, H4, H6, H8, H12, D1, W1, MN1]"

text \<open>\<^verbatim>\<open>self._hierarchy_index\<close>, built by \<^verbatim>\<open>__init__\<close> from
  \<^verbatim>\<open>enumerate(self._HIERARCHY)\<close>.\<close>

definition hierarchy_index :: "Timeframe \<Rightarrow> nat option" where
  "hierarchy_index = map_of (zip HIERARCHY [0..<length HIERARCHY])"

definition get_relation :: "Timeframe \<Rightarrow> Timeframe \<Rightarrow> TimeframeRelation" where
  "get_relation tf1 tf2 =
     (case (hierarchy_index tf1, hierarchy_index tf2) of
        (Some idx1, Some idx2) \<Rightarrow>
          if idx1 = idx2 then SAME else if idx2 < idx1 then PARENT else CHILD
      | _ \<Rightarrow> UNRELATED)"

definition get_parent :: "Timeframe \<Rightarrow> int \<Rightarrow> Timeframe option result" where
  "get_parent timeframe steps =
     (if steps < 1 then Inl (ConfigurationError ''Steps must be at least 1'')
      else case hierarchy_index timeframe of
        None \<Rightarrow> Inr None
      | Some idx \<Rightarrow>
          let parent_idx = int idx + steps in
          if int (length HIERARCHY) \<le> parent_idx then Inr None
          else Inr (Some (HIERARCHY ! nat parent_idx)))"

definition get_child :: "Timeframe \<Rightarrow> int \<Rightarrow> Timeframe option result" where
  "get_child timeframe steps =
     (if steps < 1 then Inl (ConfigurationError ''Steps must be at least 1'')
      else case hierarchy_index timeframe of
        None \<Rightarrow> Inr None
      | Some idx \<Rightarrow>
          let child_idx = int idx - steps in
          if child_idx < 0 then Inr None else Inr (Some (HIERARCHY ! nat child_idx)))"

definition is_htf_of :: "Timeframe \<Rightarrow> Timeframe \<Rightarrow> bool" where
  "is_htf_of potential_htf reference \<longleftrightarrow> get_relation potential_htf reference = PARENT"

definition is_ltf_of :: "Timeframe \<Rightarrow> Timeframe \<Rightarrow> bool" where
  "is_ltf_of potential_ltf reference \<longleftrightarrow> get_relation potential_ltf reference = CHILD"

definition get_minutes :: "Timeframe \<Rightarrow> int result" where
  "get_minutes timeframe =
     (case map_of TIMEFRAME_MINUTES timeframe of
        None \<Rightarrow> Inl (ConfigurationError ''Unknown timeframe'')
      | Some minutes \<Rightarrow> Inr minutes)"

definition calculate_candle_count :: "Timeframe \<Rightarrow> Timeframe \<Rightarrow> int result" where
  "calculate_candle_count source_tf target_tf =
     bindR (get_minutes source_tf) (\<lambda>source_minutes.
     bindR (get_minutes target_tf) (\<lambda>target_minutes.
       if target_minutes < source_minutes
       then Inl (ConfigurationError ''Target timeframe must be >= source timeframe'')
       else if target_minutes mod source_minutes \<noteq> 0
       then Inl (ConfigurationError ''Target timeframe must be a multiple of source timeframe'')
       else Inr (target_minutes div source_minutes)))"

section \<open>Timeframes as a linear order\<close>

text \<open>The rank of a timeframe in the hierarchy orders the type, so that the library's order
  lemmas apply to it.\<close>

definition tf_rank :: "Timeframe \<Rightarrow> nat" where
  "tf_rank tf = (case hierarchy_index tf of None \<Rightarrow> 0 | Some i \<Rightarrow> i)"

lemma hierarchy_index_simps [simp]:
  "hierarchy_index M1 = Some 0" "hierarchy_index M5 = Some 1" "hierarchy_index M15 = Some 2"
  "hierarchy_index M30 = Some 3" "hierarchy_index H1 = Some 4" "hierarchy_index H3 = Some 5"
  "hierarchy_index H4 = Some 6" "hierarchy_index H6 = Some 7" "hierarchy_index H8 = Some 8"
  "hierarchy_index H12 = Some 9" "hierarchy_index D1 = Some 10" "hierarchy_index W1 = Some 11"
  "hierarchy_index MN1 = Some 12"
  by (simp_all add: hierarchy_index_def HIERARCHY_def upt_rec)

lemma hierarchy_index_rank: "hierarchy_index tf = Some (tf_rank tf)"
  by (cases tf) (simp_all add: tf_rank_def)

lemma tf_rank_less: "tf_rank tf < length HIERARCHY"
  by (cases tf) (simp_all add: tf_rank_def HIERARCHY_def)

lemma HIERARCHY_rank [simp]: "HIERARCHY ! tf_rank tf = tf"
  by (cases tf) (simp_all add: tf_rank_def HIERARCHY_def)

lemma rank_HIERARCHY: "i < length HIERARCHY \<Longrightarrow> tf_rank (HIERARCHY ! i) = i"
  by (auto simp: HIERARCHY_def tf_rank_def less_Suc_eq numeral_eq_Suc)

lemma tf_rank_inject [simp]: "tf_rank a = tf_rank b \<longleftrightarrow> a = b"
  by (metis HIERARCHY_rank)

instantiation Timeframe :: linorder
begin

definition less_eq_Timeframe :: "Timeframe \<Rightarrow> Timeframe \<Rightarrow> bool" where
  "less_eq_Timeframe a b \<longleftrightarrow> tf_rank a \<le> tf_rank b"

definition less_Timeframe :: "Timeframe \<Rightarrow> Timeframe \<Rightarrow> bool" where
  "less_Timeframe a b \<longleftrightarrow> tf_rank a < tf_rank b"

instance
  by intro_classes (auto simp: less_eq_Timeframe_def less_Timeframe_def)

end

lemma get_relation_order:
  "get_relation tf1 tf2 = (if tf1 = tf2 then SAME else if tf2 < tf1 then PARENT else CHILD)"
  by (simp add: get_relation_def hierarchy_index_rank less_Timeframe_def)

text \<open>The minutes of a timeframe grow strictly with its rank.\<close>

definition tf_minutes :: "Timeframe \<Rightarrow> int" where
  "tf_minutes tf = dict_get TIMEFRAME_MINUTES tf 0"

lemma get_minutes_total [no_raise]: "get_minutes tf = Inr (tf_minutes tf)"
  by (cases tf) (simp_all add: get_minutes_def tf_minutes_def dict_get_def TIMEFRAME_MINUTES_def)

lemma tf_minutes_pos: "0 < tf_minutes tf"
  by (cases tf) (simp_all add: tf_minutes_def dict_get_def TIMEFRAME_MINUTES_def)

lemma tf_minutes_mono: "tf_minutes a \<le> tf_minutes b \<longleftrightarrow> a \<le> b"
  by (cases a; cases b)
     (simp_all add: tf_minutes_def dict_get_def TIMEFRAME_MINUTES_def less_eq_Timeframe_def
        tf_rank_def)

section \<open>Properties of the hierarchy\<close>

text \<open>Navigation is a bijection between adjacent ranks: going up and coming back down by the same
  number of steps returns the starting timeframe.\<close>

lemma get_parent_spec:
  assumes "1 \<le> steps"
  shows "get_parent tf steps =
     Inr (if int (tf_rank tf) + steps < 13 then Some (HIERARCHY ! nat (int (tf_rank tf) + steps))
          else None)"
  using assms by (auto simp: get_parent_def hierarchy_index_rank Let_def HIERARCHY_def)

lemma get_child_spec:
  assumes "1 \<le> steps"
  shows "get_child tf steps =
     Inr (if 0 \<le> int (tf_rank tf) - steps then Some (HIERARCHY ! nat (int (tf_rank tf) - steps))
          else None)"
  using assms by (auto simp: get_child_def hierarchy_index_rank Let_def)

lemma parent_then_child:
  assumes "1 \<le> steps" and "get_parent tf steps = Inr (Some p)"
  shows "get_child p steps = Inr (Some tf)" and "get_relation p tf = PARENT"
proof -
  let ?i = "nat (int (tf_rank tf) + steps)"
  have lt: "int (tf_rank tf) + steps < 13" and p: "p = HIERARCHY ! ?i"
    using assms get_parent_spec [OF assms(1), of tf] by (auto split: if_splits)
  have "?i < length HIERARCHY"
    using lt assms(1) by (simp add: HIERARCHY_def nat_less_iff)
  then have r: "tf_rank p = ?i" using rank_HIERARCHY p by simp
  then have "int (tf_rank p) = int (tf_rank tf) + steps" using assms(1) by simp
  then show "get_child p steps = Inr (Some tf)"
    using get_child_spec [OF assms(1), of p] by simp
  have "tf < p" using r assms(1) by (simp add: less_Timeframe_def)
  then show "get_relation p tf = PARENT" by (simp add: get_relation_order)
qed

lemma candle_count_spec:
  "calculate_candle_count s t = Inr n \<longleftrightarrow>
     s \<le> t \<and> tf_minutes s dvd tf_minutes t \<and> n * tf_minutes s = tf_minutes t"
proof -
  have "tf_minutes t < tf_minutes s \<longleftrightarrow> \<not> s \<le> t" using tf_minutes_mono [of s t] by linarith
  moreover have "tf_minutes t mod tf_minutes s \<noteq> 0 \<longleftrightarrow> \<not> tf_minutes s dvd tf_minutes t"
    by (simp add: dvd_eq_mod_eq_0)
  moreover have "tf_minutes s dvd tf_minutes t \<Longrightarrow>
      tf_minutes t div tf_minutes s = n \<longleftrightarrow> n * tf_minutes s = tf_minutes t"
    using tf_minutes_pos [of s] by (metis dvd_div_eq_mult mult.commute less_irrefl)
  ultimately show ?thesis
    by (auto simp: calculate_candle_count_def get_minutes_total)
qed

end
