(* ===== verification/PriceMath.thy ===== *)
theory PriceMath
  imports Constants
begin

text \<open>
  Pip arithmetic, from \<^verbatim>\<open>engine/ta/common/utils/price/math.py\<close>: instrument
  classification by symbol prefix, pip values, distances in pips, rounding to a pip, candle
  percentages.
\<close>

section \<open>Instrument classes\<close>

text \<open>The class names \<^verbatim>\<open>"METAL"\<close>, \<^verbatim>\<open>"OIL"\<close>, ... that
  \<^verbatim>\<open>_get_pair_type\<close> returns.\<close>

datatype pair_type =
  METAL | OIL | JPY | INDEX | CRYPTO | DERIV_P0001 | DERIV_P01 | DERIV_P1 | STANDARD

definition METAL_PREFIXES :: "string list" where
  "METAL_PREFIXES = [''XAUUSD'', ''XAGUSD'', ''XPTUSD'', ''XPDUSD'', ''XAUCAD'', ''XAUEUR'',
     ''XAUGBP'', ''XAUAUD'', ''XAGEUR'']"

definition OIL_PREFIXES :: "string list" where
  "OIL_PREFIXES = [''XBRUSD'', ''XTIUSD'', ''USOIL'', ''UKOIL'', ''BRENT'', ''WTI'', ''CL'']"

definition JPY_PREFIXES :: "string list" where
  "JPY_PREFIXES = [''USDJPY'', ''EURJPY'', ''GBPJPY'', ''AUDJPY'', ''NZDJPY'', ''CADJPY'',
     ''CHFJPY'', ''SGDJPY'', ''ZARJPY'', ''SEKJPY'', ''NOKJPY'', ''HKDJPY'', ''TRYJPY'',
     ''MXNJPY'']"

definition CRYPTO_PREFIXES :: "string list" where
  "CRYPTO_PREFIXES = [''BTCUSD'', ''ETHUSD'', ''LTCUSD'', ''XRPUSD'', ''BCHUSD'', ''ADAUSD'',
     ''DOGEUSD'', ''SOLUSD'', ''DOTUSD'', ''LINKUSD'', ''AVAXUSD'', ''MATICUSD'', ''BNBUSD'',
     ''TRXUSD'', ''XLMUSD'', ''ATOMUSD'', ''UNIUSD'', ''AAVEUSD'']"

definition INDEX_PATTERNS :: "string list" where
  "INDEX_PATTERNS = [''US30'', ''US500'', ''US2000'', ''USTEC'', ''NAS100'', ''SPX'', ''SPX500'',
     ''DJ30'', ''NDX'', ''NDX100'', ''DE40'', ''DAX'', ''UK100'', ''FTSE'', ''FR40'', ''EU50'',
     ''JP225'', ''AU200'', ''HK50'', ''CN50'', ''VIX'']"

definition DERIV_P0001_PREFIXES :: "string list" where
  "DERIV_P0001_PREFIXES = [''CRASH'', ''BOOM'', ''RANGE'']"

definition DERIV_P01_PREFIXES :: "string list" where
  "DERIV_P01_PREFIXES = [''VOLATILITY'', ''V10'', ''V25'', ''V50'', ''V75'', ''V100'', ''V200'',
     ''V300'', ''STEP'']"

definition DERIV_P1_PREFIXES :: "string list" where
  "DERIV_P1_PREFIXES = [''JUMP'', ''DEX'']"

definition PIP_DECIMALS :: "(pair_type \<times> nat) list" where
  "PIP_DECIMALS = [(JPY, 2), (METAL, 2), (OIL, 2), (INDEX, 0), (CRYPTO, 0), (DERIV_P0001, 0),
     (DERIV_P01, 0), (DERIV_P1, 0), (STANDARD, 4)]"

definition POINT_MULTIPLIERS :: "(pair_type \<times> int) list" where
  "POINT_MULTIPLIERS = [(JPY, 100), (METAL, 100), (OIL, 100), (INDEX, 1), (CRYPTO, 1),
     (DERIV_P0001, 1), (DERIV_P01, 1), (DERIV_P1, 1), (STANDARD, 10000)]"

text \<open>\<^verbatim>\<open>for prefix in table: if symbol == prefix or symbol.startswith(prefix)\<close>.\<close>

definition matches_any :: "string \<Rightarrow> string list \<Rightarrow> bool" where
  "matches_any symbol_upper table \<longleftrightarrow>
     list_ex (\<lambda>prefix. symbol_upper = prefix \<or> startswith symbol_upper prefix) table"

text \<open>\<^verbatim>\<open>symbol.replace("/", "").replace("_", "").split(".")[0]\<close>. Nothing in the source
  changes the case of the symbol, in spite of the name \<^verbatim>\<open>symbol_upper\<close>.\<close>

definition base_symbol :: "string \<Rightarrow> string" where
  "base_symbol symbol = takeWhile (\<lambda>c. c \<noteq> CHR ''.'') (norm_symbol symbol)"

definition get_pair_type :: "string \<Rightarrow> pair_type" where
  "get_pair_type symbol =
     (let symbol_upper = base_symbol symbol in
      if matches_any symbol_upper METAL_PREFIXES then METAL
      else if matches_any symbol_upper OIL_PREFIXES then OIL
      else if matches_any symbol_upper JPY_PREFIXES then JPY
      else if 6 \<le> length symbol_upper \<and> endswith (take 6 symbol_upper) ''JPY'' then JPY
      else if 7 \<le> length symbol_upper \<and> endswith (take 7 symbol_upper) ''JPY'' then JPY
      else if matches_any symbol_upper INDEX_PATTERNS then INDEX
      else if matches_any symbol_upper CRYPTO_PREFIXES then CRYPTO
      else if matches_any symbol_upper DERIV_P0001_PREFIXES then DERIV_P0001
      else if matches_any symbol_upper DERIV_P01_PREFIXES then DERIV_P01
      else if matches_any symbol_upper DERIV_P1_PREFIXES then DERIV_P1
      else STANDARD)"

definition get_pip_value :: "string \<Rightarrow> rat" where
  "get_pip_value symbol =
     (let pair_type = get_pair_type symbol in
      if pair_type = JPY \<or> pair_type = METAL then 1 / 100
      else if pair_type = OIL then 1 / 100
      else if pair_type = INDEX \<or> pair_type = CRYPTO then 1
      else if pair_type = DERIV_P0001 \<or> pair_type = DERIV_P01 \<or> pair_type = DERIV_P1 then 1
      else 1 / 10000)"

text \<open>\<^verbatim>\<open>_PIP_DECIMALS[pair_type]\<close> and \<^verbatim>\<open>_POINT_MULTIPLIERS[pair_type]\<close>
  raise \<^verbatim>\<open>KeyError\<close> on a class the table lacks.\<close>

definition get_pip_decimals :: "string \<Rightarrow> nat result" where
  "get_pip_decimals symbol =
     (case map_of PIP_DECIMALS (get_pair_type symbol) of
        None \<Rightarrow> Inl KeyError | Some d \<Rightarrow> Inr d)"

definition get_point_multiplier :: "string \<Rightarrow> int result" where
  "get_point_multiplier symbol =
     (case map_of POINT_MULTIPLIERS (get_pair_type symbol) of
        None \<Rightarrow> Inl KeyError | Some m \<Rightarrow> Inr m)"

section \<open>Distances\<close>

definition calculate_pips :: "price \<Rightarrow> price \<Rightarrow> string \<Rightarrow> rat result" where
  "calculate_pips price1 price2 symbol =
     (if price1 < 0 \<or> price2 < 0 then Inl (ConfigurationError ''Prices must be non-negative'')
      else let pip_value = get_pip_value symbol in
      if pip_value = 0 then Inl (ConfigurationError ''Pip value cannot be zero'')
      else Inr (\<bar>price1 - price2\<bar> / pip_value))"

definition calculate_price_from_pips :: "price \<Rightarrow> rat \<Rightarrow> string \<Rightarrow> int \<Rightarrow> price result" where
  "calculate_price_from_pips base_price pips symbol direction =
     (if base_price < 0 then Inl (ConfigurationError ''Base price must be non-negative'')
      else if direction \<noteq> -1 \<and> direction \<noteq> 1
      then Inl (ConfigurationError ''Direction must be 1 (up) or -1 (down)'')
      else Inr (base_price + pips * get_pip_value symbol * of_int direction))"

text \<open>\<^verbatim>\<open>Decimal.quantize\<close> with \<^verbatim>\<open>ROUND_HALF_UP\<close>: to the nearest multiple of
  \<open>10 ^ -decimals\<close>, ties away from zero.\<close>

definition quantize_half_up :: "nat \<Rightarrow> rat \<Rightarrow> rat" where
  "quantize_half_up decimals x =
     sgn x * (of_int \<lfloor>\<bar>x\<bar> * 10 ^ decimals + 1 / 2\<rfloor> / 10 ^ decimals)"

definition round_to_pip :: "price \<Rightarrow> string \<Rightarrow> price result" where
  "round_to_pip price symbol =
     bindR (get_pip_decimals symbol) (\<lambda>decimals. Inr (quantize_half_up decimals price))"

definition is_within_tolerance :: "price \<Rightarrow> price \<Rightarrow> rat \<Rightarrow> string \<Rightarrow> bool result" where
  "is_within_tolerance price1 price2 tolerance_pips symbol =
     (if tolerance_pips < 0 then Inl (ConfigurationError ''Tolerance must be non-negative'')
      else bindR (calculate_pips price1 price2 symbol)
             (\<lambda>pip_distance. Inr (pip_distance \<le> tolerance_pips)))"

definition calculate_distance :: "price \<Rightarrow> price \<Rightarrow> string \<Rightarrow> rat result" where
  "calculate_distance price1 price2 symbol = calculate_pips price1 price2 symbol"

definition calculate_percentage_change :: "price \<Rightarrow> price \<Rightarrow> rat result" where
  "calculate_percentage_change old_price new_price =
     (if old_price = 0
      then Inl (ConfigurationError ''Old price cannot be zero for percentage calculation'')
      else Inr ((new_price - old_price) / old_price * 100))"

definition calculate_body_percentage :: "price \<Rightarrow> price \<Rightarrow> price \<Rightarrow> price \<Rightarrow> rat result" where
  "calculate_body_percentage open_price close_price high_price low_price =
     (if high_price < low_price then Inl (ConfigurationError ''High must be >= low'')
      else let total_range = high_price - low_price in
      if total_range = 0 then Inr 0
      else let body_size = \<bar>close_price - open_price\<bar> in Inr (body_size / total_range * 100))"

definition calculate_wick_percentage ::
  "price \<Rightarrow> price \<Rightarrow> price \<Rightarrow> price \<Rightarrow> bool \<Rightarrow> rat result" where
  "calculate_wick_percentage open_price close_price high_price low_price upper =
     (if high_price < low_price then Inl (ConfigurationError ''High must be >= low'')
      else let total_range = high_price - low_price in
      if total_range = 0 then Inr 0
      else let candle_top = max open_price close_price;
               candle_bottom = min open_price close_price;
               wick_size = (if upper then high_price - candle_top else candle_bottom - low_price)
           in Inr (wick_size / total_range * 100))"

section \<open>Lemmas\<close>

lemma get_pip_value_pos [simp]: "0 < get_pip_value symbol"
  by (simp add: get_pip_value_def Let_def)

lemma get_pip_value_neq0 [simp]: "get_pip_value symbol \<noteq> 0"
  using get_pip_value_pos [of symbol] by linarith

lemma calculate_pips_Inr [no_raise]:
  "0 \<le> a \<Longrightarrow> 0 \<le> b \<Longrightarrow> calculate_pips a b s = Inr (\<bar>a - b\<bar> / get_pip_value s)"
  by (simp add: calculate_pips_def)

lemma calculate_pips_returns:
  "calculate_pips a b s = Inr d \<longleftrightarrow> 0 \<le> a \<and> 0 \<le> b \<and> d = \<bar>a - b\<bar> / get_pip_value s"
  by (auto simp: calculate_pips_def Let_def split: if_splits)

lemma calculate_pips_nonneg: "calculate_pips a b s = Inr d \<Longrightarrow> 0 \<le> d"
  by (simp add: calculate_pips_returns divide_nonneg_pos)

lemma is_within_tolerance_Inr [no_raise]:
  "0 \<le> a \<Longrightarrow> 0 \<le> b \<Longrightarrow> 0 \<le> tol \<Longrightarrow>
     is_within_tolerance a b tol s = Inr (\<bar>a - b\<bar> / get_pip_value s \<le> tol)"
  by (simp add: is_within_tolerance_def calculate_pips_Inr)

lemma calculate_body_percentage_Inr [no_raise]:
  "l \<le> h \<Longrightarrow> calculate_body_percentage p c h l =
     Inr (if h = l then 0 else \<bar>c - p\<bar> / (h - l) * 100)"
  by (simp add: calculate_body_percentage_def)

lemma calculate_wick_percentage_Inr [no_raise]:
  "l \<le> h \<Longrightarrow> calculate_wick_percentage p c h l u =
     Inr (if h = l then 0
          else (if u then h - max p c else min p c - l) / (h - l) * 100)"
  by (simp add: calculate_wick_percentage_def Let_def)

lemma quantize_half_up_error: "\<bar>quantize_half_up d x - x\<bar> \<le> 1 / (2 * 10 ^ d)"
proof -
  let ?m = "10 ^ d :: rat"
  let ?k = "of_int \<lfloor>\<bar>x\<bar> * ?m + 1 / 2\<rfloor> :: rat"
  have m: "0 < ?m" by simp
  have "?k \<le> \<bar>x\<bar> * ?m + 1 / 2" "\<bar>x\<bar> * ?m + 1 / 2 < ?k + 1" by linarith+
  then have "\<bar>?k - \<bar>x\<bar> * ?m\<bar> \<le> 1 / 2" by linarith
  then have "\<bar>?k - \<bar>x\<bar> * ?m\<bar> / ?m \<le> (1 / 2) / ?m" using m by (intro divide_right_mono) simp_all
  moreover have "?k / ?m - \<bar>x\<bar> = (?k - \<bar>x\<bar> * ?m) / ?m" using m by (simp add: field_simps)
  ultimately have e: "\<bar>?k / ?m - \<bar>x\<bar>\<bar> \<le> 1 / (2 * ?m)"
    using m by (simp add: abs_divide)
  have "quantize_half_up d x - x = sgn x * (?k / ?m - \<bar>x\<bar>)"
    by (simp add: quantize_half_up_def algebra_simps abs_mult_sgn)
  then have "\<bar>quantize_half_up d x - x\<bar> \<le> \<bar>?k / ?m - \<bar>x\<bar>\<bar>"
    by (cases "x = 0") (simp_all add: abs_mult abs_sgn_eq)
  with e show ?thesis by linarith
qed

lemma quantize_half_up_multiple:
  assumes "x = of_int k / 10 ^ d"
  shows "quantize_half_up d x = x"
proof -
  have "\<bar>x\<bar> * 10 ^ d = of_int \<bar>k\<bar>" using assms by (simp add: abs_divide)
  then have "\<lfloor>\<bar>x\<bar> * 10 ^ d + 1 / 2\<rfloor> = \<bar>k\<bar>" by (simp only: floor_eq_iff) simp
  then have "quantize_half_up d x = sgn x * \<bar>x\<bar>"
    using assms by (simp add: quantize_half_up_def abs_divide)
  then show ?thesis by (simp add: sgn_mult_abs)
qed

lemma quantize_half_up_grid: "\<exists>k. quantize_half_up d x = of_int k / 10 ^ d"
proof -
  let ?k = "\<lfloor>\<bar>x\<bar> * 10 ^ d + 1 / 2\<rfloor>"
  have "sgn x = 0 \<or> sgn x = 1 \<or> sgn x = -1" by (simp add: sgn_if)
  then have "quantize_half_up d x = of_int 0 / 10 ^ d \<or> quantize_half_up d x = of_int ?k / 10 ^ d \<or>
      quantize_half_up d x = of_int (- ?k) / 10 ^ d"
    by (auto simp: quantize_half_up_def)
  then show ?thesis by blast
qed

lemma quantize_half_up_idem: "quantize_half_up d (quantize_half_up d x) = quantize_half_up d x"
proof -
  obtain k where "quantize_half_up d x = of_int k / 10 ^ d" using quantize_half_up_grid by blast
  then show ?thesis by (rule quantize_half_up_multiple)
qed

section \<open>Properties\<close>

lemma pip_tables_agree:
  "\<exists>d m. get_pip_decimals s = Inr d \<and> get_point_multiplier s = Inr m \<and>
     get_pip_value s = 1 / 10 ^ d \<and> get_pip_value s * of_int m = 1"
  by (cases "get_pair_type s")
     (simp_all add: get_pip_decimals_def get_point_multiplier_def get_pip_value_def
        PIP_DECIMALS_def POINT_MULTIPLIERS_def)

lemma pips_round_trip:
  assumes "0 \<le> base" and "direction = 1 \<or> direction = -1"
    and "calculate_price_from_pips base pips s direction = Inr p" and "0 \<le> p"
  shows "calculate_pips base p s = Inr \<bar>pips\<bar>"
proof -
  have p: "p = base + pips * get_pip_value s * of_int direction"
    using assms by (auto simp: calculate_price_from_pips_def split: if_splits)
  have d: "\<bar>of_int direction :: rat\<bar> = 1" using assms(2) by auto
  have "\<bar>base - p\<bar> = \<bar>pips\<bar> * get_pip_value s"
    using p d by (simp add: abs_mult less_imp_le)
  then show ?thesis using assms(1,4) by (simp add: calculate_pips_Inr)
qed

lemma round_to_pip_spec:
  "\<exists>r. round_to_pip p s = Inr r \<and> \<bar>r - p\<bar> \<le> get_pip_value s / 2 \<and> round_to_pip r s = Inr r"
proof -
  obtain d where d: "get_pip_decimals s = Inr d" "get_pip_value s = 1 / 10 ^ d"
    using pip_tables_agree by blast
  then show ?thesis
    using quantize_half_up_error [of d p] quantize_half_up_idem [of d p]
    by (simp add: round_to_pip_def)
qed

text \<open>Broker suffixes: whatever follows the first dot, and the separators that are stripped, do not
  change the class.\<close>

lemma norm_symbol_append: "norm_symbol (s @ t) = norm_symbol s @ norm_symbol t"
  by (simp add: norm_symbol_def remove_char_def)

lemma base_symbol_suffix: "base_symbol (s @ CHR ''.'' # suf) = base_symbol s"
proof -
  have "norm_symbol (CHR ''.'' # suf) = CHR ''.'' # norm_symbol suf"
    by (simp add: norm_symbol_def remove_char_def)
  then show ?thesis
    by (simp add: base_symbol_def norm_symbol_append takeWhile_tail)
qed

lemma dot_suffix_same_class: "get_pair_type (s @ ''.'' @ suf) = get_pair_type s"
  by (simp add: get_pair_type_def base_symbol_suffix)

lemma metal_prefix_class:
  assumes "p \<in> set METAL_PREFIXES" and "base_symbol s = p @ suf"
  shows "get_pair_type s = METAL"
proof -
  have "matches_any (base_symbol s) METAL_PREFIXES"
    unfolding matches_any_def list_ex_iff assms(2) using assms(1) by (intro bexI [of _ p]) simp_all
  then show ?thesis by (simp add: get_pair_type_def)
qed

end
