(* ===== verification/Candle.thy ===== *)
theory Candle
  imports PriceMath "HOL-Library.Multiset"
begin

text \<open>
  The candle models of \<^verbatim>\<open>engine/ta/models/candle.py\<close>. The constructor functions
  \<open>mk_Candle\<close> and \<open>mk_CandleSequence\<close> run the validation pydantic runs: field
  constraints and field validators first (a \<^verbatim>\<open>ValidationError\<close>), then
  \<^verbatim>\<open>model_post_init\<close> (a \<^verbatim>\<open>ConfigurationError\<close>). Timestamps are already in
  UTC, so \<^verbatim>\<open>validate_timestamp\<close> is the identity here.
\<close>

section \<open>Candles\<close>

record Candle =
  c_symbol :: string
  c_timeframe :: Timeframe
  c_timestamp :: datetime
  c_open :: price
  c_high :: price
  c_low :: price
  c_close :: price
  c_volume :: rat

definition mk_Candle ::
  "string \<Rightarrow> Timeframe \<Rightarrow> datetime \<Rightarrow> price \<Rightarrow> price \<Rightarrow> price \<Rightarrow> price \<Rightarrow> rat \<Rightarrow> Candle result" where
  "mk_Candle symbol timeframe timestamp opn high low cls volume =
     (case symbol_field 2 20 symbol of
        None \<Rightarrow> Inl (ValidationError ''Candle'')
      | Some normalized \<Rightarrow>
          if length normalized < 2 then Inl (ValidationError ''Candle'')
          else if \<not> (0 < opn \<and> 0 < high \<and> 0 < low \<and> 0 < cls \<and> 0 \<le> volume)
          then Inl (ValidationError ''Candle'')
          else if high < low then Inl (ConfigurationError ''High must be >= low'')
          else if high < opn \<or> high < cls
          then Inl (ConfigurationError ''High must be >= open and close'')
          else if opn < low \<or> cls < low
          then Inl (ConfigurationError ''Low must be <= open and close'')
          else Inr \<lparr>c_symbol = normalized, c_timeframe = timeframe, c_timestamp = timestamp,
                    c_open = opn, c_high = high, c_low = low, c_close = cls, c_volume = volume\<rparr>)"

definition is_bullish :: "Candle \<Rightarrow> bool" where
  "is_bullish c \<longleftrightarrow> c_open c < c_close c"

definition is_bearish :: "Candle \<Rightarrow> bool" where
  "is_bearish c \<longleftrightarrow> c_close c < c_open c"

definition is_doji :: "Candle \<Rightarrow> bool" where
  "is_doji c \<longleftrightarrow> c_close c = c_open c"

definition body_size :: "Candle \<Rightarrow> rat" where
  "body_size c = \<bar>c_close c - c_open c\<bar>"

definition total_range :: "Candle \<Rightarrow> rat" where
  "total_range c = c_high c - c_low c"

definition upper_wick :: "Candle \<Rightarrow> rat" where
  "upper_wick c = c_high c - max (c_open c) (c_close c)"

definition lower_wick :: "Candle \<Rightarrow> rat" where
  "lower_wick c = min (c_open c) (c_close c) - c_low c"

definition body_percentage :: "Candle \<Rightarrow> rat" where
  "body_percentage c = (if total_range c = 0 then 0 else body_size c / total_range c * 100)"

definition upper_wick_percentage :: "Candle \<Rightarrow> rat" where
  "upper_wick_percentage c = (if total_range c = 0 then 0 else upper_wick c / total_range c * 100)"

definition lower_wick_percentage :: "Candle \<Rightarrow> rat" where
  "lower_wick_percentage c = (if total_range c = 0 then 0 else lower_wick c / total_range c * 100)"

definition candle_type :: "Candle \<Rightarrow> CandleType" where
  "candle_type c =
     (if is_doji c then DOJI
      else if 80 \<le> body_percentage c
      then if is_bullish c then MARUBOZU_BULLISH else MARUBOZU_BEARISH
      else if is_bullish c \<and> 60 \<le> lower_wick_percentage c \<and> upper_wick_percentage c \<le> 10
      then HAMMER
      else if is_bearish c \<and> 60 \<le> upper_wick_percentage c \<and> lower_wick_percentage c \<le> 10
      then SHOOTING_STAR
      else STANDARD_CANDLE)"

definition engulfs :: "Candle \<Rightarrow> Candle \<Rightarrow> bool" where
  "engulfs self previous =
     (if c_symbol self \<noteq> c_symbol previous \<or> c_timeframe self \<noteq> c_timeframe previous then False
      else if is_bullish self \<and> is_bearish previous
      then c_open self \<le> c_close previous \<and> c_open previous \<le> c_close self \<and>
           body_size previous < body_size self
      else if is_bearish self \<and> is_bullish previous
      then c_close previous \<le> c_open self \<and> c_close self \<le> c_open previous \<and>
           body_size previous < body_size self
      else False)"

text \<open>The invariant of a constructed candle.\<close>

definition wf_candle :: "Candle \<Rightarrow> bool" where
  "wf_candle c \<longleftrightarrow> 0 < c_low c \<and> c_low c \<le> c_open c \<and> c_low c \<le> c_close c \<and>
     c_open c \<le> c_high c \<and> c_close c \<le> c_high c \<and> 0 \<le> c_volume c \<and> 2 \<le> length (c_symbol c)"

lemma wf_candleD:
  assumes "wf_candle c"
  shows "0 < c_low c" "0 < c_open c" "0 < c_close c" "0 < c_high c" "c_low c \<le> c_high c"
    "c_low c \<le> c_open c" "c_low c \<le> c_close c" "c_open c \<le> c_high c" "c_close c \<le> c_high c"
  using assms by (auto simp: wf_candle_def)

lemma mk_Candle_wf: "mk_Candle s tf ts p h l c v = Inr x \<Longrightarrow> wf_candle x"
  by (auto simp: mk_Candle_def wf_candle_def not_less split: option.splits if_splits)

lemma bullish_not_bearish: "is_bullish c \<Longrightarrow> \<not> is_bearish c"
  by (simp add: is_bullish_def is_bearish_def)

lemma direction_trichotomy: "is_bullish c \<or> is_bearish c \<or> is_doji c"
  by (auto simp: is_bullish_def is_bearish_def is_doji_def)

lemma directional_range:
  assumes "wf_candle c" and "\<not> is_doji c"
  shows "c_low c < c_high c"
  using assms unfolding wf_candle_def is_doji_def by linarith

lemma body_wicks_split:
  assumes "wf_candle c"
  shows "body_size c + upper_wick c + lower_wick c = total_range c"
    and "0 \<le> body_size c" "0 \<le> upper_wick c" "0 \<le> lower_wick c"
  using assms
  by (auto simp: body_size_def upper_wick_def lower_wick_def total_range_def wf_candle_def
      max_def min_def)

lemma percentages_sum:
  assumes "wf_candle c" and "total_range c \<noteq> 0"
  shows "body_percentage c + upper_wick_percentage c + lower_wick_percentage c = 100"
proof -
  have "body_percentage c + upper_wick_percentage c + lower_wick_percentage c =
      (body_size c + upper_wick c + lower_wick c) / total_range c * 100"
    using assms(2)
    by (simp add: body_percentage_def upper_wick_percentage_def lower_wick_percentage_def
        add_divide_distrib distrib_right)
  then show ?thesis using body_wicks_split(1) [OF assms(1)] assms(2) by simp
qed

lemma percentages_nonneg:
  assumes "wf_candle c"
  shows "0 \<le> body_percentage c" "0 \<le> upper_wick_percentage c" "0 \<le> lower_wick_percentage c"
proof -
  have "0 \<le> total_range c" using wf_candleD [OF assms] by (simp add: total_range_def)
  then show "0 \<le> body_percentage c" "0 \<le> upper_wick_percentage c" "0 \<le> lower_wick_percentage c"
    using body_wicks_split [OF assms]
    by (simp_all add: body_percentage_def upper_wick_percentage_def lower_wick_percentage_def)
qed

section \<open>Sequences of candles\<close>

record CandleSequence =
  seq_symbol :: string
  seq_timeframe :: Timeframe
  seq_candles :: "Candle list"

definition validate_candles :: "Candle list \<Rightarrow> Candle list result" where
  "validate_candles v =
     (case v of
        [] \<Rightarrow> Inl (ValidationError ''CandleSequence'')
      | c0 # _ \<Rightarrow>
          if list_ex (\<lambda>c. c_symbol c \<noteq> c_symbol c0 \<or> c_timeframe c \<noteq> c_timeframe c0) v
          then Inl (ValidationError ''CandleSequence'')
          else if \<not> distinct (map c_timestamp v) then Inl (ValidationError ''CandleSequence'')
          else Inr (sort_key c_timestamp v))"

definition mk_CandleSequence ::
  "string \<Rightarrow> Timeframe \<Rightarrow> Candle list \<Rightarrow> CandleSequence result" where
  "mk_CandleSequence symbol timeframe candles =
     (case symbol_field 2 20 symbol of
        None \<Rightarrow> Inl (ValidationError ''CandleSequence'')
      | Some s \<Rightarrow> bindR (validate_candles candles) (\<lambda>cs.
          Inr \<lparr>seq_symbol = s, seq_timeframe = timeframe, seq_candles = cs\<rparr>))"

definition seq_start_time :: "CandleSequence \<Rightarrow> datetime result" where
  "seq_start_time s = (case seq_candles s of [] \<Rightarrow> Inl IndexError | c # _ \<Rightarrow> Inr (c_timestamp c))"

definition seq_end_time :: "CandleSequence \<Rightarrow> datetime result" where
  "seq_end_time s = (case rev (seq_candles s) of [] \<Rightarrow> Inl IndexError | c # _ \<Rightarrow> Inr (c_timestamp c))"

definition seq_count :: "CandleSequence \<Rightarrow> nat" where
  "seq_count s = length (seq_candles s)"

definition highest_high :: "CandleSequence \<Rightarrow> price result" where
  "highest_high s = py_max (map c_high (seq_candles s))"

definition lowest_low :: "CandleSequence \<Rightarrow> price result" where
  "lowest_low s = py_min (map c_low (seq_candles s))"

definition get_candle_at :: "CandleSequence \<Rightarrow> datetime \<Rightarrow> Candle option" where
  "get_candle_at s timestamp = find (\<lambda>c. c_timestamp c = timestamp) (seq_candles s)"

definition get_candles_between :: "CandleSequence \<Rightarrow> datetime \<Rightarrow> datetime \<Rightarrow> Candle list" where
  "get_candles_between s start end =
     filter (\<lambda>c. start \<le> c_timestamp c \<and> c_timestamp c \<le> end) (seq_candles s)"

definition slice :: "CandleSequence \<Rightarrow> int \<Rightarrow> int option \<Rightarrow> CandleSequence result" where
  "slice s start_idx end_idx =
     (let n = int (length (seq_candles s)) in
      if start_idx < 0 \<or> n \<le> start_idx then Inl (ConfigurationError ''Invalid start index'')
      else case end_idx of
        None \<Rightarrow> mk_CandleSequence (seq_symbol s) (seq_timeframe s)
                  (drop (nat start_idx) (seq_candles s))
      | Some e \<Rightarrow>
          if e < start_idx \<or> n < e then Inl (ConfigurationError ''Invalid end index'')
          else mk_CandleSequence (seq_symbol s) (seq_timeframe s)
                 (drop (nat start_idx) (take (nat e) (seq_candles s))))"

text \<open>\<^verbatim>\<open>sequence.candles[-1]\<close>.\<close>

definition last_candle :: "CandleSequence \<Rightarrow> Candle result" where
  "last_candle sequence =
     (if seq_candles sequence = [] then Inl IndexError else Inr (last (seq_candles sequence)))"

text \<open>The invariant of a constructed sequence.\<close>

definition uniform :: "Candle list \<Rightarrow> bool" where
  "uniform cs \<longleftrightarrow> (\<exists>sm tf. \<forall>c \<in> set cs. c_symbol c = sm \<and> c_timeframe c = tf)"

definition wf_seq :: "CandleSequence \<Rightarrow> bool" where
  "wf_seq s \<longleftrightarrow> seq_candles s \<noteq> [] \<and> (\<forall>c \<in> set (seq_candles s). wf_candle c) \<and>
     sorted_wrt (<) (map c_timestamp (seq_candles s)) \<and> uniform (seq_candles s)"

text \<open>The models built from candles ask for a symbol of at least three characters, one more than
  the candle itself, and normalise it again.\<close>

definition wf_market :: "CandleSequence \<Rightarrow> bool" where
  "wf_market s \<longleftrightarrow> wf_seq s \<and> (\<forall>c \<in> set (seq_candles s). clean_symbol (c_symbol c))"

lemma wf_marketD:
  assumes "wf_market s" and "i < length (seq_candles s)"
  shows "wf_candle (seq_candles s ! i)"
    and "3 \<le> length (str_strip (c_symbol (seq_candles s ! i)))"
    and "length (str_strip (c_symbol (seq_candles s ! i))) \<le> 30"
    and "clean_symbol (c_symbol (seq_candles s ! i))"
proof -
  show c: "clean_symbol (c_symbol (seq_candles s ! i))" using assms by (simp add: wf_market_def)
  show "wf_candle (seq_candles s ! i)" using assms by (simp add: wf_market_def wf_seq_def)
  show "3 \<le> length (str_strip (c_symbol (seq_candles s ! i)))"
      "length (str_strip (c_symbol (seq_candles s ! i))) \<le> 30"
    using clean_symbol_ok [OF c] by simp_all
qed

lemma wf_market_symbol:
  assumes "wf_market s" and "i < length (seq_candles s)" and "j < length (seq_candles s)"
  shows "c_symbol (seq_candles s ! i) = c_symbol (seq_candles s ! j)"
    and "c_timeframe (seq_candles s ! i) = c_timeframe (seq_candles s ! j)"
  using assms nth_mem unfolding wf_market_def wf_seq_def uniform_def by metis+

lemma wf_market_seq: "wf_market s \<Longrightarrow> wf_seq s"
  by (simp add: wf_market_def)

lemma uniform_subset: "uniform cs \<Longrightarrow> set ds \<subseteq> set cs \<Longrightarrow> uniform ds"
  unfolding uniform_def by blast

lemma wf_seq_nth [dest]:
  "wf_seq s \<Longrightarrow> i < length (seq_candles s) \<Longrightarrow> wf_candle (seq_candles s ! i)"
  by (simp add: wf_seq_def)

lemma wf_seq_times:
  assumes "wf_seq s" "i < j" "j < length (seq_candles s)"
  shows "c_timestamp (seq_candles s ! i) < c_timestamp (seq_candles s ! j)"
  using assms sorted_wrt_nth_less [of "(<)" "map c_timestamp (seq_candles s)" i j]
  by (simp add: wf_seq_def)

lemma wf_seq_distinct: "wf_seq s \<Longrightarrow> distinct (map c_timestamp (seq_candles s))"
  by (simp add: wf_seq_def strict_sorted_iff)

lemma validate_candles_ok:
  "validate_candles v = Inr w \<longleftrightarrow>
     v \<noteq> [] \<and> distinct (map c_timestamp v) \<and> w = sort_key c_timestamp v \<and> uniform v"
proof (cases v)
  case (Cons c cs)
  have "uniform v \<longleftrightarrow>
      \<not> list_ex (\<lambda>d. c_symbol d \<noteq> c_symbol c \<or> c_timeframe d \<noteq> c_timeframe c) v"
    unfolding uniform_def Cons list_ex_iff by (metis list.set_intros(1))
  then show ?thesis using Cons by (auto simp: validate_candles_def)
qed (simp add: validate_candles_def)

lemma mk_CandleSequence_wf:
  assumes "mk_CandleSequence name tf cs = Inr s" and "\<forall>c \<in> set cs. wf_candle c"
  shows "wf_seq s"
proof -
  obtain n where ok: "cs \<noteq> []" "distinct (map c_timestamp cs)" "uniform cs"
      and s: "s = \<lparr>seq_symbol = n, seq_timeframe = tf, seq_candles = sort_key c_timestamp cs\<rparr>"
    using assms(1) by (auto simp: mk_CandleSequence_def validate_candles_ok split: option.splits)
  have "distinct (map c_timestamp (sort_key c_timestamp cs))"
    using ok(2) by (simp add: distinct_map)
  moreover have "sort_key c_timestamp cs \<noteq> []" using ok(1) by (metis set_empty set_sort)
  ultimately show ?thesis
    using ok uniform_subset [of cs "sort_key c_timestamp cs"] assms(2) s
    by (simp add: wf_seq_def strict_sorted_iff)
qed

section \<open>Operations on well-formed sequences\<close>

lemma get_candle_at_nth:
  assumes "wf_seq s" "i < length (seq_candles s)"
  shows "get_candle_at s (c_timestamp (seq_candles s ! i)) = Some (seq_candles s ! i)"
proof -
  let ?cs = "seq_candles s" and ?t = "c_timestamp (seq_candles s ! i)"
  have "find (\<lambda>c. c_timestamp c = ?t) ?cs = Some (?cs ! i)"
    unfolding find_Some_iff using assms wf_seq_times [OF assms(1) _ assms(2)]
    by (intro exI [of _ i]) force
  then show ?thesis by (simp add: get_candle_at_def)
qed

lemma sorted_wrt_less_slice:
  "sorted_wrt (<) (map f xs) \<Longrightarrow> sort_key f (drop i (take j xs)) = drop i (take j xs)"
  for f :: "'a \<Rightarrow> 'k::linorder"
  by (intro sort_key_id_if_sorted)
     (simp add: strict_sorted_iff sorted_wrt_take sorted_wrt_drop flip: drop_map take_map)

lemma slice_candles:
  assumes "wf_seq s" and "i < j" and "j \<le> length (seq_candles s)"
  shows "validate_candles (drop i (take j (seq_candles s))) = Inr (drop i (take j (seq_candles s)))"
proof -
  let ?cs = "seq_candles s" and ?v = "drop i (take j (seq_candles s))"
  have ne: "?v \<noteq> []" using assms by simp
  have "set ?v \<subseteq> set ?cs" by (meson order_trans set_drop_subset set_take_subset)
  then have "uniform ?v" using assms(1) uniform_subset by (auto simp: wf_seq_def)
  moreover have "distinct (map c_timestamp ?v)"
    using wf_seq_distinct [OF assms(1)] by (simp flip: drop_map take_map)
  moreover have "sort_key c_timestamp ?v = ?v"
    using assms(1) by (simp add: wf_seq_def sorted_wrt_less_slice)
  ultimately show ?thesis using ne by (simp add: validate_candles_ok)
qed

section \<open>Properties\<close>

text \<open>The candle constructor accepts exactly the geometrically consistent candles: it returns a
  candle if and only if the stripped symbol has 2 to 20 characters and at least 2 once the
  separators are removed, the volume is non-negative and \<open>0 < low \<le> open, close \<le> high\<close>; the
  candle it returns carries the normalised symbol and the given values.\<close>

theorem mk_Candle_accepts:
  "mk_Candle symbol tf ts p h l c v = Inr x \<longleftrightarrow>
     2 \<le> length (str_strip symbol) \<and> length (str_strip symbol) \<le> 20 \<and>
     2 \<le> length (norm_symbol (str_strip symbol)) \<and> 0 \<le> v \<and>
     0 < l \<and> l \<le> p \<and> l \<le> c \<and> p \<le> h \<and> c \<le> h \<and>
     x = \<lparr>c_symbol = norm_symbol (str_strip symbol), c_timeframe = tf, c_timestamp = ts,
          c_open = p, c_high = h, c_low = l, c_close = c, c_volume = v\<rparr>"
  by (auto simp: mk_Candle_def symbol_field_def Let_def not_less)

text \<open>A sequence built from well-formed candles holds exactly the given candles, in strictly
  increasing timestamp order: the constructor sorts, drops nothing and refuses an empty list,
  mixed symbols or timeframes and duplicate timestamps.\<close>

theorem mk_CandleSequence_sorted:
  assumes "mk_CandleSequence name tf cs = Inr s"
  shows "sorted_wrt (<) (map c_timestamp (seq_candles s)) \<and> mset (seq_candles s) = mset cs \<and>
     cs \<noteq> [] \<and> distinct (map c_timestamp cs) \<and> uniform cs"
proof -
  obtain n where ok: "cs \<noteq> []" "distinct (map c_timestamp cs)" "uniform cs"
      and s: "s = \<lparr>seq_symbol = n, seq_timeframe = tf, seq_candles = sort_key c_timestamp cs\<rparr>"
    using assms by (auto simp: mk_CandleSequence_def validate_candles_ok split: option.splits)
  then show ?thesis by (simp add: strict_sorted_iff distinct_map)
qed

definition ex_candle :: "datetime \<Rightarrow> price \<Rightarrow> price \<Rightarrow> price \<Rightarrow> price \<Rightarrow> Candle" where
  "ex_candle t p h l c = \<lparr>c_symbol = ''EURUSD'', c_timeframe = H1, c_timestamp = t, c_open = p,
     c_high = h, c_low = l, c_close = c, c_volume = 0\<rparr>"

lemmas ex_candle_sel [simp] = ex_candle_def

definition ex_seq :: CandleSequence where
  "ex_seq = \<lparr>seq_symbol = ''EURUSD'', seq_timeframe = H1,
     seq_candles = [ex_candle 0 1 2 1 1, ex_candle 60 1 2 1 2]\<rparr>"

lemma wf_ex_seq: "wf_seq ex_seq"
  by (simp add: ex_seq_def wf_seq_def wf_candle_def uniform_def)

lemma symbol_EURUSD [simp]:
  "str_strip ''EURUSD'' = ''EURUSD''" "norm_symbol ''EURUSD'' = ''EURUSD''"
  by (simp_all add: str_strip_def is_space_def norm_symbol_def remove_char_def)

lemma pip_EURUSD: "get_pip_value ''EURUSD'' = 1 / 10000"
  by code_simp

lemma clean_EURUSD [simp]: "clean_symbol ''EURUSD''"
  by (simp add: clean_symbol_def)

theorem mk_CandleSequence_sorted_witness:
  "mk_CandleSequence ''EURUSD'' H1 [ex_candle 60 1 2 1 2, ex_candle 0 1 2 1 1] = Inr ex_seq \<and>
     sorted_wrt (<) (map c_timestamp (seq_candles ex_seq)) \<and>
     mset (seq_candles ex_seq) = mset [ex_candle 60 1 2 1 2, ex_candle 0 1 2 1 1]"
proof -
  have s: "mk_CandleSequence ''EURUSD'' H1 [ex_candle 60 1 2 1 2, ex_candle 0 1 2 1 1] = Inr ex_seq"
    by (simp add: mk_CandleSequence_def validate_candles_def symbol_field_def ex_seq_def)
  from mk_CandleSequence_sorted [OF s] s show ?thesis by blast
qed

text \<open>\<^verbatim>\<open>slice\<close> of a well-formed sequence returns exactly the candles of the half-open index
  range when \<open>start < end\<close>, with the sequence's invariant kept; an empty range
  (\<open>start = end\<close>), which passes the index checks, raises pydantic's error from the constructor
  instead of the documented configuration error.\<close>

theorem slice_spec:
  assumes "wf_seq s" and "2 \<le> length (str_strip (seq_symbol s))"
    and "length (str_strip (seq_symbol s)) \<le> 20"
    and "i < length (seq_candles s)" and "j \<le> length (seq_candles s)"
  shows "slice s (int i) (Some (int j)) =
     (if j < i then Inl (ConfigurationError ''Invalid end index'')
      else if j = i then Inl (ValidationError ''CandleSequence'')
      else Inr \<lparr>seq_symbol = norm_symbol (str_strip (seq_symbol s)),
                seq_timeframe = seq_timeframe s,
                seq_candles = drop i (take j (seq_candles s))\<rparr>)"
  using assms slice_candles [OF assms(1), of i j]
  by (auto simp: slice_def mk_CandleSequence_def symbol_field_def validate_candles_def)

theorem slice_spec_witness:
  "slice ex_seq 0 (Some 1) =
     Inr \<lparr>seq_symbol = ''EURUSD'', seq_timeframe = H1, seq_candles = [ex_candle 0 1 2 1 1]\<rparr>"
  using slice_spec [OF wf_ex_seq, of 0 1] by (simp add: ex_seq_def)

end
