(* ===== verification/ZoneModels.thy ===== *)
theory ZoneModels
  imports Candle
begin

text \<open>
  The price zones of \<^verbatim>\<open>engine/ta/models/zone.py\<close>: the common \<^verbatim>\<open>Zone\<close>, order
  blocks, fair value gaps, breaker blocks, supply and demand zones, Quasimodo levels and mini price
  levels, with the validation of their constructors and their conversion to \<^verbatim>\<open>Zone\<close>. The
  locale \<open>zone_model\<close> is the contract the five zone classes share.
\<close>

section \<open>Zone\<close>

record Zone =
  z_symbol :: string
  z_timeframe :: Timeframe
  z_zone_type :: ZoneType
  z_upper_bound :: price
  z_lower_bound :: price
  z_timestamp :: datetime
  z_candle_index :: nat
  z_direction :: Direction

text \<open>\<^verbatim>\<open>model_post_init\<close>, the same in every class that has bounds.\<close>

definition check_bounds :: "price \<Rightarrow> price \<Rightarrow> 'a \<Rightarrow> 'a result" where
  "check_bounds upper_bound lower_bound self =
     (if upper_bound \<le> lower_bound then Inl (ConfigurationError ''Upper bound must be > lower bound'')
      else Inr self)"

definition mk_Zone ::
  "string \<Rightarrow> Timeframe \<Rightarrow> ZoneType \<Rightarrow> price \<Rightarrow> price \<Rightarrow> datetime \<Rightarrow> nat \<Rightarrow> Direction \<Rightarrow> Zone result" where
  "mk_Zone symbol timeframe zone_type upper_bound lower_bound timestamp candle_index direction =
     bindR (mk_model ''Zone'' symbol (0 < upper_bound \<and> 0 < lower_bound)
       (\<lambda>s. \<lparr>z_symbol = s, z_timeframe = timeframe, z_zone_type = zone_type,
             z_upper_bound = upper_bound, z_lower_bound = lower_bound, z_timestamp = timestamp,
             z_candle_index = candle_index, z_direction = direction\<rparr>))
       (check_bounds upper_bound lower_bound)"

definition z_range_size :: "Zone \<Rightarrow> rat" where
  "z_range_size z = z_upper_bound z - z_lower_bound z"

definition z_midpoint :: "Zone \<Rightarrow> price" where
  "z_midpoint z = (z_upper_bound z + z_lower_bound z) / 2"

definition z_is_bullish :: "Zone \<Rightarrow> bool" where
  "z_is_bullish z \<longleftrightarrow> z_direction z = BULLISH"

definition z_is_bearish :: "Zone \<Rightarrow> bool" where
  "z_is_bearish z \<longleftrightarrow> z_direction z = BEARISH"

definition contains_price :: "Zone \<Rightarrow> price \<Rightarrow> bool" where
  "contains_price z price \<longleftrightarrow> z_lower_bound z \<le> price \<and> price \<le> z_upper_bound z"

definition overlaps_with :: "Zone \<Rightarrow> Zone \<Rightarrow> bool" where
  "overlaps_with z other \<longleftrightarrow>
     \<not> (z_upper_bound z < z_lower_bound other \<or> z_upper_bound other < z_lower_bound z)"

section \<open>OrderBlock\<close>

record OrderBlock =
  ob_symbol :: string
  ob_timeframe :: Timeframe
  ob_upper_bound :: price
  ob_lower_bound :: price
  ob_timestamp :: datetime
  ob_candle_index :: nat
  ob_direction :: Direction
  ob_displacement_pips :: rat
  ob_is_breaker :: bool
  ob_mitigated :: bool
  ob_mitigation_timestamp :: "datetime option"

definition mk_OrderBlock ::
  "string \<Rightarrow> Timeframe \<Rightarrow> price \<Rightarrow> price \<Rightarrow> datetime \<Rightarrow> nat \<Rightarrow> Direction \<Rightarrow> rat \<Rightarrow> bool \<Rightarrow> bool \<Rightarrow>
   datetime option \<Rightarrow> OrderBlock result" where
  "mk_OrderBlock symbol timeframe upper_bound lower_bound timestamp candle_index direction
       displacement_pips is_breaker mitigated mitigation_timestamp =
     bindR (mk_model ''OrderBlock'' symbol
         (0 < upper_bound \<and> 0 < lower_bound \<and> 0 \<le> displacement_pips)
       (\<lambda>s. \<lparr>ob_symbol = s, ob_timeframe = timeframe, ob_upper_bound = upper_bound,
             ob_lower_bound = lower_bound, ob_timestamp = timestamp, ob_candle_index = candle_index,
             ob_direction = direction, ob_displacement_pips = displacement_pips,
             ob_is_breaker = is_breaker, ob_mitigated = mitigated,
             ob_mitigation_timestamp = mitigation_timestamp\<rparr>))
       (check_bounds upper_bound lower_bound)"

definition ob_range_size :: "OrderBlock \<Rightarrow> rat" where
  "ob_range_size z = ob_upper_bound z - ob_lower_bound z"

definition ob_midpoint :: "OrderBlock \<Rightarrow> price" where
  "ob_midpoint z = (ob_upper_bound z + ob_lower_bound z) / 2"

definition ob_to_zone :: "OrderBlock \<Rightarrow> Zone result" where
  "ob_to_zone z = mk_Zone (ob_symbol z) (ob_timeframe z) ORDER_BLOCK (ob_upper_bound z)
     (ob_lower_bound z) (ob_timestamp z) (ob_candle_index z) (ob_direction z)"

section \<open>FairValueGap\<close>

record FairValueGap =
  fvg_symbol :: string
  fvg_timeframe :: Timeframe
  fvg_upper_bound :: price
  fvg_lower_bound :: price
  fvg_timestamp :: datetime
  fvg_candle_index :: nat
  fvg_direction :: Direction
  fvg_filled :: bool
  fvg_fill_timestamp :: "datetime option"
  fvg_fill_percentage :: rat

definition mk_FairValueGap ::
  "string \<Rightarrow> Timeframe \<Rightarrow> price \<Rightarrow> price \<Rightarrow> datetime \<Rightarrow> nat \<Rightarrow> Direction \<Rightarrow> bool \<Rightarrow> datetime option \<Rightarrow>
   rat \<Rightarrow> FairValueGap result" where
  "mk_FairValueGap symbol timeframe upper_bound lower_bound timestamp candle_index direction filled
       fill_timestamp fill_percentage =
     bindR (mk_model ''FairValueGap'' symbol
         (0 < upper_bound \<and> 0 < lower_bound \<and> 0 \<le> fill_percentage \<and> fill_percentage \<le> 100)
       (\<lambda>s. \<lparr>fvg_symbol = s, fvg_timeframe = timeframe, fvg_upper_bound = upper_bound,
             fvg_lower_bound = lower_bound, fvg_timestamp = timestamp,
             fvg_candle_index = candle_index, fvg_direction = direction, fvg_filled = filled,
             fvg_fill_timestamp = fill_timestamp, fvg_fill_percentage = fill_percentage\<rparr>))
       (check_bounds upper_bound lower_bound)"

definition fvg_range_size :: "FairValueGap \<Rightarrow> rat" where
  "fvg_range_size z = fvg_upper_bound z - fvg_lower_bound z"

definition fvg_midpoint :: "FairValueGap \<Rightarrow> price" where
  "fvg_midpoint z = (fvg_upper_bound z + fvg_lower_bound z) / 2"

definition fvg_to_zone :: "FairValueGap \<Rightarrow> Zone result" where
  "fvg_to_zone z = mk_Zone (fvg_symbol z) (fvg_timeframe z) FVG (fvg_upper_bound z)
     (fvg_lower_bound z) (fvg_timestamp z) (fvg_candle_index z) (fvg_direction z)"

section \<open>BreakerBlock\<close>

record BreakerBlock =
  bb_symbol :: string
  bb_timeframe :: Timeframe
  bb_upper_bound :: price
  bb_lower_bound :: price
  bb_timestamp :: datetime
  bb_candle_index :: nat
  bb_direction :: Direction
  bb_original_ob_timestamp :: datetime
  bb_broken_timestamp :: datetime
  bb_mitigated :: bool
  bb_mitigation_timestamp :: "datetime option"

definition mk_BreakerBlock ::
  "string \<Rightarrow> Timeframe \<Rightarrow> price \<Rightarrow> price \<Rightarrow> datetime \<Rightarrow> nat \<Rightarrow> Direction \<Rightarrow> datetime \<Rightarrow> datetime \<Rightarrow>
   bool \<Rightarrow> datetime option \<Rightarrow> BreakerBlock result" where
  "mk_BreakerBlock symbol timeframe upper_bound lower_bound timestamp candle_index direction
       original_ob_timestamp broken_timestamp mitigated mitigation_timestamp =
     bindR (mk_model ''BreakerBlock'' symbol (0 < upper_bound \<and> 0 < lower_bound)
       (\<lambda>s. \<lparr>bb_symbol = s, bb_timeframe = timeframe, bb_upper_bound = upper_bound,
             bb_lower_bound = lower_bound, bb_timestamp = timestamp, bb_candle_index = candle_index,
             bb_direction = direction, bb_original_ob_timestamp = original_ob_timestamp,
             bb_broken_timestamp = broken_timestamp, bb_mitigated = mitigated,
             bb_mitigation_timestamp = mitigation_timestamp\<rparr>))
       (check_bounds upper_bound lower_bound)"

definition bb_range_size :: "BreakerBlock \<Rightarrow> rat" where
  "bb_range_size z = bb_upper_bound z - bb_lower_bound z"

definition bb_midpoint :: "BreakerBlock \<Rightarrow> price" where
  "bb_midpoint z = (bb_upper_bound z + bb_lower_bound z) / 2"

definition bb_to_zone :: "BreakerBlock \<Rightarrow> Zone result" where
  "bb_to_zone z = mk_Zone (bb_symbol z) (bb_timeframe z) BREAKER (bb_upper_bound z)
     (bb_lower_bound z) (bb_timestamp z) (bb_candle_index z) (bb_direction z)"

section \<open>SupplyZone and DemandZone\<close>

record SupplyZone =
  sz_symbol :: string
  sz_timeframe :: Timeframe
  sz_upper_bound :: price
  sz_lower_bound :: price
  sz_timestamp :: datetime
  sz_qml_level :: price
  sz_qml_timestamp :: datetime
  sz_sr_flip_level :: price
  sz_sr_flip_timestamp :: datetime
  sz_is_valid :: bool
  sz_strength :: nat
  sz_tested :: bool
  sz_test_count :: nat
  sz_broken :: bool
  sz_broken_timestamp :: "datetime option"

text \<open>The constructors with \<^verbatim>\<open>strength\<close>, \<^verbatim>\<open>tested\<close>,
  \<^verbatim>\<open>test_count\<close> and \<^verbatim>\<open>broken\<close> at their defaults, as the detectors call them.\<close>

definition mk_SupplyZone ::
  "string \<Rightarrow> Timeframe \<Rightarrow> price \<Rightarrow> price \<Rightarrow> datetime \<Rightarrow> price \<Rightarrow> datetime \<Rightarrow> price \<Rightarrow> datetime \<Rightarrow> bool \<Rightarrow>
   SupplyZone result" where
  "mk_SupplyZone symbol timeframe upper_bound lower_bound timestamp qml_level qml_timestamp
       sr_flip_level sr_flip_timestamp is_valid =
     bindR (mk_model ''SupplyZone'' symbol
         (0 < upper_bound \<and> 0 < lower_bound \<and> 0 < qml_level \<and> 0 < sr_flip_level)
       (\<lambda>s. \<lparr>sz_symbol = s, sz_timeframe = timeframe, sz_upper_bound = upper_bound,
             sz_lower_bound = lower_bound, sz_timestamp = timestamp, sz_qml_level = qml_level,
             sz_qml_timestamp = qml_timestamp, sz_sr_flip_level = sr_flip_level,
             sz_sr_flip_timestamp = sr_flip_timestamp, sz_is_valid = is_valid, sz_strength = 1,
             sz_tested = False, sz_test_count = 0, sz_broken = False, sz_broken_timestamp = None\<rparr>))
       (check_bounds upper_bound lower_bound)"

definition sz_candle_index :: "SupplyZone \<Rightarrow> nat" where
  "sz_candle_index z = 0"

definition sz_range_size :: "SupplyZone \<Rightarrow> rat" where
  "sz_range_size z = sz_upper_bound z - sz_lower_bound z"

definition sz_midpoint :: "SupplyZone \<Rightarrow> price" where
  "sz_midpoint z = (sz_upper_bound z + sz_lower_bound z) / 2"

definition sz_to_zone :: "SupplyZone \<Rightarrow> Zone result" where
  "sz_to_zone z = mk_Zone (sz_symbol z) (sz_timeframe z) SUPPLY (sz_upper_bound z)
     (sz_lower_bound z) (sz_timestamp z) (sz_candle_index z) BEARISH"

record DemandZone =
  dz_symbol :: string
  dz_timeframe :: Timeframe
  dz_upper_bound :: price
  dz_lower_bound :: price
  dz_timestamp :: datetime
  dz_qmh_level :: price
  dz_qmh_timestamp :: datetime
  dz_rs_flip_level :: price
  dz_rs_flip_timestamp :: datetime
  dz_is_valid :: bool
  dz_strength :: nat
  dz_tested :: bool
  dz_test_count :: nat
  dz_broken :: bool
  dz_broken_timestamp :: "datetime option"

definition mk_DemandZone ::
  "string \<Rightarrow> Timeframe \<Rightarrow> price \<Rightarrow> price \<Rightarrow> datetime \<Rightarrow> price \<Rightarrow> datetime \<Rightarrow> price \<Rightarrow> datetime \<Rightarrow> bool \<Rightarrow>
   DemandZone result" where
  "mk_DemandZone symbol timeframe upper_bound lower_bound timestamp qmh_level qmh_timestamp
       rs_flip_level rs_flip_timestamp is_valid =
     bindR (mk_model ''DemandZone'' symbol
         (0 < upper_bound \<and> 0 < lower_bound \<and> 0 < qmh_level \<and> 0 < rs_flip_level)
       (\<lambda>s. \<lparr>dz_symbol = s, dz_timeframe = timeframe, dz_upper_bound = upper_bound,
             dz_lower_bound = lower_bound, dz_timestamp = timestamp, dz_qmh_level = qmh_level,
             dz_qmh_timestamp = qmh_timestamp, dz_rs_flip_level = rs_flip_level,
             dz_rs_flip_timestamp = rs_flip_timestamp, dz_is_valid = is_valid, dz_strength = 1,
             dz_tested = False, dz_test_count = 0, dz_broken = False, dz_broken_timestamp = None\<rparr>))
       (check_bounds upper_bound lower_bound)"

definition dz_candle_index :: "DemandZone \<Rightarrow> nat" where
  "dz_candle_index z = 0"

definition dz_range_size :: "DemandZone \<Rightarrow> rat" where
  "dz_range_size z = dz_upper_bound z - dz_lower_bound z"

definition dz_midpoint :: "DemandZone \<Rightarrow> price" where
  "dz_midpoint z = (dz_upper_bound z + dz_lower_bound z) / 2"

definition dz_to_zone :: "DemandZone \<Rightarrow> Zone result" where
  "dz_to_zone z = mk_Zone (dz_symbol z) (dz_timeframe z) DEMAND (dz_upper_bound z)
     (dz_lower_bound z) (dz_timestamp z) (dz_candle_index z) BULLISH"

section \<open>QuasiModoLevel\<close>

record QuasiModoLevel =
  qm_symbol :: string
  qm_timeframe :: Timeframe
  qm_qml_price :: price
  qm_timestamp :: datetime
  qm_candle_index :: nat
  qm_direction :: Direction
  qm_h_price :: "price option"
  qm_hh_price :: "price option"
  qm_h_timestamp :: "datetime option"
  qm_hh_timestamp :: "datetime option"
  qm_hh_index :: "nat option"
  qm_l_price :: "price option"
  qm_ll_price :: "price option"
  qm_l_timestamp :: "datetime option"
  qm_ll_timestamp :: "datetime option"
  qm_ll_index :: "nat option"
  qm_break_timestamp :: datetime
  qm_is_valid :: bool
  qm_tested :: bool
  qm_test_timestamp :: "datetime option"

text \<open>The constructor with \<^verbatim>\<open>tested\<close> and \<^verbatim>\<open>test_timestamp\<close> at their
  defaults; the optional fields are given as options.\<close>

definition mk_QuasiModoLevel ::
  "string \<Rightarrow> Timeframe \<Rightarrow> price \<Rightarrow> datetime \<Rightarrow> nat \<Rightarrow> Direction \<Rightarrow>
   price option \<Rightarrow> price option \<Rightarrow> datetime option \<Rightarrow> datetime option \<Rightarrow> nat option \<Rightarrow>
   price option \<Rightarrow> price option \<Rightarrow> datetime option \<Rightarrow> datetime option \<Rightarrow> nat option \<Rightarrow>
   datetime \<Rightarrow> bool \<Rightarrow> QuasiModoLevel result" where
  "mk_QuasiModoLevel symbol timeframe qml_price timestamp candle_index direction
       h_price hh_price h_timestamp hh_timestamp hh_index
       l_price ll_price l_timestamp ll_timestamp ll_index break_timestamp is_valid =
     mk_model ''QuasiModoLevel'' symbol
       (0 < qml_price \<and> (\<forall>p \<in> set_option h_price. 0 < p) \<and> (\<forall>p \<in> set_option hh_price. 0 < p) \<and>
        (\<forall>p \<in> set_option l_price. 0 < p) \<and> (\<forall>p \<in> set_option ll_price. 0 < p))
       (\<lambda>s. \<lparr>qm_symbol = s, qm_timeframe = timeframe, qm_qml_price = qml_price,
             qm_timestamp = timestamp, qm_candle_index = candle_index, qm_direction = direction,
             qm_h_price = h_price, qm_hh_price = hh_price, qm_h_timestamp = h_timestamp,
             qm_hh_timestamp = hh_timestamp, qm_hh_index = hh_index, qm_l_price = l_price,
             qm_ll_price = ll_price, qm_l_timestamp = l_timestamp,
             qm_ll_timestamp = ll_timestamp, qm_ll_index = ll_index,
             qm_break_timestamp = break_timestamp, qm_is_valid = is_valid, qm_tested = False,
             qm_test_timestamp = None\<rparr>)"

text \<open>\<^verbatim>\<open>a if a is not None else b\<close>.\<close>

definition or_else :: "'a option \<Rightarrow> 'a option \<Rightarrow> 'a option" where
  "or_else a b = (case a of None \<Rightarrow> b | Some x \<Rightarrow> Some x)"

definition qm_level :: "QuasiModoLevel \<Rightarrow> price" where
  "qm_level q = qm_qml_price q"

definition qm_h1_price :: "QuasiModoLevel \<Rightarrow> price" where
  "qm_h1_price q = (case or_else (qm_h_price q) (qm_l_price q) of None \<Rightarrow> 0 | Some p \<Rightarrow> p)"

definition qm_h2_price :: "QuasiModoLevel \<Rightarrow> price" where
  "qm_h2_price q = (case or_else (qm_hh_price q) (qm_ll_price q) of None \<Rightarrow> 0 | Some p \<Rightarrow> p)"

definition qm_h1_timestamp :: "QuasiModoLevel \<Rightarrow> datetime option" where
  "qm_h1_timestamp q = or_else (qm_h_timestamp q) (qm_l_timestamp q)"

definition qm_h2_timestamp :: "QuasiModoLevel \<Rightarrow> datetime option" where
  "qm_h2_timestamp q = or_else (qm_hh_timestamp q) (qm_ll_timestamp q)"

definition qm_break_candle_index :: "QuasiModoLevel \<Rightarrow> nat" where
  "qm_break_candle_index q = qm_candle_index q"

definition qm_h2_index :: "QuasiModoLevel \<Rightarrow> nat option" where
  "qm_h2_index q = or_else (qm_hh_index q) (qm_ll_index q)"

definition qm_l2_index :: "QuasiModoLevel \<Rightarrow> nat option" where
  "qm_l2_index q = or_else (qm_ll_index q) (qm_hh_index q)"

definition qm_is_qml :: "QuasiModoLevel \<Rightarrow> bool" where
  "qm_is_qml q \<longleftrightarrow> qm_direction q = BEARISH"

definition qm_is_qmh :: "QuasiModoLevel \<Rightarrow> bool" where
  "qm_is_qmh q \<longleftrightarrow> qm_direction q = BULLISH"

section \<open>MiniPriceLevel\<close>

record MiniPriceLevel =
  mpl_symbol :: string
  mpl_timeframe :: Timeframe
  mpl_level :: price
  mpl_timestamp :: datetime
  mpl_candle_index :: nat
  mpl_direction :: Direction
  mpl_has_internal_structure :: bool
  mpl_is_type1 :: bool
  mpl_tested :: bool
  mpl_test_timestamp :: "datetime option"

definition mk_MiniPriceLevel ::
  "string \<Rightarrow> Timeframe \<Rightarrow> price \<Rightarrow> datetime \<Rightarrow> nat \<Rightarrow> Direction \<Rightarrow> bool \<Rightarrow> bool \<Rightarrow> MiniPriceLevel result" where
  "mk_MiniPriceLevel symbol timeframe level timestamp candle_index direction has_internal_structure
       is_type1 =
     mk_model ''MiniPriceLevel'' symbol (0 < level)
       (\<lambda>s. \<lparr>mpl_symbol = s, mpl_timeframe = timeframe, mpl_level = level, mpl_timestamp = timestamp,
             mpl_candle_index = candle_index, mpl_direction = direction,
             mpl_has_internal_structure = has_internal_structure, mpl_is_type1 = is_type1,
             mpl_tested = False, mpl_test_timestamp = None\<rparr>)"

definition mpl_price :: "MiniPriceLevel \<Rightarrow> price" where
  "mpl_price z = mpl_level z"

section \<open>The contract of the zone classes\<close>

definition wf_zone :: "Zone \<Rightarrow> bool" where
  "wf_zone z \<longleftrightarrow> clean_symbol (z_symbol z) \<and> 0 < z_lower_bound z \<and> z_lower_bound z < z_upper_bound z"

lemma mk_Zone_Inr:
  "mk_Zone sy tf zt u l ts i d = Inr z \<longleftrightarrow> symbol_ok sy \<and> 0 < l \<and> l < u \<and>
     z = \<lparr>z_symbol = norm_symbol (str_strip sy), z_timeframe = tf, z_zone_type = zt, z_upper_bound = u,
          z_lower_bound = l, z_timestamp = ts, z_candle_index = i, z_direction = d\<rparr>"
  by (auto simp: mk_Zone_def mk_model_Inr check_bounds_def not_le)

text \<open>A zone class has a symbol, bounds and a conversion to \<^verbatim>\<open>Zone\<close>; what its constructor
  accepts has ordered positive bounds.\<close>

locale zone_model =
  fixes mk :: "'a \<Rightarrow> string \<Rightarrow> price \<Rightarrow> price \<Rightarrow> 'z result"
    and symbol :: "'z \<Rightarrow> string" and upper lower mid :: "'z \<Rightarrow> price"
    and to_zone :: "'z \<Rightarrow> Zone result" and zone_type :: ZoneType
  assumes mk_Inr: "mk a sy u l = Inr z \<Longrightarrow>
      symbol_ok sy \<and> symbol z = norm_symbol (str_strip sy) \<and> upper z = u \<and> lower z = l \<and> 0 < l \<and> l < u"
    and mid: "mid z = (upper z + lower z) / 2"
    and to_zone: "\<exists>tf ts i d. to_zone z = mk_Zone (symbol z) tf zone_type (upper z) (lower z) ts i d"
begin

lemma mid_inside: "mk a sy u l = Inr z \<Longrightarrow> l < mid z \<and> mid z < u"
  using mk_Inr [of a sy u l z] mid [of z] by simp

text \<open>Converting a constructed zone gives a zone with the same bounds, unless the normalised symbol
  no longer meets the length bounds.\<close>

lemma to_zone_constructed:
  assumes "mk a sy u l = Inr z"
  shows "(\<exists>zn. to_zone z = Inr zn) \<longleftrightarrow> symbol_ok (norm_symbol (str_strip sy))"
    and "to_zone z = Inr zn \<Longrightarrow> z_upper_bound zn = u \<and> z_lower_bound zn = l \<and> z_zone_type zn = zone_type \<and>
      z_midpoint zn = mid z \<and> contains_price zn (mid z)"
proof -
  obtain tf ts i d where tz: "to_zone z = mk_Zone (symbol z) tf zone_type (upper z) (lower z) ts i d"
    using to_zone [of z] by blast
  note k = mk_Inr [OF assms]
  show "(\<exists>zn. to_zone z = Inr zn) \<longleftrightarrow> symbol_ok (norm_symbol (str_strip sy))"
    unfolding tz mk_Zone_Inr using k by simp
  assume "to_zone z = Inr zn"
  then have "zn = \<lparr>z_symbol = norm_symbol (str_strip (symbol z)), z_timeframe = tf,
      z_zone_type = zone_type, z_upper_bound = u, z_lower_bound = l, z_timestamp = ts,
      z_candle_index = i, z_direction = d\<rparr>"
    unfolding tz mk_Zone_Inr using k by simp
  then show "z_upper_bound zn = u \<and> z_lower_bound zn = l \<and> z_zone_type zn = zone_type \<and>
      z_midpoint zn = mid z \<and> contains_price zn (mid z)"
    using mid_inside [OF assms] k mid [of z] by (simp add: z_midpoint_def contains_price_def)
qed

lemma to_zone_clean:
  assumes "mk a sy u l = Inr z" and "clean_symbol sy"
  shows "\<exists>zn. to_zone z = Inr zn \<and> wf_zone zn \<and> z_upper_bound zn = u \<and> z_lower_bound zn = l \<and>
      z_zone_type zn = zone_type"
proof -
  obtain tf ts i d where tz: "to_zone z = mk_Zone (symbol z) tf zone_type (upper z) (lower z) ts i d"
    using to_zone [of z] by blast
  note k = mk_Inr [OF assms(1)]
  have s: "symbol z = sy" "str_strip sy = sy" "norm_symbol sy = sy" "symbol_ok sy"
    using k assms(2) by (auto simp: clean_symbol_def)
  then have "to_zone z = Inr \<lparr>z_symbol = sy, z_timeframe = tf, z_zone_type = zone_type,
      z_upper_bound = u, z_lower_bound = l, z_timestamp = ts, z_candle_index = i, z_direction = d\<rparr>"
    unfolding tz mk_Zone_Inr using k by simp
  then show ?thesis using k assms(2) by (simp add: wf_zone_def)
qed

end

interpretation order_block: zone_model
  "\<lambda>(tf, ts, i, d, disp, br, mi, mt) sy u l. mk_OrderBlock sy tf u l ts i d disp br mi mt"
  ob_symbol ob_upper_bound ob_lower_bound ob_midpoint ob_to_zone ORDER_BLOCK
  by unfold_locales
     (auto simp: mk_OrderBlock_def mk_model_Inr check_bounds_def ob_midpoint_def ob_to_zone_def
       split: if_splits)

interpretation fair_value_gap: zone_model
  "\<lambda>(tf, ts, i, d, fi, ft, fp) sy u l. mk_FairValueGap sy tf u l ts i d fi ft fp"
  fvg_symbol fvg_upper_bound fvg_lower_bound fvg_midpoint fvg_to_zone FVG
  by unfold_locales
     (auto simp: mk_FairValueGap_def mk_model_Inr check_bounds_def fvg_midpoint_def fvg_to_zone_def
       split: if_splits)

interpretation breaker_block: zone_model
  "\<lambda>(tf, ts, i, d, ot, bt, mi, mt) sy u l. mk_BreakerBlock sy tf u l ts i d ot bt mi mt"
  bb_symbol bb_upper_bound bb_lower_bound bb_midpoint bb_to_zone BREAKER
  by unfold_locales
     (auto simp: mk_BreakerBlock_def mk_model_Inr check_bounds_def bb_midpoint_def bb_to_zone_def
       split: if_splits)

interpretation supply_zone: zone_model
  "\<lambda>(tf, ts, ql, qt, fl, ft, v) sy u l. mk_SupplyZone sy tf u l ts ql qt fl ft v"
  sz_symbol sz_upper_bound sz_lower_bound sz_midpoint sz_to_zone SUPPLY
  by unfold_locales
     (auto simp: mk_SupplyZone_def mk_model_Inr check_bounds_def sz_midpoint_def sz_to_zone_def
       split: if_splits)

interpretation demand_zone: zone_model
  "\<lambda>(tf, ts, ql, qt, fl, ft, v) sy u l. mk_DemandZone sy tf u l ts ql qt fl ft v"
  dz_symbol dz_upper_bound dz_lower_bound dz_midpoint dz_to_zone DEMAND
  by unfold_locales
     (auto simp: mk_DemandZone_def mk_model_Inr check_bounds_def dz_midpoint_def dz_to_zone_def
       split: if_splits)

lemma overlaps_iff_shared_price:
  assumes "wf_zone z" and "wf_zone w"
  shows "overlaps_with z w \<longleftrightarrow> (\<exists>p. contains_price z p \<and> contains_price w p)"
proof
  assume "overlaps_with z w"
  then have "contains_price z (max (z_lower_bound z) (z_lower_bound w)) \<and>
      contains_price w (max (z_lower_bound z) (z_lower_bound w))"
    using assms by (auto simp: overlaps_with_def contains_price_def wf_zone_def max_def not_less)
  then show "\<exists>p. contains_price z p \<and> contains_price w p" by blast
next
  assume "\<exists>p. contains_price z p \<and> contains_price w p"
  then show "overlaps_with z w" unfolding overlaps_with_def contains_price_def by force
qed

section \<open>Properties\<close>

text \<open>Converting a zone model to the common zone keeps its bounds and its type and never raises
  when the symbol is already normalised; the order block, the gap, the breaker and the supply and
  demand zones share this contract. Two converted zones overlap exactly when some price lies in
  both.\<close>

theorem to_zone_contract:
  assumes "clean_symbol sy"
    and "mk_OrderBlock sy tf u l ts i d disp br mi mt = Inr ob"
    and "mk_FairValueGap sy tf u' l' ts' i' d' fi ft fp = Inr fvg"
  shows "\<exists>z w. ob_to_zone ob = Inr z \<and> fvg_to_zone fvg = Inr w \<and>
     z_zone_type z = ORDER_BLOCK \<and> z_zone_type w = FVG \<and>
     z_upper_bound z = u \<and> z_lower_bound z = l \<and> z_upper_bound w = u' \<and> z_lower_bound w = l' \<and>
     (overlaps_with z w \<longleftrightarrow> (\<exists>p. contains_price z p \<and> contains_price w p))"
proof -
  obtain z where z: "ob_to_zone ob = Inr z" "wf_zone z" "z_upper_bound z = u" "z_lower_bound z = l"
      "z_zone_type z = ORDER_BLOCK"
    using order_block.to_zone_clean [of "(tf, ts, i, d, disp, br, mi, mt)" sy u l ob] assms by auto
  obtain w where w: "fvg_to_zone fvg = Inr w" "wf_zone w" "z_upper_bound w = u'"
      "z_lower_bound w = l'" "z_zone_type w = FVG"
    using fair_value_gap.to_zone_clean [of "(tf, ts', i', d', fi, ft, fp)" sy u' l' fvg] assms by auto
  from overlaps_iff_shared_price [OF z(2) w(2)] z w show ?thesis by blast
qed

theorem to_zone_contract_witness:
  "\<exists>ob fvg z w. mk_OrderBlock ''EURUSD'' H1 2 1 0 0 BULLISH 20 False False None = Inr ob \<and>
     mk_FairValueGap ''EURUSD'' H1 3 1 0 0 BULLISH False None 0 = Inr fvg \<and>
     ob_to_zone ob = Inr z \<and> fvg_to_zone fvg = Inr w \<and> overlaps_with z w"
proof -
  obtain ob where ob: "mk_OrderBlock ''EURUSD'' H1 2 1 0 0 BULLISH 20 False False None = Inr ob"
    by (simp add: mk_OrderBlock_def mk_model_clean check_bounds_def)
  obtain fvg where fvg: "mk_FairValueGap ''EURUSD'' H1 3 1 0 0 BULLISH False None 0 = Inr fvg"
    by (simp add: mk_FairValueGap_def mk_model_clean check_bounds_def)
  obtain z w where zw: "ob_to_zone ob = Inr z" "fvg_to_zone fvg = Inr w"
      "z_upper_bound z = 2" "z_lower_bound z = 1" "z_upper_bound w = 3" "z_lower_bound w = 1"
    using to_zone_contract [OF clean_EURUSD ob fvg] by (elim exE conjE) simp
  then have "overlaps_with z w" by (simp add: overlaps_with_def)
  with ob fvg zw show ?thesis by blast
qed

end
