(* ===== verification/StructureModels.thy ===== *)
theory StructureModels
  imports Candle
begin

text \<open>
  The market-structure events of \<^verbatim>\<open>engine/ta/models/structure_event.py\<close>: breaks of
  structure, changes of character, shifts and support/resistance flips, their constructors'
  validation and their conversion to the common \<^verbatim>\<open>StructureEvent\<close>.
\<close>

section \<open>StructureEvent\<close>

record StructureEvent =
  se_symbol :: string
  se_timeframe :: Timeframe
  se_event_type :: StructureType
  se_timestamp :: datetime
  se_price :: price
  se_direction :: Direction
  se_broken_level :: price
  se_broken_level_timestamp :: datetime
  se_candle_index :: nat

definition mk_StructureEvent ::
  "string \<Rightarrow> Timeframe \<Rightarrow> StructureType \<Rightarrow> datetime \<Rightarrow>
   price \<Rightarrow> Direction \<Rightarrow> price \<Rightarrow> datetime \<Rightarrow> nat \<Rightarrow> StructureEvent result" where
  "mk_StructureEvent symbol timeframe event_type timestamp price direction broken_level broken_level_timestamp
       candle_index =
     mk_model ''StructureEvent'' symbol (0 < price \<and> 0 < broken_level)
       (\<lambda>s. \<lparr>se_symbol = s, se_timeframe = timeframe, se_event_type = event_type,
             se_timestamp = timestamp, se_price = price, se_direction = direction,
             se_broken_level = broken_level, se_broken_level_timestamp = broken_level_timestamp,
             se_candle_index = candle_index\<rparr>)"

section \<open>BreakOfStructure\<close>

record BreakOfStructure =
  bos_symbol :: string
  bos_timeframe :: Timeframe
  bos_timestamp :: datetime
  bos_direction :: Direction
  bos_broken_level :: price
  bos_broken_level_timestamp :: datetime
  bos_breakout_price :: price
  bos_candle_index :: nat
  bos_displacement_pips :: rat

definition mk_BreakOfStructure ::
  "string \<Rightarrow> Timeframe \<Rightarrow> datetime \<Rightarrow> Direction \<Rightarrow>
   price \<Rightarrow> datetime \<Rightarrow> price \<Rightarrow> nat \<Rightarrow> rat \<Rightarrow> BreakOfStructure result" where
  "mk_BreakOfStructure symbol timeframe timestamp direction broken_level broken_level_timestamp breakout_price
       candle_index displacement_pips =
     mk_model ''BreakOfStructure'' symbol (0 < broken_level \<and> 0 < breakout_price \<and> 0 \<le> displacement_pips)
       (\<lambda>s. \<lparr>bos_symbol = s, bos_timeframe = timeframe, bos_timestamp = timestamp,
             bos_direction = direction, bos_broken_level = broken_level,
             bos_broken_level_timestamp = broken_level_timestamp,
             bos_breakout_price = breakout_price, bos_candle_index = candle_index,
             bos_displacement_pips = displacement_pips\<rparr>)"

definition bos_to_structure_event :: "BreakOfStructure \<Rightarrow> StructureEvent result" where
  "bos_to_structure_event e = mk_StructureEvent (bos_symbol e) (bos_timeframe e) BOS (bos_timestamp e)
     (bos_breakout_price e) (bos_direction e) (bos_broken_level e) (bos_broken_level_timestamp e)
     (bos_candle_index e)"

section \<open>ChangeOfCharacter\<close>

record ChangeOfCharacter =
  coc_symbol :: string
  coc_timeframe :: Timeframe
  coc_timestamp :: datetime
  coc_direction :: Direction
  coc_broken_level :: price
  coc_broken_level_timestamp :: datetime
  coc_breakout_price :: price
  coc_candle_index :: nat
  coc_is_minor :: bool

definition mk_ChangeOfCharacter ::
  "string \<Rightarrow> Timeframe \<Rightarrow> datetime \<Rightarrow> Direction \<Rightarrow>
   price \<Rightarrow> datetime \<Rightarrow> price \<Rightarrow> nat \<Rightarrow> bool \<Rightarrow> ChangeOfCharacter result" where
  "mk_ChangeOfCharacter symbol timeframe timestamp direction broken_level broken_level_timestamp breakout_price
       candle_index is_minor =
     mk_model ''ChangeOfCharacter'' symbol (0 < broken_level \<and> 0 < breakout_price)
       (\<lambda>s. \<lparr>coc_symbol = s, coc_timeframe = timeframe, coc_timestamp = timestamp,
             coc_direction = direction, coc_broken_level = broken_level,
             coc_broken_level_timestamp = broken_level_timestamp,
             coc_breakout_price = breakout_price, coc_candle_index = candle_index,
             coc_is_minor = is_minor\<rparr>)"

definition coc_to_structure_event :: "ChangeOfCharacter \<Rightarrow> StructureEvent result" where
  "coc_to_structure_event e = mk_StructureEvent (coc_symbol e) (coc_timeframe e) CHOCH (coc_timestamp e)
     (coc_breakout_price e) (coc_direction e) (coc_broken_level e) (coc_broken_level_timestamp e)
     (coc_candle_index e)"

section \<open>BreakInMarketStructure\<close>

record BreakInMarketStructure =
  bms_symbol :: string
  bms_timeframe :: Timeframe
  bms_timestamp :: datetime
  bms_direction :: Direction
  bms_broken_level :: price
  bms_broken_level_timestamp :: datetime
  bms_breakout_price :: price
  bms_candle_index :: nat
  bms_displacement_pips :: rat
  bms_confirmed :: bool

definition mk_BreakInMarketStructure ::
  "string \<Rightarrow> Timeframe \<Rightarrow> datetime \<Rightarrow> Direction \<Rightarrow>
   price \<Rightarrow> datetime \<Rightarrow> price \<Rightarrow> nat \<Rightarrow>
   rat \<Rightarrow> bool \<Rightarrow> BreakInMarketStructure result" where
  "mk_BreakInMarketStructure symbol timeframe timestamp direction broken_level broken_level_timestamp breakout_price
       candle_index displacement_pips confirmed =
     mk_model ''BreakInMarketStructure'' symbol (0 < broken_level \<and> 0 < breakout_price \<and> 0 \<le> displacement_pips)
       (\<lambda>s. \<lparr>bms_symbol = s, bms_timeframe = timeframe, bms_timestamp = timestamp,
             bms_direction = direction, bms_broken_level = broken_level,
             bms_broken_level_timestamp = broken_level_timestamp,
             bms_breakout_price = breakout_price, bms_candle_index = candle_index,
             bms_displacement_pips = displacement_pips, bms_confirmed = confirmed\<rparr>)"

definition bms_to_structure_event :: "BreakInMarketStructure \<Rightarrow> StructureEvent result" where
  "bms_to_structure_event e = mk_StructureEvent (bms_symbol e) (bms_timeframe e) BMS (bms_timestamp e)
     (bms_breakout_price e) (bms_direction e) (bms_broken_level e) (bms_broken_level_timestamp e)
     (bms_candle_index e)"

section \<open>ShiftInMarketStructure\<close>

record ShiftInMarketStructure =
  sms_symbol :: string
  sms_timeframe :: Timeframe
  sms_timestamp :: datetime
  sms_direction :: Direction
  sms_failed_level :: price
  sms_failed_level_timestamp :: datetime
  sms_reversal_price :: price
  sms_candle_index :: nat
  sms_is_failure_swing :: bool

definition mk_ShiftInMarketStructure ::
  "string \<Rightarrow> Timeframe \<Rightarrow> datetime \<Rightarrow> Direction \<Rightarrow>
   price \<Rightarrow> datetime \<Rightarrow> price \<Rightarrow> nat \<Rightarrow> bool \<Rightarrow> ShiftInMarketStructure result" where
  "mk_ShiftInMarketStructure symbol timeframe timestamp direction failed_level failed_level_timestamp reversal_price
       candle_index is_failure_swing =
     mk_model ''ShiftInMarketStructure'' symbol (0 < failed_level \<and> 0 < reversal_price)
       (\<lambda>s. \<lparr>sms_symbol = s, sms_timeframe = timeframe, sms_timestamp = timestamp,
             sms_direction = direction, sms_failed_level = failed_level,
             sms_failed_level_timestamp = failed_level_timestamp,
             sms_reversal_price = reversal_price, sms_candle_index = candle_index,
             sms_is_failure_swing = is_failure_swing\<rparr>)"

definition sms_to_structure_event :: "ShiftInMarketStructure \<Rightarrow> StructureEvent result" where
  "sms_to_structure_event e = mk_StructureEvent (sms_symbol e) (sms_timeframe e) SMS (sms_timestamp e)
     (sms_reversal_price e) (sms_direction e) (sms_failed_level e) (sms_failed_level_timestamp e)
     (sms_candle_index e)"

section \<open>SRFlip\<close>

record SRFlip =
  srf_symbol :: string
  srf_timeframe :: Timeframe
  srf_timestamp :: datetime
  srf_original_support_level :: price
  srf_original_support_timestamp :: datetime
  srf_breakout_candle_index :: nat
  srf_breakout_price :: price
  srf_new_resistance_level :: price
  srf_direction :: Direction
  srf_is_valid :: bool

definition mk_SRFlip ::
  "string \<Rightarrow> Timeframe \<Rightarrow> datetime \<Rightarrow> price \<Rightarrow>
   datetime \<Rightarrow> nat \<Rightarrow> price \<Rightarrow> price \<Rightarrow>
   Direction \<Rightarrow> bool \<Rightarrow> SRFlip result" where
  "mk_SRFlip symbol timeframe timestamp original_support_level original_support_timestamp
       breakout_candle_index breakout_price new_resistance_level direction is_valid =
     mk_model ''SRFlip'' symbol (0 < original_support_level \<and> 0 < breakout_price \<and> 0 < new_resistance_level)
       (\<lambda>s. \<lparr>srf_symbol = s, srf_timeframe = timeframe, srf_timestamp = timestamp,
             srf_original_support_level = original_support_level,
             srf_original_support_timestamp = original_support_timestamp,
             srf_breakout_candle_index = breakout_candle_index,
             srf_breakout_price = breakout_price,
             srf_new_resistance_level = new_resistance_level, srf_direction = direction,
             srf_is_valid = is_valid\<rparr>)"

definition srf_to_structure_event :: "SRFlip \<Rightarrow> StructureEvent result" where
  "srf_to_structure_event e = mk_StructureEvent (srf_symbol e) (srf_timeframe e) SR_FLIP (srf_timestamp e)
     (srf_breakout_price e) BEARISH (srf_original_support_level e) (srf_original_support_timestamp e)
     (srf_breakout_candle_index e)"

section \<open>RSFlip\<close>

record RSFlip =
  rsf_symbol :: string
  rsf_timeframe :: Timeframe
  rsf_timestamp :: datetime
  rsf_original_resistance_level :: price
  rsf_original_resistance_timestamp :: datetime
  rsf_breakout_candle_index :: nat
  rsf_breakout_price :: price
  rsf_new_support_level :: price
  rsf_direction :: Direction
  rsf_is_valid :: bool

definition mk_RSFlip ::
  "string \<Rightarrow> Timeframe \<Rightarrow> datetime \<Rightarrow> price \<Rightarrow>
   datetime \<Rightarrow> nat \<Rightarrow> price \<Rightarrow> price \<Rightarrow>
   Direction \<Rightarrow> bool \<Rightarrow> RSFlip result" where
  "mk_RSFlip symbol timeframe timestamp original_resistance_level original_resistance_timestamp
       breakout_candle_index breakout_price new_support_level direction is_valid =
     mk_model ''RSFlip'' symbol (0 < original_resistance_level \<and> 0 < breakout_price \<and> 0 < new_support_level)
       (\<lambda>s. \<lparr>rsf_symbol = s, rsf_timeframe = timeframe, rsf_timestamp = timestamp,
             rsf_original_resistance_level = original_resistance_level,
             rsf_original_resistance_timestamp = original_resistance_timestamp,
             rsf_breakout_candle_index = breakout_candle_index,
             rsf_breakout_price = breakout_price, rsf_new_support_level = new_support_level,
             rsf_direction = direction, rsf_is_valid = is_valid\<rparr>)"

definition rsf_to_structure_event :: "RSFlip \<Rightarrow> StructureEvent result" where
  "rsf_to_structure_event e = mk_StructureEvent (rsf_symbol e) (rsf_timeframe e) RS_FLIP (rsf_timestamp e)
     (rsf_breakout_price e) BULLISH (rsf_original_resistance_level e) (rsf_original_resistance_timestamp e)
     (rsf_breakout_candle_index e)"

lemmas structure_makers =
  mk_StructureEvent_def mk_BreakOfStructure_def mk_ChangeOfCharacter_def mk_BreakInMarketStructure_def
  mk_ShiftInMarketStructure_def mk_SRFlip_def mk_RSFlip_def

lemmas structure_converters =
  bos_to_structure_event_def coc_to_structure_event_def bms_to_structure_event_def
  sms_to_structure_event_def srf_to_structure_event_def rsf_to_structure_event_def

end
