(* ===== verification/Swing.thy ===== *)
theory Swing
  imports Candle
begin

text \<open>
  Swing points: the models of \<^verbatim>\<open>engine/ta/models/swing.py\<close> and
  \<^verbatim>\<open>SwingAnalyzer\<close> of \<^verbatim>\<open>engine/ta/common/analyzers/swings.py\<close>. Bar counts and
  indices are natural numbers, as the models' field constraints require.
\<close>

section \<open>Models\<close>

record SwingPoint =
  sp_symbol :: string
  sp_timeframe :: Timeframe
  sp_timestamp :: datetime
  sp_price :: price
  sp_index :: nat
  sp_strength :: nat
  sp_direction :: Direction

record SwingHigh =
  sh_symbol :: string
  sh_timeframe :: Timeframe
  sh_timestamp :: datetime
  sh_price :: price
  sh_index :: nat
  sh_strength :: nat
  sh_left_bars :: nat
  sh_right_bars :: nat
  sh_is_equal_high :: bool
  sh_equal_high_tolerance_pips :: "rat option"

record SwingLow =
  sl_symbol :: string
  sl_timeframe :: Timeframe
  sl_timestamp :: datetime
  sl_price :: price
  sl_index :: nat
  sl_strength :: nat
  sl_left_bars :: nat
  sl_right_bars :: nat
  sl_is_equal_low :: bool
  sl_equal_low_tolerance_pips :: "rat option"

definition mk_SwingPoint ::
  "string \<Rightarrow> Timeframe \<Rightarrow> datetime \<Rightarrow> price \<Rightarrow> nat \<Rightarrow> nat \<Rightarrow> Direction \<Rightarrow> SwingPoint result" where
  "mk_SwingPoint symbol timeframe timestamp price index strength direction =
     (case symbol_field 3 30 symbol of
        None \<Rightarrow> Inl (ValidationError ''SwingPoint'')
      | Some s \<Rightarrow>
          if \<not> (0 < price \<and> 1 \<le> strength \<and> strength \<le> 10)
          then Inl (ValidationError ''SwingPoint'')
          else Inr \<lparr>sp_symbol = s, sp_timeframe = timeframe, sp_timestamp = timestamp,
                    sp_price = price, sp_index = index, sp_strength = strength,
                    sp_direction = direction\<rparr>)"

definition sp_is_high :: "SwingPoint \<Rightarrow> bool" where
  "sp_is_high p \<longleftrightarrow> sp_direction p = BEARISH"

definition sp_is_low :: "SwingPoint \<Rightarrow> bool" where
  "sp_is_low p \<longleftrightarrow> sp_direction p = BULLISH"

definition mk_SwingHigh ::
  "string \<Rightarrow> Timeframe \<Rightarrow> datetime \<Rightarrow> price \<Rightarrow> nat \<Rightarrow> nat \<Rightarrow> nat \<Rightarrow> nat \<Rightarrow> bool \<Rightarrow> rat option \<Rightarrow>
   SwingHigh result" where
  "mk_SwingHigh symbol timeframe timestamp price index strength left_bars right_bars
       is_equal_high tolerance =
     (case symbol_field 3 30 symbol of
        None \<Rightarrow> Inl (ValidationError ''SwingHigh'')
      | Some s \<Rightarrow>
          if \<not> (0 < price \<and> 1 \<le> strength \<and> strength \<le> 10 \<and> 1 \<le> left_bars \<and> 1 \<le> right_bars \<and>
                (\<forall>t \<in> set_option tolerance. 0 \<le> t))
          then Inl (ValidationError ''SwingHigh'')
          else Inr \<lparr>sh_symbol = s, sh_timeframe = timeframe, sh_timestamp = timestamp,
                    sh_price = price, sh_index = index, sh_strength = strength,
                    sh_left_bars = left_bars, sh_right_bars = right_bars,
                    sh_is_equal_high = is_equal_high,
                    sh_equal_high_tolerance_pips = tolerance\<rparr>)"

definition mk_SwingLow ::
  "string \<Rightarrow> Timeframe \<Rightarrow> datetime \<Rightarrow> price \<Rightarrow> nat \<Rightarrow> nat \<Rightarrow> nat \<Rightarrow> nat \<Rightarrow> bool \<Rightarrow> rat option \<Rightarrow>
   SwingLow result" where
  "mk_SwingLow symbol timeframe timestamp price index strength left_bars right_bars
       is_equal_low tolerance =
     (case symbol_field 3 30 symbol of
        None \<Rightarrow> Inl (ValidationError ''SwingLow'')
      | Some s \<Rightarrow>
          if \<not> (0 < price \<and> 1 \<le> strength \<and> strength \<le> 10 \<and> 1 \<le> left_bars \<and> 1 \<le> right_bars \<and>
                (\<forall>t \<in> set_option tolerance. 0 \<le> t))
          then Inl (ValidationError ''SwingLow'')
          else Inr \<lparr>sl_symbol = s, sl_timeframe = timeframe, sl_timestamp = timestamp,
                    sl_price = price, sl_index = index, sl_strength = strength,
                    sl_left_bars = left_bars, sl_right_bars = right_bars,
                    sl_is_equal_low = is_equal_low,
                    sl_equal_low_tolerance_pips = tolerance\<rparr>)"

definition sh_to_swing_point :: "SwingHigh \<Rightarrow> SwingPoint result" where
  "sh_to_swing_point s = mk_SwingPoint (sh_symbol s) (sh_timeframe s) (sh_timestamp s) (sh_price s)
     (sh_index s) (sh_strength s) BEARISH"

definition sl_to_swing_point :: "SwingLow \<Rightarrow> SwingPoint result" where
  "sl_to_swing_point s = mk_SwingPoint (sl_symbol s) (sl_timeframe s) (sl_timestamp s) (sl_price s)
     (sl_index s) (sl_strength s) BULLISH"

section \<open>The analyzer\<close>

record SwingAnalyzer =
  sa_left_bars :: nat
  sa_right_bars :: nat
  sa_equal_tolerance_pips :: rat

definition HTF_BAR_OVERRIDES :: "(Timeframe \<times> nat \<times> nat) list" where
  "HTF_BAR_OVERRIDES = [(D1, 3, 3), (W1, 2, 2), (MN1, 2, 1)]"

definition get_effective_bars :: "SwingAnalyzer \<Rightarrow> CandleSequence \<Rightarrow> nat \<times> nat" where
  "get_effective_bars self sequence =
     (case map_of HTF_BAR_OVERRIDES (seq_timeframe sequence) of
        Some override \<Rightarrow> override
      | None \<Rightarrow> (sa_left_bars self, sa_right_bars self))"

text \<open>\<^verbatim>\<open>_calculate_strength\<close>: the two counting loops stop at the first candle that is not
  dominated.\<close>

definition calculate_strength :: "Candle list \<Rightarrow> nat \<Rightarrow> bool \<Rightarrow> nat" where
  "calculate_strength candles index is_high =
     (let current = candles ! index;
          dominated = (\<lambda>c. is_high \<and> c_high c \<le> c_high current \<or>
                           \<not> is_high \<and> c_low current \<le> c_low c);
          left_count = length (takeWhile dominated (rev (take index candles)));
          right_count = length (takeWhile dominated (drop (index + 1) candles));
          total_dominated = left_count + right_count
      in if total_dominated < 14 then 3
         else if total_dominated < 20 then 5
         else if total_dominated < 30 then 7
         else if total_dominated < 40 then 8
         else if total_dominated < 50 then 9
         else 10)"

text \<open>\<^verbatim>\<open>xs[-5:] if len(xs) > 5 else xs\<close>.\<close>

definition recent5 :: "'a list \<Rightarrow> 'a list" where
  "recent5 xs = (if 5 < length xs then drop (length xs - 5) xs else xs)"

definition check_equal_high :: "SwingAnalyzer \<Rightarrow> price \<Rightarrow> SwingHigh list \<Rightarrow> string \<Rightarrow> bool result" where
  "check_equal_high self price existing_highs symbol =
     (if existing_highs = [] then Inr False
      else anyR (\<lambda>s. is_within_tolerance price (sh_price s) (sa_equal_tolerance_pips self) symbol)
             (recent5 existing_highs))"

definition check_equal_low :: "SwingAnalyzer \<Rightarrow> price \<Rightarrow> SwingLow list \<Rightarrow> string \<Rightarrow> bool result" where
  "check_equal_low self price existing_lows symbol =
     (if existing_lows = [] then Inr False
      else anyR (\<lambda>s. is_within_tolerance price (sl_price s) (sa_equal_tolerance_pips self) symbol)
             (recent5 existing_lows))"

text \<open>The two inner loops of \<^verbatim>\<open>detect_swing_highs\<close>: no candle of the left and right windows
  reaches the current high.\<close>

definition is_swing_high :: "Candle list \<Rightarrow> nat \<Rightarrow> nat \<Rightarrow> nat \<Rightarrow> bool" where
  "is_swing_high candles left right i \<longleftrightarrow>
     list_all (\<lambda>j. \<not> c_high (candles ! i) \<le> c_high (candles ! j)) [i - left..<i] \<and>
     list_all (\<lambda>j. \<not> c_high (candles ! i) \<le> c_high (candles ! j)) [i + 1..<i + right + 1]"

definition is_swing_low :: "Candle list \<Rightarrow> nat \<Rightarrow> nat \<Rightarrow> nat \<Rightarrow> bool" where
  "is_swing_low candles left right i \<longleftrightarrow>
     list_all (\<lambda>j. \<not> c_low (candles ! j) \<le> c_low (candles ! i)) [i - left..<i] \<and>
     list_all (\<lambda>j. \<not> c_low (candles ! j) \<le> c_low (candles ! i)) [i + 1..<i + right + 1]"

definition build_swing_high ::
  "SwingAnalyzer \<Rightarrow> Candle list \<Rightarrow> nat \<Rightarrow> nat \<Rightarrow> nat \<Rightarrow> SwingHigh list \<Rightarrow> SwingHigh result" where
  "build_swing_high self candles left right i swing_highs =
     (let current = candles ! i in
      bindR (check_equal_high self (c_high current) swing_highs (c_symbol current)) (\<lambda>is_equal.
        mk_SwingHigh (c_symbol current) (c_timeframe current) (c_timestamp current)
          (c_high current) i (calculate_strength candles i True) left right is_equal
          (if is_equal then Some (sa_equal_tolerance_pips self) else None)))"

definition build_swing_low ::
  "SwingAnalyzer \<Rightarrow> Candle list \<Rightarrow> nat \<Rightarrow> nat \<Rightarrow> nat \<Rightarrow> SwingLow list \<Rightarrow> SwingLow result" where
  "build_swing_low self candles left right i swing_lows =
     (let current = candles ! i in
      bindR (check_equal_low self (c_low current) swing_lows (c_symbol current)) (\<lambda>is_equal.
        mk_SwingLow (c_symbol current) (c_timeframe current) (c_timestamp current)
          (c_low current) i (calculate_strength candles i False) left right is_equal
          (if is_equal then Some (sa_equal_tolerance_pips self) else None)))"

definition detect_swing_highs :: "SwingAnalyzer \<Rightarrow> CandleSequence \<Rightarrow> SwingHigh list result" where
  "detect_swing_highs self sequence =
     (let candles = seq_candles sequence;
          (left, right) = get_effective_bars self sequence
      in build_loop (is_swing_high candles left right) (build_swing_high self candles left right)
           [left..<length candles - right] [])"

definition detect_swing_lows :: "SwingAnalyzer \<Rightarrow> CandleSequence \<Rightarrow> SwingLow list result" where
  "detect_swing_lows self sequence =
     (let candles = seq_candles sequence;
          (left, right) = get_effective_bars self sequence
      in build_loop (is_swing_low candles left right) (build_swing_low self candles left right)
           [left..<length candles - right] [])"

definition get_latest_swing_high :: "SwingHigh list \<Rightarrow> SwingHigh option" where
  "get_latest_swing_high swing_highs = max_key sh_timestamp swing_highs"

definition get_latest_swing_low :: "SwingLow list \<Rightarrow> SwingLow option" where
  "get_latest_swing_low swing_lows = max_key sl_timestamp swing_lows"

definition get_highest_swing_high :: "SwingHigh list \<Rightarrow> SwingHigh option" where
  "get_highest_swing_high swing_highs = max_key sh_price swing_highs"

definition get_lowest_swing_low :: "SwingLow list \<Rightarrow> SwingLow option" where
  "get_lowest_swing_low swing_lows = min_key sl_price swing_lows"

section \<open>Specification of a swing point\<close>

text \<open>What a swing point is meant to be: the strict extreme of its window.\<close>

definition strict_max_at :: "(Candle \<Rightarrow> price) \<Rightarrow> Candle list \<Rightarrow> nat \<Rightarrow> nat \<Rightarrow> nat \<Rightarrow> bool" where
  "strict_max_at f cs left right i \<longleftrightarrow>
     (\<forall>j. i - left \<le> j \<and> j \<le> i + right \<and> j \<noteq> i \<longrightarrow> f (cs ! j) < f (cs ! i))"

lemma is_swing_high_iff: "is_swing_high cs l r i \<longleftrightarrow> strict_max_at c_high cs l r i"
proof -
  have *: "i - l \<le> j \<and> j \<le> i + r \<and> j \<noteq> i \<longleftrightarrow>
      (i - l \<le> j \<and> j < i) \<or> (i + 1 \<le> j \<and> j < i + r + 1)" for j
    by arith
  show ?thesis
    unfolding is_swing_high_def strict_max_at_def list_all_iff set_upt * by (auto simp: not_le)
qed

lemma is_swing_low_iff: "is_swing_low cs l r i \<longleftrightarrow> strict_max_at (\<lambda>c. - c_low c) cs l r i"
proof -
  have *: "i - l \<le> j \<and> j \<le> i + r \<and> j \<noteq> i \<longleftrightarrow>
      (i - l \<le> j \<and> j < i) \<or> (i + 1 \<le> j \<and> j < i + r + 1)" for j
    by arith
  show ?thesis
    unfolding is_swing_low_def strict_max_at_def list_all_iff set_upt * by (auto simp: not_le)
qed

lemma strict_max_apart:
  assumes "strict_max_at f cs l r i" and "strict_max_at f cs l r j" and "i < j"
  shows "min l r < j - i"
proof (rule ccontr)
  assume "\<not> min l r < j - i"
  then have "j - i \<le> l" "j - i \<le> r" by simp_all
  then have "j - l \<le> i" "j \<le> i + r" using assms(3) by arith+
  then have "f (cs ! j) < f (cs ! i)" "f (cs ! i) < f (cs ! j)"
    using assms unfolding strict_max_at_def by auto
  then show False by simp
qed

lemma calculate_strength_range: "calculate_strength cs i b \<in> {3, 5, 7, 8, 9, 10}"
  by (simp add: calculate_strength_def Let_def)

lemma strength_bounds: "1 \<le> calculate_strength cs i b" "calculate_strength cs i b \<le> 10"
  using calculate_strength_range [of cs i b] by auto

lemma mk_SwingHigh_Inr:
  "mk_SwingHigh sy tf ts p i st l r eq tol = Inr sh \<longleftrightarrow>
     symbol_ok sy \<and> 0 < p \<and> 1 \<le> st \<and> st \<le> 10 \<and> 1 \<le> l \<and> 1 \<le> r \<and> (\<forall>t \<in> set_option tol. 0 \<le> t) \<and>
     sh = \<lparr>sh_symbol = norm_symbol (str_strip sy), sh_timeframe = tf, sh_timestamp = ts,
           sh_price = p, sh_index = i, sh_strength = st, sh_left_bars = l, sh_right_bars = r,
           sh_is_equal_high = eq, sh_equal_high_tolerance_pips = tol\<rparr>"
  by (auto simp: mk_SwingHigh_def symbol_field_Some split: option.splits)

lemma mk_SwingLow_Inr:
  "mk_SwingLow sy tf ts p i st l r eq tol = Inr sl \<longleftrightarrow>
     symbol_ok sy \<and> 0 < p \<and> 1 \<le> st \<and> st \<le> 10 \<and> 1 \<le> l \<and> 1 \<le> r \<and> (\<forall>t \<in> set_option tol. 0 \<le> t) \<and>
     sl = \<lparr>sl_symbol = norm_symbol (str_strip sy), sl_timeframe = tf, sl_timestamp = ts,
           sl_price = p, sl_index = i, sl_strength = st, sl_left_bars = l, sl_right_bars = r,
           sl_is_equal_low = eq, sl_equal_low_tolerance_pips = tol\<rparr>"
  by (auto simp: mk_SwingLow_def symbol_field_Some split: option.splits)

section \<open>Detection never raises\<close>

text \<open>What each emitted swing point carries over from its candle.\<close>

definition sh_from :: "Candle list \<Rightarrow> SwingHigh \<Rightarrow> bool" where
  "sh_from cs sh \<longleftrightarrow> sh_index sh < length cs \<and> sh_price sh = c_high (cs ! sh_index sh) \<and>
     sh_timestamp sh = c_timestamp (cs ! sh_index sh) \<and>
     sh_strength sh = calculate_strength cs (sh_index sh) True \<and> 0 < sh_price sh \<and>
     symbol_ok (c_symbol (cs ! sh_index sh)) \<and>
     sh_symbol sh = norm_symbol (str_strip (c_symbol (cs ! sh_index sh))) \<and>
     sh_timeframe sh = c_timeframe (cs ! sh_index sh)"

definition sl_from :: "Candle list \<Rightarrow> SwingLow \<Rightarrow> bool" where
  "sl_from cs sl \<longleftrightarrow> sl_index sl < length cs \<and> sl_price sl = c_low (cs ! sl_index sl) \<and>
     sl_timestamp sl = c_timestamp (cs ! sl_index sl) \<and>
     sl_strength sl = calculate_strength cs (sl_index sl) False \<and> 0 < sl_price sl \<and>
     symbol_ok (c_symbol (cs ! sl_index sl)) \<and>
     sl_symbol sl = norm_symbol (str_strip (c_symbol (cs ! sl_index sl))) \<and>
     sl_timeframe sl = c_timeframe (cs ! sl_index sl)"

lemma set_recent5: "x \<in> set (recent5 xs) \<Longrightarrow> x \<in> set xs"
  by (auto simp: recent5_def dest: in_set_dropD split: if_splits)

lemma check_equal_high_Inr [no_raise]:
  assumes "0 \<le> p" and "0 \<le> sa_equal_tolerance_pips self" and "\<forall>s \<in> set acc. 0 < sh_price s"
  shows "check_equal_high self p acc sy = Inr (\<exists>s \<in> set (recent5 acc).
     \<bar>p - sh_price s\<bar> / get_pip_value sy \<le> sa_equal_tolerance_pips self)"
proof (cases "acc = []")
  case False
  have "anyR (\<lambda>s. is_within_tolerance p (sh_price s) (sa_equal_tolerance_pips self) sy) (recent5 acc) =
      Inr (\<exists>s \<in> set (recent5 acc). \<bar>p - sh_price s\<bar> / get_pip_value sy \<le> sa_equal_tolerance_pips self)"
    using assms by (intro anyR_Inr is_within_tolerance_Inr) (auto dest!: set_recent5 intro: less_imp_le)
  with False show ?thesis by (simp add: check_equal_high_def)
qed (simp add: check_equal_high_def recent5_def)

lemma check_equal_low_Inr [no_raise]:
  assumes "0 \<le> p" and "0 \<le> sa_equal_tolerance_pips self" and "\<forall>s \<in> set acc. 0 < sl_price s"
  shows "check_equal_low self p acc sy = Inr (\<exists>s \<in> set (recent5 acc).
     \<bar>p - sl_price s\<bar> / get_pip_value sy \<le> sa_equal_tolerance_pips self)"
proof (cases "acc = []")
  case False
  have "anyR (\<lambda>s. is_within_tolerance p (sl_price s) (sa_equal_tolerance_pips self) sy) (recent5 acc) =
      Inr (\<exists>s \<in> set (recent5 acc). \<bar>p - sl_price s\<bar> / get_pip_value sy \<le> sa_equal_tolerance_pips self)"
    using assms by (intro anyR_Inr is_within_tolerance_Inr) (auto dest!: set_recent5 intro: less_imp_le)
  with False show ?thesis by (simp add: check_equal_low_def)
qed (simp add: check_equal_low_def recent5_def)

lemma build_swing_high_ok:
  assumes "wf_market s" and "i < length (seq_candles s)" and "0 \<le> sa_equal_tolerance_pips self"
    and "1 \<le> l" and "1 \<le> r" and "\<forall>x \<in> set acc. sh_from (seq_candles s) x"
  shows "\<exists>x. build_swing_high self (seq_candles s) l r i acc = Inr x \<and> sh_index x = i \<and>
     sh_from (seq_candles s) x"
proof -
  note c = wf_marketD [OF assms(1,2)]
  have "\<forall>x \<in> set acc. 0 < sh_price x" using assms(6) unfolding sh_from_def by blast
  then obtain b where "check_equal_high self (c_high (seq_candles s ! i)) acc
      (c_symbol (seq_candles s ! i)) = Inr b"
    using check_equal_high_Inr [of "c_high (seq_candles s ! i)" self acc] assms(3)
      wf_candleD(4) [OF c(1)] by (simp add: less_imp_le)
  then show ?thesis
    using c assms(2-5) wf_candleD(4) [OF c(1)] strength_bounds
    by (simp add: build_swing_high_def Let_def mk_SwingHigh_Inr sh_from_def)
qed

lemma build_swing_low_ok:
  assumes "wf_market s" and "i < length (seq_candles s)" and "0 \<le> sa_equal_tolerance_pips self"
    and "1 \<le> l" and "1 \<le> r" and "\<forall>x \<in> set acc. sl_from (seq_candles s) x"
  shows "\<exists>x. build_swing_low self (seq_candles s) l r i acc = Inr x \<and> sl_index x = i \<and>
     sl_from (seq_candles s) x"
proof -
  note c = wf_marketD [OF assms(1,2)]
  have "\<forall>x \<in> set acc. 0 < sl_price x" using assms(6) unfolding sl_from_def by blast
  then obtain b where "check_equal_low self (c_low (seq_candles s ! i)) acc
      (c_symbol (seq_candles s ! i)) = Inr b"
    using check_equal_low_Inr [of "c_low (seq_candles s ! i)" self acc] assms(3)
      wf_candleD(1) [OF c(1)] by (simp add: less_imp_le)
  then show ?thesis
    using c assms(2-5) wf_candleD(1) [OF c(1)] strength_bounds
    by (simp add: build_swing_low_def Let_def mk_SwingLow_Inr sl_from_def)
qed

lemma detect_swing_highs_ok:
  assumes "wf_market s" and "0 \<le> sa_equal_tolerance_pips self"
    and "get_effective_bars self s = (l, r)" and "1 \<le> l" and "1 \<le> r"
  shows "\<exists>shs. detect_swing_highs self s = Inr shs \<and> (\<forall>sh \<in> set shs. sh_from (seq_candles s) sh) \<and>
     map sh_index shs =
       filter (strict_max_at c_high (seq_candles s) l r) [l..<length (seq_candles s) - r]"
proof -
  let ?cs = "seq_candles s"
  have eq: "is_swing_high ?cs l r = strict_max_at c_high ?cs l r"
    by (rule ext) (rule is_swing_high_iff)
  have "\<exists>xs. build_loop (is_swing_high ?cs l r) (build_swing_high self ?cs l r)
      [l..<length ?cs - r] [] = Inr ([] @ xs) \<and>
      map sh_index xs = filter (is_swing_high ?cs l r) [l..<length ?cs - r] \<and>
      (\<forall>x \<in> set xs. sh_from ?cs x)"
    by (rule build_loop_ok) (auto intro!: build_swing_high_ok [OF assms(1) _ assms(2,4,5)])
  then show ?thesis by (simp add: detect_swing_highs_def Let_def assms(3) eq) blast
qed

lemma detect_swing_lows_ok:
  assumes "wf_market s" and "0 \<le> sa_equal_tolerance_pips self"
    and "get_effective_bars self s = (l, r)" and "1 \<le> l" and "1 \<le> r"
  shows "\<exists>sls. detect_swing_lows self s = Inr sls \<and> (\<forall>sl \<in> set sls. sl_from (seq_candles s) sl) \<and>
     map sl_index sls =
       filter (strict_max_at (\<lambda>c. - c_low c) (seq_candles s) l r) [l..<length (seq_candles s) - r]"
proof -
  let ?cs = "seq_candles s"
  have eq: "is_swing_low ?cs l r = strict_max_at (\<lambda>c. - c_low c) ?cs l r"
    by (rule ext) (rule is_swing_low_iff)
  have "\<exists>xs. build_loop (is_swing_low ?cs l r) (build_swing_low self ?cs l r)
      [l..<length ?cs - r] [] = Inr ([] @ xs) \<and>
      map sl_index xs = filter (is_swing_low ?cs l r) [l..<length ?cs - r] \<and>
      (\<forall>x \<in> set xs. sl_from ?cs x)"
    by (rule build_loop_ok) (auto intro!: build_swing_low_ok [OF assms(1) _ assms(2,4,5)])
  then show ?thesis by (simp add: detect_swing_lows_def Let_def assms(3) eq) blast
qed

lemma swings_detected:
  assumes "wf_market s" and "0 \<le> sa_equal_tolerance_pips a" and "1 \<le> sa_left_bars a" and "1 \<le> sa_right_bars a"
  obtains shs sls where "detect_swing_highs a s = Inr shs" "detect_swing_lows a s = Inr sls"
    "\<forall>h \<in> set shs. sh_from (seq_candles s) h" "\<forall>l \<in> set sls. sl_from (seq_candles s) l"
    "\<forall>h \<in> set shs. 0 < sh_price h" "\<forall>l \<in> set sls. 0 < sl_price l"
proof -
  obtain l r where b: "get_effective_bars a s = (l, r)" by (cases "get_effective_bars a s")
  then have lr: "1 \<le> l" "1 \<le> r"
    using assms(3,4) by (auto simp: get_effective_bars_def HTF_BAR_OVERRIDES_def split: if_splits)
  obtain shs sls where "detect_swing_highs a s = Inr shs" "detect_swing_lows a s = Inr sls"
      "\<forall>h \<in> set shs. sh_from (seq_candles s) h" "\<forall>l \<in> set sls. sl_from (seq_candles s) l"
    using detect_swing_highs_ok [OF assms(1,2) b lr] detect_swing_lows_ok [OF assms(1,2) b lr]
    by (elim exE conjE) (rule that)
  moreover then have "\<forall>h \<in> set shs. 0 < sh_price h" "\<forall>l \<in> set sls. 0 < sl_price l"
    by (auto simp: sh_from_def sl_from_def)
  ultimately show thesis by (rule that)
qed

lemma pivots_apart:
  "sorted_wrt (\<lambda>i j. i < j \<and> min l r < j - i) (filter (strict_max_at f cs l r) [a..<b])"
proof -
  have "sorted_wrt (<) (filter (strict_max_at f cs l r) [a..<b])"
    by (simp add: sorted_wrt_filter)
  then show ?thesis
    by (rule sorted_wrt_mono_rel [rotated]) (auto dest: strict_max_apart [rotated 2])
qed

section \<open>Properties\<close>

text \<open>C23. On a well-formed market, with the effective bar counts \<open>l\<close> and \<open>r\<close> (the analyzer's own, or
  the higher-timeframe override), swing detection never raises and is complete and sound: the
  indices of the swing highs are, in order, exactly the indices with \<open>l\<close> candles before and \<open>r\<close>
  after them whose high is strictly above every other high of that window, dually for the lows,
  and each point carries its candle's price, time and dominance strength.\<close>

theorem detect_swings_spec:
  assumes "wf_market s" and "0 \<le> sa_equal_tolerance_pips self"
    and "get_effective_bars self s = (l, r)" and "1 \<le> l" and "1 \<le> r"
  shows "\<exists>shs sls. detect_swing_highs self s = Inr shs \<and> detect_swing_lows self s = Inr sls \<and>
     map sh_index shs = filter (strict_max_at c_high (seq_candles s) l r)
       [l..<length (seq_candles s) - r] \<and>
     map sl_index sls = filter (strict_max_at (\<lambda>c. - c_low c) (seq_candles s) l r)
       [l..<length (seq_candles s) - r] \<and>
     (\<forall>sh \<in> set shs. sh_from (seq_candles s) sh) \<and> (\<forall>sl \<in> set sls. sl_from (seq_candles s) sl)"
  using detect_swing_highs_ok [OF assms] detect_swing_lows_ok [OF assms] by blast

definition ex_swing_seq :: CandleSequence where
  "ex_swing_seq = \<lparr>seq_symbol = ''EURUSD'', seq_timeframe = H1,
     seq_candles = [ex_candle 0 1 2 1 1, ex_candle 60 2 4 1 2, ex_candle 120 2 3 1 2]\<rparr>"

definition ex_swing_analyzer :: SwingAnalyzer where
  "ex_swing_analyzer = \<lparr>sa_left_bars = 1, sa_right_bars = 1, sa_equal_tolerance_pips = 2\<rparr>"

lemma wf_ex_swing_seq: "wf_market ex_swing_seq"
  by (simp add: ex_swing_seq_def wf_market_def wf_seq_def wf_candle_def uniform_def)

lemma bars_ex_swing: "get_effective_bars ex_swing_analyzer ex_swing_seq = (1, 1)"
  by (simp add: get_effective_bars_def HTF_BAR_OVERRIDES_def ex_swing_seq_def ex_swing_analyzer_def)

theorem detect_swings_spec_witness:
  "\<exists>shs sls. detect_swing_highs ex_swing_analyzer ex_swing_seq = Inr shs \<and>
     detect_swing_lows ex_swing_analyzer ex_swing_seq = Inr sls \<and>
     map sh_index shs = [1] \<and> map sl_index sls = []"
proof -
  have w: "[1..<length (seq_candles ex_swing_seq) - 1] = [1]"
    by (simp add: ex_swing_seq_def upt_rec)
  have h: "is_swing_high (seq_candles ex_swing_seq) 1 1 1"
      "\<not> is_swing_low (seq_candles ex_swing_seq) 1 1 1"
    by (simp_all add: is_swing_high_def is_swing_low_def ex_swing_seq_def upt_rec)
  have "0 \<le> sa_equal_tolerance_pips ex_swing_analyzer" by (simp add: ex_swing_analyzer_def)
  from detect_swings_spec [OF wf_ex_swing_seq this bars_ex_swing] show ?thesis
    using h unfolding w is_swing_high_iff is_swing_low_iff by auto
qed

text \<open>Swing points of one kind are never crowded: the indices of the detected swing highs
  increase, and any two of them are more than \<open>min l r\<close> candles apart.\<close>

theorem swing_highs_apart:
  assumes "wf_market s" and "0 \<le> sa_equal_tolerance_pips self"
    and "get_effective_bars self s = (l, r)" and "1 \<le> l" and "1 \<le> r"
    and "detect_swing_highs self s = Inr shs"
  shows "sorted_wrt (\<lambda>i j. i < j \<and> min l r < j - i) (map sh_index shs)"
  using detect_swing_highs_ok [OF assms(1-5)] assms(6) pivots_apart by auto

theorem swing_highs_apart_witness:
  "\<exists>shs. detect_swing_highs ex_swing_analyzer ex_swing_seq = Inr shs \<and>
     sorted_wrt (\<lambda>i j. i < j \<and> min 1 1 < j - i) (map sh_index shs)"
proof -
  have t: "0 \<le> sa_equal_tolerance_pips ex_swing_analyzer" by (simp add: ex_swing_analyzer_def)
  obtain shs where s: "detect_swing_highs ex_swing_analyzer ex_swing_seq = Inr shs"
    using detect_swing_highs_ok [OF wf_ex_swing_seq t bars_ex_swing] by auto
  show ?thesis using swing_highs_apart [OF wf_ex_swing_seq t bars_ex_swing _ _ s] s by auto
qed

definition ex_sh :: "price \<Rightarrow> nat \<Rightarrow> SwingHigh" where
  "ex_sh p i = \<lparr>sh_symbol = ''EURUSD'', sh_timeframe = H1, sh_timestamp = int i, sh_price = p,
     sh_index = i, sh_strength = 3, sh_left_bars = 1, sh_right_bars = 1, sh_is_equal_high = False,
     sh_equal_high_tolerance_pips = None\<rparr>"

end
