(* ===== verification/Structure.thy ===== *)
theory Structure
  imports StructureModels Swing
begin

text \<open>
  The structure detectors of \<^verbatim>\<open>engine/ta/smc/detectors\<close>: \<^verbatim>\<open>bms.py\<close>,
  \<^verbatim>\<open>choch.py\<close> and \<^verbatim>\<open>sms.py\<close>. The bullish and the bearish method of a detector differ
  in the comparison (\<open>>\<close> or \<open><\<close>) and the swing they read; the body is written once, with the
  comparison \<open>beyond close level\<close> as an argument. \<^verbatim>\<open>SMCConfig\<close> (\<^verbatim>\<open>smc/config.py\<close>)
  is a record of the settings that the SMC detectors, validators and builders read.
\<close>

section \<open>Settings\<close>

record SMCConfig =
  sc_min_displacement_pips :: rat
  sc_bms_strong_displacement_pips :: rat
  sc_bms_moderate_displacement_pips :: rat
  sc_bms_weak_confirm_candles :: nat
  sc_turtle_soup_min_pips :: rat
  sc_ob_body_percentage_threshold :: rat
  sc_fvg_min_gap_pips :: rat
  sc_inducement_min_break_pips :: rat
  sc_enabled :: bool
  sc_turtle_soup_min_sl_pips :: rat
  sc_require_fvg_with_ob :: bool
  sc_require_session_timing :: bool
  sc_enable_turtle_soup :: bool
  sc_enable_sh_bms_rto :: bool
  sc_enable_sms_bms_rto :: bool
  sc_enable_amd :: bool
  sc_enable_choch_reversal :: bool
  sc_fibonacci_tolerance_pips :: rat
  sc_fvg_max_candle_distance :: nat
  sc_sweep_max_candle_distance :: nat
  sc_sms_max_ob_candle_distance :: nat
  sc_min_take_profit_rr :: rat

definition default_SMCConfig :: SMCConfig where
  "default_SMCConfig = \<lparr>sc_min_displacement_pips = 20, sc_bms_strong_displacement_pips = 50,
     sc_bms_moderate_displacement_pips = 30, sc_bms_weak_confirm_candles = 5,
     sc_turtle_soup_min_pips = 5, sc_ob_body_percentage_threshold = 50, sc_fvg_min_gap_pips = 2,
     sc_inducement_min_break_pips = 1, sc_enabled = True, sc_turtle_soup_min_sl_pips = 10,
     sc_require_fvg_with_ob = True, sc_require_session_timing = True, sc_enable_turtle_soup = True,
     sc_enable_sh_bms_rto = True, sc_enable_sms_bms_rto = True, sc_enable_amd = True,
     sc_enable_choch_reversal = True, sc_fibonacci_tolerance_pips = 5, sc_fvg_max_candle_distance = 5,
     sc_sweep_max_candle_distance = 10, sc_sms_max_ob_candle_distance = 20, sc_min_take_profit_rr = 1\<rparr>"

text \<open>The bounds of the settings' fields.\<close>

definition valid_SMCConfig :: "SMCConfig \<Rightarrow> bool" where
  "valid_SMCConfig c \<longleftrightarrow>
     10 \<le> sc_min_displacement_pips c \<and> sc_min_displacement_pips c \<le> 100 \<and>
     20 \<le> sc_bms_strong_displacement_pips c \<and> sc_bms_strong_displacement_pips c \<le> 200 \<and>
     15 \<le> sc_bms_moderate_displacement_pips c \<and> sc_bms_moderate_displacement_pips c \<le> 100 \<and>
     3 \<le> sc_bms_weak_confirm_candles c \<and> sc_bms_weak_confirm_candles c \<le> 10 \<and>
     2 \<le> sc_turtle_soup_min_pips c \<and> sc_turtle_soup_min_pips c \<le> 20 \<and>
     30 \<le> sc_ob_body_percentage_threshold c \<and> sc_ob_body_percentage_threshold c \<le> 80 \<and>
     1 \<le> sc_fvg_min_gap_pips c \<and> sc_fvg_min_gap_pips c \<le> 10 \<and>
     0 \<le> sc_inducement_min_break_pips c \<and> sc_inducement_min_break_pips c \<le> 50 \<and>
     5 \<le> sc_turtle_soup_min_sl_pips c \<and> sc_turtle_soup_min_sl_pips c \<le> 30 \<and>
     1 \<le> sc_fibonacci_tolerance_pips c \<and> sc_fibonacci_tolerance_pips c \<le> 20 \<and>
     1 \<le> sc_fvg_max_candle_distance c \<and> sc_fvg_max_candle_distance c \<le> 20 \<and>
     3 \<le> sc_sweep_max_candle_distance c \<and> sc_sweep_max_candle_distance c \<le> 30 \<and>
     10 \<le> sc_sms_max_ob_candle_distance c \<and> sc_sms_max_ob_candle_distance c \<le> 200 \<and>
     1 / 2 \<le> sc_min_take_profit_rr c \<and> sc_min_take_profit_rr c \<le> 5"

text \<open>\<^verbatim>\<open>round(x, 2)\<close>: to the nearest hundredth, ties to even.\<close>

definition round2 :: "rat \<Rightarrow> rat" where
  "round2 x =
     (let y = x * 100; f = \<lfloor>y\<rfloor>; r = y - of_int f in
      of_int (if r < 1 / 2 then f else if 1 / 2 < r then f + 1 else if even f then f else f + 1) / 100)"

section \<open>Break in market structure\<close>

definition TF_SCALE :: "(Timeframe \<times> rat) list" where
  "TF_SCALE = [(M1, 10 / 100), (M5, 20 / 100), (M15, 35 / 100), (M30, 50 / 100), (H1, 1),
     (H3, 150 / 100), (H4, 2), (H6, 3), (H8, 4), (H12, 5), (D1, 5), (W1, 12), (MN1, 25)]"

definition tf_scale :: "Timeframe \<Rightarrow> rat" where
  "tf_scale timeframe = dict_get TF_SCALE timeframe 1"

definition required_confirmation_candles :: "rat \<Rightarrow> rat \<Rightarrow> rat \<Rightarrow> nat \<Rightarrow> nat" where
  "required_confirmation_candles displacement strong_threshold moderate_threshold weak_count =
     (if strong_threshold \<le> displacement then 2
      else if moderate_threshold \<le> displacement then 3
      else weak_count)"

text \<open>The scan for the first close beyond the level and the count of consecutive closes, shared by
  the BMS and CHOCH detectors.\<close>

definition first_break_idx ::
  "(price \<Rightarrow> price \<Rightarrow> bool) \<Rightarrow> Candle list \<Rightarrow> price \<Rightarrow> nat \<Rightarrow> nat option" where
  "first_break_idx beyond candles level break_start =
     find_from (\<lambda>c. beyond (c_close c) level) break_start candles"

definition confirmed_count ::
  "(price \<Rightarrow> price \<Rightarrow> bool) \<Rightarrow> Candle list \<Rightarrow> price \<Rightarrow> nat \<Rightarrow> nat \<Rightarrow> nat" where
  "confirmed_count beyond candles level first_break required_closes =
     count_streak (\<lambda>c. beyond (c_close c) level) required_closes 0 (drop first_break candles)"

definition confirm_candle_idx :: "Candle list \<Rightarrow> nat \<Rightarrow> nat \<Rightarrow> nat" where
  "confirm_candle_idx candles first_break required_closes =
     (let i = first_break + required_closes - 1 in
      if length candles \<le> i then length candles - 1 else i)"

text \<open>The body of the loop over the sorted swings.\<close>

definition bms_at ::
  "SMCConfig \<Rightarrow> CandleSequence \<Rightarrow> (price \<Rightarrow> price \<Rightarrow> bool) \<Rightarrow> Direction \<Rightarrow> price \<Rightarrow> nat \<Rightarrow> datetime \<Rightarrow>
   BreakInMarketStructure option result" where
  "bms_at config sequence beyond direction level index timestamp =
     (let candles = seq_candles sequence;
          scale = tf_scale (seq_timeframe sequence);
          min_disp = sc_min_displacement_pips config * scale;
          strong_disp = sc_bms_strong_displacement_pips config * scale;
          moderate_disp = sc_bms_moderate_displacement_pips config * scale;
          weak_confirm = sc_bms_weak_confirm_candles config;
          break_start = index + 1
      in if length candles \<le> break_start then Inr None
      else case first_break_idx beyond candles level break_start of
        None \<Rightarrow> Inr None
      | Some first_break \<Rightarrow>
          let breakout_candle = candles ! first_break in
          bindR (calculate_pips level (c_close breakout_candle) (seq_symbol sequence)) (\<lambda>pips.
            let displacement = round2 pips;
                required_closes = required_confirmation_candles displacement strong_disp
                  moderate_disp weak_confirm
            in if displacement < min_disp then Inr None
            else if confirmed_count beyond candles level first_break required_closes < required_closes
            then Inr None
            else let confirm_candle = candles ! confirm_candle_idx candles first_break required_closes in
              bindR (mk_BreakInMarketStructure (seq_symbol sequence) (seq_timeframe sequence)
                  (c_timestamp confirm_candle) direction level timestamp (c_close breakout_candle)
                  first_break displacement True) (\<lambda>bms. Inr (Some bms))))"

definition detect_bullish_bms ::
  "SMCConfig \<Rightarrow> CandleSequence \<Rightarrow> SwingHigh list \<Rightarrow> BreakInMarketStructure list result" where
  "detect_bullish_bms config sequence swing_highs =
     collectR (\<lambda>sh. bms_at config sequence (>) BULLISH (sh_price sh) (sh_index sh) (sh_timestamp sh))
       (sort_key sh_timestamp swing_highs)"

definition detect_bearish_bms ::
  "SMCConfig \<Rightarrow> CandleSequence \<Rightarrow> SwingLow list \<Rightarrow> BreakInMarketStructure list result" where
  "detect_bearish_bms config sequence swing_lows =
     collectR (\<lambda>sl. bms_at config sequence (<) BEARISH (sl_price sl) (sl_index sl) (sl_timestamp sl))
       (sort_key sl_timestamp swing_lows)"

definition get_latest_bms :: "BreakInMarketStructure list \<Rightarrow> BreakInMarketStructure option" where
  "get_latest_bms bms_events = max_key bms_timestamp bms_events"

section \<open>Change of character\<close>

definition DEFAULT_CHOCH_MAX_SWING_STRENGTH :: nat where
  "DEFAULT_CHOCH_MAX_SWING_STRENGTH = 8"

definition get_required_confirmations :: "Timeframe \<Rightarrow> nat" where
  "get_required_confirmations timeframe =
     (if timeframe \<in> {M1, M5} then 1 else if timeframe \<in> {M15, M30} then 2 else 3)"

text \<open>\<^verbatim>\<open>SMCConfig\<close> has no field \<^verbatim>\<open>choch_max_swing_strength\<close>, so
  \<^verbatim>\<open>getattr\<close> always yields the default.\<close>

definition choch_at ::
  "CandleSequence \<Rightarrow> (price \<Rightarrow> price \<Rightarrow> bool) \<Rightarrow> Direction \<Rightarrow> nat \<Rightarrow> price \<Rightarrow> nat \<Rightarrow> datetime \<Rightarrow>
   ChangeOfCharacter option result" where
  "choch_at sequence beyond direction strength level index timestamp =
     (let candles = seq_candles sequence;
          required_closes = get_required_confirmations (seq_timeframe sequence);
          break_start = index + 1
      in if DEFAULT_CHOCH_MAX_SWING_STRENGTH < strength then Inr None
      else if length candles \<le> break_start then Inr None
      else case first_break_idx beyond candles level break_start of
        None \<Rightarrow> Inr None
      | Some first_break \<Rightarrow>
          let breakout_candle = candles ! first_break in
          if confirmed_count beyond candles level first_break required_closes < required_closes
          then Inr None
          else let confirm_candle = candles ! confirm_candle_idx candles first_break required_closes in
            bindR (mk_ChangeOfCharacter (seq_symbol sequence) (seq_timeframe sequence)
                (c_timestamp confirm_candle) direction level timestamp (c_close breakout_candle)
                first_break (strength \<le> 5)) (\<lambda>choch. Inr (Some choch)))"

definition detect_bullish_choch ::
  "CandleSequence \<Rightarrow> SwingHigh list \<Rightarrow> ChangeOfCharacter list result" where
  "detect_bullish_choch sequence swing_highs =
     collectR (\<lambda>sh. choch_at sequence (>) BULLISH (sh_strength sh) (sh_price sh) (sh_index sh)
         (sh_timestamp sh)) (sort_key sh_timestamp swing_highs)"

definition detect_bearish_choch ::
  "CandleSequence \<Rightarrow> SwingLow list \<Rightarrow> ChangeOfCharacter list result" where
  "detect_bearish_choch sequence swing_lows =
     collectR (\<lambda>sl. choch_at sequence (<) BEARISH (sl_strength sl) (sl_price sl) (sl_index sl)
         (sl_timestamp sl)) (sort_key sl_timestamp swing_lows)"

definition get_latest_choch :: "ChangeOfCharacter list \<Rightarrow> ChangeOfCharacter option" where
  "get_latest_choch choch_events = max_key coc_timestamp choch_events"

section \<open>Shift in market structure\<close>

text \<open>One iteration over three consecutive swings, given by price, index and timestamp.\<close>

definition sms_at ::
  "CandleSequence \<Rightarrow> (price \<Rightarrow> price \<Rightarrow> bool) \<Rightarrow> Direction \<Rightarrow> (price \<times> nat \<times> datetime) list \<Rightarrow> nat \<Rightarrow>
   ShiftInMarketStructure option result" where
  "sms_at sequence beyond direction swings i =
     (let (price1, index1, ts1) = swings ! i; (price2, index2, ts2) = swings ! (i + 1);
          (price3, index3, ts3) = swings ! (i + 2)
      in if \<not> beyond price2 price1 then Inr None
      else if beyond price3 price2 then Inr None
      else if length (seq_candles sequence) \<le> index3 then Inr None
      else let reversal_candle = seq_candles sequence ! index3 in
        bindR (mk_ShiftInMarketStructure (seq_symbol sequence) (seq_timeframe sequence)
            (c_timestamp reversal_candle) direction price2 ts2 (c_close reversal_candle) index3 True)
          (\<lambda>sms. Inr (Some sms)))"

definition detect_bullish_sms ::
  "CandleSequence \<Rightarrow> SwingLow list \<Rightarrow> ShiftInMarketStructure list result" where
  "detect_bullish_sms sequence swing_lows =
     (if length swing_lows < 3 then Inr []
      else let sorted_lows = map (\<lambda>s. (sl_price s, sl_index s, sl_timestamp s))
                 (sort_key sl_timestamp swing_lows)
           in collectR (sms_at sequence (<) BULLISH sorted_lows) [0..<length sorted_lows - 2])"

definition detect_bearish_sms ::
  "CandleSequence \<Rightarrow> SwingHigh list \<Rightarrow> ShiftInMarketStructure list result" where
  "detect_bearish_sms sequence swing_highs =
     (if length swing_highs < 3 then Inr []
      else let sorted_highs = map (\<lambda>s. (sh_price s, sh_index s, sh_timestamp s))
                 (sort_key sh_timestamp swing_highs)
           in collectR (sms_at sequence (>) BEARISH sorted_highs) [0..<length sorted_highs - 2])"

definition get_latest_sms :: "ShiftInMarketStructure list \<Rightarrow> ShiftInMarketStructure option" where
  "get_latest_sms sms_events = max_key sms_timestamp sms_events"

section \<open>The confirmed-break interface\<close>

text \<open>A confirmed break of a level: \<open>b\<close> is the first candle from \<open>start\<close> on whose close lies beyond
  the level, and it opens a streak of \<open>req\<close> such closes.\<close>

definition confirmed_break ::
  "(price \<Rightarrow> price \<Rightarrow> bool) \<Rightarrow> Candle list \<Rightarrow> price \<Rightarrow> nat \<Rightarrow> nat \<Rightarrow> nat \<Rightarrow> bool" where
  "confirmed_break beyond cs level start req b \<longleftrightarrow> start \<le> b \<and> b + req \<le> length cs \<and>
     (\<forall>k. start \<le> k \<and> k < b \<longrightarrow> \<not> beyond (c_close (cs ! k)) level) \<and>
     (\<forall>k. b \<le> k \<and> k < b + req \<longrightarrow> beyond (c_close (cs ! k)) level)"

text \<open>What the detectors need of the comparison: it is a strict order on prices.\<close>

locale break_side =
  fixes beyond :: "price \<Rightarrow> price \<Rightarrow> bool"
  assumes beyond_irrefl: "\<not> beyond p p"
    and beyond_trans: "beyond p q \<Longrightarrow> beyond q r \<Longrightarrow> beyond p r"
    and beyond_total: "p \<noteq> q \<Longrightarrow> beyond p q \<or> beyond q p"
begin

lemma scan_confirmed:
  assumes "0 < req"
  shows "(\<exists>b. first_break_idx beyond cs level start = Some b \<and>
      \<not> confirmed_count beyond cs level b req < req) \<longleftrightarrow> (\<exists>b. confirmed_break beyond cs level start req b)"
    and "confirmed_break beyond cs level start req b \<Longrightarrow> first_break_idx beyond cs level start = Some b"
    and "first_break_idx beyond cs level start = Some b \<Longrightarrow>
      \<not> confirmed_count beyond cs level b req < req \<longleftrightarrow> confirmed_break beyond cs level start req b"
proof -
  show fb: "first_break_idx beyond cs level start = Some b"
    if "confirmed_break beyond cs level start req b" for b
    using that assms unfolding confirmed_break_def first_break_idx_def find_from_Some
    by (auto simp: less_le_trans)
  show cc: "\<not> confirmed_count beyond cs level b req < req \<longleftrightarrow> confirmed_break beyond cs level start req b"
    if "first_break_idx beyond cs level start = Some b" for b
    using that count_streak_full [OF assms, of "\<lambda>c. beyond (c_close c) level" b cs]
    unfolding confirmed_break_def first_break_idx_def find_from_Some confirmed_count_def not_less
    by blast
  show "(\<exists>b. first_break_idx beyond cs level start = Some b \<and>
      \<not> confirmed_count beyond cs level b req < req) \<longleftrightarrow> (\<exists>b. confirmed_break beyond cs level start req b)"
    using fb cc by blast
qed

text \<open>A break that is confirmed by more closes is confirmed by fewer.\<close>

lemma fewer_closes:
  "confirmed_break beyond cs level start req b \<Longrightarrow> req' \<le> req \<Longrightarrow> confirmed_break beyond cs level start req' b"
  unfolding confirmed_break_def by (meson add_left_mono less_le_trans order_trans)

text \<open>A level that is easier to reach is broken no later.\<close>

lemma nearer_level_first:
  assumes "confirmed_break beyond cs far start req b" and "0 < req" and "beyond far near"
  shows "\<exists>a \<le> b. first_break_idx beyond cs near start = Some a"
proof -
  have "beyond (c_close (cs ! b)) far" "start \<le> b" "b < length cs"
    using assms(1,2) unfolding confirmed_break_def by auto
  then have "beyond (c_close (cs ! b)) near" using assms(3) beyond_trans by blast
  then have "find_from (\<lambda>c. beyond (c_close c) near) start cs \<noteq> None"
    using \<open>start \<le> b\<close> \<open>b < length cs\<close> unfolding find_from_None by blast
  then obtain a where a: "find_from (\<lambda>c. beyond (c_close c) near) start cs = Some a" by blast
  then have "a \<le> b"
    using \<open>beyond (c_close (cs ! b)) near\<close> \<open>start \<le> b\<close> unfolding find_from_Some
    by (meson not_le)
  with a show ?thesis unfolding first_break_idx_def by blast
qed

lemma break_leaves_level:
  assumes "confirmed_break beyond cs level start req b" and "b \<le> k" and "k < b + req"
  shows "c_close (cs ! k) \<noteq> level"
  using assms beyond_irrefl unfolding confirmed_break_def by metis

end

interpretation upward: break_side "(>) :: price \<Rightarrow> price \<Rightarrow> bool"
  by unfold_locales auto

interpretation downward: break_side "(<) :: price \<Rightarrow> price \<Rightarrow> bool"
  by unfold_locales auto

section \<open>What the detectors report\<close>

lemma round2_nonneg: "0 \<le> x \<Longrightarrow> 0 \<le> round2 x"
proof -
  assume "0 \<le> x"
  then have "0 \<le> \<lfloor>x * 100\<rfloor>" by simp
  then show ?thesis by (simp add: round2_def Let_def)
qed

lemma round2_error: "\<bar>round2 x - x\<bar> \<le> 1 / 200"
proof -
  define y where "y = x * 100"
  define f where "f = \<lfloor>y\<rfloor>"
  have f: "of_int f \<le> y" "y < of_int f + 1" unfolding f_def by linarith+
  have "\<bar>of_int (if y - of_int f < 1 / 2 then f else if 1 / 2 < y - of_int f then f + 1
      else if even f then f else f + 1) - y\<bar> \<le> 1 / 2"
    using f by auto
  then have "\<bar>round2 x * 100 - x * 100\<bar> \<le> 1 / 2"
    unfolding round2_def Let_def y_def [symmetric] f_def [symmetric] by simp
  then show ?thesis by linarith
qed

definition bms_displacement :: "CandleSequence \<Rightarrow> price \<Rightarrow> nat \<Rightarrow> rat" where
  "bms_displacement s level b =
     round2 (\<bar>level - c_close (seq_candles s ! b)\<bar> / get_pip_value (seq_symbol s))"

definition bms_required :: "SMCConfig \<Rightarrow> CandleSequence \<Rightarrow> price \<Rightarrow> nat \<Rightarrow> nat" where
  "bms_required config s level b = required_confirmation_candles (bms_displacement s level b)
     (sc_bms_strong_displacement_pips config * tf_scale (seq_timeframe s))
     (sc_bms_moderate_displacement_pips config * tf_scale (seq_timeframe s))
     (sc_bms_weak_confirm_candles config)"

text \<open>Candle \<open>b\<close> breaks the structure at a level formed at \<open>index\<close>.\<close>

definition is_bms ::
  "SMCConfig \<Rightarrow> CandleSequence \<Rightarrow> (price \<Rightarrow> price \<Rightarrow> bool) \<Rightarrow> price \<Rightarrow> nat \<Rightarrow> nat \<Rightarrow> bool" where
  "is_bms config s beyond level index b \<longleftrightarrow>
     sc_min_displacement_pips config * tf_scale (seq_timeframe s) \<le> bms_displacement s level b \<and>
     confirmed_break beyond (seq_candles s) level (index + 1) (bms_required config s level b) b"

definition bms_event ::
  "SMCConfig \<Rightarrow> CandleSequence \<Rightarrow> Direction \<Rightarrow> price \<Rightarrow> datetime \<Rightarrow> nat \<Rightarrow> BreakInMarketStructure" where
  "bms_event config s direction level timestamp b =
     \<lparr>bms_symbol = seq_symbol s, bms_timeframe = seq_timeframe s,
      bms_timestamp = c_timestamp (seq_candles s ! (b + bms_required config s level b - 1)),
      bms_direction = direction, bms_broken_level = level, bms_broken_level_timestamp = timestamp,
      bms_breakout_price = c_close (seq_candles s ! b), bms_candle_index = b,
      bms_displacement_pips = bms_displacement s level b, bms_confirmed = True\<rparr>"

definition is_choch ::
  "CandleSequence \<Rightarrow> (price \<Rightarrow> price \<Rightarrow> bool) \<Rightarrow> nat \<Rightarrow> price \<Rightarrow> nat \<Rightarrow> nat \<Rightarrow> bool" where
  "is_choch s beyond strength level index b \<longleftrightarrow> strength \<le> DEFAULT_CHOCH_MAX_SWING_STRENGTH \<and>
     confirmed_break beyond (seq_candles s) level (index + 1)
       (get_required_confirmations (seq_timeframe s)) b"

definition choch_event ::
  "CandleSequence \<Rightarrow> Direction \<Rightarrow> nat \<Rightarrow> price \<Rightarrow> datetime \<Rightarrow> nat \<Rightarrow> ChangeOfCharacter" where
  "choch_event s direction strength level timestamp b =
     \<lparr>coc_symbol = seq_symbol s, coc_timeframe = seq_timeframe s,
      coc_timestamp =
        c_timestamp (seq_candles s ! (b + get_required_confirmations (seq_timeframe s) - 1)),
      coc_direction = direction, coc_broken_level = level, coc_broken_level_timestamp = timestamp,
      coc_breakout_price = c_close (seq_candles s ! b), coc_candle_index = b,
      coc_is_minor = (strength \<le> 5)\<rparr>"

lemma bms_required_ge: "3 \<le> sc_bms_weak_confirm_candles config \<Longrightarrow> 2 \<le> bms_required config s level b"
  by (simp add: bms_required_def required_confirmation_candles_def)

lemma required_confirmations_pos: "0 < get_required_confirmations tf"
  by (simp add: get_required_confirmations_def)

context break_side
begin

lemma confirm_index:
  assumes "confirmed_break beyond cs level start req b" and "0 < req"
  shows "confirm_candle_idx cs b req = b + req - 1"
  using assms by (auto simp: confirm_candle_idx_def confirmed_break_def Let_def)

lemma bms_at_reports:
  assumes "wf_seq s" and "clean_symbol (seq_symbol s)" and "0 < level"
    and "3 \<le> sc_bms_weak_confirm_candles config"
  shows "\<exists>r. bms_at config s beyond d level i ts = Inr r \<and>
     (\<forall>e. r = Some e \<longleftrightarrow> (\<exists>b. is_bms config s beyond level i b \<and> e = bms_event config s d level ts b))"
proof (cases "first_break_idx beyond (seq_candles s) level (i + 1)")
  case None
  have "\<not> is_bms config s beyond level i b" for b
    using None scan_confirmed(2) [of "bms_required config s level b"] bms_required_ge [OF assms(4)]
    unfolding is_bms_def by (metis less_le_trans option.distinct(1) pos2)
  then show ?thesis using None by (simp add: bms_at_def Let_def)
next
  case (Some b)
  let ?cs = "seq_candles s" and ?req = "bms_required config s level b"
  have req: "0 < ?req" using bms_required_ge [OF assms(4), of s level b] by linarith
  have b: "i + 1 \<le> b" "b < length ?cs" using Some by (simp_all add: first_break_idx_def find_from_Some)
  have unique: "is_bms config s beyond level i b' \<Longrightarrow> b' = b" for b'
    using Some scan_confirmed(2) [of "bms_required config s level b'"]
      bms_required_ge [OF assms(4), of s level b']
    unfolding is_bms_def by (metis less_le_trans option.inject pos2)
  have cl: "0 < c_close (?cs ! b)" using wf_candleD(3) [OF wf_seq_nth [OF assms(1) b(2)]] .
  have pips: "calculate_pips level (c_close (?cs ! b)) (seq_symbol s) =
      Inr (\<bar>level - c_close (?cs ! b)\<bar> / get_pip_value (seq_symbol s))"
    using assms(3) cl by (simp add: calculate_pips_Inr less_imp_le)
  have nn: "0 \<le> bms_displacement s level b"
    unfolding bms_displacement_def by (intro round2_nonneg divide_nonneg_pos) simp_all
  note cc = scan_confirmed(3) [OF req Some]
  have "bms_at config s beyond d level i ts =
      Inr (if is_bms config s beyond level i b then Some (bms_event config s d level ts b) else None)"
  proof (cases "is_bms config s beyond level i b")
    case True
    then have "confirm_candle_idx ?cs b ?req = b + ?req - 1"
      using confirm_index req unfolding is_bms_def by blast
    then show ?thesis
      using True b cc cl nn assms(2,3)
      by (simp add: bms_at_def Let_def Some [simplified] pips is_bms_def bms_event_def not_less
          bms_displacement_def [symmetric] bms_required_def [symmetric]
          mk_BreakInMarketStructure_def mk_model_clean)
  next
    case False
    then show ?thesis
      using b cc
      by (auto simp: bms_at_def Let_def Some [simplified] pips is_bms_def not_less
          bms_displacement_def [symmetric] bms_required_def [symmetric])
  qed
  moreover have "(if is_bms config s beyond level i b then Some (bms_event config s d level ts b)
      else None) = Some e \<longleftrightarrow>
      (\<exists>b. is_bms config s beyond level i b \<and> e = bms_event config s d level ts b)" for e
    using unique by (metis option.distinct(1) option.inject)
  ultimately show ?thesis by blast
qed

lemma choch_at_reports:
  assumes "wf_seq s" and "clean_symbol (seq_symbol s)" and "0 < level"
  shows "\<exists>r. choch_at s beyond d strength level i ts = Inr r \<and>
     (\<forall>e. r = Some e \<longleftrightarrow> (\<exists>b. is_choch s beyond strength level i b \<and> e = choch_event s d strength level ts b))"
proof (cases "first_break_idx beyond (seq_candles s) level (i + 1)")
  case None
  have "\<not> is_choch s beyond strength level i b" for b
    using None scan_confirmed(2) [OF required_confirmations_pos] unfolding is_choch_def by fastforce
  then show ?thesis using None by (simp add: choch_at_def Let_def)
next
  case (Some b)
  let ?cs = "seq_candles s" and ?req = "get_required_confirmations (seq_timeframe s)"
  have b: "i + 1 \<le> b" "b < length ?cs" using Some by (simp_all add: first_break_idx_def find_from_Some)
  have unique: "is_choch s beyond strength level i b' \<Longrightarrow> b' = b" for b'
    using Some scan_confirmed(2) [OF required_confirmations_pos] unfolding is_choch_def by fastforce
  have cl: "0 < c_close (?cs ! b)" using wf_candleD(3) [OF wf_seq_nth [OF assms(1) b(2)]] .
  note cc = scan_confirmed(3) [OF required_confirmations_pos Some]
  have "choch_at s beyond d strength level i ts =
      Inr (if is_choch s beyond strength level i b then Some (choch_event s d strength level ts b) else None)"
  proof (cases "is_choch s beyond strength level i b")
    case True
    then have "confirm_candle_idx ?cs b ?req = b + ?req - 1"
      using confirm_index required_confirmations_pos unfolding is_choch_def by blast
    then show ?thesis
      using True b cc cl assms(2,3)
      by (simp add: choch_at_def Let_def Some [simplified] is_choch_def choch_event_def not_less
          mk_ChangeOfCharacter_def mk_model_clean)
  next
    case False
    then show ?thesis using b cc by (auto simp: choch_at_def Let_def Some [simplified] is_choch_def not_less)
  qed
  moreover have "(if is_choch s beyond strength level i b
      then Some (choch_event s d strength level ts b) else None) = Some e \<longleftrightarrow>
      (\<exists>b. is_choch s beyond strength level i b \<and> e = choch_event s d strength level ts b)" for e
    using unique by (metis option.distinct(1) option.inject)
  ultimately show ?thesis by blast
qed

text \<open>When the change of character asks for no more closes than the break, it is confirmed too, and
  no later.\<close>

lemma choch_before_bms:
  assumes "wf_seq s" and "is_bms config s beyond level i b"
    and "get_required_confirmations (seq_timeframe s) \<le> bms_required config s level b"
    and "strength \<le> DEFAULT_CHOCH_MAX_SWING_STRENGTH"
  shows "is_choch s beyond strength level i b \<and>
     coc_timestamp (choch_event s d strength level ts b) \<le> bms_timestamp (bms_event config s d level ts b)"
proof -
  let ?n = "get_required_confirmations (seq_timeframe s)" and ?m = "bms_required config s level b"
  have br: "confirmed_break beyond (seq_candles s) level (i + 1) ?m b"
    using assms(2) by (simp add: is_bms_def)
  then have "b + ?m \<le> length (seq_candles s)" by (simp add: confirmed_break_def)
  moreover have "0 < ?n" by (rule required_confirmations_pos)
  ultimately have "b + ?n - 1 \<le> b + ?m - 1" "b + ?m - 1 < length (seq_candles s)"
    using assms(3) by linarith+
  then have "c_timestamp (seq_candles s ! (b + ?n - 1)) \<le> c_timestamp (seq_candles s ! (b + ?m - 1))"
    using wf_seq_times [OF assms(1)] by (metis le_neq_implies_less order_less_imp_le order_refl)
  then show ?thesis
    using fewer_closes [OF br assms(3)] assms(4) by (simp add: is_choch_def choch_event_def bms_event_def)
qed

end

lemma detect_bms_reports:
  assumes "wf_seq s" and "clean_symbol (seq_symbol s)" and "valid_SMCConfig config"
    and "\<forall>h \<in> set shs. 0 < sh_price h" and "\<forall>l \<in> set sls. 0 < sl_price l"
  shows "\<exists>es fs. detect_bullish_bms config s shs = Inr es \<and> detect_bearish_bms config s sls = Inr fs \<and>
     (\<forall>e. e \<in> set es \<longleftrightarrow> (\<exists>h \<in> set shs. \<exists>b. is_bms config s (>) (sh_price h) (sh_index h) b \<and>
        e = bms_event config s BULLISH (sh_price h) (sh_timestamp h) b)) \<and>
     (\<forall>e. e \<in> set fs \<longleftrightarrow> (\<exists>l \<in> set sls. \<exists>b. is_bms config s (<) (sl_price l) (sl_index l) b \<and>
        e = bms_event config s BEARISH (sl_price l) (sl_timestamp l) b))"
proof -
  have weak: "3 \<le> sc_bms_weak_confirm_candles config" using assms(3) by (simp add: valid_SMCConfig_def)
  have "\<exists>es. detect_bullish_bms config s shs = Inr es \<and> (\<forall>e. e \<in> set es \<longleftrightarrow>
      (\<exists>h \<in> set (sort_key sh_timestamp shs). \<exists>b. is_bms config s (>) (sh_price h) (sh_index h) b \<and>
        e = bms_event config s BULLISH (sh_price h) (sh_timestamp h) b))"
    unfolding detect_bullish_bms_def
    by (rule collectR_reports, rule upward.bms_at_reports [OF assms(1,2) _ weak]) (use assms(4) in simp)
  moreover have "\<exists>fs. detect_bearish_bms config s sls = Inr fs \<and> (\<forall>e. e \<in> set fs \<longleftrightarrow>
      (\<exists>l \<in> set (sort_key sl_timestamp sls). \<exists>b. is_bms config s (<) (sl_price l) (sl_index l) b \<and>
        e = bms_event config s BEARISH (sl_price l) (sl_timestamp l) b))"
    unfolding detect_bearish_bms_def
    by (rule collectR_reports, rule downward.bms_at_reports [OF assms(1,2) _ weak]) (use assms(5) in simp)
  ultimately show ?thesis by auto
qed

section \<open>Properties\<close>

text \<open>C9. On a well-formed sequence, and for swings with positive prices and a valid configuration,
  the BMS detectors never raise and report exactly the confirmed breaks: an event for a swing high
  if and only if the first close above it, after the swing, is displaced by at least the
  timeframe-scaled minimum and opens a streak of 2, 3 or the weak count of closes above it, the
  number depending on the displacement; dually for swing lows. The event carries the break's
  index, close and displacement, and the time of the confirming candle.\<close>

theorem detect_bms_spec:
  assumes "wf_seq s" and "clean_symbol (seq_symbol s)" and "valid_SMCConfig config"
    and "\<forall>h \<in> set shs. 0 < sh_price h" and "\<forall>l \<in> set sls. 0 < sl_price l"
  shows "\<exists>es fs. detect_bullish_bms config s shs = Inr es \<and> detect_bearish_bms config s sls = Inr fs \<and>
     (\<forall>e. e \<in> set es \<longleftrightarrow> (\<exists>h \<in> set shs. \<exists>b. is_bms config s (>) (sh_price h) (sh_index h) b \<and>
        e = bms_event config s BULLISH (sh_price h) (sh_timestamp h) b)) \<and>
     (\<forall>e. e \<in> set fs \<longleftrightarrow> (\<exists>l \<in> set sls. \<exists>b. is_bms config s (<) (sl_price l) (sl_index l) b \<and>
        e = bms_event config s BEARISH (sl_price l) (sl_timestamp l) b))"
  by (rule detect_bms_reports [OF assms])

lemma detect_choch_reports:
  assumes "wf_seq s" and "clean_symbol (seq_symbol s)"
    and "\<forall>h \<in> set shs. 0 < sh_price h" and "\<forall>l \<in> set sls. 0 < sl_price l"
  shows "\<exists>es. detect_bullish_choch s shs = Inr es \<and> (\<forall>e. e \<in> set es \<longleftrightarrow>
      (\<exists>h \<in> set shs. \<exists>b. is_choch s (>) (sh_strength h) (sh_price h) (sh_index h) b \<and>
        e = choch_event s BULLISH (sh_strength h) (sh_price h) (sh_timestamp h) b))"
    and "\<exists>fs. detect_bearish_choch s sls = Inr fs \<and> (\<forall>e. e \<in> set fs \<longleftrightarrow>
      (\<exists>l \<in> set sls. \<exists>b. is_choch s (<) (sl_strength l) (sl_price l) (sl_index l) b \<and>
        e = choch_event s BEARISH (sl_strength l) (sl_price l) (sl_timestamp l) b))"
proof -
  have "\<exists>es. detect_bullish_choch s shs = Inr es \<and> (\<forall>e. e \<in> set es \<longleftrightarrow>
      (\<exists>h \<in> set (sort_key sh_timestamp shs). \<exists>b. is_choch s (>) (sh_strength h) (sh_price h) (sh_index h) b \<and>
        e = choch_event s BULLISH (sh_strength h) (sh_price h) (sh_timestamp h) b))"
    unfolding detect_bullish_choch_def
    by (rule collectR_reports, rule upward.choch_at_reports [OF assms(1,2)]) (use assms(3) in simp)
  moreover have "\<exists>fs. detect_bearish_choch s sls = Inr fs \<and> (\<forall>e. e \<in> set fs \<longleftrightarrow>
      (\<exists>l \<in> set (sort_key sl_timestamp sls). \<exists>b. is_choch s (<) (sl_strength l) (sl_price l) (sl_index l) b \<and>
        e = choch_event s BEARISH (sl_strength l) (sl_price l) (sl_timestamp l) b))"
    unfolding detect_bearish_choch_def
    by (rule collectR_reports, rule downward.choch_at_reports [OF assms(1,2)]) (use assms(4) in simp)
  ultimately show
    "\<exists>es. detect_bullish_choch s shs = Inr es \<and> (\<forall>e. e \<in> set es \<longleftrightarrow>
      (\<exists>h \<in> set shs. \<exists>b. is_choch s (>) (sh_strength h) (sh_price h) (sh_index h) b \<and>
        e = choch_event s BULLISH (sh_strength h) (sh_price h) (sh_timestamp h) b))"
    "\<exists>fs. detect_bearish_choch s sls = Inr fs \<and> (\<forall>e. e \<in> set fs \<longleftrightarrow>
      (\<exists>l \<in> set sls. \<exists>b. is_choch s (<) (sl_strength l) (sl_price l) (sl_index l) b \<and>
        e = choch_event s BEARISH (sl_strength l) (sl_price l) (sl_timestamp l) b))"
    by simp_all
qed

text \<open>The change of character \<open>c\<close> is on the level and candle of the break \<open>e\<close> and known no later.\<close>

definition choch_announces :: "ChangeOfCharacter \<Rightarrow> BreakInMarketStructure \<Rightarrow> bool" where
  "choch_announces c e =
     (coc_direction c = bms_direction e \<and> coc_broken_level c = bms_broken_level e \<and>
      coc_broken_level_timestamp c = bms_broken_level_timestamp e \<and>
      coc_candle_index c = bms_candle_index e \<and> coc_timestamp c \<le> bms_timestamp e)"

lemma bms_single:
  assumes "wf_seq s" and "clean_symbol (seq_symbol s)" and "valid_SMCConfig config"
  shows "0 < sh_price h \<Longrightarrow> detect_bullish_bms config s [h] = Inr [e] \<longleftrightarrow>
      (\<exists>b. is_bms config s (>) (sh_price h) (sh_index h) b \<and>
        e = bms_event config s BULLISH (sh_price h) (sh_timestamp h) b)"
    and "0 < sl_price l \<Longrightarrow> detect_bearish_bms config s [l] = Inr [e] \<longleftrightarrow>
      (\<exists>b. is_bms config s (<) (sl_price l) (sl_index l) b \<and>
        e = bms_event config s BEARISH (sl_price l) (sl_timestamp l) b)"
proof -
  have weak: "3 \<le> sc_bms_weak_confirm_candles config" using assms(3) by (simp add: valid_SMCConfig_def)
  show "detect_bullish_bms config s [h] = Inr [e] \<longleftrightarrow>
      (\<exists>b. is_bms config s (>) (sh_price h) (sh_index h) b \<and>
        e = bms_event config s BULLISH (sh_price h) (sh_timestamp h) b)" if p: "0 < sh_price h"
  proof -
    obtain r where r: "bms_at config s (>) BULLISH (sh_price h) (sh_index h) (sh_timestamp h) = Inr r"
        "\<forall>e. r = Some e \<longleftrightarrow> (\<exists>b. is_bms config s (>) (sh_price h) (sh_index h) b \<and>
           e = bms_event config s BULLISH (sh_price h) (sh_timestamp h) b)"
      using upward.bms_at_reports [OF assms(1,2) p weak, of BULLISH "sh_index h" "sh_timestamp h"] by (elim exE conjE)
    show ?thesis unfolding r(2) [rule_format, symmetric]
      by (cases r) (simp_all add: detect_bullish_bms_def r(1))
  qed
  show "detect_bearish_bms config s [l] = Inr [e] \<longleftrightarrow>
      (\<exists>b. is_bms config s (<) (sl_price l) (sl_index l) b \<and>
        e = bms_event config s BEARISH (sl_price l) (sl_timestamp l) b)" if p: "0 < sl_price l"
  proof -
    obtain r where r: "bms_at config s (<) BEARISH (sl_price l) (sl_index l) (sl_timestamp l) = Inr r"
        "\<forall>e. r = Some e \<longleftrightarrow> (\<exists>b. is_bms config s (<) (sl_price l) (sl_index l) b \<and>
           e = bms_event config s BEARISH (sl_price l) (sl_timestamp l) b)"
      using downward.bms_at_reports [OF assms(1,2) p weak, of BEARISH "sl_index l" "sl_timestamp l"] by (elim exE conjE)
    show ?thesis unfolding r(2) [rule_format, symmetric]
      by (cases r) (simp_all add: detect_bearish_bms_def r(1))
  qed
qed

lemma choch_of_bms:
  assumes "wf_seq s" and "valid_SMCConfig config" and "seq_timeframe s \<in> {M1, M5, M15, M30}" and "strength \<le> 8"
  shows "is_bms config s (>) level i b \<Longrightarrow> is_choch s (>) strength level i b \<and>
      choch_announces (choch_event s BULLISH strength level ts b) (bms_event config s BULLISH level ts b)"
    and "is_bms config s (<) level i b \<Longrightarrow> is_choch s (<) strength level i b \<and>
      choch_announces (choch_event s BEARISH strength level ts b) (bms_event config s BEARISH level ts b)"
proof -
  have "get_required_confirmations (seq_timeframe s) \<le> bms_required config s level b"
    using assms(2,3) bms_required_ge [of config s level b]
    by (auto simp: get_required_confirmations_def valid_SMCConfig_def)
  moreover have "strength \<le> DEFAULT_CHOCH_MAX_SWING_STRENGTH"
    using assms(4) by (simp add: DEFAULT_CHOCH_MAX_SWING_STRENGTH_def)
  ultimately show
    "is_bms config s (>) level i b \<Longrightarrow> is_choch s (>) strength level i b \<and>
      choch_announces (choch_event s BULLISH strength level ts b) (bms_event config s BULLISH level ts b)"
    "is_bms config s (<) level i b \<Longrightarrow> is_choch s (<) strength level i b \<and>
      choch_announces (choch_event s BEARISH strength level ts b) (bms_event config s BEARISH level ts b)"
    using upward.choch_before_bms [OF assms(1), of config level i b strength BULLISH ts]
      downward.choch_before_bms [OF assms(1), of config level i b strength BEARISH ts]
    by (auto simp: choch_announces_def choch_event_def bms_event_def)
qed

text \<open>C37. On the M1 to M30 timeframes the documented order holds, in both directions and for any mix of
  swings. The BMS events of a list are those of its swings taken one by one, and every BMS on an internal swing
  of the list (strength at most 8) comes with a CHOCH among those detected on the whole list: of the same
  direction, on the same level and candle, and confirmed no later than the BMS.\<close>

theorem choch_not_after_bms:
  assumes "wf_seq s" and "clean_symbol (seq_symbol s)" and "valid_SMCConfig config"
    and "\<forall>h \<in> set shs. 0 < sh_price h" and "\<forall>l \<in> set sls. 0 < sl_price l"
    and "seq_timeframe s \<in> {M1, M5, M15, M30}"
  shows "\<exists>es fs cs ds. detect_bullish_bms config s shs = Inr es \<and> detect_bearish_bms config s sls = Inr fs \<and>
     detect_bullish_choch s shs = Inr cs \<and> detect_bearish_choch s sls = Inr ds \<and>
     (\<forall>e. e \<in> set es \<longleftrightarrow> (\<exists>h \<in> set shs. detect_bullish_bms config s [h] = Inr [e])) \<and>
     (\<forall>e. e \<in> set fs \<longleftrightarrow> (\<exists>l \<in> set sls. detect_bearish_bms config s [l] = Inr [e])) \<and>
     (\<forall>h \<in> set shs. \<forall>e. detect_bullish_bms config s [h] = Inr [e] \<and> sh_strength h \<le> 8 \<longrightarrow>
        (\<exists>c \<in> set cs. choch_announces c e)) \<and>
     (\<forall>l \<in> set sls. \<forall>e. detect_bearish_bms config s [l] = Inr [e] \<and> sl_strength l \<le> 8 \<longrightarrow>
        (\<exists>c \<in> set ds. choch_announces c e))"
proof -
  note single = bms_single [OF assms(1-3)]
  obtain es fs where es: "detect_bullish_bms config s shs = Inr es" "\<forall>e. e \<in> set es \<longleftrightarrow>
        (\<exists>h \<in> set shs. \<exists>b. is_bms config s (>) (sh_price h) (sh_index h) b \<and>
          e = bms_event config s BULLISH (sh_price h) (sh_timestamp h) b)"
      and fs: "detect_bearish_bms config s sls = Inr fs" "\<forall>e. e \<in> set fs \<longleftrightarrow>
        (\<exists>l \<in> set sls. \<exists>b. is_bms config s (<) (sl_price l) (sl_index l) b \<and>
          e = bms_event config s BEARISH (sl_price l) (sl_timestamp l) b)"
    using detect_bms_reports [OF assms(1-5)] by (elim exE conjE) (rule that)
  obtain cs where cs: "detect_bullish_choch s shs = Inr cs" "\<And>c. c \<in> set cs \<longleftrightarrow>
      (\<exists>h \<in> set shs. \<exists>b. is_choch s (>) (sh_strength h) (sh_price h) (sh_index h) b \<and>
        c = choch_event s BULLISH (sh_strength h) (sh_price h) (sh_timestamp h) b)"
    using detect_choch_reports(1) [OF assms(1,2,4,5)] by blast
  obtain ds where ds: "detect_bearish_choch s sls = Inr ds" "\<And>c. c \<in> set ds \<longleftrightarrow>
      (\<exists>l \<in> set sls. \<exists>b. is_choch s (<) (sl_strength l) (sl_price l) (sl_index l) b \<and>
        c = choch_event s BEARISH (sl_strength l) (sl_price l) (sl_timestamp l) b)"
    using detect_choch_reports(2) [OF assms(1,2,4,5)] by blast
  have up: "\<exists>c \<in> set cs. choch_announces c e"
    if h: "h \<in> set shs" "detect_bullish_bms config s [h] = Inr [e]" "sh_strength h \<le> 8" for h e
  proof -
    obtain b where "is_bms config s (>) (sh_price h) (sh_index h) b"
        "e = bms_event config s BULLISH (sh_price h) (sh_timestamp h) b"
      using h(1,2) assms(4) single(1) by blast
    then show ?thesis using choch_of_bms(1) [OF assms(1,3,6) h(3)] h(1) cs(2) by blast
  qed
  have down: "\<exists>c \<in> set ds. choch_announces c e"
    if l: "l \<in> set sls" "detect_bearish_bms config s [l] = Inr [e]" "sl_strength l \<le> 8" for l e
  proof -
    obtain b where "is_bms config s (<) (sl_price l) (sl_index l) b"
        "e = bms_event config s BEARISH (sl_price l) (sl_timestamp l) b"
      using l(1,2) assms(5) single(2) by blast
    then show ?thesis using choch_of_bms(2) [OF assms(1,3,6) l(3)] l(1) ds(2) by blast
  qed
  have each: "e \<in> set es \<longleftrightarrow> (\<exists>h \<in> set shs. detect_bullish_bms config s [h] = Inr [e])"
      "e \<in> set fs \<longleftrightarrow> (\<exists>l \<in> set sls. detect_bearish_bms config s [l] = Inr [e])" for e
    unfolding es(2) [rule_format] fs(2) [rule_format] using single assms(4,5) by metis+
  show ?thesis
    by (rule exI [of _ es], rule exI [of _ fs], rule exI [of _ cs], rule exI [of _ ds])
      (use es(1) fs(1) cs(1) ds(1) each up down in blast)
qed

text \<open>A sequence with two closes above the level 2 and a third one below it.\<close>

definition ex_break_seq :: "Timeframe \<Rightarrow> CandleSequence" where
  "ex_break_seq tf = \<lparr>seq_symbol = ''EURUSD'', seq_timeframe = tf,
     seq_candles = [ex_candle 0 1 2 1 1, ex_candle 60 2 3 2 3, ex_candle 120 3 3 3 3,
       ex_candle 180 3 3 1 1]\<rparr>"

lemma wf_ex_break_seq: "wf_seq (ex_break_seq tf)" "clean_symbol (seq_symbol (ex_break_seq tf))"
  by (simp_all add: ex_break_seq_def wf_seq_def wf_candle_def uniform_def)

lemma valid_default_SMCConfig: "valid_SMCConfig default_SMCConfig"
  by (simp add: valid_SMCConfig_def default_SMCConfig_def)

lemma ex_break_bms:
  assumes "tf_scale tf \<le> 2"
  shows "is_bms default_SMCConfig (ex_break_seq tf) (>) 2 0 1"
proof -
  have d: "bms_displacement (ex_break_seq tf) 2 1 = 10000"
    by (simp add: bms_displacement_def ex_break_seq_def pip_EURUSD round2_def Let_def)
  have "bms_required default_SMCConfig (ex_break_seq tf) 2 1 = 2"
    using assms d
    by (simp add: bms_required_def required_confirmation_candles_def default_SMCConfig_def ex_break_seq_def)
  moreover have "confirmed_break (>) (seq_candles (ex_break_seq tf)) 2 1 2 1"
    by (auto simp: confirmed_break_def ex_break_seq_def nth_Cons split: nat.splits)
  moreover have "sc_min_displacement_pips default_SMCConfig * tf_scale tf \<le> 10000"
    using assms by (simp add: default_SMCConfig_def)
  moreover have "seq_timeframe (ex_break_seq tf) = tf" by (simp add: ex_break_seq_def)
  ultimately show ?thesis using d by (simp add: is_bms_def)
qed

theorem detect_bms_spec_witness:
  "\<exists>es. detect_bullish_bms default_SMCConfig (ex_break_seq H1) [ex_sh 2 0] = Inr es \<and>
     bms_event default_SMCConfig (ex_break_seq H1) BULLISH 2 0 1 \<in> set es"
proof -
  have "\<forall>h \<in> set [ex_sh 2 0]. 0 < sh_price h" "\<forall>l \<in> set []. 0 < sl_price l" by (simp_all add: ex_sh_def)
  moreover have "tf_scale H1 \<le> 2" by (simp add: tf_scale_def TF_SCALE_def dict_get_def)
  then have "is_bms default_SMCConfig (ex_break_seq H1) (>) 2 0 1" by (rule ex_break_bms)
  moreover have "sh_price (ex_sh 2 0) = 2" "sh_index (ex_sh 2 0) = 0" "sh_timestamp (ex_sh 2 0) = 0"
    by (simp_all add: ex_sh_def)
  ultimately show ?thesis
    using detect_bms_spec [OF wf_ex_break_seq valid_default_SMCConfig, of "[ex_sh 2 0]" "[]" H1]
    by (metis list.set_intros(1))
qed

text \<open>The list holds an internal swing and a major one.\<close>

theorem choch_not_after_bms_witness:
  "\<exists>e cs c. detect_bullish_bms default_SMCConfig (ex_break_seq M1) [ex_sh 2 0] = Inr [e] \<and>
     detect_bullish_choch (ex_break_seq M1) [(ex_sh 2 0)\<lparr>sh_strength := 20\<rparr>, ex_sh 2 0] = Inr cs \<and> c \<in> set cs \<and>
     coc_timestamp c \<le> bms_timestamp e"
proof -
  let ?s = "ex_break_seq M1" and ?h = "ex_sh 2 0"
  let ?hs = "[?h\<lparr>sh_strength := 20\<rparr>, ?h]"
  have pos: "\<forall>h \<in> set ?hs. 0 < sh_price h" "\<forall>l \<in> set []. 0 < sl_price l" and h: "sh_strength ?h \<le> 8"
      "sh_price ?h = 2" "sh_index ?h = 0" "sh_timestamp ?h = 0" by (simp_all add: ex_sh_def)
  have tf: "seq_timeframe ?s \<in> {M1, M5, M15, M30}" by (simp add: ex_break_seq_def)
  have "tf_scale M1 \<le> 2" by (simp add: tf_scale_def TF_SCALE_def dict_get_def)
  then have "is_bms default_SMCConfig ?s (>) 2 0 1" by (rule ex_break_bms)
  then obtain e where e: "detect_bullish_bms default_SMCConfig ?s [?h] = Inr [e]"
    using bms_single(1) [OF wf_ex_break_seq valid_default_SMCConfig, of ?h] h by auto
  obtain cs where cs: "detect_bullish_choch ?s ?hs = Inr cs" "\<forall>h \<in> set ?hs. \<forall>e.
      detect_bullish_bms default_SMCConfig ?s [h] = Inr [e] \<and> sh_strength h \<le> 8 \<longrightarrow> (\<exists>c \<in> set cs. choch_announces c e)"
    using choch_not_after_bms [OF wf_ex_break_seq valid_default_SMCConfig pos tf] by (elim exE conjE) (rule that)
  then obtain c where "c \<in> set cs" "choch_announces c e" using e h(1) by auto
  then show ?thesis using e cs(1) by (auto simp: choch_announces_def)
qed

text \<open>On higher timeframes the documented order "CHOCH first, then BMS" can fail. A strong break
  confirms a BMS after two closes while a CHOCH on H1 and above asks for three: on an H1 sequence
  with exactly two closes above an internal swing high the BMS is reported and no CHOCH ever is.\<close>

theorem bms_without_choch:
  "\<exists>e. detect_bullish_bms default_SMCConfig (ex_break_seq H1) [ex_sh 2 0] = Inr [e] \<and>
     bms_confirmed e \<and> detect_bullish_choch (ex_break_seq H1) [ex_sh 2 0] = Inr []"
proof -
  let ?s = "ex_break_seq H1"
  have "tf_scale H1 \<le> 2" by (simp add: tf_scale_def TF_SCALE_def dict_get_def)
  then have "is_bms default_SMCConfig ?s (>) 2 0 1" by (rule ex_break_bms)
  moreover obtain r where r: "bms_at default_SMCConfig ?s (>) BULLISH 2 0 0 = Inr r"
      "\<forall>e. r = Some e \<longleftrightarrow> (\<exists>b. is_bms default_SMCConfig ?s (>) 2 0 b \<and>
         e = bms_event default_SMCConfig ?s BULLISH 2 0 b)"
    using upward.bms_at_reports [OF wf_ex_break_seq, of 2 default_SMCConfig H1 BULLISH 0 0]
    by (auto simp: default_SMCConfig_def)
  ultimately have e: "r = Some (bms_event default_SMCConfig ?s BULLISH 2 0 1)" by blast
  moreover have "detect_bullish_choch ?s [ex_sh 2 0] = Inr []"
    by (simp add: detect_bullish_choch_def choch_at_def ex_break_seq_def ex_sh_def first_break_idx_def
        find_from_def upt_rec confirmed_count_def get_required_confirmations_def
        DEFAULT_CHOCH_MAX_SWING_STRENGTH_def Let_def)
  ultimately show ?thesis
    using r(1) by (simp add: detect_bullish_bms_def ex_sh_def bms_event_def)
qed

text \<open>A failure swing: three consecutive swings of which the second goes beyond the first and the
  third does not go beyond the second.\<close>

definition failure_swing ::
  "CandleSequence \<Rightarrow> (price \<Rightarrow> price \<Rightarrow> bool) \<Rightarrow> Direction \<Rightarrow> (price \<times> nat \<times> datetime) list \<Rightarrow> nat \<Rightarrow>
   ShiftInMarketStructure \<Rightarrow> bool" where
  "failure_swing s beyond direction swings i e \<longleftrightarrow>
     (case (swings ! i, swings ! (i + 1), swings ! (i + 2)) of
        ((p1, _, _), (p2, _, t2), (p3, i3, _)) \<Rightarrow>
          beyond p2 p1 \<and> \<not> beyond p3 p2 \<and> i3 < length (seq_candles s) \<and>
          e = \<lparr>sms_symbol = seq_symbol s, sms_timeframe = seq_timeframe s,
               sms_timestamp = c_timestamp (seq_candles s ! i3), sms_direction = direction,
               sms_failed_level = p2, sms_failed_level_timestamp = t2,
               sms_reversal_price = c_close (seq_candles s ! i3), sms_candle_index = i3,
               sms_is_failure_swing = True\<rparr>)"

lemma sms_at_reports:
  assumes "wf_seq s" and "clean_symbol (seq_symbol s)" and "0 < fst (swings ! (i + 1))"
  shows "\<exists>r. sms_at s beyond d swings i = Inr r \<and> (\<forall>e. r = Some e \<longleftrightarrow> failure_swing s beyond d swings i e)"
proof -
  obtain p1 i1 t1 p2 i2 t2 p3 i3 t3 where sw: "swings ! i = (p1, i1, t1)"
      "swings ! (i + 1) = (p2, i2, t2)" "swings ! (i + 2) = (p3, i3, t3)"
    by (metis prod_cases3)
  have "0 < c_close (seq_candles s ! i3)" if "i3 < length (seq_candles s)"
    using wf_candleD(3) [OF wf_seq_nth [OF assms(1) that]] .
  then show ?thesis
    using assms(2,3) sw
    by (auto simp: sms_at_def failure_swing_def mk_ShiftInMarketStructure_def mk_model_clean Let_def)
qed

lemma sms_collect:
  assumes "wf_seq s" and "clean_symbol (seq_symbol s)" and "\<forall>x \<in> set swings. 0 < fst x"
  shows "\<exists>es. collectR (sms_at s beyond d swings) [0..<length swings - 2] = Inr es \<and>
     (\<forall>e. e \<in> set es \<longleftrightarrow> (\<exists>i. i + 2 < length swings \<and> failure_swing s beyond d swings i e))"
proof -
  have "\<exists>es. collectR (sms_at s beyond d swings) [0..<length swings - 2] = Inr es \<and>
      (\<forall>e. e \<in> set es \<longleftrightarrow> (\<exists>i \<in> set [0..<length swings - 2]. failure_swing s beyond d swings i e))"
    using assms(3) by (intro collectR_reports sms_at_reports [OF assms(1,2)]) auto
  moreover have "(\<exists>i \<in> set [0..<length swings - 2]. P i) \<longleftrightarrow> (\<exists>i. i + 2 < length swings \<and> P i)" for P
    by (auto simp: less_diff_conv)
  ultimately show ?thesis by simp
qed

lemma detect_sms_collect:
  "detect_bullish_sms s sls = (let swings = map (\<lambda>l. (sl_price l, sl_index l, sl_timestamp l))
     (sort_key sl_timestamp sls) in collectR (sms_at s (<) BULLISH swings) [0..<length swings - 2])"
  "detect_bearish_sms s shs = (let swings = map (\<lambda>h. (sh_price h, sh_index h, sh_timestamp h))
     (sort_key sh_timestamp shs) in collectR (sms_at s (>) BEARISH swings) [0..<length swings - 2])"
  by (simp_all add: detect_bullish_sms_def detect_bearish_sms_def Let_def)

text \<open>On a well-formed sequence the SMS detectors never raise and report exactly the failure
  swings: with the lows ordered by time, a bullish event for three consecutive lows of which the
  second is below the first and the third is not below the second, dually for the highs; the event
  names the second swing as the failed level.\<close>

theorem detect_sms_spec:
  assumes "wf_seq s" and "clean_symbol (seq_symbol s)"
    and "\<forall>l \<in> set sls. 0 < sl_price l" and "\<forall>h \<in> set shs. 0 < sh_price h"
  shows "\<exists>es fs. detect_bullish_sms s sls = Inr es \<and> detect_bearish_sms s shs = Inr fs \<and>
     (\<forall>e. e \<in> set es \<longleftrightarrow> (\<exists>i. i + 2 < length sls \<and> failure_swing s (<) BULLISH
        (map (\<lambda>l. (sl_price l, sl_index l, sl_timestamp l)) (sort_key sl_timestamp sls)) i e)) \<and>
     (\<forall>e. e \<in> set fs \<longleftrightarrow> (\<exists>i. i + 2 < length shs \<and> failure_swing s (>) BEARISH
        (map (\<lambda>h. (sh_price h, sh_index h, sh_timestamp h)) (sort_key sh_timestamp shs)) i e))"
proof -
  let ?L = "map (\<lambda>l. (sl_price l, sl_index l, sl_timestamp l)) (sort_key sl_timestamp sls)"
  let ?H = "map (\<lambda>h. (sh_price h, sh_index h, sh_timestamp h)) (sort_key sh_timestamp shs)"
  have "\<forall>x \<in> set ?L. 0 < fst x" "\<forall>x \<in> set ?H. 0 < fst x" using assms(3,4) by auto
  from sms_collect [OF assms(1,2) this(1), of "(<)" BULLISH]
    sms_collect [OF assms(1,2) this(2), of "(>)" BEARISH]
  show ?thesis
    unfolding detect_sms_collect Let_def length_map length_sort
    by (elim exE conjE) (intro exI conjI; assumption)
qed

theorem detect_sms_spec_witness:
  "\<exists>fs. detect_bearish_sms (ex_break_seq H1) [ex_sh 1 0, ex_sh 3 1, ex_sh 2 2] = Inr fs \<and> fs \<noteq> []"
proof -
  let ?shs = "[ex_sh 1 0, ex_sh 3 1, ex_sh 2 2]" and ?s = "ex_break_seq H1"
  let ?H = "map (\<lambda>h. (sh_price h, sh_index h, sh_timestamp h)) (sort_key sh_timestamp ?shs)"
  have "\<forall>l \<in> set []. 0 < sl_price l" "\<forall>h \<in> set ?shs. 0 < sh_price h" by (simp_all add: ex_sh_def)
  moreover have "\<exists>e. failure_swing ?s (>) BEARISH ?H 0 e"
    by (simp add: failure_swing_def ex_sh_def ex_break_seq_def)
  moreover have "0 + 2 < length ?shs" by simp
  moreover obtain fs where fs: "detect_bearish_sms ?s ?shs = Inr fs"
      "\<forall>e. e \<in> set fs \<longleftrightarrow> (\<exists>i. i + 2 < length ?shs \<and> failure_swing ?s (>) BEARISH ?H i e)"
    using detect_sms_spec [OF wf_ex_break_seq [of H1] calculation(1,2)] by (elim exE conjE) (rule that)
  ultimately have "\<exists>e. e \<in> set fs" by (subst fs(2)) blast
  with fs(1) show ?thesis by auto
qed

end
