(* ===== verification/CandleAnalysis.thy ===== *)
theory CandleAnalysis
  imports Candle
begin

text \<open>
  \<^verbatim>\<open>CandleAnalyzer\<close> of \<^verbatim>\<open>engine/ta/common/analyzers/candles.py\<close> and
  \<^verbatim>\<open>MarubozuAnalyzer\<close> of \<^verbatim>\<open>engine/ta/common/analyzers/marubozu.py\<close>. The
  \<^verbatim>\<open>while\<close> loops of \<^verbatim>\<open>detect_marubozu_sequence\<close> walk the list of candles not yet
  visited; the index \<open>i\<close> is carried along.
\<close>

section \<open>Candle analyzer\<close>

record CandleAnalyzer =
  ca_marubozu_body_threshold :: rat
  ca_hammer_lower_wick_threshold :: rat
  ca_shooting_star_upper_wick_threshold :: rat
  ca_doji_body_threshold :: rat

definition default_CandleAnalyzer :: CandleAnalyzer where
  "default_CandleAnalyzer = \<lparr>ca_marubozu_body_threshold = 80, ca_hammer_lower_wick_threshold = 60,
     ca_shooting_star_upper_wick_threshold = 60, ca_doji_body_threshold = 5\<rparr>"

definition classify_candle :: "CandleAnalyzer \<Rightarrow> Candle \<Rightarrow> CandleType result" where
  "classify_candle self candle =
     bindR (calculate_body_percentage (c_open candle) (c_close candle) (c_high candle) (c_low candle))
       (\<lambda>body_pct.
        if body_pct \<le> ca_doji_body_threshold self then Inr DOJI
        else if ca_marubozu_body_threshold self \<le> body_pct
        then Inr (if is_bullish candle then MARUBOZU_BULLISH else MARUBOZU_BEARISH)
        else bindR (calculate_wick_percentage (c_open candle) (c_close candle) (c_high candle)
               (c_low candle) False) (\<lambda>lower_wick_pct.
             bindR (calculate_wick_percentage (c_open candle) (c_close candle) (c_high candle)
               (c_low candle) True) (\<lambda>upper_wick_pct.
             if is_bullish candle \<and> ca_hammer_lower_wick_threshold self \<le> lower_wick_pct
             then Inr HAMMER
             else if is_bearish candle \<and> ca_shooting_star_upper_wick_threshold self \<le> upper_wick_pct
             then Inr SHOOTING_STAR
             else Inr STANDARD_CANDLE)))"

definition detect_displacement :: "CandleSequence \<Rightarrow> rat \<Rightarrow> (nat \<times> rat) list result" where
  "detect_displacement sequence min_displacement_pips =
     collectR (\<lambda>i. let candle = seq_candles sequence ! i in
        bindR (calculate_pips (c_open candle) (c_close candle) (c_symbol candle)) (\<lambda>displacement.
          Inr (if min_displacement_pips \<le> displacement then Some (i, displacement) else None)))
       [0..<length (seq_candles sequence)]"

definition detect_imbalance :: "Candle \<Rightarrow> Candle \<Rightarrow> Candle \<Rightarrow> (price \<times> price) option" where
  "detect_imbalance candle1 candle2 candle3 =
     (if c_symbol candle1 \<noteq> c_symbol candle2 \<or> c_symbol candle2 \<noteq> c_symbol candle3 then None
      else if c_high candle1 < c_low candle3 then Some (c_high candle1, c_low candle3)
      else if c_high candle3 < c_low candle1 then Some (c_high candle3, c_low candle1)
      else None)"

definition is_engulfing :: "Candle \<Rightarrow> Candle \<Rightarrow> bool" where
  "is_engulfing current previous = engulfs current previous"

definition has_long_wick :: "Candle \<Rightarrow> bool \<Rightarrow> rat \<Rightarrow> bool result" where
  "has_long_wick candle upper min_wick_percentage =
     bindR (calculate_wick_percentage (c_open candle) (c_close candle) (c_high candle)
              (c_low candle) upper)
       (\<lambda>wick_pct. Inr (min_wick_percentage \<le> wick_pct))"

text \<open>\<^verbatim>\<open>xs[-lookback:]\<close> is the whole list when \<open>lookback = 0\<close>.\<close>

definition calculate_average_body_size :: "CandleSequence \<Rightarrow> nat \<Rightarrow> rat" where
  "calculate_average_body_size sequence lookback =
     (let cs = seq_candles sequence;
          candles = (if lookback < length cs
                     then if lookback = 0 then cs else drop (length cs - lookback) cs else cs)
      in if candles = [] then 0 else sum_list (map body_size candles) / of_nat (length candles))"

definition is_large_body :: "Candle \<Rightarrow> CandleSequence \<Rightarrow> rat \<Rightarrow> bool" where
  "is_large_body candle sequence multiplier =
     (let avg_body = calculate_average_body_size sequence 20 in
      if avg_body = 0 then False else avg_body * multiplier \<le> body_size candle)"

section \<open>Marubozu analyzer\<close>

definition TF_DISPLACEMENT_SCALE :: "(Timeframe \<times> rat) list" where
  "TF_DISPLACEMENT_SCALE = [(M1, 15 / 100), (M5, 25 / 100), (M15, 40 / 100), (M30, 55 / 100),
     (H1, 1), (H3, 150 / 100), (H4, 2), (H6, 3), (H8, 4), (H12, 5), (D1, 5), (W1, 12), (MN1, 25)]"

record MarubozuAnalyzer =
  ma_min_body_percentage :: rat
  ma_max_wick_percentage :: rat
  ma_min_displacement_pips :: rat

definition is_marubozu :: "MarubozuAnalyzer \<Rightarrow> Candle \<Rightarrow> bool result" where
  "is_marubozu self candle =
     bindR (calculate_body_percentage (c_open candle) (c_close candle) (c_high candle) (c_low candle))
       (\<lambda>body_pct.
        if body_pct < ma_min_body_percentage self then Inr False
        else if ma_max_wick_percentage self < upper_wick_percentage candle then Inr False
        else if ma_max_wick_percentage self < lower_wick_percentage candle then Inr False
        else bindR (calculate_pips (c_open candle) (c_close candle) (c_symbol candle))
               (\<lambda>displacement. Inr (\<not> displacement < ma_min_displacement_pips self)))"

definition is_marubozu_for_timeframe :: "MarubozuAnalyzer \<Rightarrow> Candle \<Rightarrow> Timeframe \<Rightarrow> bool result" where
  "is_marubozu_for_timeframe self candle timeframe =
     bindR (calculate_body_percentage (c_open candle) (c_close candle) (c_high candle) (c_low candle))
       (\<lambda>body_pct.
        if body_pct < ma_min_body_percentage self then Inr False
        else if ma_max_wick_percentage self < upper_wick_percentage candle then Inr False
        else if ma_max_wick_percentage self < lower_wick_percentage candle then Inr False
        else bindR (calculate_pips (c_open candle) (c_close candle) (c_symbol candle))
               (\<lambda>displacement.
                let scale = dict_get TF_DISPLACEMENT_SCALE timeframe 1;
                    scaled_threshold = ma_min_displacement_pips self * scale
                in Inr (\<not> displacement < scaled_threshold)))"

definition is_bullish_marubozu :: "MarubozuAnalyzer \<Rightarrow> Candle \<Rightarrow> bool result" where
  "is_bullish_marubozu self candle = (if is_bullish candle then is_marubozu self candle else Inr False)"

definition is_bearish_marubozu :: "MarubozuAnalyzer \<Rightarrow> Candle \<Rightarrow> bool result" where
  "is_bearish_marubozu self candle = (if is_bearish candle then is_marubozu self candle else Inr False)"

definition is_bullish_marubozu_for_timeframe ::
  "MarubozuAnalyzer \<Rightarrow> Candle \<Rightarrow> Timeframe \<Rightarrow> bool result" where
  "is_bullish_marubozu_for_timeframe self candle timeframe =
     (if is_bullish candle then is_marubozu_for_timeframe self candle timeframe else Inr False)"

definition is_bearish_marubozu_for_timeframe ::
  "MarubozuAnalyzer \<Rightarrow> Candle \<Rightarrow> Timeframe \<Rightarrow> bool result" where
  "is_bearish_marubozu_for_timeframe self candle timeframe =
     (if is_bearish candle then is_marubozu_for_timeframe self candle timeframe else Inr False)"

definition candle_direction :: "Candle \<Rightarrow> Direction" where
  "candle_direction c = (if is_bullish c then BULLISH else BEARISH)"

text \<open>The inner \<^verbatim>\<open>while j < len\<close> loop: how many of the following candles continue the run.\<close>

fun run_length :: "(Candle \<Rightarrow> bool result) \<Rightarrow> Direction \<Rightarrow> Candle list \<Rightarrow> nat result" where
  "run_length marubozu direction [] = Inr 0"
| "run_length marubozu direction (c # cs) =
     bindR (marubozu c) (\<lambda>b.
       if \<not> b then Inr 0
       else if candle_direction c \<noteq> direction then Inr 0
       else bindR (run_length marubozu direction cs) (\<lambda>n. Inr (Suc n)))"

text \<open>The outer \<^verbatim>\<open>while i < len\<close> loop.\<close>

function marubozu_loop ::
  "(Candle \<Rightarrow> bool result) \<Rightarrow> nat \<Rightarrow> nat \<Rightarrow> Candle list \<Rightarrow> (nat \<times> nat \<times> Direction) list result" where
  "marubozu_loop marubozu min_consecutive i [] = Inr []"
| "marubozu_loop marubozu min_consecutive i (c # cs) =
     bindR (marubozu c) (\<lambda>b.
       if \<not> b then marubozu_loop marubozu min_consecutive (i + 1) cs
       else bindR (run_length marubozu (candle_direction c) cs) (\<lambda>n.
         let count = n + 1 in
         bindR (marubozu_loop marubozu min_consecutive (i + count) (drop n cs)) (\<lambda>rest.
           Inr (if min_consecutive \<le> count then (i, i + count - 1, candle_direction c) # rest
                else rest))))"
  by pat_completeness auto
termination by (relation "measure (\<lambda>(_, _, _, cs). length cs)") auto

definition detect_marubozu_sequence ::
  "MarubozuAnalyzer \<Rightarrow> CandleSequence \<Rightarrow> nat \<Rightarrow> (nat \<times> nat \<times> Direction) list result" where
  "detect_marubozu_sequence self sequence min_consecutive =
     marubozu_loop (\<lambda>c. is_marubozu_for_timeframe self c (seq_timeframe sequence)) min_consecutive 0
       (seq_candles sequence)"

definition get_marubozu_displacement :: "CandleSequence \<Rightarrow> int \<Rightarrow> int \<Rightarrow> rat result" where
  "get_marubozu_displacement sequence start_idx end_idx =
     (if start_idx < 0 \<or> int (length (seq_candles sequence)) \<le> end_idx \<or> end_idx < start_idx
      then Inr 0
      else let start_candle = seq_candles sequence ! nat start_idx;
               end_candle = seq_candles sequence ! nat end_idx
           in if is_bullish start_candle
              then calculate_pips (c_open start_candle) (c_close end_candle) (c_symbol start_candle)
              else calculate_pips (c_close end_candle) (c_open start_candle) (c_symbol start_candle))"

definition find_strongest_marubozu ::
  "MarubozuAnalyzer \<Rightarrow> CandleSequence \<Rightarrow> (nat \<times> Candle \<times> rat) option result" where
  "find_strongest_marubozu self sequence =
     foldR (\<lambda>i best. let candle = seq_candles sequence ! i in
        bindR (is_marubozu_for_timeframe self candle (seq_timeframe sequence)) (\<lambda>b.
          if \<not> b then Inr best
          else bindR (calculate_pips (c_open candle) (c_close candle) (c_symbol candle))
            (\<lambda>displacement.
             let strongest_displacement = (case best of None \<Rightarrow> 0 | Some (_, _, d) \<Rightarrow> d) in
             Inr (if strongest_displacement < displacement then Some (i, candle, displacement)
                  else best))))
       [0..<length (seq_candles sequence)] None"

section \<open>No operation raises on a well-formed candle\<close>

lemma body_percentage_calc [no_raise]:
  "wf_candle c \<Longrightarrow> calculate_body_percentage (c_open c) (c_close c) (c_high c) (c_low c) =
     Inr (body_percentage c)"
  by (auto simp: calculate_body_percentage_Inr wf_candleD body_percentage_def total_range_def
      body_size_def)

lemma wick_percentage_calc [no_raise]:
  "wf_candle c \<Longrightarrow> calculate_wick_percentage (c_open c) (c_close c) (c_high c) (c_low c) u =
     Inr (if u then upper_wick_percentage c else lower_wick_percentage c)"
  by (auto simp: calculate_wick_percentage_Inr wf_candleD upper_wick_percentage_def
      lower_wick_percentage_def total_range_def upper_wick_def lower_wick_def)

text \<open>The displacement of a candle in pips.\<close>

definition body_pips :: "Candle \<Rightarrow> rat" where
  "body_pips c = \<bar>c_open c - c_close c\<bar> / get_pip_value (c_symbol c)"

lemma candle_pips_calc [no_raise]:
  "wf_candle c \<Longrightarrow> calculate_pips (c_open c) (c_close c) (c_symbol c) = Inr (body_pips c)"
  by (simp add: calculate_pips_Inr wf_candleD less_imp_le body_pips_def)

text \<open>The marubozu test as a predicate.\<close>

definition marubozu_at :: "MarubozuAnalyzer \<Rightarrow> Timeframe \<Rightarrow> Candle \<Rightarrow> bool" where
  "marubozu_at self tf c \<longleftrightarrow> ma_min_body_percentage self \<le> body_percentage c \<and>
     upper_wick_percentage c \<le> ma_max_wick_percentage self \<and>
     lower_wick_percentage c \<le> ma_max_wick_percentage self \<and>
     ma_min_displacement_pips self * dict_get TF_DISPLACEMENT_SCALE tf 1 \<le> body_pips c"

lemma is_marubozu_for_timeframe_Inr [no_raise]:
  "wf_candle c \<Longrightarrow> is_marubozu_for_timeframe self c tf = Inr (marubozu_at self tf c)"
  by (auto simp: is_marubozu_for_timeframe_def body_percentage_calc candle_pips_calc
      marubozu_at_def not_less)

section \<open>Maximal runs\<close>

text \<open>Specification of the run detector: \<open>[s, e]\<close> is a maximal block of positions that all carry
  the key \<open>d\<close>.\<close>

definition maximal_run :: "'k option list \<Rightarrow> nat \<Rightarrow> nat \<Rightarrow> 'k \<Rightarrow> bool" where
  "maximal_run ks s e d \<longleftrightarrow> s \<le> e \<and> e < length ks \<and> (\<forall>j. s \<le> j \<and> j \<le> e \<longrightarrow> ks ! j = Some d) \<and>
     (s = 0 \<or> ks ! (s - 1) \<noteq> Some d) \<and> (e + 1 = length ks \<or> ks ! (e + 1) \<noteq> Some d)"

lemma maximal_run_inside:
  assumes "maximal_run (replicate m x @ rest) s e d" and "s < m"
    and "rest = [] \<or> hd rest \<noteq> x \<or> x = None"
  shows "x = Some d \<and> s = 0 \<and> e = m - 1"
proof -
  let ?ks = "replicate m x @ rest"
  have r: "s \<le> e" "e < length ?ks" "\<And>j. s \<le> j \<Longrightarrow> j \<le> e \<Longrightarrow> ?ks ! j = Some d"
      "s = 0 \<or> ?ks ! (s - 1) \<noteq> Some d" "e + 1 = length ?ks \<or> ?ks ! (e + 1) \<noteq> Some d"
    using assms(1) unfolding maximal_run_def by blast+
  have x: "x = Some d" using r(1) r(3) [of s] assms(2) by (simp add: nth_append)
  have s0: "s = 0" using r(4) x assms(2) by (cases s) (auto simp: nth_append)
  have "e < m"
  proof (rule ccontr)
    assume "\<not> e < m"
    then have "?ks ! m = Some d" "rest \<noteq> []" using r(2) r(3) [of m] assms(2) by auto
    then have "hd rest = x" using x by (simp add: nth_append hd_conv_nth)
    then show False using assms(3) x \<open>rest \<noteq> []\<close> by simp
  qed
  moreover have "\<not> e + 1 < m" using r(5) x by (auto simp: nth_append)
  ultimately show ?thesis using x s0 by simp
qed

lemma maximal_run_after:
  assumes "rest = [] \<or> hd rest \<noteq> x \<or> x = None"
  shows "maximal_run (replicate m x @ rest) (m + s) (m + e) d \<longleftrightarrow> maximal_run rest s e d"
proof (cases "s \<le> e \<and> e < length rest")
  case True
  have inner: "(\<forall>j. m + s \<le> j \<and> j \<le> m + e \<longrightarrow> (replicate m x @ rest) ! j = Some d) \<longleftrightarrow>
      (\<forall>j. s \<le> j \<and> j \<le> e \<longrightarrow> rest ! j = Some d)"
  proof
    assume l: "\<forall>j. m + s \<le> j \<and> j \<le> m + e \<longrightarrow> (replicate m x @ rest) ! j = Some d"
    have "rest ! j = Some d" if "s \<le> j" "j \<le> e" for j
      using l [rule_format, of "m + j"] that by (simp add: nth_append)
    then show "\<forall>j. s \<le> j \<and> j \<le> e \<longrightarrow> rest ! j = Some d" by blast
  next
    assume r: "\<forall>j. s \<le> j \<and> j \<le> e \<longrightarrow> rest ! j = Some d"
    have "(replicate m x @ rest) ! j = Some d" if j: "m + s \<le> j" "j \<le> m + e" for j
    proof -
      have "s \<le> j - m" "j - m \<le> e" using j by arith+
      then show ?thesis using r j by (auto simp: nth_append)
    qed
    then show "\<forall>j. m + s \<le> j \<and> j \<le> m + e \<longrightarrow> (replicate m x @ rest) ! j = Some d" by blast
  qed
  show ?thesis
  proof (cases "s = 0")
    case True
    have "rest \<noteq> []" using \<open>s \<le> e \<and> e < length rest\<close> by auto
    then have "rest ! 0 = Some d \<Longrightarrow> m = 0 \<or> (replicate m x @ rest) ! (m - 1) \<noteq> Some d"
      using assms by (auto simp: nth_append hd_conv_nth)
    moreover have "rest ! 0 = Some d" if "\<forall>j. s \<le> j \<and> j \<le> e \<longrightarrow> rest ! j = Some d"
      using that True by simp
    ultimately show ?thesis
      using True \<open>s \<le> e \<and> e < length rest\<close> unfolding maximal_run_def inner
      by (auto simp: nth_append)
  next
    case False
    then show ?thesis
      using \<open>s \<le> e \<and> e < length rest\<close> unfolding maximal_run_def inner by (auto simp: nth_append)
  qed
qed (auto simp: maximal_run_def)

lemma maximal_run_block:
  assumes "0 < m" and "rest = [] \<or> hd rest \<noteq> x \<or> x = None"
  shows "maximal_run (replicate m x @ rest) s e d \<longleftrightarrow>
     (x = Some d \<and> s = 0 \<and> e = m - 1) \<or>
     (\<exists>s' e'. s = m + s' \<and> e = m + e' \<and> maximal_run rest s' e' d)"
proof (cases "s < m")
  case True
  have "maximal_run (replicate m (Some d) @ rest) 0 (m - 1) d" if "x = Some d"
    using assms that by (auto simp: maximal_run_def nth_append hd_conv_nth)
  then show ?thesis using True maximal_run_inside [OF _ True assms(2)] by auto
next
  case False
  then obtain s' where s: "s = m + s'" using le_Suc_ex not_less by blast
  show ?thesis
  proof (cases "m \<le> e")
    case True
    then obtain e' where "e = m + e'" using le_Suc_ex by blast
    then show ?thesis using s assms(1) maximal_run_after [OF assms(2)] by simp
  next
    case False
    then show ?thesis using s assms(1) by (auto simp: maximal_run_def)
  qed
qed

definition run_key :: "(Candle \<Rightarrow> bool) \<Rightarrow> Candle \<Rightarrow> Direction option" where
  "run_key p c = (if p c then Some (candle_direction c) else None)"

lemma run_length_Inr:
  assumes "\<forall>c \<in> set cs. test c = Inr (p c)"
  shows "run_length test d cs = Inr (length (takeWhile (\<lambda>c. run_key p c = Some d) cs))"
  using assms by (induction cs) (auto simp: run_key_def)

lemma takeWhile_key_split:
  "map k cs = replicate (length (takeWhile (\<lambda>c. k c = x) cs)) x @
     map k (drop (length (takeWhile (\<lambda>c. k c = x) cs)) cs)"
  "map k (drop (length (takeWhile (\<lambda>c. k c = x) cs)) cs) = [] \<or>
     hd (map k (drop (length (takeWhile (\<lambda>c. k c = x) cs)) cs)) \<noteq> x"
  by (induction cs) auto

lemma marubozu_loop_runs:
  assumes "\<forall>c \<in> set cs. test c = Inr (p c)"
  shows "\<exists>out. marubozu_loop test mc i cs = Inr out \<and>
     (\<forall>s e d. (s, e, d) \<in> set out \<longleftrightarrow>
        (\<exists>s' e'. s = i + s' \<and> e = i + e' \<and> maximal_run (map (run_key p) cs) s' e' d \<and>
           mc \<le> e' - s' + 1))"
  using assms
proof (induction "length cs" arbitrary: cs i rule: less_induct)
  case less
  note IH = less(1) and t = less(2)
  show ?case
  proof (cases cs)
    case Nil
    then show ?thesis by (simp add: maximal_run_def)
  next
    case (Cons c cs')
    define x where "x = run_key p c"
    define n where "n = (if p c then length (takeWhile (\<lambda>c. run_key p c = x) cs') else 0)"
    define rest where "rest = map (run_key p) (drop n cs')"
    have keys: "map (run_key p) cs = replicate (Suc n) x @ rest"
      using takeWhile_key_split(1) [of "run_key p" cs' x] Cons
      by (cases "p c") (simp_all add: n_def rest_def x_def [symmetric])
    have bd: "rest = [] \<or> hd rest \<noteq> x \<or> x = None"
    proof (cases "p c")
      case True
      then show ?thesis
        using takeWhile_key_split(2) [of "run_key p" x cs'] unfolding rest_def n_def by auto
    qed (simp add: x_def run_key_def)
    have len: "length (drop n cs') < length cs" using Cons by simp
    have ok: "\<forall>c \<in> set (drop n cs'). test c = Inr (p c)"
      using t Cons by (auto dest: in_set_dropD)
    obtain out where out: "marubozu_loop test mc (i + Suc n) (drop n cs') = Inr out"
      "\<And>s e d. (s, e, d) \<in> set out \<longleftrightarrow> (\<exists>s' e'. s = i + Suc n + s' \<and> e = i + Suc n + e' \<and>
         maximal_run rest s' e' d \<and> mc \<le> e' - s' + 1)"
      using IH [OF len ok, of "i + Suc n"] unfolding rest_def by blast
    define res where "res = (if p c \<and> mc \<le> Suc n then (i, i + n, candle_direction c) # out else out)"
    have "marubozu_loop test mc i cs = Inr res"
      using t Cons out(1) run_length_Inr [of cs' test p "candle_direction c"]
      by (cases "p c") (simp_all add: res_def n_def x_def run_key_def)
    moreover have "(s, e, d) \<in> set res \<longleftrightarrow> (\<exists>s' e'. s = i + s' \<and> e = i + e' \<and>
        maximal_run (map (run_key p) cs) s' e' d \<and> mc \<le> e' - s' + 1)" for s e d
    proof -
      have "(\<exists>s' e'. s = i + s' \<and> e = i + e' \<and> maximal_run (map (run_key p) cs) s' e' d \<and>
            mc \<le> e' - s' + 1) \<longleftrightarrow>
          (x = Some d \<and> s = i \<and> e = i + n \<and> mc \<le> Suc n) \<or> (s, e, d) \<in> set out"
        unfolding keys maximal_run_block [OF zero_less_Suc bd] out(2) by (auto simp: add.assoc)
      then show ?thesis by (auto simp: res_def x_def run_key_def)
    qed
    ultimately show ?thesis by blast
  qed
qed

lemma classify_candle_Inr:
  assumes "wf_candle c"
  shows "classify_candle self c = Inr
    (if body_percentage c \<le> ca_doji_body_threshold self then DOJI
     else if ca_marubozu_body_threshold self \<le> body_percentage c
     then if is_bullish c then MARUBOZU_BULLISH else MARUBOZU_BEARISH
     else if is_bullish c \<and> ca_hammer_lower_wick_threshold self \<le> lower_wick_percentage c then HAMMER
     else if is_bearish c \<and> ca_shooting_star_upper_wick_threshold self \<le> upper_wick_percentage c
     then SHOOTING_STAR else STANDARD_CANDLE)"
  using assms by (simp add: classify_candle_def body_percentage_calc wick_percentage_calc)

section \<open>Properties\<close>

text \<open>C25. On a well-formed sequence \<^verbatim>\<open>detect_marubozu_sequence\<close> terminates without raising
  and returns exactly the maximal runs: \<open>(s, e, d)\<close> is in its result if and only if the candles
  \<open>s\<close> to \<open>e\<close> are all marubozu candles (at the timeframe's scaled displacement) of direction \<open>d\<close>,
  neither neighbour continues the run, and the run has at least \<open>min_consecutive\<close> candles.\<close>

theorem detect_marubozu_sequence_maximal:
  assumes "wf_seq s"
  shows "\<exists>out. detect_marubozu_sequence self s min_consecutive = Inr out \<and>
     (\<forall>a b d. (a, b, d) \<in> set out \<longleftrightarrow>
        maximal_run (map (run_key (marubozu_at self (seq_timeframe s))) (seq_candles s)) a b d \<and>
        min_consecutive \<le> b - a + 1)"
proof -
  have "\<forall>c \<in> set (seq_candles s). is_marubozu_for_timeframe self c (seq_timeframe s) =
      Inr (marubozu_at self (seq_timeframe s) c)"
    using assms by (simp add: wf_seq_def is_marubozu_for_timeframe_Inr)
  from marubozu_loop_runs [OF this, of min_consecutive 0] show ?thesis
    by (simp add: detect_marubozu_sequence_def)
qed

definition ex_marubozu_seq :: CandleSequence where
  "ex_marubozu_seq = \<lparr>seq_symbol = ''EURUSD'', seq_timeframe = H1,
     seq_candles = [ex_candle 0 1 2 1 2, ex_candle 60 2 3 2 3, ex_candle 120 3 3 2 2]\<rparr>"

definition ex_marubozu_analyzer :: MarubozuAnalyzer where
  "ex_marubozu_analyzer =
     \<lparr>ma_min_body_percentage = 80, ma_max_wick_percentage = 10, ma_min_displacement_pips = 15\<rparr>"

theorem detect_marubozu_sequence_maximal_witness:
  "\<exists>out. detect_marubozu_sequence ex_marubozu_analyzer ex_marubozu_seq 2 = Inr out \<and>
     (0, 1, BULLISH) \<in> set out"
proof -
  have wf: "wf_seq ex_marubozu_seq"
    by (simp add: ex_marubozu_seq_def wf_seq_def wf_candle_def uniform_def)
  have mz: "marubozu_at ex_marubozu_analyzer H1 (ex_candle t p h l c)"
    if "(p, h, l, c) \<in> {(1, 2, 1, 2), (2, 3, 2, 3), (3, 3, 2, 2)}" for t p h l c
    using that by (auto simp: marubozu_at_def ex_marubozu_analyzer_def body_percentage_def
      upper_wick_percentage_def lower_wick_percentage_def total_range_def body_size_def
      upper_wick_def lower_wick_def body_pips_def pip_EURUSD TF_DISPLACEMENT_SCALE_def dict_get_def)
  have "map (run_key (marubozu_at ex_marubozu_analyzer H1)) (seq_candles ex_marubozu_seq) =
      [Some BULLISH, Some BULLISH, Some BEARISH]"
    using mz unfolding ex_marubozu_seq_def
    by (simp add: run_key_def candle_direction_def is_bullish_def del: ex_candle_sel) (simp)
  moreover have "maximal_run [Some BULLISH, Some BULLISH, Some BEARISH] 0 1 BULLISH"
    by (auto simp: maximal_run_def less_Suc_eq_le [symmetric] nth_Cons split: nat.splits)
  moreover have "seq_timeframe ex_marubozu_seq = H1" by (simp add: ex_marubozu_seq_def)
  ultimately show ?thesis
    using detect_marubozu_sequence_maximal [OF wf, of ex_marubozu_analyzer 2] by auto
qed

text \<open>With its default thresholds the analyzer's classifier agrees with the candle model's own
  \<^verbatim>\<open>candle_type\<close> wherever both apply: for a well-formed candle whose body is more than 5% of
  its range, every shape the model recognises is the shape the analyzer returns, and the analyzer
  adds only hammers and shooting stars whose opposite wick exceeds 10%.\<close>

theorem classify_candle_refines_candle_type:
  assumes "wf_candle c" and "5 < body_percentage c"
  shows "\<exists>t. classify_candle default_CandleAnalyzer c = Inr t \<and>
     (candle_type c \<noteq> STANDARD_CANDLE \<longrightarrow> t = candle_type c) \<and>
     (t \<noteq> candle_type c \<longrightarrow>
        t = HAMMER \<and> 10 < upper_wick_percentage c \<or> t = SHOOTING_STAR \<and> 10 < lower_wick_percentage c)"
proof -
  have "body_percentage c = 0" if "is_doji c"
    using that unfolding body_percentage_def body_size_def is_doji_def by simp
  then have "\<not> is_doji c" using assms(2) by auto
  then show ?thesis
    using assms bullish_not_bearish [of c] direction_trichotomy [of c]
    by (auto simp: classify_candle_Inr default_CandleAnalyzer_def candle_type_def)
qed

theorem classify_candle_refines_candle_type_witness:
  "classify_candle default_CandleAnalyzer (ex_candle 0 1 2 1 2) = Inr MARUBOZU_BULLISH"
proof -
  have "wf_candle (ex_candle 0 1 2 1 2)" "5 < body_percentage (ex_candle 0 1 2 1 2)"
      "candle_type (ex_candle 0 1 2 1 2) = MARUBOZU_BULLISH"
    by (simp_all add: wf_candle_def body_percentage_def body_size_def total_range_def
        candle_type_def is_doji_def is_bullish_def)
  with classify_candle_refines_candle_type [of "ex_candle 0 1 2 1 2"] show ?thesis
    by (auto simp del: ex_candle_sel)
qed

end
