(* ===== verification/Zones.thy ===== *)
theory Zones
  imports ZoneModels Structure CandleAnalysis
begin

text \<open>
  The zone detectors of \<^verbatim>\<open>engine/ta/smc/zones\<close>: fair value gaps (\<^verbatim>\<open>fvg.py\<close>), order
  blocks (\<^verbatim>\<open>order_block.py\<close>) and breaker blocks (\<^verbatim>\<open>breaker.py\<close>). The bullish and
  bearish order block methods run the same backward loop; they differ in the candle they look for
  and in the price the displacement is measured from, which are arguments of \<open>ob_at\<close>.
\<close>

section \<open>Fair value gaps\<close>

definition fvg_at :: "SMCConfig \<Rightarrow> CandleSequence \<Rightarrow> nat \<Rightarrow> FairValueGap option result" where
  "fvg_at config sequence i =
     (let candle1 = seq_candles sequence ! i; candle2 = seq_candles sequence ! (i + 1);
          candle3 = seq_candles sequence ! (i + 2)
      in case detect_imbalance candle1 candle2 candle3 of
        None \<Rightarrow> Inr None
      | Some (gap_low, gap_high) \<Rightarrow>
          bindR (calculate_pips gap_low gap_high (seq_symbol sequence)) (\<lambda>gap_size_pips.
            if gap_size_pips < sc_fvg_min_gap_pips config then Inr None
            else bindR (mk_FairValueGap (seq_symbol sequence) (seq_timeframe sequence) gap_high
                gap_low (c_timestamp candle2) (i + 1)
                (if is_bullish candle2 then BULLISH else BEARISH) False None 0)
              (\<lambda>fvg. Inr (Some fvg))))"

definition detect_fvgs :: "SMCConfig \<Rightarrow> CandleSequence \<Rightarrow> FairValueGap list result" where
  "detect_fvgs config sequence =
     collectR (fvg_at config sequence) [0..<length (seq_candles sequence) - 2]"

text \<open>The three tests of one candle against a gap, and the percentage each returns.\<close>

definition fvg_fill_at :: "FairValueGap \<Rightarrow> Candle \<Rightarrow> rat option" where
  "fvg_fill_at fvg candle =
     (let lower = fvg_lower_bound fvg; upper = fvg_upper_bound fvg; low = c_low candle; high = c_high candle
      in if low \<le> lower \<and> upper \<le> high then Some 100
      else if lower \<le> low \<and> low \<le> upper then Some ((high - lower) / fvg_range_size fvg * 100)
      else if lower \<le> high \<and> high \<le> upper then Some ((upper - low) / fvg_range_size fvg * 100)
      else None)"

definition check_fvg_fill :: "FairValueGap \<Rightarrow> CandleSequence \<Rightarrow> bool \<times> rat option" where
  "check_fvg_fill fvg sequence =
     (let candles = seq_candles sequence in
      if length candles - 1 \<le> fvg_candle_index fvg then (False, None)
      else case find_from (\<lambda>c. fvg_fill_at fvg c \<noteq> None) (fvg_candle_index fvg + 1) candles of
        None \<Rightarrow> (False, None)
      | Some i \<Rightarrow> (True, fvg_fill_at fvg (candles ! i)))"

definition get_unfilled_fvgs :: "FairValueGap list \<Rightarrow> FairValueGap list" where
  "get_unfilled_fvgs fvgs = filter (\<lambda>fvg. \<not> fvg_filled fvg) fvgs"

section \<open>Order blocks\<close>

definition ob_of_candle ::
  "CandleSequence \<Rightarrow> Direction \<Rightarrow> rat \<Rightarrow> nat \<Rightarrow> Candle \<Rightarrow> OrderBlock option result" where
  "ob_of_candle sequence direction displacement i candle =
     bindR (mk_OrderBlock (seq_symbol sequence) (seq_timeframe sequence) (c_high candle) (c_low candle)
         (c_timestamp candle) i direction displacement False False None) (\<lambda>ob. Inr (Some ob))"

definition ob_at ::
  "SMCConfig \<Rightarrow> CandleSequence \<Rightarrow> (Candle \<Rightarrow> bool) \<Rightarrow> (Candle \<Rightarrow> price \<times> price) \<Rightarrow> Direction \<Rightarrow> nat \<Rightarrow>
   OrderBlock option result" where
  "ob_at config sequence opposite move direction i =
     bindR (py_nth (seq_candles sequence) i) (\<lambda>candle.
       if \<not> opposite candle then Inr None
       else bindR (calculate_body_percentage (c_open candle) (c_close candle) (c_high candle)
              (c_low candle)) (\<lambda>body_pct.
         if body_pct < sc_ob_body_percentage_threshold config then Inr None
         else bindR (calculate_pips (fst (move candle)) (snd (move candle)) (seq_symbol sequence))
           (\<lambda>displacement.
             if displacement < sc_min_displacement_pips config then Inr None
             else ob_of_candle sequence direction displacement i candle)))"

definition detect_bullish_ob ::
  "SMCConfig \<Rightarrow> CandleSequence \<Rightarrow> BreakInMarketStructure \<Rightarrow> OrderBlock option result" where
  "detect_bullish_ob config sequence event =
     (if bms_direction event \<noteq> BULLISH then Inr None
      else if bms_candle_index event < 1 then Inr None
      else firstR (ob_at config sequence is_bearish
             (\<lambda>candle. (c_low candle, bms_breakout_price event)) BULLISH)
           (rev [0..<bms_candle_index event]))"

definition detect_bearish_ob ::
  "SMCConfig \<Rightarrow> CandleSequence \<Rightarrow> BreakInMarketStructure \<Rightarrow> OrderBlock option result" where
  "detect_bearish_ob config sequence event =
     (if bms_direction event \<noteq> BEARISH then Inr None
      else if bms_candle_index event < 1 then Inr None
      else firstR (ob_at config sequence is_bullish
             (\<lambda>candle. (bms_breakout_price event, c_high candle)) BEARISH)
           (rev [0..<bms_candle_index event]))"

definition detect_ob_from_choch ::
  "CandleSequence \<Rightarrow> ChangeOfCharacter \<Rightarrow> OrderBlock option result" where
  "detect_ob_from_choch sequence event =
     (if coc_candle_index event < 1 then Inr None
      else let bullish = (coc_direction event = BULLISH) in
        firstR (\<lambda>i. bindR (py_nth (seq_candles sequence) i) (\<lambda>candle.
            if (if bullish then is_bearish candle else is_bullish candle)
            then ob_of_candle sequence (if bullish then BULLISH else BEARISH) 0 i candle
            else Inr None))
          (rev [0..<coc_candle_index event]))"

section \<open>Breaker blocks\<close>

text \<open>The candle that breaks an order block.\<close>

definition breaks_ob :: "OrderBlock \<Rightarrow> Candle \<Rightarrow> bool" where
  "breaks_ob ob candle \<longleftrightarrow>
     (if ob_direction ob = BULLISH then c_close candle < ob_lower_bound ob
      else ob_upper_bound ob < c_close candle)"

definition detect_breaker_from_ob :: "CandleSequence \<Rightarrow> OrderBlock \<Rightarrow> BreakerBlock option result" where
  "detect_breaker_from_ob sequence ob =
     (let candles = seq_candles sequence in
      if length candles - 1 \<le> ob_candle_index ob then Inr None
      else case find_from (breaks_ob ob) (ob_candle_index ob + 1) candles of
        None \<Rightarrow> Inr None
      | Some i \<Rightarrow>
          bindR (mk_BreakerBlock (ob_symbol ob) (ob_timeframe ob) (ob_upper_bound ob)
              (ob_lower_bound ob) (ob_timestamp ob) (ob_candle_index ob)
              (if ob_direction ob = BULLISH then BEARISH else BULLISH) (ob_timestamp ob)
              (c_timestamp (candles ! i)) False None) (\<lambda>breaker. Inr (Some breaker)))"

definition check_breaker_mitigation :: "BreakerBlock \<Rightarrow> CandleSequence \<Rightarrow> bool" where
  "check_breaker_mitigation breaker sequence =
     (let candles = seq_candles sequence in
      if length candles - 1 \<le> bb_candle_index breaker then False
      else list_ex (\<lambda>candle.
          if bb_direction breaker = BULLISH then c_low candle \<le> bb_lower_bound breaker
          else bb_upper_bound breaker \<le> c_high candle)
        (drop (bb_candle_index breaker + 1) candles))"

section \<open>Gaps\<close>

text \<open>Candles \<open>i\<close> and \<open>i + 2\<close> leave the gap \<open>(lo, hi)\<close> between their wicks.\<close>

definition wick_gap :: "CandleSequence \<Rightarrow> nat \<Rightarrow> price \<Rightarrow> price \<Rightarrow> bool" where
  "wick_gap s i lo hi \<longleftrightarrow> lo < hi \<and>
     (lo = c_high (seq_candles s ! i) \<and> hi = c_low (seq_candles s ! (i + 2)) \<or>
      lo = c_high (seq_candles s ! (i + 2)) \<and> hi = c_low (seq_candles s ! i))"

definition gap_event :: "CandleSequence \<Rightarrow> nat \<Rightarrow> price \<Rightarrow> price \<Rightarrow> FairValueGap" where
  "gap_event s i lo hi = (let c2 = seq_candles s ! (i + 1) in
     \<lparr>fvg_symbol = seq_symbol s, fvg_timeframe = seq_timeframe s, fvg_upper_bound = hi,
      fvg_lower_bound = lo, fvg_timestamp = c_timestamp c2, fvg_candle_index = i + 1,
      fvg_direction = (if is_bullish c2 then BULLISH else BEARISH), fvg_filled = False,
      fvg_fill_timestamp = None, fvg_fill_percentage = 0\<rparr>)"

lemma seq_uniform_symbol:
  assumes "wf_seq s" and "i < length (seq_candles s)" and "j < length (seq_candles s)"
  shows "c_symbol (seq_candles s ! i) = c_symbol (seq_candles s ! j)"
  using assms nth_mem unfolding wf_seq_def uniform_def by metis

lemma detect_imbalance_iff:
  assumes "wf_seq s" and "i + 2 < length (seq_candles s)"
  shows "detect_imbalance (seq_candles s ! i) (seq_candles s ! (i + 1)) (seq_candles s ! (i + 2)) =
      Some (lo, hi) \<longleftrightarrow> wick_gap s i lo hi"
proof -
  have n: "i < length (seq_candles s)" "i + 1 < length (seq_candles s)" using assms(2) by simp_all
  have "c_symbol (seq_candles s ! i) = c_symbol (seq_candles s ! (i + 1))"
      "c_symbol (seq_candles s ! (i + 1)) = c_symbol (seq_candles s ! (i + 2))"
    using seq_uniform_symbol [OF assms(1)] n assms(2) by blast+
  moreover have "c_low (seq_candles s ! i) \<le> c_high (seq_candles s ! i)"
      "c_low (seq_candles s ! (i + 2)) \<le> c_high (seq_candles s ! (i + 2))"
    using wf_candleD(5) wf_seq_nth [OF assms(1)] n(1) assms(2) by blast+
  ultimately show ?thesis by (auto simp: detect_imbalance_def wick_gap_def)
qed

lemma fvg_at_reports:
  assumes "wf_seq s" and "clean_symbol (seq_symbol s)" and "i + 2 < length (seq_candles s)"
  shows "\<exists>r. fvg_at config s i = Inr r \<and> (\<forall>e. r = Some e \<longleftrightarrow> (\<exists>lo hi. wick_gap s i lo hi \<and>
      sc_fvg_min_gap_pips config \<le> (hi - lo) / get_pip_value (seq_symbol s) \<and> e = gap_event s i lo hi))"
proof (cases "detect_imbalance (seq_candles s ! i) (seq_candles s ! (i + 1)) (seq_candles s ! (i + 2))")
  case None
  then have "\<not> wick_gap s i lo hi" for lo hi using detect_imbalance_iff [OF assms(1,3), of lo hi] by simp
  then show ?thesis using None by (simp add: fvg_at_def Let_def)
next
  case (Some g)
  obtain lo hi where g: "g = (lo, hi)" by (cases g)
  have gap: "wick_gap s i lo' hi' \<longleftrightarrow> lo' = lo \<and> hi' = hi" for lo' hi'
    using detect_imbalance_iff [OF assms(1,3), of lo' hi'] Some g by auto
  have "0 < c_high (seq_candles s ! i)" "0 < c_high (seq_candles s ! (i + 2))"
    using wf_candleD(4) wf_seq_nth [OF assms(1)] assms(3) by simp_all
  then have b: "0 < lo" "lo < hi" using gap [of lo hi] by (auto simp: wick_gap_def)
  then have "calculate_pips lo hi (seq_symbol s) = Inr ((hi - lo) / get_pip_value (seq_symbol s))"
    by (simp add: calculate_pips_Inr)
  moreover have "mk_FairValueGap (seq_symbol s) (seq_timeframe s) hi lo
      (c_timestamp (seq_candles s ! (i + 1))) (i + 1)
      (if is_bullish (seq_candles s ! (i + 1)) then BULLISH else BEARISH) False None 0 =
      Inr (gap_event s i lo hi)"
    using b assms(2) by (simp add: mk_FairValueGap_def mk_model_clean check_bounds_def gap_event_def Let_def)
  ultimately have "fvg_at config s i =
      Inr (if sc_fvg_min_gap_pips config \<le> (hi - lo) / get_pip_value (seq_symbol s)
        then Some (gap_event s i lo hi) else None)"
    using Some g by (simp add: fvg_at_def Let_def not_less)
  then show ?thesis
    by (intro exI [of _ "if sc_fvg_min_gap_pips config \<le> (hi - lo) / get_pip_value (seq_symbol s)
      then Some (gap_event s i lo hi) else None"]) (auto simp: gap)
qed

lemma detect_fvgs_reports:
  assumes "wf_seq s" and "clean_symbol (seq_symbol s)"
  shows "\<exists>gs. detect_fvgs config s = Inr gs \<and> (\<forall>e. e \<in> set gs \<longleftrightarrow>
     (\<exists>i lo hi. i + 2 < length (seq_candles s) \<and> wick_gap s i lo hi \<and>
       sc_fvg_min_gap_pips config \<le> (hi - lo) / get_pip_value (seq_symbol s) \<and> e = gap_event s i lo hi))"
proof -
  let ?P = "\<lambda>i e. \<exists>lo hi. wick_gap s i lo hi \<and>
      sc_fvg_min_gap_pips config \<le> (hi - lo) / get_pip_value (seq_symbol s) \<and> e = gap_event s i lo hi"
  have "\<exists>gs. detect_fvgs config s = Inr gs \<and>
      (\<forall>e. e \<in> set gs \<longleftrightarrow> (\<exists>i \<in> set [0..<length (seq_candles s) - 2]. ?P i e))"
    unfolding detect_fvgs_def
    by (rule collectR_reports, rule fvg_at_reports [OF assms]) simp
  moreover have "(\<exists>i \<in> set [0..<length (seq_candles s) - 2]. Q i) \<longleftrightarrow>
      (\<exists>i. i + 2 < length (seq_candles s) \<and> Q i)" for Q
    by (auto simp: less_diff_conv)
  ultimately show ?thesis by simp
qed

section \<open>Order blocks and breakers\<close>

text \<open>A candle from which the move to the break may have started.\<close>

definition ob_candidate ::
  "SMCConfig \<Rightarrow> CandleSequence \<Rightarrow> (Candle \<Rightarrow> bool) \<Rightarrow> (Candle \<Rightarrow> price \<times> price) \<Rightarrow> nat \<Rightarrow> bool" where
  "ob_candidate config s opposite move i \<longleftrightarrow> (let c = seq_candles s ! i in
     opposite c \<and> sc_ob_body_percentage_threshold config \<le> body_percentage c \<and>
     sc_min_displacement_pips config \<le>
       \<bar>fst (move c) - snd (move c)\<bar> / get_pip_value (seq_symbol s))"

definition ob_event ::
  "CandleSequence \<Rightarrow> (Candle \<Rightarrow> price \<times> price) \<Rightarrow> Direction \<Rightarrow> nat \<Rightarrow> OrderBlock" where
  "ob_event s move d i = (let c = seq_candles s ! i in
     \<lparr>ob_symbol = seq_symbol s, ob_timeframe = seq_timeframe s, ob_upper_bound = c_high c,
      ob_lower_bound = c_low c, ob_timestamp = c_timestamp c, ob_candle_index = i, ob_direction = d,
      ob_displacement_pips = \<bar>fst (move c) - snd (move c)\<bar> / get_pip_value (seq_symbol s),
      ob_is_breaker = False, ob_mitigated = False, ob_mitigation_timestamp = None\<rparr>)"

definition last_candidate :: "(nat \<Rightarrow> bool) \<Rightarrow> nat \<Rightarrow> nat \<Rightarrow> bool" where
  "last_candidate q n i \<longleftrightarrow> i < n \<and> q i \<and> (\<forall>k. i < k \<and> k < n \<longrightarrow> \<not> q k)"

lemma ob_scan:
  assumes "wf_seq s" and "clean_symbol (seq_symbol s)" and "n \<le> length (seq_candles s)"
    and "\<And>c. opposite c \<Longrightarrow> \<not> is_doji c" and "\<And>c. wf_candle c \<Longrightarrow> 0 \<le> fst (move c) \<and> 0 \<le> snd (move c)"
  shows "\<exists>r. firstR (ob_at config s opposite move d) (rev [0..<n]) = Inr r \<and>
     (\<forall>ob. r = Some ob \<longleftrightarrow>
        (\<exists>i. last_candidate (ob_candidate config s opposite move) n i \<and> ob = ob_event s move d i))"
proof -
  let ?q = "ob_candidate config s opposite move" and ?g = "ob_event s move d"
  have "ob_at config s opposite move d i = Inr (if ?q i then Some (?g i) else None)" if "i < n" for i
  proof -
    let ?c = "seq_candles s ! i"
    have i: "i < length (seq_candles s)" using that assms(3) by simp
    have c: "wf_candle ?c" using wf_seq_nth [OF assms(1) i] .
    note m = assms(5) [OF c] and w = wf_candleD [OF c]
    have "c_low ?c < c_high ?c" if "opposite ?c" using directional_range [OF c assms(4) [OF that]] .
    moreover have "0 \<le> \<bar>fst (move ?c) - snd (move ?c)\<bar> / get_pip_value (seq_symbol s)"
      by (intro divide_nonneg_pos) simp_all
    ultimately show ?thesis
      using m w assms(2) body_percentage_calc [OF c]
      by (auto simp: ob_at_def py_nth_Inr [OF i] ob_candidate_def Let_def calculate_pips_Inr not_less
          ob_of_candle_def mk_OrderBlock_def mk_model_clean check_bounds_def ob_event_def)
  qed
  then have fd: "firstR (ob_at config s opposite move d) (rev [0..<n]) =
      Inr (if \<exists>i<n. ?q i then Some (?g (GREATEST i. i < n \<and> ?q i)) else None)"
    by (rule firstR_down)
  have u: "last_candidate ?q n i \<longleftrightarrow> (\<exists>i<n. ?q i) \<and> i = (GREATEST i. i < n \<and> ?q i)" for i
  proof
    assume l: "last_candidate ?q n i"
    then have "(GREATEST i. i < n \<and> ?q i) = i"
      by (intro Greatest_equality) (auto simp: last_candidate_def simp flip: not_less)
    then show "(\<exists>i<n. ?q i) \<and> i = (GREATEST i. i < n \<and> ?q i)" using l by (auto simp: last_candidate_def)
  next
    assume "(\<exists>i<n. ?q i) \<and> i = (GREATEST i. i < n \<and> ?q i)"
    then have ex: "\<exists>i<n. ?q i" and i: "i = (GREATEST i. i < n \<and> ?q i)" by blast+
    show "last_candidate ?q n i"
      using last_index(1,2) [OF ex] last_index(3) [OF ex] unfolding i [symmetric] last_candidate_def
      by (meson leD)
  qed
  show ?thesis
    by (intro exI [of _ "if \<exists>i<n. ?q i then Some (?g (GREATEST i. i < n \<and> ?q i)) else None"])
       (auto simp: fd u)
qed

lemma bullish_ob_scan:
  assumes "wf_seq s" and "clean_symbol (seq_symbol s)" and "bms_candle_index e \<le> length (seq_candles s)"
    and "bms_direction e = BULLISH" and "0 < bms_breakout_price e"
  shows "\<exists>r. detect_bullish_ob config s e = Inr r \<and> (\<forall>ob. r = Some ob \<longleftrightarrow>
     (\<exists>i. last_candidate (ob_candidate config s is_bearish (\<lambda>c. (c_low c, bms_breakout_price e)))
         (bms_candle_index e) i \<and> ob = ob_event s (\<lambda>c. (c_low c, bms_breakout_price e)) BULLISH i))"
proof -
  have "detect_bullish_ob config s e = firstR (ob_at config s is_bearish
      (\<lambda>c. (c_low c, bms_breakout_price e)) BULLISH) (rev [0..<bms_candle_index e])"
    using assms(4) by (auto simp: detect_bullish_ob_def less_Suc_eq)
  then show ?thesis
    using ob_scan [OF assms(1-3), of is_bearish "\<lambda>c. (c_low c, bms_breakout_price e)" config BULLISH] assms(5)
    by (simp add: is_bearish_def is_doji_def wf_candleD less_imp_le)
qed

lemma bearish_ob_scan:
  assumes "wf_seq s" and "clean_symbol (seq_symbol s)" and "bms_candle_index e \<le> length (seq_candles s)"
    and "bms_direction e = BEARISH" and "0 < bms_breakout_price e"
  shows "\<exists>r. detect_bearish_ob config s e = Inr r \<and> (\<forall>ob. r = Some ob \<longleftrightarrow>
     (\<exists>i. last_candidate (ob_candidate config s is_bullish (\<lambda>c. (bms_breakout_price e, c_high c)))
         (bms_candle_index e) i \<and> ob = ob_event s (\<lambda>c. (bms_breakout_price e, c_high c)) BEARISH i))"
proof -
  have "detect_bearish_ob config s e = firstR (ob_at config s is_bullish
      (\<lambda>c. (bms_breakout_price e, c_high c)) BEARISH) (rev [0..<bms_candle_index e])"
    using assms(4) by (auto simp: detect_bearish_ob_def less_Suc_eq)
  then show ?thesis
    using ob_scan [OF assms(1-3), of is_bullish "\<lambda>c. (bms_breakout_price e, c_high c)" config BEARISH] assms(5)
    by (simp add: is_bullish_def is_doji_def wf_candleD less_imp_le)
qed

text \<open>A breaker is the first close through the block, after the block, with the polarity flipped.\<close>

lemma detect_breaker_reports:
  assumes "clean_symbol (ob_symbol ob)" and "0 < ob_lower_bound ob" and "ob_lower_bound ob < ob_upper_bound ob"
  shows "\<exists>r. detect_breaker_from_ob s ob = Inr r \<and> (\<forall>b. r = Some b \<longleftrightarrow>
     (\<exists>i. find_from (breaks_ob ob) (ob_candle_index ob + 1) (seq_candles s) = Some i \<and>
       b = \<lparr>bb_symbol = ob_symbol ob, bb_timeframe = ob_timeframe ob,
            bb_upper_bound = ob_upper_bound ob, bb_lower_bound = ob_lower_bound ob,
            bb_timestamp = ob_timestamp ob, bb_candle_index = ob_candle_index ob,
            bb_direction = (if ob_direction ob = BULLISH then BEARISH else BULLISH),
            bb_original_ob_timestamp = ob_timestamp ob,
            bb_broken_timestamp = c_timestamp (seq_candles s ! i), bb_mitigated = False,
            bb_mitigation_timestamp = None\<rparr>))"
proof -
  have "find_from (breaks_ob ob) (ob_candle_index ob + 1) (seq_candles s) = None"
    if "length (seq_candles s) - 1 \<le> ob_candle_index ob"
    using that unfolding find_from_None by auto
  then show ?thesis
    using assms
    by (cases "find_from (breaks_ob ob) (ob_candle_index ob + 1) (seq_candles s)")
       (auto simp: detect_breaker_from_ob_def Let_def mk_BreakerBlock_def mk_model_clean check_bounds_def)
qed

section \<open>Properties\<close>

text \<open>C10. On a well-formed sequence the order block detectors never raise, and return the documented
  candle: for a bullish break the last bearish candle before the break whose body and whose
  distance to the breakout price reach the configured minima, with the candle's high and low as
  bounds, and nothing when there is no such candle; dually for a bearish break.\<close>

theorem detect_ob_spec:
  assumes "wf_seq s" and "clean_symbol (seq_symbol s)"
    and "bms_candle_index e \<le> length (seq_candles s)" and "bms_candle_index f \<le> length (seq_candles s)"
    and "bms_direction e = BULLISH" and "bms_direction f = BEARISH"
    and "0 < bms_breakout_price e" and "0 < bms_breakout_price f"
  shows "\<exists>r q. detect_bullish_ob config s e = Inr r \<and> detect_bearish_ob config s f = Inr q \<and>
     (\<forall>ob. r = Some ob \<longleftrightarrow>
        (\<exists>i. last_candidate (ob_candidate config s is_bearish (\<lambda>c. (c_low c, bms_breakout_price e)))
           (bms_candle_index e) i \<and> ob = ob_event s (\<lambda>c. (c_low c, bms_breakout_price e)) BULLISH i)) \<and>
     (\<forall>ob. q = Some ob \<longleftrightarrow>
        (\<exists>i. last_candidate (ob_candidate config s is_bullish (\<lambda>c. (bms_breakout_price f, c_high c)))
           (bms_candle_index f) i \<and> ob = ob_event s (\<lambda>c. (bms_breakout_price f, c_high c)) BEARISH i))"
  using bullish_ob_scan [OF assms(1,2,3,5,7), of config] bearish_ob_scan [OF assms(1,2,4,6,8), of config]
  by (elim exE conjE) (intro exI conjI; assumption)

text \<open>C32. On a well-formed sequence the gap detector never raises and reports exactly the
  three-candle gaps of at least the configured size: the wicks of the first and the third candle do
  not overlap, the bounds are the two wick ends and the index is that of the middle candle.\<close>

theorem detect_fvgs_spec:
  assumes "wf_seq s" and "clean_symbol (seq_symbol s)"
  shows "\<exists>gs. detect_fvgs config s = Inr gs \<and> (\<forall>e. e \<in> set gs \<longleftrightarrow>
     (\<exists>i lo hi. i + 2 < length (seq_candles s) \<and> wick_gap s i lo hi \<and>
       sc_fvg_min_gap_pips config \<le> (hi - lo) / get_pip_value (seq_symbol s) \<and> e = gap_event s i lo hi))"
  by (rule detect_fvgs_reports [OF assms])

text \<open>The fill check starts at the third candle of the gap itself, so it reports every detected
  gap as filled, whatever happens afterwards; the percentage is at least 100 unless that candle is
  flat, in which case it may be 0.\<close>

theorem fvg_filled_at_birth:
  assumes "wf_seq s" and "clean_symbol (seq_symbol s)"
    and "detect_fvgs config s = Inr gs" and "g \<in> set gs"
  shows "\<exists>p. check_fvg_fill g s = (True, Some p) \<and>
     (c_low (seq_candles s ! (fvg_candle_index g + 1)) < c_high (seq_candles s ! (fvg_candle_index g + 1))
        \<longrightarrow> 100 \<le> p)"
proof -
  obtain i lo hi where i: "i + 2 < length (seq_candles s)" "wick_gap s i lo hi" "g = gap_event s i lo hi"
    using detect_fvgs_reports [OF assms(1,2), of config] assms(3,4) by auto
  let ?c = "seq_candles s ! (i + 2)"
  have lh: "lo < hi" using i(2) by (simp add: wick_gap_def)
  have c: "c_low ?c \<le> c_high ?c" using wf_candleD(5) [OF wf_seq_nth [OF assms(1) i(1)]] .
  have g: "fvg_lower_bound g = lo" "fvg_upper_bound g = hi" "fvg_range_size g = hi - lo"
      "fvg_candle_index g = i + 1"
    using i(3) by (simp_all add: gap_event_def fvg_range_size_def Let_def)
  obtain p where p: "fvg_fill_at g ?c = Some p" "c_low ?c < c_high ?c \<Longrightarrow> 100 \<le> p"
  proof (cases "hi = c_low ?c")
    case True
    then have "fvg_fill_at g ?c = Some ((c_high ?c - lo) / (hi - lo) * 100)"
      using lh by (simp add: fvg_fill_at_def g Let_def)
    moreover have q: "1 \<le> (c_high ?c - lo) / (hi - lo)" using lh c True by simp
    moreover have "100 \<le> (c_high ?c - lo) / (hi - lo) * 100"
      by (intro order_trans [OF _ mult_right_mono [OF q, of 100]]) simp_all
    ultimately show thesis using that by blast
  next
    case False
    then have h: "lo = c_high ?c" using i(2) by (auto simp: wick_gap_def)
    show thesis
    proof (cases "c_low ?c = c_high ?c")
      case True
      then show thesis using that h lh by (simp add: fvg_fill_at_def g Let_def)
    next
      case ne: False
      then have "fvg_fill_at g ?c = Some ((hi - c_low ?c) / (hi - lo) * 100)"
        using lh h c by (simp add: fvg_fill_at_def g Let_def)
      moreover have q: "1 \<le> (hi - c_low ?c) / (hi - lo)" using lh c h by simp
      moreover have "100 \<le> (hi - c_low ?c) / (hi - lo) * 100"
      by (intro order_trans [OF _ mult_right_mono [OF q, of 100]]) simp_all
      ultimately show thesis using that by blast
    qed
  qed
  have "find_from (\<lambda>c. fvg_fill_at g c \<noteq> None) (i + 2) (seq_candles s) = Some (i + 2)"
    using i(1) p(1) by (auto simp: find_from_Some)
  then have "check_fvg_fill g s = (True, Some p)"
    using i(1) p(1) by (simp add: check_fvg_fill_def g Let_def)
  with p(2) show ?thesis by (simp add: g)
qed

text \<open>Candle \<open>i\<close> is the first one after the order block that closes through its far side.\<close>

definition first_close_through :: "OrderBlock \<Rightarrow> CandleSequence \<Rightarrow> nat \<Rightarrow> bool" where
  "first_close_through ob s i =
     (let cs = seq_candles s in ob_candle_index ob < i \<and> i < length cs \<and>
      (case ob_direction ob of
         BULLISH \<Rightarrow> c_close (cs ! i) < ob_lower_bound ob \<and>
           (\<forall>k. ob_candle_index ob < k \<and> k < i \<longrightarrow> ob_lower_bound ob \<le> c_close (cs ! k))
       | BEARISH \<Rightarrow> ob_upper_bound ob < c_close (cs ! i) \<and>
           (\<forall>k. ob_candle_index ob < k \<and> k < i \<longrightarrow> c_close (cs ! k) \<le> ob_upper_bound ob)
       | NEUTRAL \<Rightarrow> False))"

lemma find_breaks_ob:
  assumes "ob_direction ob = BULLISH \<or> ob_direction ob = BEARISH"
  shows "find_from (breaks_ob ob) (ob_candle_index ob + 1) (seq_candles s) = Some i \<longleftrightarrow> first_close_through ob s i"
  using assms by (auto simp: find_from_Some first_close_through_def breaks_ob_def Suc_le_eq not_less Let_def)

lemma breaker_mitigation_iff:
  "check_breaker_mitigation b s \<longleftrightarrow>
     (\<exists>k. bb_candle_index b < k \<and> k < length (seq_candles s) \<and>
        (if bb_direction b = BULLISH then c_low (seq_candles s ! k) \<le> bb_lower_bound b
         else bb_upper_bound b \<le> c_high (seq_candles s ! k)))"
proof -
  have later: "(\<exists>c \<in> set (drop (n + 1) cs). P c) \<longleftrightarrow> (\<exists>k. n < k \<and> k < length cs \<and> P (cs ! k))"
    for n and cs :: "Candle list" and P
  proof
    assume "\<exists>c \<in> set (drop (n + 1) cs). P c"
    then obtain j where "j < length (drop (n + 1) cs)" "P (drop (n + 1) cs ! j)" by (auto simp: in_set_conv_nth)
    then show "\<exists>k. n < k \<and> k < length cs \<and> P (cs ! k)" by (intro exI [of _ "n + 1 + j"]) simp
  next
    assume "\<exists>k. n < k \<and> k < length cs \<and> P (cs ! k)"
    then obtain k where "n < k" "k < length cs" "P (cs ! k)" by blast
    then have "cs ! k = drop (n + 1) cs ! (k - (n + 1))" "k - (n + 1) < length (drop (n + 1) cs)" by simp_all
    with \<open>P (cs ! k)\<close> show "\<exists>c \<in> set (drop (n + 1) cs). P c" using nth_mem by metis
  qed
  show ?thesis
    unfolding check_breaker_mitigation_def Let_def list_ex_iff later by auto
qed

text \<open>C33. A breaker is formed exactly when a candle after the order block closes through its far side: below
  a bullish block, above a bearish one. It keeps the block's bounds and time, has the opposite direction
  and carries the time of the first such close. The mitigation check scans from the block and not from
  that close: the breaker counts as mitigated exactly when some candle after the block, such as the
  breakout the block launched, reached the upper bound of a bullish block or the lower bound of a bearish one.\<close>

theorem breaker_spec:
  assumes "clean_symbol (ob_symbol ob)" and "0 < ob_lower_bound ob" and "ob_lower_bound ob < ob_upper_bound ob"
    and "ob_direction ob = BULLISH \<or> ob_direction ob = BEARISH"
  shows "\<exists>r. detect_breaker_from_ob s ob = Inr r \<and>
     (r = None \<longleftrightarrow> (\<forall>k. ob_candle_index ob < k \<and> k < length (seq_candles s) \<longrightarrow>
        (if ob_direction ob = BULLISH then ob_lower_bound ob \<le> c_close (seq_candles s ! k)
         else c_close (seq_candles s ! k) \<le> ob_upper_bound ob))) \<and>
     (\<forall>b. r = Some b \<longrightarrow>
        bb_direction b = (if ob_direction ob = BULLISH then BEARISH else BULLISH) \<and>
        bb_upper_bound b = ob_upper_bound ob \<and> bb_lower_bound b = ob_lower_bound ob \<and>
        bb_timestamp b = ob_timestamp ob \<and> bb_original_ob_timestamp b = ob_timestamp ob \<and>
        (\<exists>i. first_close_through ob s i \<and> bb_broken_timestamp b = c_timestamp (seq_candles s ! i)) \<and>
        (check_breaker_mitigation b s \<longleftrightarrow>
           (\<exists>k. ob_candle_index ob < k \<and> k < length (seq_candles s) \<and>
              (if ob_direction ob = BULLISH then ob_upper_bound ob \<le> c_high (seq_candles s ! k)
               else c_low (seq_candles s ! k) \<le> ob_lower_bound ob))))"
proof -
  let ?f = "find_from (breaks_ob ob) (ob_candle_index ob + 1) (seq_candles s)"
  let ?b = "\<lambda>i. \<lparr>bb_symbol = ob_symbol ob, bb_timeframe = ob_timeframe ob,
            bb_upper_bound = ob_upper_bound ob, bb_lower_bound = ob_lower_bound ob,
            bb_timestamp = ob_timestamp ob, bb_candle_index = ob_candle_index ob,
            bb_direction = (if ob_direction ob = BULLISH then BEARISH else BULLISH),
            bb_original_ob_timestamp = ob_timestamp ob,
            bb_broken_timestamp = c_timestamp (seq_candles s ! i), bb_mitigated = False,
            bb_mitigation_timestamp = None\<rparr>"
  obtain r where r: "detect_breaker_from_ob s ob = Inr r" "\<And>b. r = Some b \<longleftrightarrow> (\<exists>i. ?f = Some i \<and> b = ?b i)"
    using detect_breaker_reports [OF assms(1-3), of s] by blast
  have "r = None \<longleftrightarrow> ?f = None" using r(2) by (cases ?f; cases r) auto
  also have "\<dots> \<longleftrightarrow> (\<forall>k. ob_candle_index ob < k \<and> k < length (seq_candles s) \<longrightarrow>
      (if ob_direction ob = BULLISH then ob_lower_bound ob \<le> c_close (seq_candles s ! k)
       else c_close (seq_candles s ! k) \<le> ob_upper_bound ob))"
    by (simp add: find_from_None breaks_ob_def not_less Suc_le_eq)
  finally have none: "r = None \<longleftrightarrow> \<dots>" .
  have some: "\<exists>i. first_close_through ob s i \<and> b = ?b i" if "r = Some b" for b
    using r(2) [of b] that find_breaks_ob [OF assms(4), of s] by simp
  show ?thesis
    by (intro exI [of _ r] conjI [OF r(1)] conjI [OF none] allI impI, drule some)
      (use assms(4) in \<open>auto simp: breaker_mitigation_iff\<close>)
qed

definition ex_imb_seq :: CandleSequence where
  "ex_imb_seq = \<lparr>seq_symbol = ''EURUSD'', seq_timeframe = H1,
     seq_candles = [ex_candle 0 2 2 1 1, ex_candle 60 1 4 1 4, ex_candle 120 4 5 3 5,
       ex_candle 180 5 5 (1 / 2) (1 / 2)]\<rparr>"

lemma wf_ex_imb_seq: "wf_seq ex_imb_seq" "clean_symbol (seq_symbol ex_imb_seq)"
  by (simp_all add: ex_imb_seq_def wf_seq_def wf_candle_def uniform_def)

definition ex_bms :: "Direction \<Rightarrow> BreakInMarketStructure" where
  "ex_bms d = \<lparr>bms_symbol = ''EURUSD'', bms_timeframe = H1, bms_timestamp = 60, bms_direction = d,
     bms_broken_level = 2, bms_broken_level_timestamp = 0, bms_breakout_price = 4,
     bms_candle_index = 1, bms_displacement_pips = 20000, bms_confirmed = True\<rparr>"

definition ex_ob :: OrderBlock where
  "ex_ob = \<lparr>ob_symbol = ''EURUSD'', ob_timeframe = H1, ob_upper_bound = 2, ob_lower_bound = 1,
     ob_timestamp = 0, ob_candle_index = 0, ob_direction = BULLISH, ob_displacement_pips = 30000,
     ob_is_breaker = False, ob_mitigated = False, ob_mitigation_timestamp = None\<rparr>"

theorem detect_ob_spec_witness:
  "detect_bullish_ob default_SMCConfig ex_imb_seq (ex_bms BULLISH) = Inr (Some ex_ob) \<and>
   detect_bearish_ob default_SMCConfig ex_imb_seq (ex_bms BEARISH) = Inr None"
proof -
  let ?e = "ex_bms BULLISH" and ?f = "ex_bms BEARISH"
  have n: "bms_candle_index ?e \<le> length (seq_candles ex_imb_seq)"
      "bms_candle_index ?f \<le> length (seq_candles ex_imb_seq)"
      "bms_direction ?e = BULLISH" "bms_direction ?f = BEARISH"
      "0 < bms_breakout_price ?e" "0 < bms_breakout_price ?f"
    by (simp_all add: ex_bms_def ex_imb_seq_def)
  have "last_candidate (ob_candidate default_SMCConfig ex_imb_seq is_bearish
      (\<lambda>c. (c_low c, bms_breakout_price ?e))) (bms_candle_index ?e) 0"
    by (simp add: last_candidate_def ob_candidate_def ex_bms_def ex_imb_seq_def is_bearish_def
        default_SMCConfig_def body_percentage_def body_size_def total_range_def pip_EURUSD)
  moreover have "ob_event ex_imb_seq (\<lambda>c. (c_low c, bms_breakout_price ?e)) BULLISH 0 = ex_ob"
    by (simp add: ob_event_def ex_imb_seq_def ex_ob_def ex_bms_def pip_EURUSD)
  moreover have "\<not> last_candidate (ob_candidate default_SMCConfig ex_imb_seq is_bullish
      (\<lambda>c. (bms_breakout_price ?f, c_high c))) (bms_candle_index ?f) i" for i
    by (cases i) (simp_all add: last_candidate_def ob_candidate_def ex_bms_def ex_imb_seq_def is_bullish_def)
  ultimately show ?thesis
    using detect_ob_spec [OF wf_ex_imb_seq n, of default_SMCConfig] by (metis not_None_eq)
qed

lemma ex_gap: "wick_gap ex_imb_seq 0 2 3"
  by (simp add: wick_gap_def ex_imb_seq_def)

theorem detect_fvgs_spec_witness:
  "\<exists>gs. detect_fvgs default_SMCConfig ex_imb_seq = Inr gs \<and> gap_event ex_imb_seq 0 2 3 \<in> set gs"
proof -
  have "0 + 2 < length (seq_candles ex_imb_seq)" "sc_fvg_min_gap_pips default_SMCConfig \<le>
      (3 - 2) / get_pip_value (seq_symbol ex_imb_seq)"
    by (simp_all add: ex_imb_seq_def default_SMCConfig_def pip_EURUSD)
  then show ?thesis
    using detect_fvgs_spec [OF wf_ex_imb_seq, of default_SMCConfig] ex_gap by metis
qed

theorem fvg_filled_at_birth_witness:
  "\<exists>gs p. detect_fvgs default_SMCConfig ex_imb_seq = Inr gs \<and>
     check_fvg_fill (gap_event ex_imb_seq 0 2 3) ex_imb_seq = (True, Some p) \<and> 100 \<le> p"
proof -
  have "0 + 2 < length (seq_candles ex_imb_seq)" "sc_fvg_min_gap_pips default_SMCConfig \<le>
      (3 - 2) / get_pip_value (seq_symbol ex_imb_seq)"
    by (simp_all add: ex_imb_seq_def default_SMCConfig_def pip_EURUSD)
  then obtain gs where gs: "detect_fvgs default_SMCConfig ex_imb_seq = Inr gs"
      "gap_event ex_imb_seq 0 2 3 \<in> set gs"
    using detect_fvgs_reports [OF wf_ex_imb_seq, of default_SMCConfig] ex_gap by metis
  have "fvg_candle_index (gap_event ex_imb_seq 0 2 3) + 1 = 2" by (simp add: gap_event_def Let_def)
  moreover have "c_low (seq_candles ex_imb_seq ! 2) < c_high (seq_candles ex_imb_seq ! 2)"
    by (simp add: ex_imb_seq_def)
  ultimately show ?thesis using fvg_filled_at_birth [OF wf_ex_imb_seq gs] gs(1) by metis
qed

theorem breaker_spec_witness:
  "\<exists>b. detect_breaker_from_ob ex_imb_seq ex_ob = Inr (Some b) \<and> bb_direction b = BEARISH \<and>
     bb_timestamp b = 0 \<and> bb_broken_timestamp b = 180 \<and> check_breaker_mitigation b ex_imb_seq"
proof -
  have ob: "clean_symbol (ob_symbol ex_ob)" "0 < ob_lower_bound ex_ob"
      "ob_lower_bound ex_ob < ob_upper_bound ex_ob" "ob_direction ex_ob = BULLISH"
      "ob_timestamp ex_ob = 0"
    by (simp_all add: ex_ob_def)
  have three: "ob_candle_index ex_ob < 3 \<and> 3 < length (seq_candles ex_imb_seq) \<and>
      \<not> ob_lower_bound ex_ob \<le> c_close (seq_candles ex_imb_seq ! 3)"
    by (simp add: ex_ob_def ex_imb_seq_def)
  have one: "ob_candle_index ex_ob < 1 \<and> 1 < length (seq_candles ex_imb_seq) \<and>
      ob_upper_bound ex_ob \<le> c_high (seq_candles ex_imb_seq ! 1)"
    by (simp add: ex_ob_def ex_imb_seq_def)
  have broken: "c_timestamp (seq_candles ex_imb_seq ! i) = 180" if "first_close_through ex_ob ex_imb_seq i" for i
    using that by (auto simp: first_close_through_def ex_ob_def ex_imb_seq_def nth_Cons split: nat.splits)
  obtain r where r: "detect_breaker_from_ob ex_imb_seq ex_ob = Inr r"
      "r = None \<Longrightarrow> ob_lower_bound ex_ob \<le> c_close (seq_candles ex_imb_seq ! 3)"
      "\<And>b. r = Some b \<Longrightarrow> bb_direction b = BEARISH \<and> bb_timestamp b = 0 \<and>
         (\<exists>i. first_close_through ex_ob ex_imb_seq i \<and> bb_broken_timestamp b = c_timestamp (seq_candles ex_imb_seq ! i)) \<and>
         check_breaker_mitigation b ex_imb_seq"
    using breaker_spec [OF ob(1-3) disjI1 [OF ob(4)], of ex_imb_seq] ob(4,5) three one
    by (elim exE conjE) (rule that, assumption, simp, auto)
  then obtain b where "r = Some b" using three by (cases r) auto
  then show ?thesis using r(1) r(3) [of b] broken by auto
qed

end
