(* ===== verification/LiquidityModels.thy ===== *)
theory LiquidityModels
  imports Candle
begin

text \<open>
  The event models of \<^verbatim>\<open>engine/ta/models/liquidity_event.py\<close>: pools, sweeps, grabs,
  inducements, compressions and equal highs or lows, with the validation of their constructors.
  Indices and counts with a non-negative lower bound are natural numbers.
\<close>

section \<open>Pools\<close>

record LiquidityPool =
  lp_symbol :: string
  lp_timeframe :: Timeframe
  lp_liquidity_type :: LiquidityType
  lp_price_level :: price
  lp_timestamp :: datetime
  lp_strength :: nat
  lp_touch_count :: nat

definition mk_LiquidityPool ::
  "string \<Rightarrow> Timeframe \<Rightarrow> LiquidityType \<Rightarrow> price \<Rightarrow> datetime \<Rightarrow> nat \<Rightarrow> nat \<Rightarrow> LiquidityPool result" where
  "mk_LiquidityPool symbol timeframe liquidity_type price_level timestamp strength touch_count =
     mk_model ''LiquidityPool'' symbol
       (0 < price_level \<and> 1 \<le> strength \<and> strength \<le> 10 \<and> 1 \<le> touch_count)
       (\<lambda>s. \<lparr>lp_symbol = s, lp_timeframe = timeframe, lp_liquidity_type = liquidity_type,
             lp_price_level = price_level, lp_timestamp = timestamp, lp_strength = strength,
             lp_touch_count = touch_count\<rparr>)"

definition is_buy_side :: "LiquidityPool \<Rightarrow> bool" where
  "is_buy_side p \<longleftrightarrow> lp_liquidity_type p \<in> {BSL, EQUAL_HIGHS}"

definition is_sell_side :: "LiquidityPool \<Rightarrow> bool" where
  "is_sell_side p \<longleftrightarrow> lp_liquidity_type p \<in> {SSL, EQUAL_LOWS}"

section \<open>Sweeps\<close>

record LiquiditySweep =
  ls_symbol :: string
  ls_timeframe :: Timeframe
  ls_timestamp :: datetime
  ls_liquidity_type :: LiquidityType
  ls_swept_level :: price
  ls_swept_level_timestamp :: datetime
  ls_sweep_high :: price
  ls_sweep_low :: price
  ls_sweep_pips :: rat
  ls_closed_back_inside :: bool
  ls_close_price :: "price option"
  ls_candle_index :: nat
  ls_is_major_sweep :: bool

definition mk_LiquiditySweep ::
  "string \<Rightarrow> Timeframe \<Rightarrow> datetime \<Rightarrow> LiquidityType \<Rightarrow> price \<Rightarrow> datetime \<Rightarrow> price \<Rightarrow> price \<Rightarrow> rat \<Rightarrow>
   bool \<Rightarrow> price option \<Rightarrow> nat \<Rightarrow> bool \<Rightarrow> LiquiditySweep result" where
  "mk_LiquiditySweep symbol timeframe timestamp liquidity_type swept_level swept_level_timestamp
       sweep_high sweep_low sweep_pips closed_back_inside close_price candle_index is_major_sweep =
     mk_model ''LiquiditySweep'' symbol
       (0 < swept_level \<and> 0 < sweep_high \<and> 0 < sweep_low \<and> 0 \<le> sweep_pips \<and>
        (\<forall>c \<in> set_option close_price. 0 < c))
       (\<lambda>s. \<lparr>ls_symbol = s, ls_timeframe = timeframe, ls_timestamp = timestamp,
             ls_liquidity_type = liquidity_type, ls_swept_level = swept_level,
             ls_swept_level_timestamp = swept_level_timestamp, ls_sweep_high = sweep_high,
             ls_sweep_low = sweep_low, ls_sweep_pips = sweep_pips,
             ls_closed_back_inside = closed_back_inside, ls_close_price = close_price,
             ls_candle_index = candle_index, ls_is_major_sweep = is_major_sweep\<rparr>)"

definition is_bullish_sweep :: "LiquiditySweep \<Rightarrow> bool" where
  "is_bullish_sweep s \<longleftrightarrow> ls_liquidity_type s \<in> {BSL, EQUAL_HIGHS, PDH_SWEEP}"

definition is_bearish_sweep :: "LiquiditySweep \<Rightarrow> bool" where
  "is_bearish_sweep s \<longleftrightarrow> ls_liquidity_type s \<in> {SSL, EQUAL_LOWS, PDL_SWEEP}"

definition is_valid_turtle_soup :: "LiquiditySweep \<Rightarrow> bool" where
  "is_valid_turtle_soup s \<longleftrightarrow> ls_closed_back_inside s \<and> 5 \<le> ls_sweep_pips s"

section \<open>Grabs and inducements\<close>

record LiquidityGrab =
  lg_symbol :: string
  lg_timeframe :: Timeframe
  lg_timestamp :: datetime
  lg_direction :: Direction
  lg_grabbed_level :: price
  lg_grabbed_level_timestamp :: datetime
  lg_grab_price :: price
  lg_reversal_price :: "price option"
  lg_candle_index :: nat
  lg_confirmed :: bool

definition mk_LiquidityGrab ::
  "string \<Rightarrow> Timeframe \<Rightarrow> datetime \<Rightarrow> Direction \<Rightarrow> price \<Rightarrow> datetime \<Rightarrow> price \<Rightarrow> price option \<Rightarrow> nat \<Rightarrow>
   bool \<Rightarrow> LiquidityGrab result" where
  "mk_LiquidityGrab symbol timeframe timestamp direction grabbed_level grabbed_level_timestamp
       grab_price reversal_price candle_index confirmed =
     mk_model ''LiquidityGrab'' symbol
       (0 < grabbed_level \<and> 0 < grab_price \<and> (\<forall>p \<in> set_option reversal_price. 0 < p))
       (\<lambda>s. \<lparr>lg_symbol = s, lg_timeframe = timeframe, lg_timestamp = timestamp,
             lg_direction = direction, lg_grabbed_level = grabbed_level,
             lg_grabbed_level_timestamp = grabbed_level_timestamp, lg_grab_price = grab_price,
             lg_reversal_price = reversal_price, lg_candle_index = candle_index,
             lg_confirmed = confirmed\<rparr>)"

record InducementEvent =
  ie_symbol :: string
  ie_timeframe :: Timeframe
  ie_timestamp :: datetime
  ie_inducement_level :: price
  ie_inducement_timestamp :: datetime
  ie_direction :: Direction
  ie_cleared :: bool
  ie_cleared_timestamp :: "datetime option"
  ie_candle_index :: nat
  ie_is_internal :: bool

definition mk_InducementEvent ::
  "string \<Rightarrow> Timeframe \<Rightarrow> datetime \<Rightarrow> price \<Rightarrow> datetime \<Rightarrow> Direction \<Rightarrow> bool \<Rightarrow> datetime option \<Rightarrow> nat \<Rightarrow>
   bool \<Rightarrow> InducementEvent result" where
  "mk_InducementEvent symbol timeframe timestamp inducement_level inducement_timestamp direction
       cleared cleared_timestamp candle_index is_internal =
     mk_model ''InducementEvent'' symbol (0 < inducement_level)
       (\<lambda>s. \<lparr>ie_symbol = s, ie_timeframe = timeframe, ie_timestamp = timestamp,
             ie_inducement_level = inducement_level,
             ie_inducement_timestamp = inducement_timestamp, ie_direction = direction,
             ie_cleared = cleared, ie_cleared_timestamp = cleared_timestamp,
             ie_candle_index = candle_index, ie_is_internal = is_internal\<rparr>)"

section \<open>Compressions\<close>

record CompressionEvent =
  ce_symbol :: string
  ce_timeframe :: Timeframe
  ce_start_timestamp :: datetime
  ce_end_timestamp :: "datetime option"
  ce_high :: price
  ce_low :: price
  ce_direction :: Direction
  ce_candle_count :: nat
  ce_start_index :: nat
  ce_end_index :: "nat option"
  ce_broken :: bool
  ce_breakout_direction :: "Direction option"

text \<open>\<^verbatim>\<open>CompressionEvent\<close> with \<^verbatim>\<open>broken\<close> and \<^verbatim>\<open>breakout_direction\<close> at
  their defaults, as the analyzer constructs it.\<close>

definition mk_CompressionEvent ::
  "string \<Rightarrow> Timeframe \<Rightarrow> datetime \<Rightarrow> datetime option \<Rightarrow> price \<Rightarrow> price \<Rightarrow> Direction \<Rightarrow> nat \<Rightarrow> nat \<Rightarrow>
   nat option \<Rightarrow> CompressionEvent result" where
  "mk_CompressionEvent symbol timeframe start_timestamp end_timestamp high low direction
       candle_count start_index end_index =
     mk_model ''CompressionEvent'' symbol (0 < high \<and> 0 < low \<and> 2 \<le> candle_count)
       (\<lambda>s. \<lparr>ce_symbol = s, ce_timeframe = timeframe, ce_start_timestamp = start_timestamp,
             ce_end_timestamp = end_timestamp, ce_high = high, ce_low = low,
             ce_direction = direction, ce_candle_count = candle_count,
             ce_start_index = start_index, ce_end_index = end_index, ce_broken = False,
             ce_breakout_direction = None\<rparr>)"

definition ce_range_size :: "CompressionEvent \<Rightarrow> rat" where
  "ce_range_size c = ce_high c - ce_low c"

section \<open>Equal highs and lows\<close>

record EqualHighsLows =
  eq_symbol :: string
  eq_timeframe :: Timeframe
  eq_liquidity_type :: LiquidityType
  eq_price_level :: price
  eq_timestamps :: "datetime list"
  eq_tolerance_pips :: rat
  eq_candle_indices :: "nat list"
  eq_swept :: bool
  eq_swept_timestamp :: "datetime option"

definition mk_EqualHighsLows ::
  "string \<Rightarrow> Timeframe \<Rightarrow> LiquidityType \<Rightarrow> price \<Rightarrow> datetime list \<Rightarrow> rat \<Rightarrow> nat list \<Rightarrow>
   EqualHighsLows result" where
  "mk_EqualHighsLows symbol timeframe liquidity_type price_level timestamps tolerance_pips
       candle_indices =
     mk_model ''EqualHighsLows'' symbol
       (liquidity_type \<in> {EQUAL_HIGHS, EQUAL_LOWS} \<and> 0 < price_level \<and> 2 \<le> length timestamps \<and>
        0 \<le> tolerance_pips \<and> 2 \<le> length candle_indices)
       (\<lambda>s. \<lparr>eq_symbol = s, eq_timeframe = timeframe, eq_liquidity_type = liquidity_type,
             eq_price_level = price_level, eq_timestamps = timestamps,
             eq_tolerance_pips = tolerance_pips, eq_candle_indices = candle_indices,
             eq_swept = False, eq_swept_timestamp = None\<rparr>)"

definition eq_touch_count :: "EqualHighsLows \<Rightarrow> nat" where
  "eq_touch_count e = length (eq_timestamps e)"

definition to_liquidity_pool :: "EqualHighsLows \<Rightarrow> LiquidityPool result" where
  "to_liquidity_pool e =
     (case eq_timestamps e of
        [] \<Rightarrow> Inl IndexError
      | t # _ \<Rightarrow> mk_LiquidityPool (eq_symbol e) (eq_timeframe e) (eq_liquidity_type e)
                   (eq_price_level e) t (min (eq_touch_count e) 10) (eq_touch_count e))"

lemmas liquidity_makers =
  mk_LiquidityPool_def mk_LiquiditySweep_def mk_LiquidityGrab_def mk_InducementEvent_def
  mk_CompressionEvent_def mk_EqualHighsLows_def

lemma to_liquidity_pool_ok:
  assumes "mk_EqualHighsLows sy tf ty p ts tol is = Inr e" and "clean_symbol sy"
  shows "\<exists>pool. to_liquidity_pool e = Inr pool \<and> lp_price_level pool = p \<and>
     lp_touch_count pool = length ts \<and> lp_strength pool \<le> 10"
proof (cases ts)
  case Nil
  then show ?thesis using assms(1) by (simp add: mk_EqualHighsLows_def mk_model_Inr)
next
  case (Cons t ts')
  then show ?thesis
    using assms
    by (auto simp: mk_EqualHighsLows_def mk_model_Inr to_liquidity_pool_def mk_LiquidityPool_def
        eq_touch_count_def clean_symbol_def min_def)
qed

end
