(* ===== verification/Liquidity.thy ===== *)
theory Liquidity
  imports LiquidityModels Swing
begin

text \<open>
  \<^verbatim>\<open>LiquidityAnalyzer\<close> of \<^verbatim>\<open>engine/ta/common/analyzers/liquidity.py\<close>.
  \<^verbatim>\<open>detect_equal_highs\<close> and \<^verbatim>\<open>detect_equal_lows\<close> run the same loops over the two
  kinds of swing; the loops are written once, over the projections of the swing they read.
\<close>

section \<open>The analyzer\<close>

record LiquidityAnalyzer =
  la_equal_tolerance_pips :: rat
  la_min_touches :: nat
  la_clustering_distance_pips :: rat

definition detect_bsl :: "SwingHigh list \<Rightarrow> LiquidityPool list result" where
  "detect_bsl swing_highs = mapR (\<lambda>s. mk_LiquidityPool (sh_symbol s) (sh_timeframe s) BSL (sh_price s)
     (sh_timestamp s) (sh_strength s) 1) swing_highs"

definition detect_ssl :: "SwingLow list \<Rightarrow> LiquidityPool list result" where
  "detect_ssl swing_lows = mapR (\<lambda>s. mk_LiquidityPool (sl_symbol s) (sl_timeframe s) SSL (sl_price s)
     (sl_timestamp s) (sl_strength s) 1) swing_lows"

text \<open>The inner loop over \<^verbatim>\<open>range(i + 1, len(swings))\<close>: \<open>near x y\<close> is the tolerance test,
  the state holds the members of the group and the processed indices.\<close>

definition equal_inner ::
  "('s \<Rightarrow> 's \<Rightarrow> bool result) \<Rightarrow> 's list \<Rightarrow> nat \<Rightarrow> nat set \<Rightarrow> ('s list \<times> nat set) result" where
  "equal_inner near swings i processed =
     foldR (\<lambda>j (grp, processed).
        if j \<in> processed then Inr (grp, processed)
        else bindR (near (swings ! i) (swings ! j)) (\<lambda>b.
          Inr (if b then (grp @ [swings ! j], insert j processed) else (grp, processed))))
       [i + 1..<length swings] ([swings ! i], processed)"

text \<open>The outer loop.\<close>

definition equal_outer ::
  "('s \<Rightarrow> 's \<Rightarrow> bool result) \<Rightarrow> ('s \<Rightarrow> 's list \<Rightarrow> EqualHighsLows result) \<Rightarrow> nat \<Rightarrow> 's list \<Rightarrow>
   nat list \<Rightarrow> EqualHighsLows list \<times> nat set \<Rightarrow> (EqualHighsLows list \<times> nat set) result" where
  "equal_outer near build min_touches swings =
     foldR (\<lambda>i (groups, processed).
        if i \<in> processed then Inr (groups, processed)
        else bindR (equal_inner near swings i processed) (\<lambda>(grp, processed).
          if min_touches \<le> length grp
          then bindR (build (swings ! i) grp) (\<lambda>e. Inr (groups @ [e], insert i processed))
          else Inr (groups, processed)))"

definition detect_equal_highs :: "LiquidityAnalyzer \<Rightarrow> SwingHigh list \<Rightarrow> EqualHighsLows list result" where
  "detect_equal_highs self swing_highs =
     bindR (equal_outer
         (\<lambda>s t. is_within_tolerance (sh_price s) (sh_price t) (la_equal_tolerance_pips self) (sh_symbol s))
         (\<lambda>s grp. mk_EqualHighsLows (sh_symbol s) (sh_timeframe s) EQUAL_HIGHS (sh_price s)
            (map sh_timestamp grp) (la_equal_tolerance_pips self) (map sh_index grp))
         (la_min_touches self) swing_highs [0..<length swing_highs] ([], {}))
       (\<lambda>(groups, processed). Inr groups)"

definition detect_equal_lows :: "LiquidityAnalyzer \<Rightarrow> SwingLow list \<Rightarrow> EqualHighsLows list result" where
  "detect_equal_lows self swing_lows =
     bindR (equal_outer
         (\<lambda>s t. is_within_tolerance (sl_price s) (sl_price t) (la_equal_tolerance_pips self) (sl_symbol s))
         (\<lambda>s grp. mk_EqualHighsLows (sl_symbol s) (sl_timeframe s) EQUAL_LOWS (sl_price s)
            (map sl_timestamp grp) (la_equal_tolerance_pips self) (map sl_index grp))
         (la_min_touches self) swing_lows [0..<length swing_lows] ([], {}))
       (\<lambda>(groups, processed). Inr groups)"

definition cluster_liquidity_pools ::
  "LiquidityAnalyzer \<Rightarrow> LiquidityPool list \<Rightarrow> LiquidityPool list list result" where
  "cluster_liquidity_pools self pools =
     (if pools = [] then Inr []
      else let sorted_pools = sort_key lp_price_level pools in
        bindR (foldR (\<lambda>i (clusters, current_cluster).
            let current_pool = sorted_pools ! i; previous_pool = sorted_pools ! (i - 1) in
            bindR (is_within_tolerance (lp_price_level current_pool) (lp_price_level previous_pool)
                (la_clustering_distance_pips self) (lp_symbol current_pool)) (\<lambda>b.
              Inr (if b then (clusters, current_cluster @ [current_pool])
                   else (clusters @ [current_cluster], [current_pool]))))
          [1..<length sorted_pools] ([], [sorted_pools ! 0]))
        (\<lambda>(clusters, current_cluster).
          Inr (if current_cluster \<noteq> [] then clusters @ [current_cluster] else clusters)))"

definition get_nearest_liquidity :: "price \<Rightarrow> LiquidityPool list \<Rightarrow> bool \<Rightarrow> LiquidityPool option" where
  "get_nearest_liquidity current_price pools is_above =
     (if pools = [] then None
      else if is_above
      then min_key (\<lambda>p. \<bar>lp_price_level p - current_price\<bar>)
             (filter (\<lambda>p. current_price < lp_price_level p) pools)
      else min_key (\<lambda>p. \<bar>lp_price_level p - current_price\<bar>)
             (filter (\<lambda>p. lp_price_level p < current_price) pools))"

definition calculate_liquidity_draw :: "price \<Rightarrow> LiquidityPool \<Rightarrow> rat result" where
  "calculate_liquidity_draw current_price target_pool =
     calculate_pips current_price (lp_price_level target_pool) (lp_symbol target_pool)"

section \<open>Greedy grouping\<close>

text \<open>Reference definition of the grouping: the first swing absorbs every later swing near it, the
  rest is grouped the same way.\<close>

function greedy :: "('a \<Rightarrow> 'a \<Rightarrow> bool) \<Rightarrow> 'a list \<Rightarrow> 'a list list" where
  "greedy near [] = []"
| "greedy near (x # xs) = (x # filter (near x) xs) # greedy near (filter (\<lambda>y. \<not> near x y) xs)"
  by pat_completeness auto
termination by (relation "measure (\<lambda>(_, xs). length xs)") (auto simp: less_Suc_eq_le)

lemma greedy_mset: "mset (concat (greedy near xs)) = mset xs"
  by (induction near xs rule: greedy.induct) (simp_all add: multiset_partition [symmetric])

lemma greedy_map: "greedy near (map f is) = map (map f) (greedy (\<lambda>i j. near (f i) (f j)) is)"
proof (induction "\<lambda>i j. near (f i) (f j)" "is" rule: greedy.induct)
  case (2 i "is")
  then show ?case by (simp add: filter_map comp_def)
qed simp

lemma greedy_near:
  "g \<in> set (greedy near xs) \<Longrightarrow> \<exists>x ys. g = x # ys \<and> (\<forall>y \<in> set ys. near x y) \<and> x \<in> set xs \<and> set ys \<subseteq> set xs"
  by (induction near xs rule: greedy.induct) fastforce+

lemma equal_inner_Inr:
  assumes "\<And>j. i < j \<Longrightarrow> j < length xs \<Longrightarrow> near (xs ! i) (xs ! j) = Inr (nr (xs ! i) (xs ! j))"
  shows "equal_inner near xs i P = Inr
     (xs ! i # map ((!) xs) (filter (\<lambda>j. j \<notin> P \<and> nr (xs ! i) (xs ! j)) [i + 1..<length xs]),
      P \<union> {j. i < j \<and> j < length xs \<and> nr (xs ! i) (xs ! j)})"
proof -
  let ?f = "\<lambda>j (grp, processed).
        if j \<in> processed then Inr (grp, processed)
        else bindR (near (xs ! i) (xs ! j)) (\<lambda>b.
          Inr (if b then (grp @ [xs ! j], insert j processed) else (grp, processed)))"
  have "foldR ?f js (grp, Q) = Inr (grp @ map ((!) xs) (filter (\<lambda>j. j \<notin> Q \<and> nr (xs ! i) (xs ! j)) js),
      Q \<union> {j \<in> set js. nr (xs ! i) (xs ! j)})"
    if "\<forall>j \<in> set js. i < j \<and> j < length xs" "distinct js" for js grp Q
    using that
  proof (induction js arbitrary: grp Q)
    case (Cons j js)
    have flt: "filter (\<lambda>k. k \<notin> insert j Q \<and> nr (xs ! i) (xs ! k)) js =
        filter (\<lambda>k. k \<notin> Q \<and> nr (xs ! i) (xs ! k)) js"
      using Cons.prems(2) by (intro filter_cong) auto
    show ?case using Cons flt assms [of j] by auto
  qed simp
  from this [of "[i + 1..<length xs]" "[xs ! i]" P] show ?thesis
    by (auto simp: equal_inner_def)
qed

lemma equal_outer_Inr:
  assumes "\<And>j k. j < k \<Longrightarrow> k < length xs \<Longrightarrow> near (xs ! j) (xs ! k) = Inr (nr (xs ! j) (xs ! k))"
    and "\<And>x g. x \<in> set xs \<Longrightarrow> 2 \<le> length (x # g) \<Longrightarrow> build x (x # g) = Inr (ev (x # g))" and "2 \<le> mt"
  shows "\<exists>Q. equal_outer near build mt xs [i..<length xs] (gs, P) =
     Inr (gs @ map ev (filter (\<lambda>g. mt \<le> length g)
       (greedy nr (map ((!) xs) (filter (\<lambda>j. j \<notin> P) [i..<length xs])))), Q)"
proof (induction "length xs - i" arbitrary: i gs P)
  case 0
  then show ?case by (simp add: equal_outer_def)
next
  case (Suc m)
  then have i: "i < length xs" and u: "[i..<length xs] = i # [Suc i..<length xs]"
    by (simp_all add: upt_conv_Cons)
  have hm: "m = length xs - Suc i" using Suc.hyps(2) by simp
  show ?case
  proof (cases "i \<in> P")
    case True
    then show ?thesis using Suc.hyps(1) [OF hm, of gs P] by (simp add: u equal_outer_def)
  next
    case False
    let ?x = "xs ! i"
    define Q where "Q = P \<union> {j. i < j \<and> j < length xs \<and> nr ?x (xs ! j)}"
    define g where "g = ?x # map ((!) xs) (filter (\<lambda>j. j \<notin> P \<and> nr ?x (xs ! j)) [Suc i..<length xs])"
    have inner: "equal_inner near xs i P = Inr (g, Q)"
      using equal_inner_Inr [of i xs near nr P] assms(1) by (simp add: g_def Q_def)
    have rest: "filter (\<lambda>j. j \<notin> R) [Suc i..<length xs] =
        filter (\<lambda>j. \<not> nr ?x (xs ! j)) (filter (\<lambda>j. j \<notin> P) [Suc i..<length xs])"
      if "R = Q \<or> R = insert i Q" for R
      using that by (auto simp: Q_def intro!: filter_cong)
    have split: "greedy nr (map ((!) xs) (filter (\<lambda>j. j \<notin> P) [i..<length xs])) =
        g # greedy nr (map ((!) xs) (filter (\<lambda>j. j \<notin> R) [Suc i..<length xs]))"
      if "R = Q \<or> R = insert i Q" for R
      unfolding rest [OF that] using False
      by (simp add: u g_def filter_map comp_def conj_commute)
    show ?thesis
    proof (cases "mt \<le> length g")
      case True
      have "build ?x g = Inr (ev g)"
        unfolding g_def using assms(3) i True by (intro assms(2)) (simp_all add: g_def)
      then show ?thesis
        using Suc.hyps(1) [OF hm, of "gs @ [ev g]" "insert i Q"] True False inner
          split [of "insert i Q"]
        by (simp add: u equal_outer_def)
    next
      case nt: False
      then show ?thesis
        using Suc.hyps(1) [OF hm, of gs Q] False inner split [of Q] by (simp add: u equal_outer_def)
    qed
  qed
qed

section \<open>Clusters\<close>

definition pools_near :: "rat \<Rightarrow> LiquidityPool \<Rightarrow> LiquidityPool \<Rightarrow> bool" where
  "pools_near tol p q \<longleftrightarrow>
     \<bar>lp_price_level q - lp_price_level p\<bar> / get_pip_value (lp_symbol q) \<le> tol"

text \<open>\<^verbatim>\<open>cluster_liquidity_pools\<close> never raises on pools with positive prices. Its clusters,
  concatenated, are the pools sorted by price, so none is lost or repeated; inside a cluster each
  pool is within the clustering distance of the one before it; and two adjacent clusters are
  further apart than that distance, so no two clusters could have been merged.\<close>

theorem cluster_liquidity_pools_spec:
  assumes "\<forall>p \<in> set pools. 0 < lp_price_level p" and "0 \<le> la_clustering_distance_pips self"
  shows "\<exists>cs. cluster_liquidity_pools self pools = Inr cs \<and> concat cs = sort_key lp_price_level pools \<and>
     (\<forall>c \<in> set cs. c \<noteq> [] \<and> successively (pools_near (la_clustering_distance_pips self)) c) \<and>
     successively (\<lambda>c d. \<not> pools_near (la_clustering_distance_pips self) (last c) (hd d)) cs"
proof (cases "pools = []")
  case True
  then show ?thesis by (simp add: cluster_liquidity_pools_def)
next
  case False
  let ?near = "pools_near (la_clustering_distance_pips self)"
  define sp where "sp = sort_key lp_price_level pools"
  have sp: "0 < length sp" "\<forall>p \<in> set sp. 0 < lp_price_level p"
    using False assms(1) by (simp_all add: sp_def)
  define I where "I = (\<lambda>i (cs :: LiquidityPool list list, c). c \<noteq> [] \<and> concat cs @ c = take i sp \<and>
     (\<forall>d \<in> set (cs @ [c]). d \<noteq> [] \<and> successively ?near d) \<and>
     successively (\<lambda>c d. \<not> ?near (last c) (hd d)) (cs @ [c]))"
  define f where "f = (\<lambda>i (clusters, current_cluster).
      let current_pool = sp ! i; previous_pool = sp ! (i - 1) in
      bindR (is_within_tolerance (lp_price_level current_pool) (lp_price_level previous_pool)
          (la_clustering_distance_pips self) (lp_symbol current_pool)) (\<lambda>b.
        Inr (if b then (clusters, current_cluster @ [current_pool])
             else (clusters @ [current_cluster], [current_pool]))))"
  have "\<exists>t. foldR f [1..<length sp] ([], [sp ! 0]) = Inr t \<and> I (length sp) t"
  proof (rule foldR_upt)
    fix i u
    assume i: "1 \<le> i" "i < length sp" and "I i u"
    then obtain cs c where u: "u = (cs, c)" and c: "c \<noteq> []" "concat cs @ c = take i sp"
        "\<forall>d \<in> set (cs @ [c]). d \<noteq> [] \<and> successively ?near d"
        "successively (\<lambda>c d. \<not> ?near (last c) (hd d)) (cs @ [c])"
      by (cases u) (auto simp: I_def)
    have "last c = last (take i sp)" using c(1,2) by (metis last_appendR)
    moreover have "take i sp \<noteq> []" using i by auto
    ultimately have last: "last c = sp ! (i - 1)" using i by (simp add: last_conv_nth min_def)
    have "is_within_tolerance (lp_price_level (sp ! i)) (lp_price_level (sp ! (i - 1)))
        (la_clustering_distance_pips self) (lp_symbol (sp ! i)) = Inr (?near (sp ! (i - 1)) (sp ! i))"
      using sp i assms(2) by (subst is_within_tolerance_Inr) (auto simp: pools_near_def less_imp_le)
    then have "f i u = Inr (if ?near (sp ! (i - 1)) (sp ! i) then (cs, c @ [sp ! i])
        else (cs @ [c], [sp ! i]))"
      by (simp add: f_def u)
    moreover have "I (Suc i) (if ?near (sp ! (i - 1)) (sp ! i) then (cs, c @ [sp ! i])
        else (cs @ [c], [sp ! i]))"
      using c last i by (auto simp: I_def take_Suc_conv_app_nth successively_append_iff)
    ultimately show "\<exists>v. f i u = Inr v \<and> I (Suc i) v" by blast
  next
    show "1 \<le> length sp" using sp(1) by linarith
    show "I 1 ([], [sp ! 0])" using sp by (simp add: I_def take_Suc_conv_app_nth)
  qed
  then obtain cs c where fold: "foldR f [1..<length sp] ([], [sp ! 0]) = Inr (cs, c)"
      and inv: "I (length sp) (cs, c)" by auto
  then have "c \<noteq> []" by (simp add: I_def)
  then have "cluster_liquidity_pools self pools = Inr (cs @ [c])"
    using False fold unfolding cluster_liquidity_pools_def f_def sp_def Let_def by simp
  then show ?thesis using inv by (intro exI [of _ "cs @ [c]"]) (auto simp: I_def sp_def)
qed

lemma detect_equal_total:
  assumes "0 \<le> la_equal_tolerance_pips self" and "2 \<le> la_min_touches self"
  shows "\<forall>h \<in> set shs. 0 < sh_price h \<and> clean_symbol (sh_symbol h) \<Longrightarrow> \<exists>gs. detect_equal_highs self shs = Inr gs"
    and "\<forall>l \<in> set sls. 0 < sl_price l \<and> clean_symbol (sl_symbol l) \<Longrightarrow> \<exists>gs. detect_equal_lows self sls = Inr gs"
proof -
  have total: "\<exists>gs. bindR (equal_outer near build (la_min_touches self) xs [0..<length xs] ([], {}))
      (\<lambda>(groups, processed). Inr groups) = Inr gs"
    if n: "\<And>x y. x \<in> set xs \<Longrightarrow> y \<in> set xs \<Longrightarrow> \<exists>b. near x y = Inr b"
      and b: "\<And>x g. x \<in> set xs \<Longrightarrow> 2 \<le> length (x # g) \<Longrightarrow> \<exists>e. build x (x # g) = Inr e"
    for near :: "'a \<Rightarrow> 'a \<Rightarrow> bool result" and build :: "'a \<Rightarrow> 'a list \<Rightarrow> EqualHighsLows result" and xs
  proof -
    have "\<exists>Q. equal_outer near build (la_min_touches self) xs [0..<length xs] ([], {}) =
        Inr ([] @ map (\<lambda>g. projr (build (hd g) g)) (filter (\<lambda>g. la_min_touches self \<le> length g)
          (greedy (\<lambda>x y. projr (near x y)) (map ((!) xs) (filter (\<lambda>j. j \<notin> {}) [0..<length xs])))), Q)"
    proof (rule equal_outer_Inr [OF _ _ assms(2)])
      show "near (xs ! j) (xs ! k) = Inr (projr (near (xs ! j) (xs ! k)))" if "j < k" "k < length xs" for j k
        using n [of "xs ! j" "xs ! k"] that by auto
      show "build x (x # g) = Inr (projr (build (hd (x # g)) (x # g)))" if "x \<in> set xs" "2 \<le> length (x # g)" for x g
        using b [OF that] by auto
    qed
    then show ?thesis by auto
  qed
  show "\<exists>gs. detect_equal_highs self shs = Inr gs" if "\<forall>h \<in> set shs. 0 < sh_price h \<and> clean_symbol (sh_symbol h)"
    unfolding detect_equal_highs_def
    by (rule total) (use that assms(1) in \<open>auto simp: is_within_tolerance_Inr mk_EqualHighsLows_def mk_model_clean less_imp_le\<close>)
  show "\<exists>gs. detect_equal_lows self sls = Inr gs" if "\<forall>l \<in> set sls. 0 < sl_price l \<and> clean_symbol (sl_symbol l)"
    unfolding detect_equal_lows_def
    by (rule total) (use that assms(1) in \<open>auto simp: is_within_tolerance_Inr mk_EqualHighsLows_def mk_model_clean less_imp_le\<close>)
qed

section \<open>Properties\<close>

text \<open>The invariant of a constructed swing high, with a normalised symbol.\<close>

definition wf_sh :: "SwingHigh \<Rightarrow> bool" where
  "wf_sh s \<longleftrightarrow> 0 < sh_price s \<and> 1 \<le> sh_strength s \<and> sh_strength s \<le> 10 \<and> clean_symbol (sh_symbol s)"

definition highs_near :: "rat \<Rightarrow> SwingHigh \<Rightarrow> SwingHigh \<Rightarrow> bool" where
  "highs_near tol s t \<longleftrightarrow> \<bar>sh_price s - sh_price t\<bar> / get_pip_value (sh_symbol s) \<le> tol"

definition equal_highs_event :: "rat \<Rightarrow> SwingHigh list \<Rightarrow> EqualHighsLows" where
  "equal_highs_event tol g = (let s = hd g in
     \<lparr>eq_symbol = sh_symbol s, eq_timeframe = sh_timeframe s, eq_liquidity_type = EQUAL_HIGHS,
      eq_price_level = sh_price s, eq_timestamps = map sh_timestamp g, eq_tolerance_pips = tol,
      eq_candle_indices = map sh_index g, eq_swept = False, eq_swept_timestamp = None\<rparr>)"

text \<open>C27. For \<open>min_touches \<ge> 2\<close> and well-formed swing highs, \<^verbatim>\<open>detect_equal_highs\<close> never raises
  and computes the greedy grouping: each swing, in order, that no earlier group has taken absorbs
  every later free swing within the tolerance of its price, and the groups with at least
  \<open>min_touches\<close> members are reported at their first member's price. The groups split the input:
  every swing is in exactly one of them.\<close>

theorem detect_equal_highs_greedy:
  assumes "\<forall>s \<in> set shs. wf_sh s" and "0 \<le> la_equal_tolerance_pips self" and "2 \<le> la_min_touches self"
  shows "detect_equal_highs self shs = Inr (map (equal_highs_event (la_equal_tolerance_pips self))
       (filter (\<lambda>g. la_min_touches self \<le> length g)
         (greedy (highs_near (la_equal_tolerance_pips self)) shs))) \<and>
     mset (concat (greedy (highs_near (la_equal_tolerance_pips self)) shs)) = mset shs"
proof -
  let ?tol = "la_equal_tolerance_pips self"
  let ?near = "\<lambda>s t. is_within_tolerance (sh_price s) (sh_price t) ?tol (sh_symbol s)"
  let ?build = "\<lambda>s grp. mk_EqualHighsLows (sh_symbol s) (sh_timeframe s) EQUAL_HIGHS (sh_price s)
            (map sh_timestamp grp) ?tol (map sh_index grp)"
  have near: "?near (shs ! j) (shs ! k) = Inr (highs_near ?tol (shs ! j) (shs ! k))"
    if "j < k" "k < length shs" for j k
    using that assms(1,2) by (subst is_within_tolerance_Inr) (auto simp: wf_sh_def highs_near_def less_imp_le)
  have build: "?build x (x # g) = Inr (equal_highs_event ?tol (x # g))"
    if "x \<in> set shs" "2 \<le> length (x # g)" for x g
    using that assms by (simp add: mk_EqualHighsLows_def mk_model_clean wf_sh_def equal_highs_event_def)
  show ?thesis
    using equal_outer_Inr [of shs ?near "highs_near ?tol" ?build "equal_highs_event ?tol"
        "la_min_touches self" 0 "[]" "{}"] near build assms(3) greedy_mset
    by (auto simp: detect_equal_highs_def map_nth)
qed

definition ex_liquidity_analyzer :: LiquidityAnalyzer where
  "ex_liquidity_analyzer =
     \<lparr>la_equal_tolerance_pips = 2, la_min_touches = 2, la_clustering_distance_pips = 5\<rparr>"

theorem detect_equal_highs_greedy_witness:
  "detect_equal_highs ex_liquidity_analyzer [ex_sh 1 0, ex_sh 2 4, ex_sh 1 8] =
     Inr [equal_highs_event 2 [ex_sh 1 0, ex_sh 1 8]]"
proof -
  have "\<forall>s \<in> set [ex_sh 1 0, ex_sh 2 4, ex_sh 1 8]. wf_sh s"
    by (simp add: wf_sh_def ex_sh_def)
  from detect_equal_highs_greedy [OF this, of ex_liquidity_analyzer] show ?thesis
    by (simp add: ex_liquidity_analyzer_def highs_near_def ex_sh_def pip_EURUSD)
qed

definition ex_pool :: "price \<Rightarrow> LiquidityPool" where
  "ex_pool p = \<lparr>lp_symbol = ''EURUSD'', lp_timeframe = H1, lp_liquidity_type = BSL,
     lp_price_level = p, lp_timestamp = 0, lp_strength = 3, lp_touch_count = 1\<rparr>"

theorem cluster_liquidity_pools_spec_witness:
  "\<exists>cs. cluster_liquidity_pools ex_liquidity_analyzer [ex_pool 2, ex_pool 1] = Inr cs \<and>
     concat cs = [ex_pool 1, ex_pool 2]"
proof -
  have "\<forall>p \<in> set [ex_pool 2, ex_pool 1]. 0 < lp_price_level p" by (simp add: ex_pool_def)
  moreover have "sort_key lp_price_level [ex_pool 2, ex_pool 1] = [ex_pool 1, ex_pool 2]"
    by (simp add: ex_pool_def)
  ultimately show ?thesis
    using cluster_liquidity_pools_spec [of "[ex_pool 2, ex_pool 1]" ex_liquidity_analyzer]
    by (auto simp: ex_liquidity_analyzer_def)
qed

end
