(* ===== verification/Sweeps.thy ===== *)
theory Sweeps
  imports Liquidity "HOL-Library.AList"
begin

text \<open>
  \<^verbatim>\<open>SweepAnalyzer\<close> of \<^verbatim>\<open>engine/ta/common/analyzers/sweeps.py\<close>. The dictionaries
  keyed by the date string are association lists keyed by the day number, whose order is that of
  the strings; the two sets of invalidated prices and the list of sweeps are the loop's state.
\<close>

section \<open>Single sweeps\<close>

record SweepAnalyzer =
  sw_min_sweep_pips :: rat
  sw_turtle_soup_min_pips :: rat

definition detect_bsl_sweep ::
  "SweepAnalyzer \<Rightarrow> Candle \<Rightarrow> SwingHigh \<Rightarrow> nat \<Rightarrow> LiquiditySweep option result" where
  "detect_bsl_sweep self candle swing_high candle_index =
     (if c_high candle \<le> sh_price swing_high then Inr None
      else bindR (calculate_pips (sh_price swing_high) (c_high candle) (c_symbol candle))
        (\<lambda>sweep_pips.
         if sweep_pips < sw_min_sweep_pips self then Inr None
         else bindR (mk_LiquiditySweep (c_symbol candle) (c_timeframe candle) (c_timestamp candle)
                BSL (sh_price swing_high) (sh_timestamp swing_high) (c_high candle) (c_low candle)
                sweep_pips (c_close candle < sh_price swing_high) (Some (c_close candle))
                candle_index False) (\<lambda>s. Inr (Some s))))"

definition detect_ssl_sweep ::
  "SweepAnalyzer \<Rightarrow> Candle \<Rightarrow> SwingLow \<Rightarrow> nat \<Rightarrow> LiquiditySweep option result" where
  "detect_ssl_sweep self candle swing_low candle_index =
     (if sl_price swing_low \<le> c_low candle then Inr None
      else bindR (calculate_pips (c_low candle) (sl_price swing_low) (c_symbol candle))
        (\<lambda>sweep_pips.
         if sweep_pips < sw_min_sweep_pips self then Inr None
         else bindR (mk_LiquiditySweep (c_symbol candle) (c_timeframe candle) (c_timestamp candle)
                SSL (sl_price swing_low) (sl_timestamp swing_low) (c_high candle) (c_low candle)
                sweep_pips (sl_price swing_low < c_close candle) (Some (c_close candle))
                candle_index False) (\<lambda>s. Inr (Some s))))"

definition is_turtle_soup :: "SweepAnalyzer \<Rightarrow> LiquiditySweep \<Rightarrow> bool" where
  "is_turtle_soup self sweep \<longleftrightarrow>
     ls_closed_back_inside sweep \<and> sw_turtle_soup_min_pips self \<le> ls_sweep_pips sweep"

definition detect_equal_highs_sweep ::
  "SweepAnalyzer \<Rightarrow> Candle \<Rightarrow> price \<Rightarrow> nat \<Rightarrow> LiquiditySweep option result" where
  "detect_equal_highs_sweep self candle equal_highs_level candle_index =
     (if c_high candle \<le> equal_highs_level then Inr None
      else bindR (calculate_pips equal_highs_level (c_high candle) (c_symbol candle)) (\<lambda>sweep_pips.
         if sweep_pips < sw_min_sweep_pips self then Inr None
         else bindR (mk_LiquiditySweep (c_symbol candle) (c_timeframe candle) (c_timestamp candle)
                EQUAL_HIGHS equal_highs_level (c_timestamp candle) (c_high candle) (c_low candle)
                sweep_pips (c_close candle < equal_highs_level) (Some (c_close candle))
                candle_index False) (\<lambda>s. Inr (Some s))))"

definition detect_equal_lows_sweep ::
  "SweepAnalyzer \<Rightarrow> Candle \<Rightarrow> price \<Rightarrow> nat \<Rightarrow> LiquiditySweep option result" where
  "detect_equal_lows_sweep self candle equal_lows_level candle_index =
     (if equal_lows_level \<le> c_low candle then Inr None
      else bindR (calculate_pips (c_low candle) equal_lows_level (c_symbol candle)) (\<lambda>sweep_pips.
         if sweep_pips < sw_min_sweep_pips self then Inr None
         else bindR (mk_LiquiditySweep (c_symbol candle) (c_timeframe candle) (c_timestamp candle)
                EQUAL_LOWS equal_lows_level (c_timestamp candle) (c_high candle) (c_low candle)
                sweep_pips (equal_lows_level < c_close candle) (Some (c_close candle))
                candle_index False) (\<lambda>s. Inr (Some s))))"

definition get_strongest_sweep :: "LiquiditySweep list \<Rightarrow> LiquiditySweep option" where
  "get_strongest_sweep sweeps = max_key ls_sweep_pips sweeps"

text \<open>\<^verbatim>\<open>sorted(..., reverse=True)\<close> is stable, as is sorting by the negated key.\<close>

definition get_recent_sweeps :: "LiquiditySweep list \<Rightarrow> nat \<Rightarrow> LiquiditySweep list" where
  "get_recent_sweeps sweeps lookback =
     (if sweeps = [] then [] else take lookback (sort_key (\<lambda>s. - ls_timestamp s) sweeps))"

section \<open>Sweeps of a sequence\<close>

definition candle_date :: "Candle \<Rightarrow> int" where
  "candle_date c = c_timestamp c div 86400"

type_synonym daily = "(int \<times> price) list"

definition daily_step :: "daily \<times> daily \<Rightarrow> Candle \<Rightarrow> daily \<times> daily" where
  "daily_step = (\<lambda>(daily_highs, daily_lows) candle.
     let d = candle_date candle in
     case (map_of daily_highs d, map_of daily_lows d) of
       (Some h, Some l) \<Rightarrow>
         (AList.update d (max h (c_high candle)) daily_highs,
          AList.update d (min l (c_low candle)) daily_lows)
     | _ \<Rightarrow> (AList.update d (c_high candle) daily_highs, AList.update d (c_low candle) daily_lows))"

definition daily_tables :: "Candle list \<Rightarrow> daily \<times> daily" where
  "daily_tables candles = foldl daily_step ([], []) candles"

record sweep_state =
  ss_sweeps :: "LiquiditySweep list"
  ss_invalidated_highs :: "price set"
  ss_invalidated_lows :: "price set"

definition pdh_step :: "SweepAnalyzer \<Rightarrow> Candle \<Rightarrow> nat \<Rightarrow> price \<Rightarrow> sweep_state \<Rightarrow> sweep_state result" where
  "pdh_step self candle i pdh st =
     (if pdh \<notin> ss_invalidated_highs st \<and> pdh < c_high candle
      then if c_close candle \<le> pdh
        then bindR (calculate_pips pdh (c_high candle) (c_symbol candle)) (\<lambda>sweep_pips.
          if sw_min_sweep_pips self \<le> sweep_pips
          then bindR (mk_LiquiditySweep (c_symbol candle) (c_timeframe candle) (c_timestamp candle)
                 PDH_SWEEP pdh (c_timestamp candle) (c_high candle) (c_low candle) sweep_pips True
                 (Some (c_close candle)) i True) (\<lambda>s.
               Inr (st\<lparr>ss_sweeps := ss_sweeps st @ [s],
                       ss_invalidated_highs := insert pdh (ss_invalidated_highs st)\<rparr>))
          else Inr st)
        else Inr (st\<lparr>ss_invalidated_highs := insert pdh (ss_invalidated_highs st)\<rparr>)
      else Inr st)"

definition pdl_step :: "SweepAnalyzer \<Rightarrow> Candle \<Rightarrow> nat \<Rightarrow> price \<Rightarrow> sweep_state \<Rightarrow> sweep_state result" where
  "pdl_step self candle i pdl st =
     (if pdl \<notin> ss_invalidated_lows st \<and> c_low candle < pdl
      then if pdl \<le> c_close candle
        then bindR (calculate_pips (c_low candle) pdl (c_symbol candle)) (\<lambda>sweep_pips.
          if sw_min_sweep_pips self \<le> sweep_pips
          then bindR (mk_LiquiditySweep (c_symbol candle) (c_timeframe candle) (c_timestamp candle)
                 PDL_SWEEP pdl (c_timestamp candle) (c_high candle) (c_low candle) sweep_pips True
                 (Some (c_close candle)) i True) (\<lambda>s.
               Inr (st\<lparr>ss_sweeps := ss_sweeps st @ [s],
                       ss_invalidated_lows := insert pdl (ss_invalidated_lows st)\<rparr>))
          else Inr st)
        else Inr (st\<lparr>ss_invalidated_lows := insert pdl (ss_invalidated_lows st)\<rparr>)
      else Inr st)"

definition bsl_step :: "SweepAnalyzer \<Rightarrow> Candle \<Rightarrow> nat \<Rightarrow> SwingHigh \<Rightarrow> sweep_state \<Rightarrow> sweep_state result" where
  "bsl_step self candle i swing_high st =
     (if i \<le> sh_index swing_high \<or> sh_price swing_high \<in> ss_invalidated_highs st then Inr st
      else if sh_price swing_high < c_high candle
      then if c_close candle \<le> sh_price swing_high
        then bindR (detect_bsl_sweep self candle swing_high i) (\<lambda>sweep.
          case sweep of
            None \<Rightarrow> Inr st
          | Some s \<Rightarrow> Inr (st\<lparr>ss_sweeps := ss_sweeps st @
                       [s\<lparr>ls_is_major_sweep := 5 \<le> sh_strength swing_high\<rparr>],
                     ss_invalidated_highs := insert (sh_price swing_high) (ss_invalidated_highs st)\<rparr>))
        else Inr (st\<lparr>ss_invalidated_highs := insert (sh_price swing_high) (ss_invalidated_highs st)\<rparr>)
      else Inr st)"

definition ssl_step :: "SweepAnalyzer \<Rightarrow> Candle \<Rightarrow> nat \<Rightarrow> SwingLow \<Rightarrow> sweep_state \<Rightarrow> sweep_state result" where
  "ssl_step self candle i swing_low st =
     (if i \<le> sl_index swing_low \<or> sl_price swing_low \<in> ss_invalidated_lows st then Inr st
      else if c_low candle < sl_price swing_low
      then if sl_price swing_low \<le> c_close candle
        then bindR (detect_ssl_sweep self candle swing_low i) (\<lambda>sweep.
          case sweep of
            None \<Rightarrow> Inr st
          | Some s \<Rightarrow> Inr (st\<lparr>ss_sweeps := ss_sweeps st @
                       [s\<lparr>ls_is_major_sweep := 5 \<le> sl_strength swing_low\<rparr>],
                     ss_invalidated_lows := insert (sl_price swing_low) (ss_invalidated_lows st)\<rparr>))
        else Inr (st\<lparr>ss_invalidated_lows := insert (sl_price swing_low) (ss_invalidated_lows st)\<rparr>)
      else Inr st)"

text \<open>The previous-day part of the loop body; a missing key would be a \<^verbatim>\<open>KeyError\<close>.\<close>

definition previous_day_step ::
  "SweepAnalyzer \<Rightarrow> daily \<times> daily \<Rightarrow> Candle \<Rightarrow> nat \<Rightarrow> sweep_state \<Rightarrow> sweep_state result" where
  "previous_day_step self tables candle i st =
     (case max_key (\<lambda>d. d) (filter (\<lambda>d. d < candle_date candle) (map fst (fst tables))) of
        None \<Rightarrow> Inr st
      | Some prev_date \<Rightarrow>
          (case (map_of (fst tables) prev_date, map_of (snd tables) prev_date) of
             (Some pdh, Some pdl) \<Rightarrow>
               bindR (pdh_step self candle i pdh st) (pdl_step self candle i pdl)
           | _ \<Rightarrow> Inl KeyError))"

definition detect_sweeps_in_sequence ::
  "SweepAnalyzer \<Rightarrow> CandleSequence \<Rightarrow> SwingHigh list \<Rightarrow> SwingLow list \<Rightarrow> LiquiditySweep list result" where
  "detect_sweeps_in_sequence self sequence swing_highs swing_lows =
     (let candles = seq_candles sequence; tables = daily_tables candles in
      bindR (foldR (\<lambda>i st.
          let candle = candles ! i in
          bindR (previous_day_step self tables candle i st) (\<lambda>st.
          bindR (foldR (bsl_step self candle i) swing_highs st) (\<lambda>st.
          foldR (ssl_step self candle i) swing_lows st)))
        [0..<length candles]
        \<lparr>ss_sweeps = [], ss_invalidated_highs = {}, ss_invalidated_lows = {}\<rparr>)
      (\<lambda>st. Inr (ss_sweeps st)))"

section \<open>The daily tables\<close>

definition day_candles :: "Candle list \<Rightarrow> int \<Rightarrow> Candle set" where
  "day_candles cs d = {c \<in> set cs. candle_date c = d}"

definition day_high :: "Candle list \<Rightarrow> int \<Rightarrow> price" where
  "day_high cs d = Max (c_high ` day_candles cs d)"

definition day_low :: "Candle list \<Rightarrow> int \<Rightarrow> price" where
  "day_low cs d = Min (c_low ` day_candles cs d)"

lemma daily_tables_map:
  "map_of (fst (daily_tables cs)) d = (if day_candles cs d = {} then None else Some (day_high cs d)) \<and>
   map_of (snd (daily_tables cs)) d = (if day_candles cs d = {} then None else Some (day_low cs d))"
proof (induction cs arbitrary: d rule: rev_induct)
  case Nil
  then show ?case by (simp add: daily_tables_def day_candles_def)
next
  case (snoc c cs)
  have ins: "day_candles (cs @ [c]) e =
      (if e = candle_date c then insert c (day_candles cs e) else day_candles cs e)" for e
    by (auto simp: day_candles_def)
  have fin: "finite (day_candles cs e)" for e by (simp add: day_candles_def)
  obtain dh dl where t: "daily_tables cs = (dh, dl)" by fastforce
  have m: "map_of dh e = (if day_candles cs e = {} then None else Some (day_high cs e))"
      "map_of dl e = (if day_candles cs e = {} then None else Some (day_low cs e))" for e
    using snoc.IH [of e] t by auto
  have step: "daily_tables (cs @ [c]) = daily_step (dh, dl) c"
    using t by (simp add: daily_tables_def)
  show ?case
    using fin m [of "candle_date c"] m [of d]
    by (auto simp: step daily_step_def Let_def update_conv' ins day_high_def day_low_def
        max.commute min.commute)
qed

lemma daily_tables_keys: "d \<in> set (map fst (fst (daily_tables cs))) \<longleftrightarrow> day_candles cs d \<noteq> {}"
  using daily_tables_map [of cs d] by (metis list.set_map map_of_eq_None_iff option.distinct(1))

section \<open>What a reported sweep is\<close>

definition latest_day_before :: "Candle list \<Rightarrow> nat \<Rightarrow> int \<Rightarrow> bool" where
  "latest_day_before cs i d \<longleftrightarrow> d < candle_date (cs ! i) \<and> day_candles cs d \<noteq> {} \<and>
     (\<forall>c \<in> set cs. candle_date c < candle_date (cs ! i) \<longrightarrow> candle_date c \<le> d)"

text \<open>A genuine sweep of a high: the candle trades above the level by at least the minimum, closes
  back at or below it, and the level is the price of an earlier swing high or the high of the
  latest earlier day; dually for lows.\<close>

definition genuine_high ::
  "SweepAnalyzer \<Rightarrow> Candle list \<Rightarrow> SwingHigh list \<Rightarrow> LiquiditySweep \<Rightarrow> bool" where
  "genuine_high self cs shs x \<longleftrightarrow>
     (let i = ls_candle_index x; c = cs ! i in
      i < length cs \<and> ls_swept_level x < c_high c \<and> c_close c \<le> ls_swept_level x \<and>
      sw_min_sweep_pips self \<le> ls_sweep_pips x \<and>
      ls_sweep_pips x = (c_high c - ls_swept_level x) / get_pip_value (c_symbol c) \<and>
      (ls_liquidity_type x = BSL \<and>
         (\<exists>s \<in> set shs. sh_index s < i \<and> sh_price s = ls_swept_level x) \<or>
       ls_liquidity_type x = PDH_SWEEP \<and>
         (\<exists>d. latest_day_before cs i d \<and> ls_swept_level x = day_high cs d)))"

definition genuine_low ::
  "SweepAnalyzer \<Rightarrow> Candle list \<Rightarrow> SwingLow list \<Rightarrow> LiquiditySweep \<Rightarrow> bool" where
  "genuine_low self cs sls x \<longleftrightarrow>
     (let i = ls_candle_index x; c = cs ! i in
      i < length cs \<and> c_low c < ls_swept_level x \<and> ls_swept_level x \<le> c_close c \<and>
      sw_min_sweep_pips self \<le> ls_sweep_pips x \<and>
      ls_sweep_pips x = (ls_swept_level x - c_low c) / get_pip_value (c_symbol c) \<and>
      (ls_liquidity_type x = SSL \<and>
         (\<exists>s \<in> set sls. sl_index s < i \<and> sl_price s = ls_swept_level x) \<or>
       ls_liquidity_type x = PDL_SWEEP \<and>
         (\<exists>d. latest_day_before cs i d \<and> ls_swept_level x = day_low cs d)))"

definition sweeps_ok ::
  "SweepAnalyzer \<Rightarrow> Candle list \<Rightarrow> SwingHigh list \<Rightarrow> SwingLow list \<Rightarrow> sweep_state \<Rightarrow> bool" where
  "sweeps_ok self cs shs sls st \<longleftrightarrow>
     distinct (map ls_swept_level (filter is_bullish_sweep (ss_sweeps st))) \<and>
     distinct (map ls_swept_level (filter is_bearish_sweep (ss_sweeps st))) \<and>
     ls_swept_level ` set (filter is_bullish_sweep (ss_sweeps st)) \<subseteq> ss_invalidated_highs st \<and>
     ls_swept_level ` set (filter is_bearish_sweep (ss_sweeps st)) \<subseteq> ss_invalidated_lows st \<and>
     (\<forall>x \<in> set (ss_sweeps st). genuine_high self cs shs x \<or> genuine_low self cs sls x)"

lemma add_high_sweep:
  assumes "sweeps_ok self cs shs sls st" and "L \<notin> ss_invalidated_highs st"
    and "genuine_high self cs shs x" and "ls_swept_level x = L"
  shows "sweeps_ok self cs shs sls (st\<lparr>ss_sweeps := ss_sweeps st @ [x],
     ss_invalidated_highs := insert L (ss_invalidated_highs st)\<rparr>)"
proof -
  have "ls_liquidity_type x \<in> {BSL, PDH_SWEEP}" using assms(3) by (auto simp: genuine_high_def Let_def)
  then have "is_bullish_sweep x" "\<not> is_bearish_sweep x"
    by (auto simp: is_bullish_sweep_def is_bearish_sweep_def)
  then show ?thesis using assms by (auto simp: sweeps_ok_def)
qed

lemma invalidate_high:
  "sweeps_ok self cs shs sls st \<Longrightarrow>
     sweeps_ok self cs shs sls (st\<lparr>ss_invalidated_highs := insert L (ss_invalidated_highs st)\<rparr>)"
  by (auto simp: sweeps_ok_def)

lemma pdh_step_ok:
  assumes "wf_market s" and "i < length (seq_candles s)" and "0 < L"
    and "latest_day_before (seq_candles s) i d" and "L = day_high (seq_candles s) d"
    and "sweeps_ok self (seq_candles s) shs sls st"
  shows "\<exists>st'. pdh_step self (seq_candles s ! i) i L st = Inr st' \<and>
     sweeps_ok self (seq_candles s) shs sls st'"
proof -
  note c = wf_marketD [OF assms(1,2)]
  note p = wf_candleD [OF c(1)]
  show ?thesis
    using assms c(4) p
    by (auto simp: pdh_step_def calculate_pips_Inr less_imp_le mk_LiquiditySweep_def mk_model_clean
        genuine_high_def Let_def divide_nonneg_pos
        intro!: add_high_sweep invalidate_high)
qed

lemma bsl_step_ok:
  assumes "wf_market s" and "i < length (seq_candles s)" and "w \<in> set shs" and "0 < sh_price w"
    and "sweeps_ok self (seq_candles s) shs sls st"
  shows "\<exists>st'. bsl_step self (seq_candles s ! i) i w st = Inr st' \<and>
     sweeps_ok self (seq_candles s) shs sls st'"
proof -
  note c = wf_marketD [OF assms(1,2)]
  note p = wf_candleD [OF c(1)]
  show ?thesis
    using assms c(4) p
    by (auto simp: bsl_step_def detect_bsl_sweep_def calculate_pips_Inr less_imp_le
        mk_LiquiditySweep_def mk_model_clean genuine_high_def Let_def divide_nonneg_pos not_le
        intro!: add_high_sweep invalidate_high bexI [of _ w])
qed

lemma add_low_sweep:
  assumes "sweeps_ok self cs shs sls st" and "L \<notin> ss_invalidated_lows st"
    and "genuine_low self cs sls x" and "ls_swept_level x = L"
  shows "sweeps_ok self cs shs sls (st\<lparr>ss_sweeps := ss_sweeps st @ [x],
     ss_invalidated_lows := insert L (ss_invalidated_lows st)\<rparr>)"
proof -
  have "ls_liquidity_type x \<in> {SSL, PDL_SWEEP}" using assms(3) by (auto simp: genuine_low_def Let_def)
  then have "is_bearish_sweep x" "\<not> is_bullish_sweep x"
    by (auto simp: is_bullish_sweep_def is_bearish_sweep_def)
  then show ?thesis using assms by (auto simp: sweeps_ok_def)
qed

lemma invalidate_low:
  "sweeps_ok self cs shs sls st \<Longrightarrow>
     sweeps_ok self cs shs sls (st\<lparr>ss_invalidated_lows := insert L (ss_invalidated_lows st)\<rparr>)"
  by (auto simp: sweeps_ok_def)

lemma pdl_step_ok:
  assumes "wf_market s" and "i < length (seq_candles s)" and "0 < L"
    and "latest_day_before (seq_candles s) i d" and "L = day_low (seq_candles s) d"
    and "sweeps_ok self (seq_candles s) shs sls st"
  shows "\<exists>st'. pdl_step self (seq_candles s ! i) i L st = Inr st' \<and>
     sweeps_ok self (seq_candles s) shs sls st'"
proof -
  note c = wf_marketD [OF assms(1,2)]
  note p = wf_candleD [OF c(1)]
  show ?thesis
    using assms c(4) p
    by (auto simp: pdl_step_def calculate_pips_Inr less_imp_le mk_LiquiditySweep_def mk_model_clean
        genuine_low_def Let_def divide_nonneg_pos
        intro!: add_low_sweep invalidate_low)
qed

lemma ssl_step_ok:
  assumes "wf_market s" and "i < length (seq_candles s)" and "w \<in> set sls" and "0 < sl_price w"
    and "sweeps_ok self (seq_candles s) shs sls st"
  shows "\<exists>st'. ssl_step self (seq_candles s ! i) i w st = Inr st' \<and>
     sweeps_ok self (seq_candles s) shs sls st'"
proof -
  note c = wf_marketD [OF assms(1,2)]
  note p = wf_candleD [OF c(1)]
  show ?thesis
    using assms c(4) p
    by (auto simp: ssl_step_def detect_ssl_sweep_def calculate_pips_Inr less_imp_le
        mk_LiquiditySweep_def mk_model_clean genuine_low_def Let_def divide_nonneg_pos not_le
        intro!: add_low_sweep invalidate_low bexI [of _ w])
qed

lemma previous_day_step_ok:
  assumes "wf_market s" and "i < length (seq_candles s)"
    and "sweeps_ok self (seq_candles s) shs sls st"
  shows "\<exists>st'. previous_day_step self (daily_tables (seq_candles s)) (seq_candles s ! i) i st = Inr st' \<and>
     sweeps_ok self (seq_candles s) shs sls st'"
proof -
  let ?cs = "seq_candles s"
  let ?past = "filter (\<lambda>d. d < candle_date (?cs ! i)) (map fst (fst (daily_tables ?cs)))"
  show ?thesis
  proof (cases "max_key (\<lambda>d. d) ?past")
    case None
    then show ?thesis using assms(3) by (simp add: previous_day_step_def del: max_key_None)
  next
    case (Some d)
    have past: "e \<in> set ?past \<longleftrightarrow> e < candle_date (?cs ! i) \<and> day_candles ?cs e \<noteq> {}" for e
      using daily_tables_keys [of e ?cs] by auto
    have d: "d \<in> set ?past" "\<forall>e \<in> set ?past. e \<le> d" using max_key_Some [OF Some] by blast+
    have ne: "day_candles ?cs d \<noteq> {}" using d(1) past by blast
    have "candle_date c \<le> d" if "c \<in> set ?cs" "candle_date c < candle_date (?cs ! i)" for c
      using d(2) past [of "candle_date c"] that by (auto simp: day_candles_def)
    then have latest: "latest_day_before ?cs i d"
      using d(1) past by (auto simp: latest_day_before_def)
    have wf: "\<forall>c \<in> day_candles ?cs d. wf_candle c"
      using assms(1) by (auto simp: day_candles_def wf_market_def wf_seq_def)
    have fin: "finite (day_candles ?cs d)" by (simp add: day_candles_def)
    obtain c where c: "c \<in> day_candles ?cs d" using ne by blast
    have "c_high c \<le> day_high ?cs d" unfolding day_high_def using c fin by simp
    then have ph: "0 < day_high ?cs d" using wf_candleD(4) wf c by fastforce
    have pl: "0 < day_low ?cs d"
      unfolding day_low_def using ne fin wf wf_candleD(1) by simp
    obtain st1 where st1: "pdh_step self (?cs ! i) i (day_high ?cs d) st = Inr st1"
        "sweeps_ok self ?cs shs sls st1"
      using pdh_step_ok [OF assms(1,2) ph latest refl assms(3)] by blast
    obtain st2 where st2: "pdl_step self (?cs ! i) i (day_low ?cs d) st1 = Inr st2"
        "sweeps_ok self ?cs shs sls st2"
      using pdl_step_ok [OF assms(1,2) pl latest refl st1(2)] by blast
    have "map_of (fst (daily_tables ?cs)) d = Some (day_high ?cs d)"
        "map_of (snd (daily_tables ?cs)) d = Some (day_low ?cs d)"
      using daily_tables_map [of ?cs d] ne by auto
    then show ?thesis
      using Some st1 st2 by (simp add: previous_day_step_def)
  qed
qed

lemma detect_sweeps_run:
  assumes "wf_market s" and "\<forall>w \<in> set shs. 0 < sh_price w" and "\<forall>w \<in> set sls. 0 < sl_price w"
  obtains st where "detect_sweeps_in_sequence self s shs sls = Inr (ss_sweeps st)"
    "sweeps_ok self (seq_candles s) shs sls st"
proof -
  let ?cs = "seq_candles s" and ?I = "sweeps_ok self (seq_candles s) shs sls"
  let ?body = "\<lambda>i st. let candle = ?cs ! i in
          bindR (previous_day_step self (daily_tables ?cs) candle i st) (\<lambda>st.
          bindR (foldR (bsl_step self candle i) shs st) (\<lambda>st.
          foldR (ssl_step self candle i) sls st))"
  have body: "\<exists>v. ?body i u = Inr v \<and> ?I v" if h: "i \<in> set [0..<length ?cs]" "?I u" for i u
  proof -
    have i: "i < length ?cs" using h(1) by simp
    obtain u1 where u1: "previous_day_step self (daily_tables ?cs) (?cs ! i) i u = Inr u1" "?I u1"
      using previous_day_step_ok [OF assms(1) i h(2)] by blast
    obtain u2 where u2: "foldR (bsl_step self (?cs ! i) i) shs u1 = Inr u2" "?I u2"
      using foldR_Inr [of shs ?I "bsl_step self (?cs ! i) i" u1] bsl_step_ok [OF assms(1) i]
        assms(2) u1(2) by blast
    obtain u3 where u3: "foldR (ssl_step self (?cs ! i) i) sls u2 = Inr u3" "?I u3"
      using foldR_Inr [of sls ?I "ssl_step self (?cs ! i) i" u2] ssl_step_ok [OF assms(1) i]
        assms(3) u2(2) by blast
    show ?thesis using u1 u2 u3 by simp
  qed
  have "?I \<lparr>ss_sweeps = [], ss_invalidated_highs = {}, ss_invalidated_lows = {}\<rparr>"
    by (simp add: sweeps_ok_def)
  with foldR_Inr [of "[0..<length ?cs]" ?I ?body, OF body] obtain st where
    "foldR ?body [0..<length ?cs]
       \<lparr>ss_sweeps = [], ss_invalidated_highs = {}, ss_invalidated_lows = {}\<rparr> = Inr st" "?I st"
    by blast
  then show thesis
    by (intro that [of st]) (simp_all add: detect_sweeps_in_sequence_def Let_def)
qed

section \<open>Properties\<close>

text \<open>C13. On a well-formed market and swings with positive prices,
  \<^verbatim>\<open>detect_sweeps_in_sequence\<close> never raises, and every sweep it reports is genuine: the candle
  trades beyond the level by at least \<open>min_sweep_pips\<close> and closes back at or inside it, and the
  level is either an earlier swing of that side or the extreme of the latest earlier day. No level
  is reported twice on the same side: a swept or decisively broken price is never swept again.\<close>

theorem detect_sweeps_genuine_once:
  assumes "wf_market s" and "\<forall>w \<in> set shs. 0 < sh_price w" and "\<forall>w \<in> set sls. 0 < sl_price w"
  shows "\<exists>sweeps. detect_sweeps_in_sequence self s shs sls = Inr sweeps \<and>
     (\<forall>x \<in> set sweeps. genuine_high self (seq_candles s) shs x \<or> genuine_low self (seq_candles s) sls x) \<and>
     distinct (map ls_swept_level (filter is_bullish_sweep sweeps)) \<and>
     distinct (map ls_swept_level (filter is_bearish_sweep sweeps))"
proof -
  obtain st where "detect_sweeps_in_sequence self s shs sls = Inr (ss_sweeps st)"
      "sweeps_ok self (seq_candles s) shs sls st"
    by (rule detect_sweeps_run [OF assms])
  then show ?thesis unfolding sweeps_ok_def by (intro exI [of _ "ss_sweeps st"]) (simp add: Let_def)
qed

definition ex_sweep_analyzer :: SweepAnalyzer where
  "ex_sweep_analyzer = \<lparr>sw_min_sweep_pips = 2, sw_turtle_soup_min_pips = 5\<rparr>"

theorem detect_sweeps_genuine_once_witness:
  "\<exists>sweeps. detect_sweeps_in_sequence ex_sweep_analyzer ex_swing_seq [ex_sh 2 0] [] = Inr sweeps \<and>
     distinct (map ls_swept_level (filter is_bullish_sweep sweeps))"
proof -
  have "\<forall>w \<in> set [ex_sh 2 0]. 0 < sh_price w" "\<forall>w \<in> set []. 0 < sl_price w"
    by (simp_all add: ex_sh_def)
  from detect_sweeps_genuine_once [OF wf_ex_swing_seq this, of ex_sweep_analyzer] show ?thesis
    by blast
qed

end
