(* ===== verification/Sessions.thy ===== *)
theory Sessions
  imports Candle
begin

text \<open>
  Trading sessions: \<^verbatim>\<open>engine/ta/models/session.py\<close> and
  \<^verbatim>\<open>SessionAnalyzer\<close> of \<^verbatim>\<open>engine/ta/common/analyzers/session.py\<close>. The analyzer's
  three windows are those of \<open>get_session_window\<close>, which its \<^verbatim>\<open>__init__\<close> stores.
\<close>

section \<open>Windows\<close>

definition utc_hour :: "datetime \<Rightarrow> int" where
  "utc_hour t = (t div 3600) mod 24"

record SessionWindow =
  win_session :: Session
  win_start_hour_utc :: int
  win_end_hour_utc :: int

definition mk_SessionWindow :: "Session \<Rightarrow> int \<Rightarrow> int \<Rightarrow> SessionWindow result" where
  "mk_SessionWindow session start_hour_utc end_hour_utc =
     (if 0 \<le> start_hour_utc \<and> start_hour_utc \<le> 23 \<and> 0 \<le> end_hour_utc \<and> end_hour_utc \<le> 23
      then Inr \<lparr>win_session = session, win_start_hour_utc = start_hour_utc,
                win_end_hour_utc = end_hour_utc\<rparr>
      else Inl (ValidationError ''SessionWindow''))"

definition duration_hours :: "SessionWindow \<Rightarrow> int" where
  "duration_hours w =
     (if win_start_hour_utc w \<le> win_end_hour_utc w then win_end_hour_utc w - win_start_hour_utc w
      else (24 - win_start_hour_utc w) + win_end_hour_utc w)"

definition contains_hour :: "SessionWindow \<Rightarrow> int \<Rightarrow> bool result" where
  "contains_hour w hour_utc =
     (if hour_utc < 0 \<or> 23 < hour_utc
      then Inl (ConfigurationError ''Hour must be between 0 and 23'')
      else if win_start_hour_utc w \<le> win_end_hour_utc w
      then Inr (win_start_hour_utc w \<le> hour_utc \<and> hour_utc < win_end_hour_utc w)
      else Inr (win_start_hour_utc w \<le> hour_utc \<or> hour_utc < win_end_hour_utc w))"

definition contains_timestamp :: "SessionWindow \<Rightarrow> datetime \<Rightarrow> bool result" where
  "contains_timestamp w timestamp = contains_hour w (utc_hour timestamp)"

definition get_session_window :: "Session \<Rightarrow> SessionWindow result" where
  "get_session_window session =
     (let (start_hour, end_hour) = dict_get SESSION_UTC_RANGES session (0, 0)
      in mk_SessionWindow session start_hour end_hour)"

section \<open>Session state\<close>

record SessionState =
  st_symbol :: string
  st_timeframe :: Timeframe
  st_timestamp :: datetime
  st_active_session :: Session
  st_is_overlap :: bool
  st_overlapping_sessions :: "Session list"

definition mk_SessionState ::
  "string \<Rightarrow> Timeframe \<Rightarrow> datetime \<Rightarrow> Session \<Rightarrow> bool \<Rightarrow> Session list \<Rightarrow> SessionState result" where
  "mk_SessionState symbol timeframe timestamp active_session is_overlap overlapping_sessions =
     mk_model ''SessionState'' symbol True
       (\<lambda>s. \<lparr>st_symbol = s, st_timeframe = timeframe, st_timestamp = timestamp,
             st_active_session = active_session, st_is_overlap = is_overlap,
             st_overlapping_sessions = overlapping_sessions\<rparr>)"

definition st_is_asia :: "SessionState \<Rightarrow> bool" where
  "st_is_asia s \<longleftrightarrow> st_active_session s = ASIA"

definition st_is_london_ny_overlap :: "SessionState \<Rightarrow> bool" where
  "st_is_london_ny_overlap s \<longleftrightarrow> st_is_overlap s \<and> LONDON \<in> set (st_overlapping_sessions s) \<and>
     NEW_YORK \<in> set (st_overlapping_sessions s)"

text \<open>The choice of the primary session from the active ones, shared by
  \<^verbatim>\<open>identify_active_session\<close> and \<^verbatim>\<open>SessionAnalyzer.identify_session\<close>.\<close>

definition session_state_of :: "datetime \<Rightarrow> Session list \<Rightarrow> SessionState result" where
  "session_state_of timestamp active_sessions =
     (case active_sessions of
        [] \<Rightarrow> mk_SessionState ''GENERIC'' H1 timestamp ASIA False []
      | [p] \<Rightarrow> mk_SessionState ''GENERIC'' H1 timestamp p False []
      | p # _ \<Rightarrow> mk_SessionState ''GENERIC'' H1 timestamp
          (if LONDON \<in> set active_sessions \<and> NEW_YORK \<in> set active_sessions
           then OVERLAP_LONDON_NY else p) True active_sessions)"

definition active_sessions_at :: "int \<Rightarrow> Session list result" where
  "active_sessions_at hour_utc =
     collectR (\<lambda>session. bindR (get_session_window session) (\<lambda>window.
        bindR (contains_hour window hour_utc) (\<lambda>b. Inr (if b then Some session else None))))
       [ASIA, LONDON, NEW_YORK]"

definition identify_active_session :: "datetime \<Rightarrow> SessionState result" where
  "identify_active_session timestamp =
     bindR (active_sessions_at (utc_hour timestamp)) (session_state_of timestamp)"

definition identify_session :: "datetime \<Rightarrow> SessionState result" where
  "identify_session timestamp =
     bindR (active_sessions_at (utc_hour timestamp)) (session_state_of timestamp)"

section \<open>Session ranges\<close>

record SessionRange =
  sr_symbol :: string
  sr_timeframe :: Timeframe
  sr_session :: Session
  sr_start_time :: datetime
  sr_end_time :: datetime
  sr_high :: price
  sr_low :: price
  sr_open :: price
  sr_close :: price

definition mk_SessionRange ::
  "string \<Rightarrow> Timeframe \<Rightarrow> Session \<Rightarrow> datetime \<Rightarrow> datetime \<Rightarrow> price \<Rightarrow> price \<Rightarrow> price \<Rightarrow> price \<Rightarrow>
   SessionRange result" where
  "mk_SessionRange symbol timeframe session start_time end_time high low opn cls =
     bindR (mk_model ''SessionRange'' symbol (0 < high \<and> 0 < low \<and> 0 < opn \<and> 0 < cls)
       (\<lambda>s. \<lparr>sr_symbol = s, sr_timeframe = timeframe, sr_session = session,
             sr_start_time = start_time, sr_end_time = end_time, sr_high = high, sr_low = low,
             sr_open = opn, sr_close = cls\<rparr>)) (\<lambda>r.
     if high < low then Inl (ConfigurationError ''Session high must be >= low'')
     else if end_time < start_time
     then Inl (ConfigurationError ''Session end time must be at or after start time'')
     else Inr r)"

definition sr_range_size :: "SessionRange \<Rightarrow> rat" where
  "sr_range_size r = sr_high r - sr_low r"

definition sr_midpoint :: "SessionRange \<Rightarrow> rat" where
  "sr_midpoint r = (sr_high r + sr_low r) / 2"

text \<open>The range of a non-empty block of candles, built the same way by both extractors.\<close>

definition block_range :: "CandleSequence \<Rightarrow> Session \<Rightarrow> Candle list \<Rightarrow> SessionRange result" where
  "block_range sequence session block =
     bindR (py_max (map c_high block)) (\<lambda>high.
     bindR (py_min (map c_low block)) (\<lambda>low.
       mk_SessionRange (seq_symbol sequence) (seq_timeframe sequence) session
         (c_timestamp (hd block)) (c_timestamp (last block)) high low
         (c_open (hd block)) (c_close (last block))))"

definition get_session_candles :: "CandleSequence \<Rightarrow> Session \<Rightarrow> Candle list result" where
  "get_session_candles sequence session =
     bindR (get_session_window session) (\<lambda>session_window.
       collectR (\<lambda>c. bindR (contains_timestamp session_window (c_timestamp c)) (\<lambda>b.
          Inr (if b then Some c else None))) (seq_candles sequence))"

definition extract_session_range :: "CandleSequence \<Rightarrow> Session \<Rightarrow> SessionRange option result" where
  "extract_session_range sequence session =
     bindR (get_session_candles sequence session) (\<lambda>session_candles.
       if session_candles = [] then Inr None
       else bindR (block_range sequence session session_candles) (\<lambda>r. Inr (Some r)))"

text \<open>The \<^verbatim>\<open>while start_index - 1 >= 0\<close> loop.\<close>

fun extend_back :: "(Candle \<Rightarrow> bool result) \<Rightarrow> Candle list \<Rightarrow> nat \<Rightarrow> nat result" where
  "extend_back inside candles 0 = Inr 0"
| "extend_back inside candles (Suc k) =
     bindR (inside (candles ! k)) (\<lambda>b. if b then extend_back inside candles k else Inr (Suc k))"

definition extract_most_recent_session_range ::
  "CandleSequence \<Rightarrow> Session \<Rightarrow> SessionRange option result" where
  "extract_most_recent_session_range sequence session =
     bindR (get_session_window session) (\<lambda>session_window.
     let candles = seq_candles sequence;
         inside = (\<lambda>c. contains_timestamp session_window (c_timestamp c)) in
     if candles = [] then Inr None
     else bindR (firstR (\<lambda>i. bindR (inside (candles ! i)) (\<lambda>b. Inr (if b then Some i else None)))
                  (rev [0..<length candles])) (\<lambda>end_index.
       case end_index of
         None \<Rightarrow> Inr None
       | Some e \<Rightarrow>
           bindR (extend_back inside candles e) (\<lambda>start_index.
           bindR (block_range sequence session (drop start_index (take (e + 1) candles)))
             (\<lambda>r. Inr (Some r)))))"

definition is_london_ny_overlap :: "datetime \<Rightarrow> bool result" where
  "is_london_ny_overlap timestamp =
     bindR (get_session_window LONDON) (\<lambda>london_window.
     bindR (contains_hour london_window (utc_hour timestamp)) (\<lambda>b.
       if b then bindR (get_session_window NEW_YORK) (\<lambda>ny_window.
                   contains_hour ny_window (utc_hour timestamp))
       else Inr False))"

definition get_session_boundaries ::
  "CandleSequence \<Rightarrow> (Session \<times> SessionRange option) list result" where
  "get_session_boundaries sequence =
     mapR (\<lambda>session. bindR (extract_session_range sequence session) (\<lambda>r. Inr (session, r)))
       [ASIA, LONDON, NEW_YORK]"

definition tag_candles_with_session :: "CandleSequence \<Rightarrow> (nat \<times> SessionState) list result" where
  "tag_candles_with_session sequence =
     mapR (\<lambda>i. bindR (identify_session (c_timestamp (seq_candles sequence ! i)))
            (\<lambda>session_state. Inr (i, session_state))) [0..<length (seq_candles sequence)]"

section \<open>Lemmas\<close>

lemma utc_hour_range [simp]: "0 \<le> utc_hour t" "utc_hour t < 24" "\<not> utc_hour t < 0" "\<not> 23 < utc_hour t"
proof -
  show h: "0 \<le> utc_hour t" "utc_hour t < 24" by (simp_all add: utc_hour_def)
  then show "\<not> utc_hour t < 0" "\<not> 23 < utc_hour t" by linarith+
qed

definition in_session :: "Session \<Rightarrow> datetime \<Rightarrow> bool" where
  "in_session session t \<longleftrightarrow>
     (case session of ASIA \<Rightarrow> utc_hour t < 9
      | LONDON \<Rightarrow> 7 \<le> utc_hour t \<and> utc_hour t < 16
      | NEW_YORK \<Rightarrow> 12 \<le> utc_hour t \<and> utc_hour t < 21
      | OVERLAP_LONDON_NY \<Rightarrow> 12 \<le> utc_hour t \<and> utc_hour t < 16)"

lemma window_contains [no_raise]:
  "\<exists>w. get_session_window session = Inr w \<and>
     (\<forall>t. contains_timestamp w t = Inr (in_session session t))"
  by (cases session)
     (simp_all add: get_session_window_def dict_get_def SESSION_UTC_RANGES_def mk_SessionWindow_def
       contains_timestamp_def contains_hour_def in_session_def)

lemma active_sessions_Inr:
  "active_sessions_at (utc_hour t) = Inr (filter (\<lambda>s. in_session s t) [ASIA, LONDON, NEW_YORK])"
proof -
  have "bindR (get_session_window s) (\<lambda>w. bindR (contains_hour w (utc_hour t))
      (\<lambda>b. Inr (if b then Some s else None))) = Inr (if in_session s t then Some s else None)" for s
    using window_contains [of s] unfolding contains_timestamp_def by auto
  then have "active_sessions_at (utc_hour t) =
      Inr (List.map_filter (\<lambda>s. if in_session s t then Some s else None) [ASIA, LONDON, NEW_YORK])"
    unfolding active_sessions_at_def by (intro collectR_Inr)
  then show ?thesis by (simp add: List.map_filter_simps)
qed

lemma generic_symbol: "clean_symbol ''GENERIC''"
  by (simp add: clean_symbol_def str_strip_def is_space_def norm_symbol_def remove_char_def)

lemma extend_back_Inr:
  assumes "\<And>k. k < e \<Longrightarrow> inside (cs ! k) = Inr (p (cs ! k))"
  shows "\<exists>a. extend_back inside cs e = Inr a \<and> a \<le> e \<and> (\<forall>k. a \<le> k \<and> k < e \<longrightarrow> p (cs ! k)) \<and>
     (a = 0 \<or> \<not> p (cs ! (a - 1)))"
  using assms
proof (induction e)
  case (Suc e)
  show ?case
  proof (cases "p (cs ! e)")
    case True
    then obtain a where "extend_back inside cs e = Inr a" "a \<le> e" "\<forall>k. a \<le> k \<and> k < e \<longrightarrow> p (cs ! k)"
        "a = 0 \<or> \<not> p (cs ! (a - 1))"
      using Suc by auto
    then show ?thesis using True Suc.prems [of e] by (intro exI [of _ a]) (auto simp: less_Suc_eq)
  next
    case False
    then show ?thesis using Suc.prems [of e] by (intro exI [of _ "Suc e"]) auto
  qed
qed simp

lemma firstR_rev_upt:
  assumes "\<And>k. k < n \<Longrightarrow> f k = Inr (if q k then Some k else None)"
  shows "firstR f (rev [0..<n]) = Inr (if \<exists>k < n. q k then Some (Max {k. k < n \<and> q k}) else None)"
  using assms
proof (induction n)
  case (Suc n)
  have "{k. k < Suc n \<and> q k} = (if q n then insert n {k. k < n \<and> q k} else {k. k < n \<and> q k})"
    by (auto simp: less_Suc_eq)
  moreover have "Max (insert n {k. k < n \<and> q k}) = n" by (intro Max_eqI) auto
  ultimately show ?case using Suc by (auto simp: less_Suc_eq)
qed simp

lemma py_extremes:
  assumes "block \<noteq> []" and "\<forall>c \<in> set block. wf_candle c"
  shows "py_max (map c_high block) = Inr (Max (c_high ` set block))"
    and "py_min (map c_low block) = Inr (Min (c_low ` set block))"
    and "0 < Min (c_low ` set block)" and "0 < Max (c_high ` set block)"
    and "Min (c_low ` set block) \<le> Max (c_high ` set block)"
proof -
  show "py_max (map c_high block) = Inr (Max (c_high ` set block))"
      "py_min (map c_low block) = Inr (Min (c_low ` set block))"
    using assms(1) by (simp_all add: py_max_Inr py_min_Inr)
  show lo: "0 < Min (c_low ` set block)" using assms wf_candleD(1) by simp
  have h: "hd block \<in> set block" using assms(1) by simp
  have "Min (c_low ` set block) \<le> c_low (hd block)" "c_high (hd block) \<le> Max (c_high ` set block)"
    using h by simp_all
  moreover have "c_low (hd block) \<le> c_high (hd block)" using assms(2) h wf_candleD(5) by blast
  ultimately show "Min (c_low ` set block) \<le> Max (c_high ` set block)" by linarith
  then show "0 < Max (c_high ` set block)" using lo by linarith
qed

lemma block_range_Inr:
  assumes "wf_seq s" and "clean_symbol (seq_symbol s)" and "a < b" and "b \<le> length (seq_candles s)"
  shows "block_range s session (drop a (take b (seq_candles s))) =
     Inr \<lparr>sr_symbol = seq_symbol s, sr_timeframe = seq_timeframe s, sr_session = session,
       sr_start_time = c_timestamp (seq_candles s ! a),
       sr_end_time = c_timestamp (seq_candles s ! (b - 1)),
       sr_high = Max (c_high ` set (drop a (take b (seq_candles s)))),
       sr_low = Min (c_low ` set (drop a (take b (seq_candles s)))),
       sr_open = c_open (seq_candles s ! a), sr_close = c_close (seq_candles s ! (b - 1))\<rparr>"
proof -
  let ?cs = "seq_candles s" and ?block = "drop a (take b (seq_candles s))"
  have ne: "?block \<noteq> []" using assms by simp
  have sub: "set ?block \<subseteq> set ?cs" by (meson order_trans set_drop_subset set_take_subset)
  have wf: "\<forall>c \<in> set ?block. wf_candle c" using assms(1) sub by (auto simp: wf_seq_def)
  have ends: "hd ?block = ?cs ! a" "last ?block = ?cs ! (b - 1)"
    using assms by (simp_all add: hd_drop_conv_nth last_conv_nth)
  have ab: "wf_candle (?cs ! a)" "wf_candle (?cs ! (b - 1))"
    using assms by (simp_all add: wf_seq_nth)
  have "\<not> c_timestamp (?cs ! (b - 1)) < c_timestamp (?cs ! a)"
  proof (cases "a = b - 1")
    case False
    then have "a < b - 1" "b - 1 < length ?cs" using assms(3,4) by arith+
    then show ?thesis using wf_seq_times [OF assms(1)] by fastforce
  qed simp
  moreover note py = py_extremes [OF ne wf]
  define hi where "hi = Max (c_high ` set ?block)"
  define lo where "lo = Min (c_low ` set ?block)"
  have "0 < hi \<and> 0 < lo \<and> 0 < c_open (?cs ! a) \<and> 0 < c_close (?cs ! (b - 1))" "\<not> hi < lo"
    using py(3-5) wf_candleD(2) [OF ab(1)] wf_candleD(3) [OF ab(2)] by (auto simp: hi_def lo_def)
  ultimately show ?thesis
    using assms(2)
    unfolding block_range_def py(1,2) bindR.simps hi_def [symmetric] lo_def [symmetric] ends
      mk_SessionRange_def
    by (simp add: mk_model_clean)
qed

text \<open>The most recent block of candles inside a session: it ends at the last candle inside the window
  and reaches back as long as candles stay inside it.\<close>

definition recent_block :: "Candle list \<Rightarrow> Session \<Rightarrow> nat \<Rightarrow> nat \<Rightarrow> bool" where
  "recent_block cs session a e \<longleftrightarrow> a \<le> e \<and> e < length cs \<and>
     (\<forall>k. a \<le> k \<and> k \<le> e \<longrightarrow> in_session session (c_timestamp (cs ! k))) \<and>
     (\<forall>k. e < k \<and> k < length cs \<longrightarrow> \<not> in_session session (c_timestamp (cs ! k))) \<and>
     (a = 0 \<or> \<not> in_session session (c_timestamp (cs ! (a - 1))))"

lemma recent_range_cases:
  assumes "wf_seq s" and "clean_symbol (seq_symbol s)"
  shows "(\<nexists>k. k < length (seq_candles s) \<and> in_session session (c_timestamp (seq_candles s ! k))) \<and>
      extract_most_recent_session_range s session = Inr None \<or>
     (\<exists>a e r. recent_block (seq_candles s) session a e \<and>
        extract_most_recent_session_range s session = Inr (Some r) \<and>
        block_range s session (drop a (take (e + 1) (seq_candles s))) = Inr r)"
proof -
  let ?cs = "seq_candles s" and ?q = "\<lambda>k. in_session session (c_timestamp (seq_candles s ! k))"
  obtain w where w: "get_session_window session = Inr w"
      "\<And>t. contains_timestamp w t = Inr (in_session session t)"
    using window_contains [of session] by blast
  have first: "firstR (\<lambda>i. bindR (contains_timestamp w (c_timestamp (?cs ! i)))
        (\<lambda>b. Inr (if b then Some i else None))) (rev [0..<length ?cs]) =
      Inr (if \<exists>k < length ?cs. ?q k then Some (Max {k. k < length ?cs \<and> ?q k}) else None)"
    by (rule firstR_rev_upt) (simp add: w(2))
  have ne: "?cs \<noteq> []" using assms(1) by (simp add: wf_seq_def)
  show ?thesis
  proof (cases "\<exists>k < length ?cs. ?q k")
    case False
    then show ?thesis
      using ne first by (auto simp: extract_most_recent_session_range_def w(1) Let_def)
  next
    case True
    define e where "e = Max {k. k < length ?cs \<and> ?q k}"
    have e: "e < length ?cs" "?q e" "\<And>k. k < length ?cs \<Longrightarrow> ?q k \<Longrightarrow> k \<le> e"
      using Max_in [of "{k. k < length ?cs \<and> ?q k}"] True Max_ge [of "{k. k < length ?cs \<and> ?q k}"]
      unfolding e_def by auto
    obtain a where a: "extend_back (\<lambda>c. contains_timestamp w (c_timestamp c)) ?cs e = Inr a" "a \<le> e"
        "\<forall>k. a \<le> k \<and> k < e \<longrightarrow> ?q k" "a = 0 \<or> \<not> ?q (a - 1)"
      using extend_back_Inr [of e "\<lambda>c. contains_timestamp w (c_timestamp c)" ?cs
          "\<lambda>c. in_session session (c_timestamp c)"] w(2) by auto
    have "?q k" if "a \<le> k" "k \<le> e" for k using a(3) e(2) that by (cases "k = e") auto
    moreover have "\<not> ?q k" if "e < k" "k < length ?cs" for k using e(3) [of k] that by auto
    ultimately have "recent_block ?cs session a e"
      using a(2,4) e(1) unfolding recent_block_def by blast
    moreover obtain r where r: "block_range s session (drop a (take (e + 1) ?cs)) = Inr r"
      using block_range_Inr [OF assms, of a "e + 1"] a(2) e(1) by simp
    moreover have "extract_most_recent_session_range s session = Inr (Some r)"
      using ne first True a(1) r
      by (simp add: extract_most_recent_session_range_def w(1) Let_def e_def [symmetric])
    ultimately show ?thesis by blast
  qed
qed

section \<open>Properties\<close>

text \<open>For every timestamp both session classifiers return the same state without raising. By the
  UTC hour the active session is Asia before 9, London from 9, the London/New York overlap from 12,
  New York from 16, and Asia again from 21, when no window is open; the overlap flag is set exactly
  from 7 to 9 and from 12 to 16.\<close>

theorem identify_session_table:
  "identify_active_session t = identify_session t \<and>
   (\<exists>st. identify_session t = Inr st \<and> st_timestamp st = t \<and>
      st_active_session st =
        (if utc_hour t < 9 \<or> 21 \<le> utc_hour t then ASIA
         else if utc_hour t < 12 then LONDON
         else if utc_hour t < 16 then OVERLAP_LONDON_NY else NEW_YORK) \<and>
      st_is_overlap st = (7 \<le> utc_hour t \<and> utc_hour t < 9 \<or> 12 \<le> utc_hour t \<and> utc_hour t < 16))"
  by (auto simp: identify_active_session_def identify_session_def active_sessions_Inr in_session_def
      session_state_of_def mk_SessionState_def mk_model_clean generic_symbol)

text \<open>On a well-formed sequence \<^verbatim>\<open>extract_most_recent_session_range\<close> never raises. It returns
  \<open>None\<close> exactly when no candle lies in the session's hours; otherwise it returns the range of the
  block that ends at the last such candle and extends back over every directly preceding candle in
  those hours, with the block's extremes, first open and last close.\<close>

theorem extract_most_recent_session_range_spec:
  assumes "wf_seq s" and "clean_symbol (seq_symbol s)"
  shows "case extract_most_recent_session_range s session of
       Inl _ \<Rightarrow> False
     | Inr None \<Rightarrow> \<forall>c \<in> set (seq_candles s). \<not> in_session session (c_timestamp c)
     | Inr (Some r) \<Rightarrow> \<exists>a e. recent_block (seq_candles s) session a e \<and>
         sr_start_time r = c_timestamp (seq_candles s ! a) \<and> sr_end_time r = c_timestamp (seq_candles s ! e) \<and>
         sr_open r = c_open (seq_candles s ! a) \<and> sr_close r = c_close (seq_candles s ! e) \<and>
         sr_high r = Max (c_high ` set (drop a (take (e + 1) (seq_candles s)))) \<and>
         sr_low r = Min (c_low ` set (drop a (take (e + 1) (seq_candles s))))"
  using recent_range_cases [OF assms, of session]
proof (elim disjE conjE exE)
  assume "\<nexists>k. k < length (seq_candles s) \<and> in_session session (c_timestamp (seq_candles s ! k))"
    and "extract_most_recent_session_range s session = Inr None"
  then show ?thesis by (auto simp: in_set_conv_nth)
next
  fix a e r
  assume blk: "recent_block (seq_candles s) session a e"
    and "extract_most_recent_session_range s session = Inr (Some r)"
    and "block_range s session (drop a (take (e + 1) (seq_candles s))) = Inr r"
  moreover have "a < e + 1" "e + 1 \<le> length (seq_candles s)"
    using blk by (simp_all add: recent_block_def)
  ultimately show ?thesis
    using block_range_Inr [OF assms, of a "e + 1" session] by auto
qed

theorem extract_most_recent_session_range_spec_witness:
  "\<exists>r. extract_most_recent_session_range ex_seq ASIA = Inr (Some r)"
proof -
  have "clean_symbol (seq_symbol ex_seq)" by (simp add: ex_seq_def)
  moreover have "in_session ASIA 0" "ex_candle 0 1 2 1 1 \<in> set (seq_candles ex_seq)"
    by (simp_all add: in_session_def utc_hour_def ex_seq_def)
  ultimately show ?thesis
    using extract_most_recent_session_range_spec [OF wf_ex_seq, of ASIA]
    by (auto split: sum.splits option.splits)
qed

text \<open>The block is delimited by candles, not by the clock: when every candle of a well-formed
  sequence lies in the session's hours, as in a daily sequence or after missing data, the returned
  range runs from the first candle to the last, across days, although the docstring of
  \<^verbatim>\<open>extract_most_recent_session_range\<close> says that missing data ends the block.\<close>

theorem session_block_merges_days:
  assumes "wf_seq s" and "clean_symbol (seq_symbol s)"
    and "\<forall>c \<in> set (seq_candles s). in_session session (c_timestamp c)"
  shows "\<exists>r. extract_most_recent_session_range s session = Inr (Some r) \<and>
     sr_start_time r = c_timestamp (hd (seq_candles s)) \<and> sr_end_time r = c_timestamp (last (seq_candles s))"
proof -
  let ?cs = "seq_candles s"
  have ne: "?cs \<noteq> []" using assms(1) by (simp add: wf_seq_def)
  have all: "in_session session (c_timestamp (?cs ! k))" if "k < length ?cs" for k
    using assms(3) that by simp
  obtain a e r where r: "recent_block ?cs session a e"
      "extract_most_recent_session_range s session = Inr (Some r)"
      "block_range s session (drop a (take (e + 1) ?cs)) = Inr r"
    using recent_range_cases [OF assms(1,2), of session] all ne by blast
  have e: "e = length ?cs - 1"
    using r(1) all [of "length ?cs - 1"] ne unfolding recent_block_def
    by (metis Suc_pred' length_greater_0_conv less_Suc_eq_le diff_less linorder_neqE_nat not_less zero_less_one)
  have "a = 0" using r(1) all [of "a - 1"] unfolding recent_block_def by linarith
  then show ?thesis
    using r e ne block_range_Inr [OF assms(1,2), of a "e + 1" session]
    by (auto simp: hd_conv_nth last_conv_nth)
qed

definition ex_gap_seq :: CandleSequence where
  "ex_gap_seq = \<lparr>seq_symbol = ''EURUSD'', seq_timeframe = H1,
     seq_candles = [ex_candle 28800 1 2 1 1, ex_candle 86400 1 2 1 2]\<rparr>"

theorem session_block_merges_days_witness:
  "\<exists>r. extract_most_recent_session_range ex_gap_seq ASIA = Inr (Some r) \<and>
     sr_start_time r = 8 * 3600 \<and> sr_end_time r = 24 * 3600"
proof -
  have "wf_seq ex_gap_seq" "clean_symbol (seq_symbol ex_gap_seq)"
      "\<forall>c \<in> set (seq_candles ex_gap_seq). in_session ASIA (c_timestamp c)"
    by (simp_all add: ex_gap_seq_def wf_seq_def wf_candle_def uniform_def in_session_def utc_hour_def)
  from session_block_merges_days [OF this] show ?thesis by (simp add: ex_gap_seq_def)
qed

end
