(* ===== verification/Fibonacci.thy ===== *)
theory Fibonacci
  imports Swing Sessions
begin

text \<open>
  Fibonacci retracements and dealing ranges: \<^verbatim>\<open>engine/ta/models/fibonacci.py\<close>,
  \<^verbatim>\<open>engine/ta/common/analyzers/fibonacci.py\<close> and
  \<^verbatim>\<open>engine/ta/common/analyzers/dealing_range.py\<close>.
\<close>

section \<open>Models\<close>

record FibonacciRetracement =
  fr_symbol :: string
  fr_timeframe :: Timeframe
  fr_swing_high :: price
  fr_swing_low :: price
  fr_swing_high_timestamp :: datetime
  fr_swing_low_timestamp :: datetime
  fr_is_bullish :: bool

definition mk_FibonacciRetracement ::
  "string \<Rightarrow> Timeframe \<Rightarrow> price \<Rightarrow> price \<Rightarrow> datetime \<Rightarrow> datetime \<Rightarrow> bool \<Rightarrow>
   FibonacciRetracement result" where
  "mk_FibonacciRetracement symbol timeframe swing_high swing_low high_timestamp low_timestamp
       bullish =
     bindR (mk_model ''FibonacciRetracement'' symbol (0 < swing_high \<and> 0 < swing_low)
       (\<lambda>s. \<lparr>fr_symbol = s, fr_timeframe = timeframe, fr_swing_high = swing_high,
             fr_swing_low = swing_low, fr_swing_high_timestamp = high_timestamp,
             fr_swing_low_timestamp = low_timestamp, fr_is_bullish = bullish\<rparr>)) (\<lambda>r.
     if swing_high \<le> swing_low then Inl (ConfigurationError ''Swing high must be > swing low'')
     else Inr r)"

definition fr_range_size :: "FibonacciRetracement \<Rightarrow> rat" where
  "fr_range_size r = fr_swing_high r - fr_swing_low r"

definition get_level_price :: "FibonacciRetracement \<Rightarrow> FibonacciLevel \<Rightarrow> price result" where
  "get_level_price self level =
     (case map_of FIBONACCI_VALUES level of
        None \<Rightarrow> Inl (ConfigurationError ''Unknown Fibonacci level'')
      | Some fib_value \<Rightarrow>
          if fr_is_bullish self then Inr (fr_swing_high self - fr_range_size self * fib_value)
          else Inr (fr_swing_low self + fr_range_size self * fib_value))"

definition get_all_levels :: "FibonacciRetracement \<Rightarrow> (FibonacciLevel \<times> price) list result" where
  "get_all_levels self =
     mapR (\<lambda>level. bindR (get_level_price self level) (\<lambda>p. Inr (level, p))) (map fst FIBONACCI_VALUES)"

definition get_ote_levels :: "FibonacciRetracement \<Rightarrow> (FibonacciLevel \<times> price) list result" where
  "get_ote_levels self =
     mapR (\<lambda>level. bindR (get_level_price self level) (\<lambda>p. Inr (level, p))) OTE_LEVELS"

definition fr_get_zone_for_price :: "FibonacciRetracement \<Rightarrow> price \<Rightarrow> PriceZone result" where
  "fr_get_zone_for_price self price =
     (if price < fr_swing_low self \<or> fr_swing_high self < price
      then Inr (if fr_is_bullish self
                then if fr_swing_high self < price then PREMIUM else DISCOUNT
                else if fr_swing_high self < price then DISCOUNT else PREMIUM)
      else bindR (get_level_price self LEVEL_50) (\<lambda>level_50.
        let tolerance = fr_range_size self * (2 / 100) in
        if \<bar>price - level_50\<bar> \<le> tolerance then Inr EQUILIBRIUM
        else if fr_is_bullish self then Inr (if level_50 < price then PREMIUM else DISCOUNT)
        else Inr (if price < level_50 then PREMIUM else DISCOUNT)))"

definition fr_is_at_ote :: "FibonacciRetracement \<Rightarrow> price \<Rightarrow> rat \<Rightarrow> FibonacciLevel option result" where
  "fr_is_at_ote self price tolerance_pips =
     bindR (get_ote_levels self) (\<lambda>ote_levels.
       Inr (map_option fst (find (\<lambda>(level, level_price).
         \<bar>price - level_price\<bar> \<le> tolerance_pips * get_pip_value (fr_symbol self)) ote_levels)))"

record PremiumDiscountZone =
  pz_symbol :: string
  pz_timeframe :: Timeframe
  pz_zone_type :: PriceZone
  pz_upper_bound :: price
  pz_lower_bound :: price
  pz_equilibrium :: price

definition mk_PremiumDiscountZone ::
  "string \<Rightarrow> Timeframe \<Rightarrow> PriceZone \<Rightarrow> price \<Rightarrow> price \<Rightarrow> price \<Rightarrow> PremiumDiscountZone result" where
  "mk_PremiumDiscountZone symbol timeframe zone_type upper_bound lower_bound equilibrium =
     bindR (mk_model ''PremiumDiscountZone'' symbol
         (0 < upper_bound \<and> 0 < lower_bound \<and> 0 < equilibrium)
       (\<lambda>s. \<lparr>pz_symbol = s, pz_timeframe = timeframe, pz_zone_type = zone_type,
             pz_upper_bound = upper_bound, pz_lower_bound = lower_bound,
             pz_equilibrium = equilibrium\<rparr>)) (\<lambda>z.
     if upper_bound \<le> lower_bound
     then Inl (ConfigurationError ''Upper bound must be > lower bound'')
     else let expected_equilibrium = (upper_bound + lower_bound) / 2;
              tolerance = (upper_bound - lower_bound) * (1 / 100)
          in if tolerance < \<bar>equilibrium - expected_equilibrium\<bar>
             then Inl (ConfigurationError ''Equilibrium must be midpoint of bounds'')
             else Inr z)"

definition pz_contains_price :: "PremiumDiscountZone \<Rightarrow> price \<Rightarrow> bool" where
  "pz_contains_price z price \<longleftrightarrow> pz_lower_bound z \<le> price \<and> price \<le> pz_upper_bound z"

definition distance_from_equilibrium :: "PremiumDiscountZone \<Rightarrow> price \<Rightarrow> rat" where
  "distance_from_equilibrium z price = \<bar>price - pz_equilibrium z\<bar>"

record DealingRange =
  dr_symbol :: string
  dr_timeframe :: Timeframe
  dr_high :: price
  dr_low :: price
  dr_start_time :: datetime
  dr_end_time :: "datetime option"

definition mk_DealingRange ::
  "string \<Rightarrow> Timeframe \<Rightarrow> price \<Rightarrow> price \<Rightarrow> datetime \<Rightarrow> datetime option \<Rightarrow> DealingRange result" where
  "mk_DealingRange symbol timeframe high low start_time end_time =
     bindR (mk_model ''DealingRange'' symbol (0 < high \<and> 0 < low)
       (\<lambda>s. \<lparr>dr_symbol = s, dr_timeframe = timeframe, dr_high = high, dr_low = low,
             dr_start_time = start_time, dr_end_time = end_time\<rparr>)) (\<lambda>r.
     if high \<le> low then Inl (ConfigurationError ''High must be > low'')
     else case end_time of
       Some e \<Rightarrow> if e < start_time
                 then Inl (ConfigurationError ''End time must be at or after start time'')
                 else Inr r
     | None \<Rightarrow> Inr r)"

definition dr_range_size :: "DealingRange \<Rightarrow> rat" where
  "dr_range_size r = dr_high r - dr_low r"

definition dr_equilibrium :: "DealingRange \<Rightarrow> price" where
  "dr_equilibrium r = (dr_high r + dr_low r) / 2"

definition premium_zone :: "DealingRange \<Rightarrow> PremiumDiscountZone result" where
  "premium_zone r = mk_PremiumDiscountZone (dr_symbol r) (dr_timeframe r) PREMIUM (dr_high r)
     (dr_equilibrium r) (dr_equilibrium r + dr_range_size r / 4)"

definition discount_zone :: "DealingRange \<Rightarrow> PremiumDiscountZone result" where
  "discount_zone r = mk_PremiumDiscountZone (dr_symbol r) (dr_timeframe r) DISCOUNT
     (dr_equilibrium r) (dr_low r) (dr_equilibrium r - dr_range_size r / 4)"

definition dr_get_zone_for_price :: "DealingRange \<Rightarrow> price \<Rightarrow> PriceZone" where
  "dr_get_zone_for_price r price =
     (let tolerance = dr_range_size r * (2 / 100) in
      if \<bar>price - dr_equilibrium r\<bar> \<le> tolerance then EQUILIBRIUM
      else if dr_equilibrium r < price then PREMIUM else DISCOUNT)"

definition dr_contains_price :: "DealingRange \<Rightarrow> price \<Rightarrow> bool" where
  "dr_contains_price r price \<longleftrightarrow> dr_low r \<le> price \<and> price \<le> dr_high r"

section \<open>Fibonacci analyzer\<close>

definition create_retracement :: "SwingHigh \<Rightarrow> SwingLow \<Rightarrow> bool \<Rightarrow> FibonacciRetracement result" where
  "create_retracement swing_high swing_low bullish =
     mk_FibonacciRetracement (sh_symbol swing_high) (sh_timeframe swing_high) (sh_price swing_high)
       (sl_price swing_low) (sh_timestamp swing_high) (sl_timestamp swing_low) bullish"

definition calculate_level_price :: "price \<Rightarrow> price \<Rightarrow> FibonacciLevel \<Rightarrow> bool \<Rightarrow> price result" where
  "calculate_level_price swing_high swing_low level bullish =
     (case map_of FIBONACCI_VALUES level of
        None \<Rightarrow> Inl (ValueError ''Unknown Fibonacci level'')
      | Some fib_value \<Rightarrow>
          let range_size = swing_high - swing_low in
          if bullish then Inr (swing_high - range_size * fib_value)
          else Inr (swing_low + range_size * fib_value))"

definition get_ote_zone :: "FibonacciRetracement \<Rightarrow> PremiumDiscountZone result" where
  "get_ote_zone retracement =
     bindR (get_level_price retracement LEVEL_618) (\<lambda>level_618.
     bindR (get_level_price retracement LEVEL_786) (\<lambda>level_786.
       let upper = max level_618 level_786; lower = min level_618 level_786;
           equilibrium = (upper + lower) / 2
       in mk_PremiumDiscountZone (fr_symbol retracement) (fr_timeframe retracement)
            (if fr_is_bullish retracement then DISCOUNT else PREMIUM) upper lower equilibrium))"

definition fa_is_at_ote :: "price \<Rightarrow> FibonacciRetracement \<Rightarrow> rat \<Rightarrow> bool result" where
  "fa_is_at_ote price retracement tolerance_pips =
     bindR (get_ote_zone retracement) (\<lambda>ote_zone.
       let tolerance = tolerance_pips * get_pip_value (fr_symbol retracement) in
       Inr (pz_lower_bound ote_zone - tolerance \<le> price \<and> price \<le> pz_upper_bound ote_zone + tolerance))"

definition get_nearest_fib_level :: "price \<Rightarrow> FibonacciRetracement \<Rightarrow> FibonacciLevel option result" where
  "get_nearest_fib_level price retracement =
     bindR (get_all_levels retracement) (\<lambda>all_levels.
       Inr (map_option fst (min_key (\<lambda>(level, level_price). \<bar>price - level_price\<bar>) all_levels)))"

definition calculate_retracement_percentage :: "price \<Rightarrow> price \<Rightarrow> price \<Rightarrow> rat" where
  "calculate_retracement_percentage current_price swing_high swing_low =
     (let range_size = swing_high - swing_low in
      if range_size = 0 then 0 else \<bar>current_price - swing_low\<bar> / range_size * 100)"

section \<open>Dealing range analyzer\<close>

record DealingRangeAnalyzer =
  da_min_range_pips :: rat

definition create_from_session ::
  "DealingRangeAnalyzer \<Rightarrow> SessionRange \<Rightarrow> DealingRange option result" where
  "create_from_session self session_range =
     bindR (calculate_pips (sr_low session_range) (sr_high session_range) (sr_symbol session_range))
       (\<lambda>range_pips.
        if range_pips < da_min_range_pips self then Inr None
        else bindR (mk_DealingRange (sr_symbol session_range) (sr_timeframe session_range)
               (sr_high session_range) (sr_low session_range) (sr_start_time session_range)
               (Some (sr_end_time session_range))) (\<lambda>r. Inr (Some r)))"

definition create_from_sequence ::
  "DealingRangeAnalyzer \<Rightarrow> CandleSequence \<Rightarrow> int \<Rightarrow> int \<Rightarrow> DealingRange option result" where
  "create_from_sequence self sequence start_index end_index =
     (if start_index < 0 \<or> int (length (seq_candles sequence)) \<le> end_index \<or> end_index < start_index
      then Inr None
      else let range_candles = drop (nat start_index) (take (nat end_index + 1) (seq_candles sequence)) in
        bindR (py_max (map c_high range_candles)) (\<lambda>high.
        bindR (py_min (map c_low range_candles)) (\<lambda>low.
        bindR (calculate_pips low high (seq_symbol sequence)) (\<lambda>range_pips.
          if range_pips < da_min_range_pips self then Inr None
          else bindR (mk_DealingRange (seq_symbol sequence) (seq_timeframe sequence) high low
                 (c_timestamp (hd range_candles)) (Some (c_timestamp (last range_candles))))
                 (\<lambda>r. Inr (Some r))))))"

definition calculate_distance_from_equilibrium :: "price \<Rightarrow> DealingRange \<Rightarrow> rat result" where
  "calculate_distance_from_equilibrium price dealing_range =
     calculate_pips (dr_equilibrium dealing_range) price (dr_symbol dealing_range)"

definition is_range_active :: "DealingRange \<Rightarrow> datetime \<Rightarrow> bool" where
  "is_range_active dealing_range current_time =
     (case dr_end_time dealing_range of None \<Rightarrow> True | Some e \<Rightarrow> current_time \<le> e)"

definition has_price_left_range :: "price \<Rightarrow> DealingRange \<Rightarrow> bool" where
  "has_price_left_range price dealing_range = (\<not> dr_contains_price dealing_range price)"

section \<open>Lemmas\<close>

definition wf_fr :: "FibonacciRetracement \<Rightarrow> bool" where
  "wf_fr r \<longleftrightarrow> 0 < fr_swing_low r \<and> fr_swing_low r < fr_swing_high r \<and> clean_symbol (fr_symbol r)"

definition wf_dr :: "DealingRange \<Rightarrow> bool" where
  "wf_dr r \<longleftrightarrow> 0 < dr_low r \<and> dr_low r < dr_high r \<and> clean_symbol (dr_symbol r)"

lemma mk_FibonacciRetracement_wf:
  "mk_FibonacciRetracement sy tf h l ht lt b = Inr r \<Longrightarrow> clean_symbol sy \<Longrightarrow> wf_fr r"
  by (auto simp: mk_FibonacciRetracement_def mk_model_Inr wf_fr_def clean_symbol_def split: if_splits)

lemma mk_DealingRange_wf: "mk_DealingRange sy tf h l st en = Inr r \<Longrightarrow> clean_symbol sy \<Longrightarrow> wf_dr r"
  by (auto simp: mk_DealingRange_def mk_model_Inr wf_dr_def clean_symbol_def
      split: if_splits option.splits)

definition fib_value :: "FibonacciLevel \<Rightarrow> rat" where
  "fib_value level = dict_get FIBONACCI_VALUES level 0"

lemma map_of_FIBONACCI_VALUES: "map_of FIBONACCI_VALUES level = Some (fib_value level)"
  by (cases level) (simp_all add: FIBONACCI_VALUES_def fib_value_def dict_get_def)

lemma fib_value_range: "0 \<le> fib_value level" "fib_value level \<le> 1"
  by (cases level; simp add: FIBONACCI_VALUES_def fib_value_def dict_get_def)+

lemma fib_value_simps [simp]: "fib_value LEVEL_618 = 618 / 1000" "fib_value LEVEL_786 = 786 / 1000"
  "fib_value LEVEL_50 = 1 / 2" "fib_value LEVEL_0 = 0" "fib_value LEVEL_100 = 1"
  by (simp_all add: FIBONACCI_VALUES_def fib_value_def dict_get_def)

lemma get_level_price_Inr [no_raise]:
  "get_level_price r level = Inr (if fr_is_bullish r then fr_swing_high r - fr_range_size r * fib_value level
     else fr_swing_low r + fr_range_size r * fib_value level)"
  by (simp add: get_level_price_def map_of_FIBONACCI_VALUES)

lemma level_price_between:
  assumes "wf_fr r" and "get_level_price r level = Inr p"
  shows "fr_swing_low r \<le> p" and "p \<le> fr_swing_high r"
proof -
  have "0 \<le> fr_range_size r" using assms(1) by (simp add: wf_fr_def fr_range_size_def)
  then have "0 \<le> fr_range_size r * fib_value level" "fr_range_size r * fib_value level \<le> fr_range_size r * 1"
    using fib_value_range [of level] by (simp, intro mult_left_mono) simp_all
  then show "fr_swing_low r \<le> p" "p \<le> fr_swing_high r"
    using assms(2) by (auto simp: get_level_price_Inr fr_range_size_def split: if_splits)
qed

text \<open>The bounds of the optimal-trade-entry zone.\<close>

lemma get_ote_zone_Inr:
  assumes "wf_fr r"
  shows "\<exists>z. get_ote_zone r = Inr z \<and>
     pz_zone_type z = (if fr_is_bullish r then DISCOUNT else PREMIUM) \<and>
     pz_upper_bound z = (if fr_is_bullish r then fr_swing_high r - fr_range_size r * (618 / 1000)
        else fr_swing_low r + fr_range_size r * (786 / 1000)) \<and>
     pz_lower_bound z = (if fr_is_bullish r then fr_swing_high r - fr_range_size r * (786 / 1000)
        else fr_swing_low r + fr_range_size r * (618 / 1000))"
proof -
  have pos: "0 < fr_range_size r" and lo: "0 < fr_swing_low r" "fr_swing_low r < fr_swing_high r"
      and hi: "fr_swing_high r = fr_swing_low r + fr_range_size r"
    using assms by (simp_all add: wf_fr_def fr_range_size_def)
  show ?thesis
    using assms pos lo
    by (auto simp: get_ote_zone_def get_level_price_Inr Let_def max_def min_def
        mk_PremiumDiscountZone_def wf_fr_def mk_model_clean hi add_pos_pos)
qed

lemma dealing_zones_Inr:
  assumes "wf_dr r"
  shows "\<exists>pz dz. premium_zone r = Inr pz \<and> discount_zone r = Inr dz \<and>
     pz_lower_bound pz = dr_equilibrium r \<and> pz_upper_bound pz = dr_high r \<and>
     pz_lower_bound dz = dr_low r \<and> pz_upper_bound dz = dr_equilibrium r"
proof -
  have "0 < dr_low r" "dr_low r < dr_high r" "clean_symbol (dr_symbol r)"
    using assms by (simp_all add: wf_dr_def)
  then show ?thesis
    by (auto simp: premium_zone_def discount_zone_def mk_PremiumDiscountZone_def mk_model_clean
        dr_equilibrium_def dr_range_size_def Let_def field_simps)
qed

section \<open>Properties\<close>

text \<open>The two implementations of a retracement level agree, as the comments ask: the analyzer's
  \<^verbatim>\<open>calculate_level_price\<close> and the model's \<^verbatim>\<open>get_level_price\<close> return the same price for
  every level without raising, and on a well-formed retracement that price lies between the swing
  low and the swing high.\<close>

theorem level_price_lockstep:
  assumes "wf_fr r"
  shows "\<exists>p. get_level_price r level = Inr p \<and>
     calculate_level_price (fr_swing_high r) (fr_swing_low r) level (fr_is_bullish r) = Inr p \<and>
     fr_swing_low r \<le> p \<and> p \<le> fr_swing_high r"
  using level_price_between [OF assms, of level]
  by (auto simp: calculate_level_price_def map_of_FIBONACCI_VALUES get_level_price_Inr fr_range_size_def)

definition ex_fr :: "bool \<Rightarrow> FibonacciRetracement" where
  "ex_fr b = \<lparr>fr_symbol = ''EURUSD'', fr_timeframe = H1, fr_swing_high = 2, fr_swing_low = 1,
     fr_swing_high_timestamp = 0, fr_swing_low_timestamp = 60, fr_is_bullish = b\<rparr>"

lemma wf_ex_fr: "wf_fr (ex_fr b)"
  by (simp add: wf_fr_def ex_fr_def)

theorem level_price_lockstep_witness:
  "\<exists>p. get_level_price (ex_fr True) LEVEL_618 = Inr p \<and> calculate_level_price 2 1 LEVEL_618 True = Inr p"
  using level_price_lockstep [OF wf_ex_fr, of True LEVEL_618] by (auto simp: ex_fr_def)

text \<open>On a well-formed retracement \<^verbatim>\<open>get_ote_zone\<close> returns a zone inside the swing, and
  every price in it is classified \<open>DISCOUNT\<close> by \<^verbatim>\<open>get_zone_for_price\<close>. For a bullish
  retracement that is the zone's own label; for a bearish one the zone is labelled
  \<open>PREMIUM\<close>, so the two functions contradict each other on every price of it.\<close>

theorem ote_zone_label:
  assumes "wf_fr r"
  shows "\<exists>z. get_ote_zone r = Inr z \<and> fr_swing_low r < pz_lower_bound z \<and> pz_lower_bound z < pz_upper_bound z \<and>
     pz_upper_bound z < fr_swing_high r \<and>
     pz_zone_type z = (if fr_is_bullish r then DISCOUNT else PREMIUM) \<and>
     (\<forall>p. pz_contains_price z p \<longrightarrow> fr_get_zone_for_price r p = Inr DISCOUNT)"
proof -
  obtain z where z: "get_ote_zone r = Inr z"
      "pz_zone_type z = (if fr_is_bullish r then DISCOUNT else PREMIUM)"
      "pz_upper_bound z = (if fr_is_bullish r then fr_swing_high r - fr_range_size r * (618 / 1000)
        else fr_swing_low r + fr_range_size r * (786 / 1000))"
      "pz_lower_bound z = (if fr_is_bullish r then fr_swing_high r - fr_range_size r * (786 / 1000)
        else fr_swing_low r + fr_range_size r * (618 / 1000))"
    using get_ote_zone_Inr [OF assms] by blast
  have pos: "0 < fr_range_size r" and hi: "fr_swing_high r = fr_swing_low r + fr_range_size r"
    using assms by (simp_all add: wf_fr_def fr_range_size_def)
  have "fr_get_zone_for_price r p = Inr DISCOUNT" if "pz_contains_price z p" for p
    using that pos z(3,4) hi
    by (auto simp: fr_get_zone_for_price_def pz_contains_price_def get_level_price_Inr Let_def
        abs_if split: if_splits)
  then show ?thesis using z pos hi by (intro exI [of _ z]) auto
qed

theorem ote_zone_label_witness:
  "\<exists>z. get_ote_zone (ex_fr False) = Inr z \<and> pz_zone_type z = PREMIUM \<and>
     fr_get_zone_for_price (ex_fr False) (pz_lower_bound z) = Inr DISCOUNT"
proof -
  obtain z where z: "get_ote_zone (ex_fr False) = Inr z" "pz_zone_type z = PREMIUM"
      "pz_lower_bound z < pz_upper_bound z"
      "\<forall>p. pz_contains_price z p \<longrightarrow> fr_get_zone_for_price (ex_fr False) p = Inr DISCOUNT"
    using ote_zone_label [OF wf_ex_fr, of False] by (auto simp: ex_fr_def)
  then have "pz_contains_price z (pz_lower_bound z)" by (simp add: pz_contains_price_def)
  with z show ?thesis by blast
qed

text \<open>The computed premium and discount zones of a well-formed dealing range pass their own
  validation, and split the range: a price is in the range exactly if it is in one of the two
  zones, it is in both only at the equilibrium, and \<^verbatim>\<open>get_zone_for_price\<close> never answers
  \<open>PREMIUM\<close> for a price of the discount zone or \<open>DISCOUNT\<close> for one of the premium zone.\<close>

theorem dealing_zones_split:
  assumes "wf_dr r"
  shows "\<exists>pz dz. premium_zone r = Inr pz \<and> discount_zone r = Inr dz \<and>
     (\<forall>p. (dr_contains_price r p \<longleftrightarrow> pz_contains_price pz p \<or> pz_contains_price dz p) \<and>
        (pz_contains_price pz p \<and> pz_contains_price dz p \<longleftrightarrow> p = dr_equilibrium r) \<and>
        (pz_contains_price dz p \<longrightarrow> dr_get_zone_for_price r p \<noteq> PREMIUM) \<and>
        (pz_contains_price pz p \<longrightarrow> dr_get_zone_for_price r p \<noteq> DISCOUNT))"
proof -
  obtain pz dz where z: "premium_zone r = Inr pz" "discount_zone r = Inr dz"
      "pz_lower_bound pz = dr_equilibrium r" "pz_upper_bound pz = dr_high r"
      "pz_lower_bound dz = dr_low r" "pz_upper_bound dz = dr_equilibrium r"
    using dealing_zones_Inr [OF assms] by blast
  have "dr_low r < dr_equilibrium r" "dr_equilibrium r < dr_high r" "0 < dr_range_size r"
    using assms by (simp_all add: wf_dr_def dr_equilibrium_def dr_range_size_def)
  then show ?thesis
    using z by (intro exI [of _ pz] exI [of _ dz])
      (auto simp: dr_contains_price_def pz_contains_price_def dr_get_zone_for_price_def Let_def)
qed

definition ex_dr :: DealingRange where
  "ex_dr = \<lparr>dr_symbol = ''EURUSD'', dr_timeframe = H1, dr_high = 2, dr_low = 1, dr_start_time = 0,
     dr_end_time = None\<rparr>"

theorem dealing_zones_split_witness: "\<exists>pz dz. premium_zone ex_dr = Inr pz \<and> discount_zone ex_dr = Inr dz"
proof -
  have "wf_dr ex_dr" by (simp add: wf_dr_def ex_dr_def)
  from dealing_zones_split [OF this] show ?thesis by blast
qed

end
