(* ===== verification/LiquidityPatterns.thy ===== *)
theory LiquidityPatterns
  imports Sweeps Fibonacci Structure
begin

text \<open>
  The liquidity patterns of \<^verbatim>\<open>engine/ta/smc/detectors\<close>: inducements
  (\<^verbatim>\<open>inducement.py\<close>), turtle soups (\<^verbatim>\<open>turtle_soup.py\<close>) and the accumulation,
  manipulation, distribution cycle (\<^verbatim>\<open>amd.py\<close>). The two inducement methods run the same
  loop on lows and on highs; the wick, the comparison and the clearance threshold are arguments.
\<close>

section \<open>Inducement\<close>

definition idm_clear_idx ::
  "CandleSequence \<Rightarrow> (Candle \<Rightarrow> price) \<Rightarrow> (price \<Rightarrow> price \<Rightarrow> bool) \<Rightarrow> price \<Rightarrow> nat \<Rightarrow> nat option" where
  "idm_clear_idx sequence wick beyond clearance_threshold index =
     find_from (\<lambda>candle. beyond (wick candle) clearance_threshold) (index + 1) (seq_candles sequence)"

definition idm_at ::
  "CandleSequence \<Rightarrow> (Candle \<Rightarrow> price) \<Rightarrow> (price \<Rightarrow> price \<Rightarrow> bool) \<Rightarrow> Direction \<Rightarrow> price \<Rightarrow> price \<Rightarrow> nat \<Rightarrow>
   datetime \<Rightarrow> InducementEvent option result" where
  "idm_at sequence wick beyond direction clearance_threshold level index timestamp =
     (if length (seq_candles sequence) - 1 \<le> index then Inr None
      else let clear = idm_clear_idx sequence wick beyond clearance_threshold index in
        bindR (mk_InducementEvent (seq_symbol sequence) (seq_timeframe sequence) timestamp level
            timestamp direction (clear \<noteq> None)
            (map_option (\<lambda>j. c_timestamp (seq_candles sequence ! j)) clear) index True)
          (\<lambda>inducement. Inr (Some inducement)))"

definition idm_min_break :: "SMCConfig \<Rightarrow> CandleSequence \<Rightarrow> rat" where
  "idm_min_break config sequence =
     sc_inducement_min_break_pips config * get_pip_value (seq_symbol sequence)"

definition detect_bullish_inducement ::
  "SMCConfig \<Rightarrow> CandleSequence \<Rightarrow> SwingLow list \<Rightarrow> InducementEvent list result" where
  "detect_bullish_inducement config sequence swing_lows =
     (let internal_lows = filter (\<lambda>sl. sl_strength sl < 5) swing_lows;
          min_break = idm_min_break config sequence
      in collectR (\<lambda>sl. idm_at sequence c_low (<) BULLISH (sl_price sl - min_break) (sl_price sl)
           (sl_index sl) (sl_timestamp sl)) internal_lows)"

definition detect_bearish_inducement ::
  "SMCConfig \<Rightarrow> CandleSequence \<Rightarrow> SwingHigh list \<Rightarrow> InducementEvent list result" where
  "detect_bearish_inducement config sequence swing_highs =
     (let internal_highs = filter (\<lambda>sh. sh_strength sh < 5) swing_highs;
          min_break = idm_min_break config sequence
      in collectR (\<lambda>sh. idm_at sequence c_high (>) BEARISH (sh_price sh + min_break) (sh_price sh)
           (sh_index sh) (sh_timestamp sh)) internal_highs)"

definition get_cleared_inducements :: "InducementEvent list \<Rightarrow> InducementEvent list" where
  "get_cleared_inducements inducement_events = filter ie_cleared inducement_events"

section \<open>Turtle soup\<close>

text \<open>What the inner loop keeps of a sweep.\<close>

definition keep_turtle_soup ::
  "SMCConfig \<Rightarrow> LiquiditySweep option \<Rightarrow> LiquiditySweep option" where
  "keep_turtle_soup config sweep =
     (case sweep of
        None \<Rightarrow> None
      | Some s \<Rightarrow> if \<not> ls_closed_back_inside s then None
                  else if ls_sweep_pips s < sc_turtle_soup_min_pips config then None else Some s)"

definition detect_turtle_soup_short ::
  "SMCConfig \<Rightarrow> SweepAnalyzer \<Rightarrow> CandleSequence \<Rightarrow> SwingHigh list \<Rightarrow> LiquiditySweep list result" where
  "detect_turtle_soup_short config sweep_analyzer sequence swing_highs =
     collectR (\<lambda>(i, swing_high).
         if i \<le> sh_index swing_high then Inr None
         else bindR (detect_bsl_sweep sweep_analyzer (seq_candles sequence ! i) swing_high i)
           (\<lambda>sweep. Inr (keep_turtle_soup config sweep)))
       (List.product [0..<length (seq_candles sequence)] swing_highs)"

definition detect_turtle_soup_long ::
  "SMCConfig \<Rightarrow> SweepAnalyzer \<Rightarrow> CandleSequence \<Rightarrow> SwingLow list \<Rightarrow> LiquiditySweep list result" where
  "detect_turtle_soup_long config sweep_analyzer sequence swing_lows =
     collectR (\<lambda>(i, swing_low).
         if i \<le> sl_index swing_low then Inr None
         else bindR (detect_ssl_sweep sweep_analyzer (seq_candles sequence ! i) swing_low i)
           (\<lambda>sweep. Inr (keep_turtle_soup config sweep)))
       (List.product [0..<length (seq_candles sequence)] swing_lows)"

section \<open>Accumulation, manipulation, distribution\<close>

datatype AMDPhase = ACCUMULATION | MANIPULATION | DISTRIBUTION

record AMDContext =
  amd_symbol :: string
  amd_timeframe :: Timeframe
  amd_timestamp :: datetime
  amd_phase :: AMDPhase
  amd_asian_range :: "DealingRange option"
  amd_manipulation_direction :: "Direction option"
  amd_distribution_direction :: "Direction option"

definition extract_asian_range ::
  "DealingRangeAnalyzer \<Rightarrow> CandleSequence \<Rightarrow> DealingRange option result" where
  "extract_asian_range dealing_range_analyzer sequence =
     bindR (extract_most_recent_session_range sequence ASIA) (\<lambda>asian_range.
       case asian_range of None \<Rightarrow> Inr None
       | Some r \<Rightarrow> create_from_session dealing_range_analyzer r)"

text \<open>\<^verbatim>\<open>london_candles + ny_candles\<close>.\<close>

definition london_ny_candles :: "CandleSequence \<Rightarrow> Candle list result" where
  "london_ny_candles sequence =
     bindR (get_session_candles sequence LONDON) (\<lambda>london_candles.
     bindR (get_session_candles sequence NEW_YORK) (\<lambda>ny_candles.
       Inr (london_candles @ ny_candles)))"

fun first_outside :: "DealingRange \<Rightarrow> Candle list \<Rightarrow> Direction option" where
  "first_outside asian_range [] = None"
| "first_outside asian_range (candle # rest) =
     (if dr_high asian_range < c_high candle then Some BULLISH
      else if c_low candle < dr_low asian_range then Some BEARISH
      else first_outside asian_range rest)"

text \<open>\<open>Some d\<close> stands for \<^verbatim>\<open>(True, d)\<close> and \<open>None\<close> for \<^verbatim>\<open>(False, None)\<close>.\<close>

definition detect_manipulation :: "CandleSequence \<Rightarrow> DealingRange \<Rightarrow> Direction option result" where
  "detect_manipulation sequence asian_range =
     bindR (london_ny_candles sequence) (\<lambda>manipulation_candles.
       Inr (first_outside asian_range manipulation_candles))"

definition detect_distribution ::
  "CandleSequence \<Rightarrow> DealingRange \<Rightarrow> Direction option \<Rightarrow> Direction option result" where
  "detect_distribution sequence asian_range manipulation_direction =
     (case manipulation_direction of
        None \<Rightarrow> Inr None
      | Some d \<Rightarrow>
          bindR (london_ny_candles sequence) (\<lambda>distribution_candles.
            Inr (case d of
                BULLISH \<Rightarrow> if list_ex (\<lambda>c. c_close c < dr_equilibrium asian_range) distribution_candles
                            then Some BEARISH else None
              | BEARISH \<Rightarrow> if list_ex (\<lambda>c. dr_equilibrium asian_range < c_close c) distribution_candles
                            then Some BULLISH else None
              | NEUTRAL \<Rightarrow> None)))"

definition amd_context ::
  "CandleSequence \<Rightarrow> AMDPhase \<Rightarrow> DealingRange \<Rightarrow> Direction option \<Rightarrow> Direction option \<Rightarrow> AMDContext" where
  "amd_context sequence phase asian_range manipulation_direction distribution_direction =
     \<lparr>amd_symbol = seq_symbol sequence, amd_timeframe = seq_timeframe sequence,
      amd_timestamp = c_timestamp (last (seq_candles sequence)), amd_phase = phase,
      amd_asian_range = Some asian_range, amd_manipulation_direction = manipulation_direction,
      amd_distribution_direction = distribution_direction\<rparr>"

definition detect_amd_context ::
  "DealingRangeAnalyzer \<Rightarrow> CandleSequence \<Rightarrow> AMDContext option result" where
  "detect_amd_context dealing_range_analyzer sequence =
     bindR (extract_asian_range dealing_range_analyzer sequence) (\<lambda>asian_range.
       case asian_range of
         None \<Rightarrow> Inr None
       | Some r \<Rightarrow>
           bindR (detect_manipulation sequence r) (\<lambda>manipulation_direction.
             if manipulation_direction = None
             then Inr (Some (amd_context sequence ACCUMULATION r None None))
             else bindR (detect_distribution sequence r manipulation_direction)
               (\<lambda>distribution_direction.
                 if distribution_direction = None
                 then Inr (Some (amd_context sequence MANIPULATION r manipulation_direction None))
                 else Inr (Some (amd_context sequence DISTRIBUTION r manipulation_direction
                        distribution_direction)))))"

section \<open>Lemmas\<close>

definition idm_event ::
  "CandleSequence \<Rightarrow> Direction \<Rightarrow> price \<Rightarrow> nat \<Rightarrow> datetime \<Rightarrow> nat option \<Rightarrow> InducementEvent" where
  "idm_event s d level index timestamp clear =
     \<lparr>ie_symbol = seq_symbol s, ie_timeframe = seq_timeframe s, ie_timestamp = timestamp,
      ie_inducement_level = level, ie_inducement_timestamp = timestamp, ie_direction = d,
      ie_cleared = (clear \<noteq> None),
      ie_cleared_timestamp = map_option (\<lambda>j. c_timestamp (seq_candles s ! j)) clear,
      ie_candle_index = index, ie_is_internal = True\<rparr>"

lemma idm_at_Inr:
  assumes "clean_symbol (seq_symbol s)" and "0 < level"
  shows "idm_at s wick beyond d thr level i ts =
     Inr (if i + 1 < length (seq_candles s)
          then Some (idm_event s d level i ts (idm_clear_idx s wick beyond thr i)) else None)"
  using assms by (auto simp: idm_at_def Let_def mk_InducementEvent_def mk_model_clean idm_event_def)

text \<open>A sweep of a level by candle \<open>i\<close> that closes back inside, of at least \<open>pips\<close> pips.\<close>

definition soup_sweep :: "CandleSequence \<Rightarrow> rat \<Rightarrow> LiquidityType \<Rightarrow> price \<Rightarrow> datetime \<Rightarrow> nat \<Rightarrow> LiquiditySweep \<Rightarrow> bool"
  where
  "soup_sweep s pips lt level timestamp i e \<longleftrightarrow> (let c = seq_candles s ! i;
       depth = (if lt = BSL then c_high c - level else level - c_low c) in
     0 < depth \<and> (if lt = BSL then c_close c < level else level < c_close c) \<and>
     pips \<le> depth / get_pip_value (c_symbol c) \<and>
     e = \<lparr>ls_symbol = c_symbol c, ls_timeframe = c_timeframe c, ls_timestamp = c_timestamp c,
          ls_liquidity_type = lt, ls_swept_level = level, ls_swept_level_timestamp = timestamp,
          ls_sweep_high = c_high c, ls_sweep_low = c_low c,
          ls_sweep_pips = depth / get_pip_value (c_symbol c), ls_closed_back_inside = True,
          ls_close_price = Some (c_close c), ls_candle_index = i, ls_is_major_sweep = False\<rparr>)"

lemma keep_bsl:
  assumes "wf_market s" and "i < length (seq_candles s)" and "0 < sh_price h"
  shows "\<exists>r. bindR (detect_bsl_sweep a (seq_candles s ! i) h i) (\<lambda>x. Inr (keep_turtle_soup config x)) = Inr r \<and>
     (\<forall>e. r = Some e \<longleftrightarrow> soup_sweep s (max (sw_min_sweep_pips a) (sc_turtle_soup_min_pips config)) BSL
        (sh_price h) (sh_timestamp h) i e)"
proof -
  let ?c = "seq_candles s ! i"
  note w = wf_candleD [OF wf_marketD(1) [OF assms(1,2)]] and cl = wf_marketD(4) [OF assms(1,2)]
  show ?thesis
  proof (cases "sh_price h < c_high ?c")
    case True
    let ?p = "(c_high ?c - sh_price h) / get_pip_value (c_symbol ?c)"
    have pips: "calculate_pips (sh_price h) (c_high ?c) (c_symbol ?c) = Inr ?p"
      using True assms(3) w by (simp add: calculate_pips_Inr)
    have "0 \<le> ?p" using True by (intro divide_nonneg_pos) simp_all
    then show ?thesis
      using True assms(3) w cl
      by (auto simp: detect_bsl_sweep_def pips mk_LiquiditySweep_def mk_model_clean keep_turtle_soup_def
          soup_sweep_def Let_def)
  qed (auto simp: detect_bsl_sweep_def keep_turtle_soup_def soup_sweep_def Let_def)
qed

lemma keep_ssl:
  assumes "wf_market s" and "i < length (seq_candles s)" and "0 < sl_price l"
  shows "\<exists>r. bindR (detect_ssl_sweep a (seq_candles s ! i) l i) (\<lambda>x. Inr (keep_turtle_soup config x)) = Inr r \<and>
     (\<forall>e. r = Some e \<longleftrightarrow> soup_sweep s (max (sw_min_sweep_pips a) (sc_turtle_soup_min_pips config)) SSL
        (sl_price l) (sl_timestamp l) i e)"
proof -
  let ?c = "seq_candles s ! i"
  note w = wf_candleD [OF wf_marketD(1) [OF assms(1,2)]] and cl = wf_marketD(4) [OF assms(1,2)]
  show ?thesis
  proof (cases "c_low ?c < sl_price l")
    case True
    let ?p = "(sl_price l - c_low ?c) / get_pip_value (c_symbol ?c)"
    have pips: "calculate_pips (c_low ?c) (sl_price l) (c_symbol ?c) = Inr ?p"
      using True assms(3) w by (simp add: calculate_pips_Inr)
    have "0 \<le> ?p" using True by (intro divide_nonneg_pos) simp_all
    then show ?thesis
      using True assms(3) w cl
      by (auto simp: detect_ssl_sweep_def pips mk_LiquiditySweep_def mk_model_clean keep_turtle_soup_def
          soup_sweep_def Let_def)
  qed (auto simp: detect_ssl_sweep_def keep_turtle_soup_def soup_sweep_def Let_def)
qed

lemma get_session_candles_Inr [no_raise]:
  "get_session_candles s x = Inr (filter (\<lambda>c. in_session x (c_timestamp c)) (seq_candles s))"
proof -
  obtain w where w: "get_session_window x = Inr w" "\<And>t. contains_timestamp w t = Inr (in_session x t)"
    using window_contains [of x] by blast
  have "collectR (\<lambda>c. bindR (contains_timestamp w (c_timestamp c)) (\<lambda>b. Inr (if b then Some c else None)))
      (seq_candles s) = Inr (List.map_filter (\<lambda>c. if in_session x (c_timestamp c) then Some c else None) (seq_candles s))"
    by (rule collectR_Inr) (simp add: w(2))
  moreover have "List.map_filter (\<lambda>c. if P c then Some c else None) xs = filter P xs" for P and xs :: "Candle list"
    by (induction xs) (simp_all add: List.map_filter_simps)
  ultimately show ?thesis by (simp add: get_session_candles_def w(1))
qed

text \<open>The candles of the London and New York hours of the whole sequence.\<close>

definition lny :: "CandleSequence \<Rightarrow> Candle list" where
  "lny s = filter (\<lambda>c. in_session LONDON (c_timestamp c)) (seq_candles s) @
     filter (\<lambda>c. in_session NEW_YORK (c_timestamp c)) (seq_candles s)"

lemma first_outside_None:
  "first_outside r cs = None \<longleftrightarrow> (\<forall>c \<in> set cs. dr_low r \<le> c_low c \<and> c_high c \<le> dr_high r)"
  by (induction cs) (auto simp: not_less)

text \<open>Candle \<open>i\<close> is the first one of the list that leaves the range.\<close>

definition first_beyond :: "DealingRange \<Rightarrow> Candle list \<Rightarrow> nat \<Rightarrow> bool" where
  "first_beyond r cs i =
     (i < length cs \<and> (dr_high r < c_high (cs ! i) \<or> c_low (cs ! i) < dr_low r) \<and>
      (\<forall>j < i. dr_low r \<le> c_low (cs ! j) \<and> c_high (cs ! j) \<le> dr_high r))"

lemma first_beyond_Cons:
  "first_beyond r (c # cs) i \<longleftrightarrow>
     (if dr_high r < c_high c \<or> c_low c < dr_low r then i = 0 else (\<exists>j. i = Suc j \<and> first_beyond r cs j))"
  by (cases i) (auto simp: first_beyond_def All_less_Suc2)

lemma first_outside_Some:
  "first_outside r cs = Some d \<longleftrightarrow>
     (\<exists>i. first_beyond r cs i \<and> d = (if dr_high r < c_high (cs ! i) then BULLISH else BEARISH))"
proof (induction cs)
  case Nil
  then show ?case by (simp add: first_beyond_def)
next
  case (Cons c cs)
  show ?case
  proof (cases "dr_high r < c_high c \<or> c_low c < dr_low r")
    case True
    then show ?thesis by (auto simp: first_beyond_Cons)
  next
    case False
    have shift: "(\<exists>i. first_beyond r (c # cs) i \<and> P ((c # cs) ! i)) \<longleftrightarrow> (\<exists>j. first_beyond r cs j \<and> P (cs ! j))" for P
      using False unfolding first_beyond_Cons by fastforce
    have "first_outside r (c # cs) = first_outside r cs" using False by simp
    then show ?thesis
      unfolding shift [of "\<lambda>k. d = (if dr_high r < c_high k then BULLISH else BEARISH)"] using Cons by metis
  qed
qed

lemma first_outside_not_neutral: "first_outside r cs \<noteq> Some NEUTRAL"
  by (induction cs) auto

lemma extract_asian_range_Inr:
  assumes "wf_seq s" and "clean_symbol (seq_symbol s)" and "0 < da_min_range_pips da"
  shows "\<exists>r. extract_asian_range da s = Inr r \<and> (\<forall>d \<in> set_option r. wf_dr d)"
  using recent_range_cases [OF assms(1,2), of ASIA]
proof (elim disjE exE conjE)
  fix a e r
  assume blk: "recent_block (seq_candles s) ASIA a e"
    and ex: "extract_most_recent_session_range s ASIA = Inr (Some r)"
    and rg: "block_range s ASIA (drop a (take (e + 1) (seq_candles s))) = Inr r"
  have sr: "sr_symbol r = seq_symbol s" "0 < sr_low r" "0 < sr_high r" "sr_low r \<le> sr_high r"
      "sr_start_time r \<le> sr_end_time r"
  proof -
    show "sr_symbol r = seq_symbol s"
      using rg assms(2) by (auto simp: block_range_def mk_SessionRange_def mk_model_Inr clean_symbol_def split: if_splits)
    show "0 < sr_low r" "0 < sr_high r" "sr_low r \<le> sr_high r" "sr_start_time r \<le> sr_end_time r"
      using rg by (auto simp: block_range_def mk_SessionRange_def mk_model_Inr not_less split: if_splits)
  qed
  have pips: "calculate_pips (sr_low r) (sr_high r) (sr_symbol r) =
      Inr ((sr_high r - sr_low r) / get_pip_value (sr_symbol r))"
    using sr by (simp add: calculate_pips_Inr)
  show ?thesis
  proof (cases "(sr_high r - sr_low r) / get_pip_value (sr_symbol r) < da_min_range_pips da")
    case True
    then show ?thesis by (simp add: extract_asian_range_def ex create_from_session_def pips)
  next
    case False
    then have "sr_low r \<noteq> sr_high r" using assms(3) by auto
    then have lt: "sr_low r < sr_high r" using sr(4) by simp
    obtain d where d: "mk_DealingRange (sr_symbol r) (sr_timeframe r) (sr_high r) (sr_low r)
        (sr_start_time r) (Some (sr_end_time r)) = Inr d"
      using lt sr assms(2) by (simp add: mk_DealingRange_def mk_model_clean)
    then have "wf_dr d" using mk_DealingRange_wf sr(1) assms(2) by metis
    with d show ?thesis using False by (simp add: extract_asian_range_def ex create_from_session_def pips)
  qed
qed (simp add: extract_asian_range_def)

lemma amd_cases:
  assumes "extract_asian_range da s = Inr (Some r)"
  shows "detect_amd_context da s = Inr (Some (case first_outside r (lny s) of
      None \<Rightarrow> amd_context s ACCUMULATION r None None
    | Some d \<Rightarrow>
        if (if d = BULLISH then \<exists>c \<in> set (lny s). c_close c < dr_equilibrium r
            else \<exists>c \<in> set (lny s). dr_equilibrium r < c_close c)
        then amd_context s DISTRIBUTION r (Some d) (Some (if d = BULLISH then BEARISH else BULLISH))
        else amd_context s MANIPULATION r (Some d) None))"
  using assms first_outside_not_neutral [of r "lny s"]
  by (auto simp: detect_amd_context_def detect_manipulation_def detect_distribution_def london_ny_candles_def
      get_session_candles_Inr lny_def [symmetric] list_ex_iff split: option.splits Direction.splits)

lemma amd_fields:
  assumes "extract_asian_range da s = Inr (Some r)"
  shows "\<exists>ctx. detect_amd_context da s = Inr (Some ctx) \<and> amd_asian_range ctx = Some r \<and>
     (amd_phase ctx = ACCUMULATION \<longleftrightarrow> first_outside r (lny s) = None) \<and>
     (\<forall>d. amd_manipulation_direction ctx = Some d \<longleftrightarrow> first_outside r (lny s) = Some d) \<and>
     (\<forall>d. amd_distribution_direction ctx = Some d \<longleftrightarrow>
        d = BEARISH \<and> amd_manipulation_direction ctx = Some BULLISH \<and> (\<exists>k \<in> set (lny s). c_close k < dr_equilibrium r) \<or>
        d = BULLISH \<and> amd_manipulation_direction ctx = Some BEARISH \<and> (\<exists>k \<in> set (lny s). dr_equilibrium r < c_close k)) \<and>
     (amd_phase ctx = DISTRIBUTION \<longleftrightarrow> amd_distribution_direction ctx \<noteq> None)"
proof (cases "first_outside r (lny s)")
  case None
  then show ?thesis unfolding amd_cases [OF assms] by (simp add: amd_context_def)
next
  case (Some d)
  then have "d = BULLISH \<or> d = BEARISH" using first_outside_not_neutral [of r "lny s"] by (cases d) auto
  then show ?thesis unfolding amd_cases [OF assms] using Some by (auto simp: amd_context_def)
qed

lemma idm_clear_iff:
  "idm_clear_idx s wick beyond thr i \<noteq> None \<longleftrightarrow>
     (\<exists>j. i < j \<and> j < length (seq_candles s) \<and> beyond (wick (seq_candles s ! j)) thr)"
  using find_from_None [of "\<lambda>c. beyond (wick c) thr" "i + 1" "seq_candles s"]
  unfolding idm_clear_idx_def by (auto simp: Suc_le_eq)

lemma collectR_filter_map:
  assumes "\<And>x. x \<in> set xs \<Longrightarrow> f x = Inr (if p x then Some (g x) else None)"
  shows "collectR f xs = Inr (map g (filter p xs))"
  using assms by (induction xs) auto

lemma detect_inducement_Inr:
  assumes "clean_symbol (seq_symbol s)"
  shows "\<forall>l \<in> set sls. 0 < sl_price l \<Longrightarrow>
      detect_bullish_inducement config s sls = Inr (map (\<lambda>l. idm_event s BULLISH (sl_price l)
        (sl_index l) (sl_timestamp l)
        (idm_clear_idx s c_low (<) (sl_price l - idm_min_break config s) (sl_index l)))
        (filter (\<lambda>l. sl_index l + 1 < length (seq_candles s)) (filter (\<lambda>l. sl_strength l < 5) sls)))"
    and "\<forall>h \<in> set shs. 0 < sh_price h \<Longrightarrow>
      detect_bearish_inducement config s shs = Inr (map (\<lambda>h. idm_event s BEARISH (sh_price h)
        (sh_index h) (sh_timestamp h)
        (idm_clear_idx s c_high (>) (sh_price h + idm_min_break config s) (sh_index h)))
        (filter (\<lambda>h. sh_index h + 1 < length (seq_candles s)) (filter (\<lambda>h. sh_strength h < 5) shs)))"
  unfolding detect_bullish_inducement_def detect_bearish_inducement_def Let_def
  using assms by (intro collectR_filter_map idm_at_Inr; auto)+

section \<open>Properties\<close>

text \<open>The inducement detectors never raise on positive swing prices and report one event per
  internal swing (strength below 5) that is not on the last candle, in the order of the swings. The
  event of a low is cleared exactly when a later candle's low goes strictly below the level by more
  than the configured number of pips, and then carries the time of the first such candle; dually for
  highs. A touch at the level never clears it.\<close>

theorem detect_inducement_spec:
  assumes "clean_symbol (seq_symbol s)"
    and "\<forall>l \<in> set sls. 0 < sl_price l" and "\<forall>h \<in> set shs. 0 < sh_price h"
  shows "detect_bullish_inducement config s sls = Inr (map (\<lambda>l. idm_event s BULLISH (sl_price l)
        (sl_index l) (sl_timestamp l)
        (idm_clear_idx s c_low (<) (sl_price l - idm_min_break config s) (sl_index l)))
        (filter (\<lambda>l. sl_strength l < 5 \<and> sl_index l + 1 < length (seq_candles s)) sls)) \<and>
     detect_bearish_inducement config s shs = Inr (map (\<lambda>h. idm_event s BEARISH (sh_price h)
        (sh_index h) (sh_timestamp h)
        (idm_clear_idx s c_high (>) (sh_price h + idm_min_break config s) (sh_index h)))
        (filter (\<lambda>h. sh_strength h < 5 \<and> sh_index h + 1 < length (seq_candles s)) shs)) \<and>
     (\<forall>l. ie_cleared (idm_event s BULLISH (sl_price l) (sl_index l) (sl_timestamp l)
        (idm_clear_idx s c_low (<) (sl_price l - idm_min_break config s) (sl_index l))) \<longleftrightarrow>
        (\<exists>j. sl_index l < j \<and> j < length (seq_candles s) \<and>
           c_low (seq_candles s ! j) < sl_price l - idm_min_break config s)) \<and>
     (\<forall>h. ie_cleared (idm_event s BEARISH (sh_price h) (sh_index h) (sh_timestamp h)
        (idm_clear_idx s c_high (>) (sh_price h + idm_min_break config s) (sh_index h))) \<longleftrightarrow>
        (\<exists>j. sh_index h < j \<and> j < length (seq_candles s) \<and>
           sh_price h + idm_min_break config s < c_high (seq_candles s ! j)))"
proof -
  note run = detect_inducement_Inr(1) [OF assms(1,2)] detect_inducement_Inr(2) [OF assms(1,3)]
  have cleared: "ie_cleared (idm_event s d p i ts c) \<longleftrightarrow> c \<noteq> None" for d p i ts c
    by (simp add: idm_event_def)
  show ?thesis unfolding cleared idm_clear_iff using run by (simp add: conj_commute)
qed

text \<open>C34. The turtle soup detectors never raise on a well-formed market sequence and report exactly the
  sweeps that close back inside: a candle after the swing whose wick exceeds the level by at least
  the larger of the two configured minima while it closes on the inner side of the level. When the
  configured minimum is at least 5 pips, the default, every one of them passes the model's own
  validity test.\<close>

theorem turtle_soup_spec:
  assumes "wf_market s" and "\<forall>h \<in> set shs. 0 < sh_price h" and "\<forall>l \<in> set sls. 0 < sl_price l"
  shows "\<exists>es fs. detect_turtle_soup_short config a s shs = Inr es \<and>
     detect_turtle_soup_long config a s sls = Inr fs \<and>
     (\<forall>e. e \<in> set es \<longleftrightarrow> (\<exists>(i, h) \<in> {..<length (seq_candles s)} \<times> set shs. sh_index h < i \<and>
        soup_sweep s (max (sw_min_sweep_pips a) (sc_turtle_soup_min_pips config)) BSL
          (sh_price h) (sh_timestamp h) i e)) \<and>
     (\<forall>e. e \<in> set fs \<longleftrightarrow> (\<exists>(i, l) \<in> {..<length (seq_candles s)} \<times> set sls. sl_index l < i \<and>
        soup_sweep s (max (sw_min_sweep_pips a) (sc_turtle_soup_min_pips config)) SSL
          (sl_price l) (sl_timestamp l) i e)) \<and>
     (\<forall>e. 5 \<le> sc_turtle_soup_min_pips config \<and> e \<in> set es \<union> set fs \<longrightarrow> is_valid_turtle_soup e)"
proof -
  let ?m = "max (sw_min_sweep_pips a) (sc_turtle_soup_min_pips config)"
  let ?S = "\<lambda>(i, h) e. sh_index h < i \<and> soup_sweep s ?m BSL (sh_price h) (sh_timestamp h) i e"
  let ?L = "\<lambda>(i, l) e. sl_index l < i \<and> soup_sweep s ?m SSL (sl_price l) (sl_timestamp l) i e"
  have S1: "\<exists>es. detect_turtle_soup_short config a s shs = Inr es \<and> (\<forall>e. e \<in> set es \<longleftrightarrow>
      (\<exists>x \<in> set (List.product [0..<length (seq_candles s)] shs). ?S x e))"
    unfolding detect_turtle_soup_short_def
  proof (rule collectR_reports)
    fix x
    assume x: "x \<in> set (List.product [0..<length (seq_candles s)] shs)"
    obtain i h where ih: "x = (i, h)" by (cases x)
    have "i < length (seq_candles s)" "0 < sh_price h" using x ih assms(2) by auto
    from keep_bsl [OF assms(1) this, of a config]
    show "\<exists>r. (case x of (i, h) \<Rightarrow> if i \<le> sh_index h then Inr None
        else bindR (detect_bsl_sweep a (seq_candles s ! i) h i)
        (\<lambda>x. Inr (keep_turtle_soup config x))) = Inr r \<and> (\<forall>e. r = Some e \<longleftrightarrow> ?S x e)"
      unfolding ih by (cases "i \<le> sh_index h") (simp_all add: not_le)
  qed
  have S2: "\<exists>fs. detect_turtle_soup_long config a s sls = Inr fs \<and> (\<forall>e. e \<in> set fs \<longleftrightarrow>
      (\<exists>x \<in> set (List.product [0..<length (seq_candles s)] sls). ?L x e))"
    unfolding detect_turtle_soup_long_def
  proof (rule collectR_reports)
    fix x
    assume x: "x \<in> set (List.product [0..<length (seq_candles s)] sls)"
    obtain i l where ih: "x = (i, l)" by (cases x)
    have "i < length (seq_candles s)" "0 < sl_price l" using x ih assms(3) by auto
    from keep_ssl [OF assms(1) this, of a config]
    show "\<exists>r. (case x of (i, l) \<Rightarrow> if i \<le> sl_index l then Inr None
        else bindR (detect_ssl_sweep a (seq_candles s ! i) l i)
        (\<lambda>x. Inr (keep_turtle_soup config x))) = Inr r \<and> (\<forall>e. r = Some e \<longleftrightarrow> ?L x e)"
      unfolding ih by (cases "i \<le> sl_index l") (simp_all add: not_le)
  qed
  have prod: "set (List.product [0..<n] xs) = {..<n} \<times> set xs" for n and xs :: "'x list"
    by (simp add: atLeast0LessThan)
  obtain es where es: "detect_turtle_soup_short config a s shs = Inr es"
      "\<And>e. e \<in> set es \<longleftrightarrow> (\<exists>x \<in> {..<length (seq_candles s)} \<times> set shs. ?S x e)"
    using S1 unfolding prod by blast
  obtain fs where fs: "detect_turtle_soup_long config a s sls = Inr fs"
      "\<And>e. e \<in> set fs \<longleftrightarrow> (\<exists>x \<in> {..<length (seq_candles s)} \<times> set sls. ?L x e)"
    using S2 unfolding prod by blast
  have "is_valid_turtle_soup e" if "5 \<le> sc_turtle_soup_min_pips config" "soup_sweep s ?m lt p ts i e" for lt p ts i e
    using that by (auto simp: soup_sweep_def is_valid_turtle_soup_def Let_def split: if_splits)
  then have "is_valid_turtle_soup e"
    if "5 \<le> sc_turtle_soup_min_pips config \<and> e \<in> set es \<union> set fs" for e
    using that unfolding Un_iff es(2) fs(2) by auto
  with es fs show ?thesis by (intro exI [of _ es] exI [of _ fs]) (simp add: split_def)
qed

text \<open>C35. On a well-formed sequence, and with a positive minimal range, AMD detection never raises. When
  an Asian range is found the phase follows from the London candles and then the New York candles of
  the whole sequence. It is accumulation when all of them stay inside the range. Otherwise there is a
  manipulation: bullish when the first candle outside the range has its high above it, bearish when it
  only has its low below it. The distribution goes the opposite way: down after a bullish manipulation when
  one of these candles closes below the equilibrium, up after a bearish one when one closes above. That close
  may be earlier than the manipulation, although the documentation defines distribution as the reversal after it.\<close>

theorem amd_phase_spec:
  assumes "wf_seq s" and "clean_symbol (seq_symbol s)" and "0 < da_min_range_pips da"
  shows "\<exists>r c. extract_asian_range da s = Inr r \<and> detect_amd_context da s = Inr c \<and>
     (r = None \<longleftrightarrow> c = None) \<and>
     (\<forall>x ctx. r = Some x \<and> c = Some ctx \<longrightarrow> amd_asian_range ctx = Some x \<and> wf_dr x \<and>
        (amd_phase ctx = ACCUMULATION \<longleftrightarrow>
           (\<forall>k \<in> set (lny s). dr_low x \<le> c_low k \<and> c_high k \<le> dr_high x)) \<and>
        (\<forall>d. amd_manipulation_direction ctx = Some d \<longleftrightarrow>
           (\<exists>i. first_beyond x (lny s) i \<and>
              d = (if dr_high x < c_high (lny s ! i) then BULLISH else BEARISH))) \<and>
        (\<forall>d. amd_distribution_direction ctx = Some d \<longleftrightarrow>
           d = BEARISH \<and> amd_manipulation_direction ctx = Some BULLISH \<and>
             (\<exists>k \<in> set (lny s). c_close k < dr_equilibrium x) \<or>
           d = BULLISH \<and> amd_manipulation_direction ctx = Some BEARISH \<and>
             (\<exists>k \<in> set (lny s). dr_equilibrium x < c_close k)) \<and>
        (amd_phase ctx = DISTRIBUTION \<longleftrightarrow> amd_distribution_direction ctx \<noteq> None))"
proof -
  obtain r where r: "extract_asian_range da s = Inr r" "\<forall>d \<in> set_option r. wf_dr d"
    using extract_asian_range_Inr [OF assms] by blast
  show ?thesis
  proof (cases r)
    case None
    then show ?thesis using r by (simp add: detect_amd_context_def)
  next
    case (Some x)
    have "wf_dr x" using r(2) Some by simp
    with amd_fields [OF r(1) [unfolded Some], unfolded first_outside_None first_outside_Some] show ?thesis
      unfolding r(1) Some by (elim exE conjE) (rule exI, rule exI, rule conjI, rule refl, rule conjI, assumption, simp)
  qed
qed

text \<open>A London candle of the day before that closes below the range's equilibrium, then the Asian
  range of the next day, then a London candle that exceeds it and closes above the equilibrium.\<close>

definition ex_amd_seq :: CandleSequence where
  "ex_amd_seq = \<lparr>seq_symbol = ''EURUSD'', seq_timeframe = H1,
     seq_candles = [ex_candle 36000 2 2 2 2, ex_candle 86400 2 4 2 4, ex_candle 122400 4 5 4 5]\<rparr>"

definition ex_da :: DealingRangeAnalyzer where
  "ex_da = \<lparr>da_min_range_pips = 10\<rparr>"

lemma wf_ex_amd_seq: "wf_seq ex_amd_seq" "clean_symbol (seq_symbol ex_amd_seq)" "0 < da_min_range_pips ex_da"
  by (simp_all add: ex_amd_seq_def ex_da_def wf_seq_def wf_candle_def uniform_def)

lemma lny_ex_amd_seq: "lny ex_amd_seq = [ex_candle 36000 2 2 2 2, ex_candle 122400 4 5 4 5]"
  by (simp add: lny_def ex_amd_seq_def in_session_def utc_hour_def)

definition ex_amd_range :: DealingRange where
  "ex_amd_range = \<lparr>dr_symbol = ''EURUSD'', dr_timeframe = H1, dr_high = 4, dr_low = 2,
     dr_start_time = 86400, dr_end_time = Some 86400\<rparr>"

lemma ex_amd_asian: "extract_asian_range ex_da ex_amd_seq = Inr (Some ex_amd_range)"
  by code_simp

lemma ex_amd_outside:
  "first_outside ex_amd_range (lny ex_amd_seq) = Some BULLISH"
  "\<exists>k \<in> set (lny ex_amd_seq). c_close k < dr_equilibrium ex_amd_range"
  by (simp_all add: lny_ex_amd_seq ex_amd_range_def dr_equilibrium_def)

theorem amd_phase_spec_witness:
  "\<exists>ctx. detect_amd_context ex_da ex_amd_seq = Inr (Some ctx) \<and> amd_phase ctx = DISTRIBUTION \<and>
     amd_manipulation_direction ctx = Some BULLISH \<and> amd_distribution_direction ctx = Some BEARISH"
proof -
  have first: "first_beyond ex_amd_range (lny ex_amd_seq) 1" "dr_high ex_amd_range < c_high (lny ex_amd_seq ! 1)"
    by (simp_all add: first_beyond_def lny_ex_amd_seq ex_amd_range_def)
  obtain c where c: "detect_amd_context ex_da ex_amd_seq = Inr c" "c \<noteq> None"
      "\<And>ctx. c = Some ctx \<Longrightarrow> first_beyond ex_amd_range (lny ex_amd_seq) 1 \<Longrightarrow>
         amd_manipulation_direction ctx = Some BULLISH"
      "\<And>ctx. c = Some ctx \<Longrightarrow> amd_manipulation_direction ctx = Some BULLISH \<Longrightarrow>
         amd_distribution_direction ctx = Some BEARISH"
      "\<And>ctx. c = Some ctx \<Longrightarrow> amd_phase ctx = DISTRIBUTION \<longleftrightarrow> amd_distribution_direction ctx \<noteq> None"
    using amd_phase_spec [OF wf_ex_amd_seq] first ex_amd_asian ex_amd_outside(2)
    by (elim exE conjE) (rule that, assumption, simp, auto)
  then obtain ctx where "c = Some ctx" by blast
  then show ?thesis using c first(1) by auto
qed

text \<open>The detector does not order the phases in time: it reports the distribution phase for a
  sequence in which the only close beyond the equilibrium happens before the Asian range is even
  formed, and in which no candle after the manipulation closes beyond it, although the documentation
  defines distribution as the reversal after the manipulation.\<close>

theorem amd_distribution_before_manipulation:
  "\<exists>ctx. detect_amd_context ex_da ex_amd_seq = Inr (Some ctx) \<and> amd_phase ctx = DISTRIBUTION \<and>
     amd_manipulation_direction ctx = Some BULLISH \<and> amd_asian_range ctx = Some ex_amd_range \<and>
     (\<forall>k \<in> set (seq_candles ex_amd_seq). c_close k < dr_equilibrium ex_amd_range \<longrightarrow>
        c_timestamp k < dr_start_time ex_amd_range)"
proof -
  have "\<forall>k \<in> set (seq_candles ex_amd_seq). c_close k < dr_equilibrium ex_amd_range \<longrightarrow>
      c_timestamp k < dr_start_time ex_amd_range"
    by (simp add: ex_amd_range_def dr_equilibrium_def ex_amd_seq_def)
  then show ?thesis
    using amd_cases [OF ex_amd_asian] ex_amd_outside by (simp add: amd_context_def)
qed

theorem amd_distribution_before_manipulation_witness:
  "\<exists>ctx. detect_amd_context ex_da ex_amd_seq = Inr (Some ctx) \<and> amd_phase ctx = DISTRIBUTION \<and>
     c_timestamp (hd (seq_candles ex_amd_seq)) < dr_start_time ex_amd_range"
proof -
  have "hd (seq_candles ex_amd_seq) \<in> set (seq_candles ex_amd_seq)"
      "c_close (hd (seq_candles ex_amd_seq)) < dr_equilibrium ex_amd_range"
    by (simp_all add: ex_amd_seq_def ex_amd_range_def dr_equilibrium_def)
  then show ?thesis using amd_distribution_before_manipulation by blast
qed

definition ex_idm_sl :: SwingLow where
  "ex_idm_sl = \<lparr>sl_symbol = ''EURUSD'', sl_timeframe = H1, sl_timestamp = 36000, sl_price = 3, sl_index = 0,
     sl_strength = 2, sl_left_bars = 1, sl_right_bars = 1, sl_is_equal_low = False,
     sl_equal_low_tolerance_pips = None\<rparr>"

theorem detect_inducement_spec_witness:
  "detect_bullish_inducement default_SMCConfig ex_amd_seq [ex_idm_sl] =
     Inr [idm_event ex_amd_seq BULLISH 3 0 36000 (Some 1)]"
proof -
  have sl: "sl_price ex_idm_sl = 3" "sl_index ex_idm_sl = 0" "sl_timestamp ex_idm_sl = 36000"
      "sl_strength ex_idm_sl = 2" "length (seq_candles ex_amd_seq) = 3"
    by (simp_all add: ex_idm_sl_def ex_amd_seq_def)
  have "\<forall>l \<in> set [ex_idm_sl]. 0 < sl_price l" "\<forall>h \<in> set []. 0 < sh_price h" by (simp_all add: ex_idm_sl_def)
  moreover have "idm_clear_idx ex_amd_seq c_low (<) (3 - idm_min_break default_SMCConfig ex_amd_seq) 0 = Some 1"
    by (simp add: idm_clear_idx_def find_from_def ex_amd_seq_def idm_min_break_def default_SMCConfig_def
        pip_EURUSD upt_rec)
  ultimately show ?thesis
    using conjunct1 [OF detect_inducement_spec [OF wf_ex_amd_seq(2), of "[ex_idm_sl]" "[]" default_SMCConfig]]
    by (simp add: sl)
qed

definition ex_sweeper :: SweepAnalyzer where
  "ex_sweeper = \<lparr>sw_min_sweep_pips = 1, sw_turtle_soup_min_pips = 5\<rparr>"

definition ex_soup_seq :: CandleSequence where
  "ex_soup_seq = \<lparr>seq_symbol = ''EURUSD'', seq_timeframe = H1,
     seq_candles = [ex_candle 0 1 2 1 1, ex_candle 60 1 3 1 1]\<rparr>"

theorem turtle_soup_spec_witness:
  "\<exists>es. detect_turtle_soup_short default_SMCConfig ex_sweeper ex_soup_seq [ex_sh 2 0] = Inr es \<and> es \<noteq> [] \<and>
     (\<forall>e \<in> set es. is_valid_turtle_soup e)"
proof -
  have wf: "wf_market ex_soup_seq" "\<forall>h \<in> set [ex_sh 2 0]. 0 < sh_price h" "\<forall>l \<in> set []. 0 < sl_price l"
    by (simp_all add: ex_soup_seq_def wf_market_def wf_seq_def wf_candle_def uniform_def ex_sh_def)
  let ?m = "max (sw_min_sweep_pips ex_sweeper) (sc_turtle_soup_min_pips default_SMCConfig)"
  have "\<exists>e. soup_sweep ex_soup_seq ?m BSL (sh_price (ex_sh 2 0)) (sh_timestamp (ex_sh 2 0)) 1 e"
    by (simp add: soup_sweep_def ex_soup_seq_def ex_sh_def ex_sweeper_def default_SMCConfig_def pip_EURUSD)
  then obtain e where e: "soup_sweep ex_soup_seq ?m BSL (sh_price (ex_sh 2 0)) (sh_timestamp (ex_sh 2 0)) 1 e" ..
  have "sh_index (ex_sh 2 0) < 1" "(1, ex_sh 2 0) \<in> {..<length (seq_candles ex_soup_seq)} \<times> set [ex_sh 2 0]"
    by (simp_all add: ex_sh_def ex_soup_seq_def)
  with e have x: "\<exists>(i, h) \<in> {..<length (seq_candles ex_soup_seq)} \<times> set [ex_sh 2 0]. sh_index h < i \<and>
      soup_sweep ex_soup_seq ?m BSL (sh_price h) (sh_timestamp h) i e" by blast
  have five: "5 \<le> sc_turtle_soup_min_pips default_SMCConfig" by (simp add: default_SMCConfig_def)
  obtain es fs where es: "detect_turtle_soup_short default_SMCConfig ex_sweeper ex_soup_seq [ex_sh 2 0] = Inr es"
      "\<forall>e. e \<in> set es \<longleftrightarrow> (\<exists>(i, h) \<in> {..<length (seq_candles ex_soup_seq)} \<times> set [ex_sh 2 0]. sh_index h < i \<and>
        soup_sweep ex_soup_seq ?m BSL (sh_price h) (sh_timestamp h) i e)"
      "\<forall>e. 5 \<le> sc_turtle_soup_min_pips default_SMCConfig \<and> e \<in> set es \<union> set fs \<longrightarrow> is_valid_turtle_soup e"
    using turtle_soup_spec [OF wf, of default_SMCConfig ex_sweeper] by (elim exE conjE) (rule that)
  have "e \<in> set es" unfolding es(2) [rule_format] using x .
  moreover have "\<forall>e \<in> set es. is_valid_turtle_soup e" using es(3) five by blast
  ultimately show ?thesis using es(1) by auto
qed

end
