(* ===== verification/Candidates.thy ===== *)
theory Candidates
  imports Candle
begin

text \<open>
  The candidate models of \<^verbatim>\<open>engine/ta/models/candidate.py\<close>: the trade candidates that the SMC
  and the SnD detectors emit and the framework-neutral \<^verbatim>\<open>TechnicalCandidate\<close> they are
  converted to. A keyword argument that a caller leaves out has the default of its field, so a
  constructor takes a record of raw values, usually an update of \<open>SMCCandidate_of\<close> or
  \<open>SnDCandidate_of\<close>, and returns the validated record. A metadata dictionary is the list of its
  items.
\<close>

section \<open>Patterns\<close>

datatype CandidatePattern =
    TURTLE_SOUP_LONG | TURTLE_SOUP_SHORT | SH_BMS_RTO_BULLISH | SH_BMS_RTO_BEARISH
  | SMS_BMS_RTO_BULLISH | SMS_BMS_RTO_BEARISH | CHOCH_BMS_RTO_BULLISH | CHOCH_BMS_RTO_BEARISH
  | AMD_BULLISH | AMD_BEARISH | QML_SR_FLIP_FAKEOUT | QML_RS_FLIP_FAKEOUT | QML_MPL_SR_FLIP_FAKEOUT
  | QML_MPL_RS_FLIP_FAKEOUT | QML_PREVIOUS_HIGHS_MPL_SR_FLIP | QML_PREVIOUS_LOWS_MPL_RS_FLIP
  | QML_TRIPLE_FAKEOUT_SELL | QML_TRIPLE_FAKEOUT_BUY | FAKEOUT_KING_SELL | FAKEOUT_KING_BUY
  | PREVIOUS_HIGHS_SUPPLY_FAKEOUT | PREVIOUS_LOWS_DEMAND_FAKEOUT | QML_BASELINE | QML_KILLER_TYPE1
  | QML_KILLER_TYPE2 | QMH_BASELINE | QMH_KILLER_TYPE1 | QMH_KILLER_TYPE2 | FAKEOUT_KING | SOP
  | SND_CONTINUATION

section \<open>Texts of numbers and dates\<close>

fun nat_str :: "nat \<Rightarrow> string" where
  "nat_str n = (if n < 10 then [char_of (48 + n)] else nat_str (n div 10) @ [char_of (48 + n mod 10)])"

declare nat_str.simps [simp del]

text \<open>\<^verbatim>\<open>str(n).zfill(width)\<close>.\<close>

definition zfill :: "nat \<Rightarrow> nat \<Rightarrow> string" where
  "zfill width n = (let s = nat_str n in replicate (width - length s) (CHR ''0'') @ s)"

text \<open>The year, month and day of a day number counted from 1 January 1970 in the proleptic
  Gregorian calendar.\<close>

definition civil_of_days :: "int \<Rightarrow> int \<times> int \<times> int" where
  "civil_of_days days =
     (let z = days + 719468; era = z div 146097; doe = z mod 146097;
          yoe = (doe - doe div 1460 + doe div 36524 - doe div 146096) div 365;
          doy = doe - (365 * yoe + yoe div 4 - yoe div 100);
          mp = (5 * doy + 2) div 153;
          d = doy - (153 * mp + 2) div 5 + 1;
          m = (if mp < 10 then mp + 3 else mp - 9)
      in (yoe + era * 400 + (if m \<le> 2 then 1 else 0), m, d))"

text \<open>\<^verbatim>\<open>isoformat()\<close> of a UTC timestamp without a fraction of a second.\<close>

definition isoformat :: "datetime \<Rightarrow> string" where
  "isoformat t =
     (let (y, m, d) = civil_of_days (t div 86400); s = t mod 86400 in
      zfill 4 (nat y) @ ''-'' @ zfill 2 (nat m) @ ''-'' @ zfill 2 (nat d) @ ''T'' @
      zfill 2 (nat (s div 3600)) @ '':'' @ zfill 2 (nat (s div 60 mod 60)) @ '':'' @
      zfill 2 (nat (s mod 60)) @ ''+00:00'')"

abbreviation pos_opt :: "rat option \<Rightarrow> bool" where
  "pos_opt p \<equiv> (\<forall>x \<in> set_option p. 0 < x)"

text \<open>\<^verbatim>\<open>a or b\<close> for prices, which are positive when present.\<close>

definition or_opt :: "'a option \<Rightarrow> 'a option \<Rightarrow> 'a option" where
  "or_opt a b = (case a of None \<Rightarrow> b | Some x \<Rightarrow> Some x)"

text \<open>A price and a time under two keys of a context dictionary.\<close>

definition json_price :: "rat option \<Rightarrow> json" where
  "json_price p = (case p of None \<Rightarrow> JNull | Some x \<Rightarrow> JNum x)"

definition json_time :: "datetime option \<Rightarrow> json" where
  "json_time t = (case t of None \<Rightarrow> JNull | Some x \<Rightarrow> JStr (isoformat x))"

definition context_items ::
  "bool \<Rightarrow> string \<Rightarrow> rat option \<Rightarrow> string \<Rightarrow> datetime option \<Rightarrow> (string \<times> json) list" where
  "context_items detected price_key price time_key time =
     (if detected then [(price_key, json_price price), (time_key, json_time time)] else [])"

section \<open>TechnicalCandidate\<close>

record TechnicalCandidate =
  tc_symbol :: string
  tc_timeframe :: Timeframe
  tc_pattern :: CandidatePattern
  tc_direction :: Direction
  tc_timestamp :: datetime
  tc_entry_price :: price
  tc_stop_loss :: price
  tc_take_profit :: "price option"
  tc_risk_reward_ratio :: "rat option"
  tc_framework :: string
  tc_htf_timeframe :: "Timeframe option"
  tc_ltf_timeframe :: "Timeframe option"
  tc_htf_context :: "(string \<times> json) list"
  tc_ltf_confirmation :: "(string \<times> json) list"
  tc_zone_upper :: "price option"
  tc_zone_lower :: "price option"
  tc_liquidity_swept :: bool
  tc_swept_level :: "price option"
  tc_structure_broken :: bool
  tc_broken_level :: "price option"
  tc_session_context :: "string option"
  tc_fib_level :: "string option"
  tc_metadata :: "(string \<times> json) list"

definition mk_TechnicalCandidate :: "TechnicalCandidate \<Rightarrow> TechnicalCandidate result" where
  "mk_TechnicalCandidate c =
     (case symbol_field 2 20 (tc_symbol c) of
        None \<Rightarrow> Inl (ValidationError ''TechnicalCandidate'')
      | Some s \<Rightarrow>
          if 0 < tc_entry_price c \<and> 0 < tc_stop_loss c \<and> pos_opt (tc_take_profit c) \<and>
             pos_opt (tc_risk_reward_ratio c) \<and>
             (str_strip (tc_framework c) = ''SMC'' \<or> str_strip (tc_framework c) = ''SND'') \<and>
             pos_opt (tc_zone_upper c) \<and> pos_opt (tc_zone_lower c) \<and> pos_opt (tc_swept_level c) \<and>
             pos_opt (tc_broken_level c)
          then Inr (c\<lparr>tc_symbol := s, tc_framework := str_strip (tc_framework c),
                      tc_session_context := map_option str_strip (tc_session_context c),
                      tc_fib_level := map_option str_strip (tc_fib_level c)\<rparr>)
          else Inl (ValidationError ''TechnicalCandidate''))"

definition tc_is_bullish :: "TechnicalCandidate \<Rightarrow> bool" where
  "tc_is_bullish c \<longleftrightarrow> tc_direction c = BULLISH"

definition tc_is_bearish :: "TechnicalCandidate \<Rightarrow> bool" where
  "tc_is_bearish c \<longleftrightarrow> tc_direction c = BEARISH"

definition tc_is_smc :: "TechnicalCandidate \<Rightarrow> bool" where
  "tc_is_smc c \<longleftrightarrow> tc_framework c = ''SMC''"

definition tc_is_snd :: "TechnicalCandidate \<Rightarrow> bool" where
  "tc_is_snd c \<longleftrightarrow> tc_framework c = ''SND''"

definition stop_loss_pips :: "TechnicalCandidate \<Rightarrow> rat" where
  "stop_loss_pips c = \<bar>tc_entry_price c - tc_stop_loss c\<bar> / get_pip_value (tc_symbol c)"

definition take_profit_pips :: "TechnicalCandidate \<Rightarrow> rat option" where
  "take_profit_pips c =
     (case tc_take_profit c of
        None \<Rightarrow> None
      | Some tp \<Rightarrow> Some (\<bar>tp - tc_entry_price c\<bar> / get_pip_value (tc_symbol c)))"

section \<open>SMCCandidate\<close>

record SMCCandidate =
  cd_symbol :: string
  cd_timeframe :: Timeframe
  cd_pattern :: CandidatePattern
  cd_direction :: Direction
  cd_timestamp :: datetime
  cd_entry_price :: price
  cd_stop_loss :: price
  cd_take_profit :: "price option"
  cd_htf_timeframe :: Timeframe
  cd_ltf_timeframe :: Timeframe
  cd_bms_detected :: bool
  cd_bms_price :: "price option"
  cd_bms_timestamp :: "datetime option"
  cd_choch_detected :: bool
  cd_choch_price :: "price option"
  cd_choch_timestamp :: "datetime option"
  cd_sms_detected :: bool
  cd_sms_price :: "price option"
  cd_sms_timestamp :: "datetime option"
  cd_order_block_upper :: "price option"
  cd_order_block_lower :: "price option"
  cd_order_block_timestamp :: "datetime option"
  cd_fvg_upper :: "price option"
  cd_fvg_lower :: "price option"
  cd_fvg_timestamp :: "datetime option"
  cd_liquidity_swept :: bool
  cd_swept_level :: "price option"
  cd_sweep_timestamp :: "datetime option"
  cd_inducement_cleared :: bool
  cd_inducement_level :: "price option"
  cd_ltf_confirmation :: bool
  cd_ltf_confirmation_timestamp :: "datetime option"
  cd_displacement_pips :: "rat option"
  cd_fib_level :: "string option"
  cd_session_context :: "string option"
  cd_metadata :: "(string \<times> json) list"

text \<open>The required fields; every other field has its default.\<close>

definition SMCCandidate_of ::
  "string \<Rightarrow> Timeframe \<Rightarrow> CandidatePattern \<Rightarrow> Direction \<Rightarrow> datetime \<Rightarrow> price \<Rightarrow> price \<Rightarrow> price option \<Rightarrow>
   Timeframe \<Rightarrow> Timeframe \<Rightarrow> SMCCandidate" where
  "SMCCandidate_of symbol timeframe pattern direction timestamp entry_price stop_loss take_profit
       htf_timeframe ltf_timeframe =
     \<lparr>cd_symbol = symbol, cd_timeframe = timeframe, cd_pattern = pattern, cd_direction = direction,
      cd_timestamp = timestamp, cd_entry_price = entry_price, cd_stop_loss = stop_loss,
      cd_take_profit = take_profit, cd_htf_timeframe = htf_timeframe,
      cd_ltf_timeframe = ltf_timeframe, cd_bms_detected = False, cd_bms_price = None,
      cd_bms_timestamp = None, cd_choch_detected = False, cd_choch_price = None,
      cd_choch_timestamp = None, cd_sms_detected = False, cd_sms_price = None,
      cd_sms_timestamp = None, cd_order_block_upper = None, cd_order_block_lower = None,
      cd_order_block_timestamp = None, cd_fvg_upper = None, cd_fvg_lower = None,
      cd_fvg_timestamp = None, cd_liquidity_swept = False, cd_swept_level = None,
      cd_sweep_timestamp = None, cd_inducement_cleared = False, cd_inducement_level = None,
      cd_ltf_confirmation = False, cd_ltf_confirmation_timestamp = None,
      cd_displacement_pips = None, cd_fib_level = None, cd_session_context = None,
      cd_metadata = []\<rparr>"

definition smc_fields_ok :: "SMCCandidate \<Rightarrow> bool" where
  "smc_fields_ok c \<longleftrightarrow>
     0 < cd_entry_price c \<and> 0 < cd_stop_loss c \<and> pos_opt (cd_take_profit c) \<and>
     pos_opt (cd_bms_price c) \<and> pos_opt (cd_choch_price c) \<and> pos_opt (cd_sms_price c) \<and>
     pos_opt (cd_order_block_upper c) \<and> pos_opt (cd_order_block_lower c) \<and>
     pos_opt (cd_fvg_upper c) \<and> pos_opt (cd_fvg_lower c) \<and> pos_opt (cd_swept_level c) \<and>
     pos_opt (cd_inducement_level c) \<and> (\<forall>d \<in> set_option (cd_displacement_pips c). 0 \<le> d)"

definition mk_SMCCandidate :: "SMCCandidate \<Rightarrow> SMCCandidate result" where
  "mk_SMCCandidate c =
     (case symbol_field 2 20 (cd_symbol c) of
        None \<Rightarrow> Inl (ValidationError ''SMCCandidate'')
      | Some s \<Rightarrow>
          if smc_fields_ok c
          then Inr (c\<lparr>cd_symbol := s, cd_fib_level := map_option str_strip (cd_fib_level c),
                      cd_session_context := map_option str_strip (cd_session_context c)\<rparr>)
          else Inl (ValidationError ''SMCCandidate''))"

definition cd_is_bullish :: "SMCCandidate \<Rightarrow> bool" where
  "cd_is_bullish c \<longleftrightarrow> cd_direction c = BULLISH"

definition cd_is_bearish :: "SMCCandidate \<Rightarrow> bool" where
  "cd_is_bearish c \<longleftrightarrow> cd_direction c = BEARISH"

definition smc_to_technical_candidate :: "SMCCandidate \<Rightarrow> TechnicalCandidate result" where
  "smc_to_technical_candidate c =
     (let htf_context =
            context_items (cd_bms_detected c) ''bms_price'' (cd_bms_price c) ''bms_timestamp''
              (cd_bms_timestamp c) @
            context_items (cd_choch_detected c) ''choch_price'' (cd_choch_price c) ''choch_timestamp''
              (cd_choch_timestamp c) @
            context_items (cd_sms_detected c) ''sms_price'' (cd_sms_price c) ''sms_timestamp''
              (cd_sms_timestamp c);
          ltf_confirmation =
            [(''confirmed'', JBool (cd_ltf_confirmation c)),
             (''confirmation_timestamp'', json_time (cd_ltf_confirmation_timestamp c))]
      in mk_TechnicalCandidate
        \<lparr>tc_symbol = cd_symbol c, tc_timeframe = cd_timeframe c, tc_pattern = cd_pattern c,
         tc_direction = cd_direction c, tc_timestamp = cd_timestamp c,
         tc_entry_price = cd_entry_price c, tc_stop_loss = cd_stop_loss c,
         tc_take_profit = cd_take_profit c, tc_risk_reward_ratio = None, tc_framework = ''SMC'',
         tc_htf_timeframe = Some (cd_htf_timeframe c), tc_ltf_timeframe = Some (cd_ltf_timeframe c),
         tc_htf_context = htf_context, tc_ltf_confirmation = ltf_confirmation,
         tc_zone_upper = or_opt (cd_order_block_upper c) (cd_fvg_upper c),
         tc_zone_lower = or_opt (cd_order_block_lower c) (cd_fvg_lower c),
         tc_liquidity_swept = cd_liquidity_swept c, tc_swept_level = cd_swept_level c,
         tc_structure_broken = (cd_bms_detected c \<or> cd_choch_detected c),
         tc_broken_level = or_opt (cd_bms_price c) (cd_choch_price c),
         tc_session_context = cd_session_context c, tc_fib_level = cd_fib_level c,
         tc_metadata = cd_metadata c\<rparr>)"

section \<open>SnDCandidate\<close>

record SnDCandidate =
  sd_symbol :: string
  sd_timeframe :: Timeframe
  sd_pattern :: CandidatePattern
  sd_direction :: Direction
  sd_timestamp :: datetime
  sd_entry_price :: price
  sd_stop_loss :: price
  sd_take_profit :: "price option"
  sd_htf_timeframe :: Timeframe
  sd_ltf_timeframe :: Timeframe
  sd_qml_detected :: bool
  sd_qml_price :: "price option"
  sd_qml_timestamp :: "datetime option"
  sd_sr_flip_detected :: bool
  sd_sr_flip_price :: "price option"
  sd_sr_flip_timestamp :: "datetime option"
  sd_rs_flip_detected :: bool
  sd_rs_flip_price :: "price option"
  sd_rs_flip_timestamp :: "datetime option"
  sd_mpl_detected :: bool
  sd_mpl_price :: "price option"
  sd_mpl_timestamp :: "datetime option"
  sd_supply_zone_upper :: "price option"
  sd_supply_zone_lower :: "price option"
  sd_supply_zone_timestamp :: "datetime option"
  sd_demand_zone_upper :: "price option"
  sd_demand_zone_lower :: "price option"
  sd_demand_zone_timestamp :: "datetime option"
  sd_fakeout_detected :: bool
  sd_fakeout_level :: "price option"
  sd_fakeout_timestamp :: "datetime option"
  sd_previous_highs_count :: nat
  sd_previous_lows_count :: nat
  sd_marubozu_detected :: bool
  sd_marubozu_timestamp :: "datetime option"
  sd_compression_detected :: bool
  sd_compression_candle_count :: "nat option"
  sd_ltf_confirmation :: bool
  sd_ltf_confirmation_timestamp :: "datetime option"
  sd_fib_level :: "string option"
  sd_session_context :: "string option"
  sd_metadata :: "(string \<times> json) list"

definition SnDCandidate_of ::
  "string \<Rightarrow> Timeframe \<Rightarrow> CandidatePattern \<Rightarrow> Direction \<Rightarrow> datetime \<Rightarrow> price \<Rightarrow> price \<Rightarrow> price option \<Rightarrow>
   Timeframe \<Rightarrow> Timeframe \<Rightarrow> SnDCandidate" where
  "SnDCandidate_of symbol timeframe pattern direction timestamp entry_price stop_loss take_profit
       htf_timeframe ltf_timeframe =
     \<lparr>sd_symbol = symbol, sd_timeframe = timeframe, sd_pattern = pattern, sd_direction = direction,
      sd_timestamp = timestamp, sd_entry_price = entry_price, sd_stop_loss = stop_loss,
      sd_take_profit = take_profit, sd_htf_timeframe = htf_timeframe,
      sd_ltf_timeframe = ltf_timeframe, sd_qml_detected = False, sd_qml_price = None,
      sd_qml_timestamp = None, sd_sr_flip_detected = False, sd_sr_flip_price = None,
      sd_sr_flip_timestamp = None, sd_rs_flip_detected = False, sd_rs_flip_price = None,
      sd_rs_flip_timestamp = None, sd_mpl_detected = False, sd_mpl_price = None,
      sd_mpl_timestamp = None, sd_supply_zone_upper = None, sd_supply_zone_lower = None,
      sd_supply_zone_timestamp = None, sd_demand_zone_upper = None, sd_demand_zone_lower = None,
      sd_demand_zone_timestamp = None, sd_fakeout_detected = False, sd_fakeout_level = None,
      sd_fakeout_timestamp = None, sd_previous_highs_count = 0, sd_previous_lows_count = 0,
      sd_marubozu_detected = False, sd_marubozu_timestamp = None, sd_compression_detected = False,
      sd_compression_candle_count = None, sd_ltf_confirmation = False,
      sd_ltf_confirmation_timestamp = None, sd_fib_level = None, sd_session_context = None,
      sd_metadata = []\<rparr>"

definition snd_fields_ok :: "SnDCandidate \<Rightarrow> bool" where
  "snd_fields_ok c \<longleftrightarrow>
     0 < sd_entry_price c \<and> 0 < sd_stop_loss c \<and> pos_opt (sd_take_profit c) \<and>
     pos_opt (sd_qml_price c) \<and> pos_opt (sd_sr_flip_price c) \<and> pos_opt (sd_rs_flip_price c) \<and>
     pos_opt (sd_mpl_price c) \<and> pos_opt (sd_supply_zone_upper c) \<and>
     pos_opt (sd_supply_zone_lower c) \<and> pos_opt (sd_demand_zone_upper c) \<and>
     pos_opt (sd_demand_zone_lower c) \<and> pos_opt (sd_fakeout_level c)"

definition mk_SnDCandidate :: "SnDCandidate \<Rightarrow> SnDCandidate result" where
  "mk_SnDCandidate c =
     (case symbol_field 2 20 (sd_symbol c) of
        None \<Rightarrow> Inl (ValidationError ''SnDCandidate'')
      | Some s \<Rightarrow>
          if snd_fields_ok c
          then Inr (c\<lparr>sd_symbol := s, sd_fib_level := map_option str_strip (sd_fib_level c),
                      sd_session_context := map_option str_strip (sd_session_context c)\<rparr>)
          else Inl (ValidationError ''SnDCandidate''))"

definition sd_is_bullish :: "SnDCandidate \<Rightarrow> bool" where
  "sd_is_bullish c \<longleftrightarrow> sd_direction c = BULLISH"

definition sd_is_bearish :: "SnDCandidate \<Rightarrow> bool" where
  "sd_is_bearish c \<longleftrightarrow> sd_direction c = BEARISH"

definition snd_to_technical_candidate :: "SnDCandidate \<Rightarrow> TechnicalCandidate result" where
  "snd_to_technical_candidate c =
     (let htf_context =
            context_items (sd_qml_detected c) ''qml_price'' (sd_qml_price c) ''qml_timestamp''
              (sd_qml_timestamp c) @
            context_items (sd_sr_flip_detected c) ''sr_flip_price'' (sd_sr_flip_price c)
              ''sr_flip_timestamp'' (sd_sr_flip_timestamp c) @
            context_items (sd_rs_flip_detected c) ''rs_flip_price'' (sd_rs_flip_price c)
              ''rs_flip_timestamp'' (sd_rs_flip_timestamp c) @
            context_items (sd_mpl_detected c) ''mpl_price'' (sd_mpl_price c) ''mpl_timestamp''
              (sd_mpl_timestamp c);
          ltf_confirmation =
            [(''confirmed'', JBool (sd_ltf_confirmation c)),
             (''confirmation_timestamp'', json_time (sd_ltf_confirmation_timestamp c)),
             (''marubozu_detected'', JBool (sd_marubozu_detected c)),
             (''compression_detected'', JBool (sd_compression_detected c))]
      in mk_TechnicalCandidate
        \<lparr>tc_symbol = sd_symbol c, tc_timeframe = sd_timeframe c, tc_pattern = sd_pattern c,
         tc_direction = sd_direction c, tc_timestamp = sd_timestamp c,
         tc_entry_price = sd_entry_price c, tc_stop_loss = sd_stop_loss c,
         tc_take_profit = sd_take_profit c, tc_risk_reward_ratio = None, tc_framework = ''SND'',
         tc_htf_timeframe = Some (sd_htf_timeframe c), tc_ltf_timeframe = Some (sd_ltf_timeframe c),
         tc_htf_context = htf_context, tc_ltf_confirmation = ltf_confirmation,
         tc_zone_upper = or_opt (sd_supply_zone_upper c) (sd_demand_zone_upper c),
         tc_zone_lower = or_opt (sd_supply_zone_lower c) (sd_demand_zone_lower c),
         tc_liquidity_swept = sd_fakeout_detected c, tc_swept_level = sd_fakeout_level c,
         tc_structure_broken = (sd_sr_flip_detected c \<or> sd_rs_flip_detected c),
         tc_broken_level = or_opt (sd_sr_flip_price c) (sd_rs_flip_price c),
         tc_session_context = sd_session_context c, tc_fib_level = sd_fib_level c,
         tc_metadata = sd_metadata c\<rparr>)"

section \<open>Lemmas\<close>

lemma mk_SMCCandidate_Inr:
  "mk_SMCCandidate c = Inr x \<longleftrightarrow> 2 \<le> length (str_strip (cd_symbol c)) \<and>
     length (str_strip (cd_symbol c)) \<le> 20 \<and> smc_fields_ok c \<and>
     x = c\<lparr>cd_symbol := norm_symbol (str_strip (cd_symbol c)),
           cd_fib_level := map_option str_strip (cd_fib_level c),
           cd_session_context := map_option str_strip (cd_session_context c)\<rparr>"
  by (auto simp: mk_SMCCandidate_def symbol_field_def Let_def)

lemma mk_SnDCandidate_Inr:
  "mk_SnDCandidate c = Inr x \<longleftrightarrow> 2 \<le> length (str_strip (sd_symbol c)) \<and>
     length (str_strip (sd_symbol c)) \<le> 20 \<and> snd_fields_ok c \<and>
     x = c\<lparr>sd_symbol := norm_symbol (str_strip (sd_symbol c)),
           sd_fib_level := map_option str_strip (sd_fib_level c),
           sd_session_context := map_option str_strip (sd_session_context c)\<rparr>"
  by (auto simp: mk_SnDCandidate_def symbol_field_def Let_def)

lemma or_opt_simps [simp]: "or_opt None b = b" "or_opt (Some x) b = Some x"
  by (simp_all add: or_opt_def)

lemma pos_or_opt: "pos_opt a \<Longrightarrow> pos_opt b \<Longrightarrow> pos_opt (or_opt a b)"
  by (cases a) simp_all

lemma length_str_strip: "length (str_strip s) \<le> length s"
  unfolding str_strip_def by (metis length_dropWhile_le length_rev order_trans)

lemma technical_candidate_total:
  assumes "mk_SMCCandidate c = Inr x" and "2 \<le> length (str_strip (cd_symbol x))"
  shows "\<exists>t. smc_to_technical_candidate x = Inr t \<and> tc_entry_price t = cd_entry_price x \<and>
     tc_stop_loss t = cd_stop_loss x \<and> tc_take_profit t = cd_take_profit x \<and> tc_is_smc t \<and>
     tc_direction t = cd_direction x"
proof -
  have x: "cd_symbol x = norm_symbol (str_strip (cd_symbol c))" "length (str_strip (cd_symbol c)) \<le> 20"
      "smc_fields_ok x"
    using assms(1) by (simp_all add: mk_SMCCandidate_Inr smc_fields_ok_def)
  have "length (str_strip (cd_symbol x)) \<le> 20"
    using x(2) length_norm_symbol [of "str_strip (cd_symbol c)"] length_str_strip [of "cd_symbol x"]
    unfolding x(1) by linarith
  moreover have "str_strip ''SMC'' = ''SMC''" by code_simp
  moreover have "pos_opt (or_opt (cd_order_block_upper x) (cd_fvg_upper x))"
      "pos_opt (or_opt (cd_order_block_lower x) (cd_fvg_lower x))"
      "pos_opt (or_opt (cd_bms_price x) (cd_choch_price x))"
    using x(3) unfolding smc_fields_ok_def by (intro pos_or_opt; blast)+
  ultimately show ?thesis
    using x(3) assms(2)
    by (simp add: smc_to_technical_candidate_def mk_TechnicalCandidate_def symbol_field_def Let_def
        smc_fields_ok_def tc_is_smc_def)
qed

end
