(* ===== verification/StopLoss.thy ===== *)
theory StopLoss
  imports Candle
begin

text \<open>
  Stop-loss geometry and reward-to-risk floors: \<^verbatim>\<open>engine/shared/risk.py\<close> and
  \<^verbatim>\<open>engine/ta/common/utils/price/stop_loss.py\<close>. An optional argument is an option.
\<close>

section \<open>Per-style minima\<close>

definition MIN_RR_SCALPING :: rat where "MIN_RR_SCALPING = 2"

definition MIN_RR_INTRADAY :: rat where "MIN_RR_INTRADAY = 3"

definition MIN_RR_SWING :: rat where "MIN_RR_SWING = 3"

definition MIN_RR_POSITIONAL :: rat where "MIN_RR_POSITIONAL = 5"

definition LOWEST_STYLE_MIN_RR :: rat where "LOWEST_STYLE_MIN_RR = MIN_RR_SCALPING"

definition STYLE_MIN_TP_RR :: "(string \<times> rat) list" where
  "STYLE_MIN_TP_RR = [(''SCALPING'', MIN_RR_SCALPING), (''INTRADAY'', MIN_RR_INTRADAY),
     (''SWING'', MIN_RR_SWING), (''POSITIONAL'', MIN_RR_POSITIONAL)]"

definition style_min_tp_rr :: "string option \<Rightarrow> rat option" where
  "style_min_tp_rr style =
     (case style of None \<Rightarrow> None | Some s \<Rightarrow> map_of STYLE_MIN_TP_RR (str_upper (str_strip s)))"

section \<open>Timeframe floors\<close>

definition TIMEFRAME_SL_FLOOR_PIPS :: "(Timeframe \<times> rat) list" where
  "TIMEFRAME_SL_FLOOR_PIPS = [(M1, 8), (M5, 12), (M15, 18), (M30, 25), (H1, 35), (H3, 55), (H4, 70),
     (H6, 90), (H8, 110), (H12, 140), (D1, 200), (W1, 400), (MN1, 700)]"

definition DEFAULT_FLOOR_PIPS :: rat where "DEFAULT_FLOOR_PIPS = 35"

definition INVALIDATION_RANGE_BUFFER_PCT :: rat where "INVALIDATION_RANGE_BUFFER_PCT = 25 / 100"

definition timeframe_floor_pips :: "Timeframe \<Rightarrow> rat" where
  "timeframe_floor_pips timeframe = dict_get TIMEFRAME_SL_FLOOR_PIPS timeframe DEFAULT_FLOOR_PIPS"

definition TIMEFRAME_MIN_TP_RR :: "(Timeframe \<times> rat) list" where
  "TIMEFRAME_MIN_TP_RR = [(M1, 2), (M5, 2), (M15, 25 / 10), (M30, 25 / 10), (H1, 3), (H3, 3),
     (H4, 35 / 10), (H6, 35 / 10), (H8, 4), (H12, 4), (D1, 5), (W1, 5), (MN1, 5)]"

definition timeframe_min_tp_rr :: "Timeframe \<Rightarrow> rat" where
  "timeframe_min_tp_rr timeframe =
     max LOWEST_STYLE_MIN_RR (dict_get TIMEFRAME_MIN_TP_RR timeframe LOWEST_STYLE_MIN_RR)"

definition resolve_min_tp_rr :: "Timeframe option \<Rightarrow> rat option \<Rightarrow> string option \<Rightarrow> rat" where
  "resolve_min_tp_rr timeframe style_min_rr style =
     (let resolved_style_rr =
            (if style_min_rr = None \<and> style \<noteq> None then style_min_tp_rr style else style_min_rr);
          tf_floor = map_option timeframe_min_tp_rr timeframe
      in case (resolved_style_rr, tf_floor) of
           (None, None) \<Rightarrow> LOWEST_STYLE_MIN_RR
         | (Some v, None) \<Rightarrow> v
         | (None, Some w) \<Rightarrow> w
         | (Some v, Some w) \<Rightarrow> max v w)"

section \<open>Stop loss\<close>

definition structural_buffer :: "string \<Rightarrow> Timeframe \<Rightarrow> rat option \<Rightarrow> rat" where
  "structural_buffer symbol timeframe invalidation_candle_range =
     (let pip_value = get_pip_value symbol; floor = timeframe_floor_pips timeframe * pip_value in
      case invalidation_candle_range of
        Some r \<Rightarrow> if 0 < r then max (r * INVALIDATION_RANGE_BUFFER_PCT) floor else floor
      | None \<Rightarrow> floor)"

definition compute_structural_stop_loss ::
  "string \<Rightarrow> Timeframe \<Rightarrow> Direction \<Rightarrow> price \<Rightarrow> price option \<Rightarrow> rat option \<Rightarrow> price" where
  "compute_structural_stop_loss symbol timeframe direction invalidation_level ob_inner_edge
       invalidation_candle_range =
     (let buffer = structural_buffer symbol timeframe invalidation_candle_range in
      if direction = BEARISH
      then let sl = invalidation_level + buffer in
        (case ob_inner_edge of Some e \<Rightarrow> max sl (e + buffer) | None \<Rightarrow> sl)
      else let sl = invalidation_level - buffer in
        (case ob_inner_edge of Some e \<Rightarrow> min sl (e - buffer) | None \<Rightarrow> sl))"

section \<open>Lemmas\<close>

lemma floor_pips_bounds: "8 \<le> timeframe_floor_pips tf" "timeframe_floor_pips tf \<le> 700"
  by (cases tf; simp add: timeframe_floor_pips_def dict_get_def TIMEFRAME_SL_FLOOR_PIPS_def)+

lemma floor_pips_mono: "a \<le> b \<Longrightarrow> timeframe_floor_pips a \<le> timeframe_floor_pips b"
  by (cases a; cases b)
     (simp_all add: timeframe_floor_pips_def dict_get_def TIMEFRAME_SL_FLOOR_PIPS_def less_eq_Timeframe_def
        tf_rank_def)

lemma tp_floor_mono: "a \<le> b \<Longrightarrow> timeframe_min_tp_rr a \<le> timeframe_min_tp_rr b"
  by (cases a; cases b)
     (simp_all add: timeframe_min_tp_rr_def dict_get_def TIMEFRAME_MIN_TP_RR_def less_eq_Timeframe_def
        tf_rank_def LOWEST_STYLE_MIN_RR_def MIN_RR_SCALPING_def)

lemma tp_floor_ge: "LOWEST_STYLE_MIN_RR \<le> timeframe_min_tp_rr tf"
  by (simp add: timeframe_min_tp_rr_def)

lemma style_floor_ge: "style_min_tp_rr style = Some v \<Longrightarrow> LOWEST_STYLE_MIN_RR \<le> v"
  by (auto simp: style_min_tp_rr_def STYLE_MIN_TP_RR_def LOWEST_STYLE_MIN_RR_def MIN_RR_SCALPING_def
      MIN_RR_INTRADAY_def MIN_RR_SWING_def MIN_RR_POSITIONAL_def split: option.splits if_splits)

lemma buffer_ge_floor: "timeframe_floor_pips tf * get_pip_value symbol \<le> structural_buffer symbol tf r"
  by (simp add: structural_buffer_def Let_def split: option.splits)

lemma buffer_pos: "0 < structural_buffer symbol tf r"
proof -
  have "0 < timeframe_floor_pips tf * get_pip_value symbol"
    using floor_pips_bounds(1) [of tf] by (intro mult_pos_pos) simp_all
  then show ?thesis using buffer_ge_floor [of tf symbol r] by linarith
qed

lemma buffer_mono:
  assumes "a \<le> b"
  shows "structural_buffer symbol a r \<le> structural_buffer symbol b r"
proof -
  define f where "f tf = timeframe_floor_pips tf * get_pip_value symbol" for tf
  have "f a \<le> f b"
    unfolding f_def using assms by (intro mult_right_mono floor_pips_mono) (simp_all add: less_imp_le)
  then show ?thesis
    unfolding structural_buffer_def Let_def f_def [symmetric]
    by (auto intro: max.mono split: option.splits)
qed

section \<open>Properties\<close>

text \<open>C22. The stop loss of a short lies above the invalidation level, and above the far edge of the
  order block when one is given, by at least the timeframe's floor in pips; that of a long below by
  as much. Moving to a higher timeframe never tightens it.\<close>

theorem stop_loss_beyond_invalidation:
  "(let sl = compute_structural_stop_loss symbol tf BEARISH lvl edge r;
        buffer = timeframe_floor_pips tf * get_pip_value symbol in
      0 < buffer \<and> lvl + buffer \<le> sl \<and> (\<forall>e. edge = Some e \<longrightarrow> e + buffer \<le> sl) \<and>
      (\<forall>tf'. tf \<le> tf' \<longrightarrow> sl \<le> compute_structural_stop_loss symbol tf' BEARISH lvl edge r)) \<and>
   (let sl = compute_structural_stop_loss symbol tf BULLISH lvl edge r;
        buffer = timeframe_floor_pips tf * get_pip_value symbol in
      sl \<le> lvl - buffer \<and> (\<forall>e. edge = Some e \<longrightarrow> sl \<le> e - buffer) \<and>
      (\<forall>tf'. tf \<le> tf' \<longrightarrow> compute_structural_stop_loss symbol tf' BULLISH lvl edge r \<le> sl))"
proof -
  have "0 < timeframe_floor_pips tf * get_pip_value symbol"
    using floor_pips_bounds(1) [of tf] by (intro mult_pos_pos) simp_all
  moreover note buffer_ge_floor [of tf symbol r]
  moreover have "structural_buffer symbol tf r \<le> structural_buffer symbol tf' r" if "tf \<le> tf'" for tf'
    using buffer_mono [OF that] .
  ultimately show ?thesis
    by (cases edge) (auto simp: compute_structural_stop_loss_def Let_def max_def min_def
        intro: add_left_mono order_trans dest: order_trans)
qed

theorem stop_loss_beyond_invalidation_witness:
  "compute_structural_stop_loss ''EURUSD'' H1 BEARISH 1 None None \<le>
     compute_structural_stop_loss ''EURUSD'' D1 BEARISH 1 None None"
  using stop_loss_beyond_invalidation [of "''EURUSD''" H1 1 None None]
  by (simp add: Let_def less_eq_Timeframe_def tf_rank_def)

text \<open>The floor is stated in pips, and a crypto pip is one whole unit of price: for every long on
  ADAUSD with an invalidation level of at most 8, at any timeframe, the computed stop loss is not a
  positive price, although the floor is documented to fit every instrument class.\<close>

theorem stop_loss_not_positive:
  "lvl \<le> 8 \<Longrightarrow> compute_structural_stop_loss ''ADAUSD'' tf BULLISH lvl edge r \<le> 0"
proof -
  assume l: "lvl \<le> 8"
  have "get_pip_value ''ADAUSD'' = 1" by code_simp
  then have "8 \<le> structural_buffer ''ADAUSD'' tf r"
    using buffer_ge_floor [of tf "''ADAUSD''" r] floor_pips_bounds(1) [of tf] by simp
  then show ?thesis
    using l by (auto simp: compute_structural_stop_loss_def Let_def min_def split: option.splits)
qed

theorem stop_loss_not_positive_witness:
  "compute_structural_stop_loss ''ADAUSD'' H1 BULLISH (4 / 10) None None \<le> 0"
  using stop_loss_not_positive [of "4 / 10" H1 None None] by simp

text \<open>The combined take-profit floor is at least the timeframe's own floor and at least the style's
  minimum when they are given, and is never below the lowest rulebook minimum
  of 2 when a timeframe is given or the style is given by name; an unknown style name without a
  timeframe falls back to that lowest minimum. It never decreases with the timeframe.\<close>

theorem resolve_min_tp_rr_floor:
  "(\<forall>tf. timeframe_min_tp_rr tf \<le> resolve_min_tp_rr (Some tf) rr style) \<and>
   (\<forall>v. rr = Some v \<longrightarrow> v \<le> resolve_min_tp_rr tf rr style) \<and>
   (\<forall>v. rr = None \<and> style_min_tp_rr style = Some v \<longrightarrow> v \<le> resolve_min_tp_rr tf rr style) \<and>
   2 \<le> resolve_min_tp_rr (Some tf') rr style \<and>
   (rr = None \<longrightarrow> 2 \<le> resolve_min_tp_rr tf rr style) \<and>
   (style_min_tp_rr style = None \<longrightarrow> resolve_min_tp_rr None None style = 2) \<and>
   (\<forall>a b. a \<le> b \<longrightarrow> resolve_min_tp_rr (Some a) rr style \<le> resolve_min_tp_rr (Some b) rr style)"
proof -
  have two: "LOWEST_STYLE_MIN_RR = 2" by (simp add: LOWEST_STYLE_MIN_RR_def MIN_RR_SCALPING_def)
  have none: "style_min_tp_rr None = None" by (simp add: style_min_tp_rr_def)
  have ge: "2 \<le> timeframe_min_tp_rr a" for a using tp_floor_ge [of a] two by simp
  have sg: "2 \<le> v" if "style_min_tp_rr style = Some v" for v using style_floor_ge [OF that] two by simp
  have mono: "max v (timeframe_min_tp_rr a) \<le> max v (timeframe_min_tp_rr b)" if "a \<le> b" for v a b
    using tp_floor_mono [OF that] by linarith
  define sr where "sr = (if rr = None \<and> style \<noteq> None then style_min_tp_rr style else rr)"
  have res: "resolve_min_tp_rr t rr style = (case (sr, map_option timeframe_min_tp_rr t) of
      (None, None) \<Rightarrow> 2 | (Some v, None) \<Rightarrow> v | (None, Some w) \<Rightarrow> w | (Some v, Some w) \<Rightarrow> max v w)" for t
    by (simp only: resolve_min_tp_rr_def sr_def two Let_def)
  have srs: "sr = Some v \<Longrightarrow> rr = None \<Longrightarrow> 2 \<le> v" for v using sg none unfolding sr_def by (auto split: if_splits)
  have srr: "rr = Some v \<Longrightarrow> sr = Some v" "rr = None \<Longrightarrow> style_min_tp_rr style = Some v \<Longrightarrow> sr = Some v" for v
    using none unfolding sr_def by (auto, cases style, auto)
  have "style_min_tp_rr style = None \<longrightarrow> resolve_min_tp_rr None None style = 2"
    by (simp add: resolve_min_tp_rr_def two Let_def)
  moreover have "rr = None \<longrightarrow> 2 \<le> resolve_min_tp_rr tf rr style"
    using srs ge unfolding res by (cases sr; cases tf) (auto simp: le_max_iff_disj)
  moreover have "\<forall>a b. a \<le> b \<longrightarrow> resolve_min_tp_rr (Some a) rr style \<le> resolve_min_tp_rr (Some b) rr style"
    using mono tp_floor_mono unfolding res by (cases sr) auto
  moreover have "2 \<le> resolve_min_tp_rr (Some tf') rr style"
    using ge [of tf'] unfolding res by (cases sr) (auto simp: le_max_iff_disj)
  moreover have "\<forall>tf. timeframe_min_tp_rr tf \<le> resolve_min_tp_rr (Some tf) rr style"
    unfolding res by (cases sr) auto
  moreover have "\<forall>v. rr = Some v \<longrightarrow> v \<le> resolve_min_tp_rr tf rr style"
    using srr(1) unfolding res by (cases tf) auto
  moreover have "\<forall>v. rr = None \<and> style_min_tp_rr style = Some v \<longrightarrow> v \<le> resolve_min_tp_rr tf rr style"
    using srr(2) unfolding res by (cases tf) auto
  ultimately show ?thesis by blast
qed

theorem resolve_min_tp_rr_floor_witness:
  "5 \<le> resolve_min_tp_rr (Some D1) None (Some '' swing '')"
proof -
  have "timeframe_min_tp_rr D1 = 5"
    by (simp add: timeframe_min_tp_rr_def dict_get_def TIMEFRAME_MIN_TP_RR_def LOWEST_STYLE_MIN_RR_def
        MIN_RR_SCALPING_def)
  then show ?thesis
    using conjunct1 [OF resolve_min_tp_rr_floor [of None "Some '' swing ''"]] by (metis order_refl)
qed

end
