(* ===== verification/SmcValidators.thy ===== *)
theory SmcValidators
  imports Candidates Zones LiquidityPatterns StopLoss
begin

text \<open>
  What the SMC builders check and measure before they emit a candidate: the zone rules of
  \<^verbatim>\<open>engine/ta/smc/validators/zone/validator.py\<close>, the seven lower-timeframe confirmations of
  \<^verbatim>\<open>engine/ta/smc/validators/ltf/confirmation.py\<close> and the Fibonacci leg of a candidate,
  \<^verbatim>\<open>engine/ta/smc/builders/fib_leg.py\<close>. Logging is left out. A method that may raise
  returns a \<open>result\<close>; candle indices are natural numbers and their distance is taken over the
  integers.
\<close>

section \<open>Rounding\<close>

text \<open>\<^verbatim>\<open>round(x)\<close>: to the nearest integer, ties to even; \<^verbatim>\<open>round(x, 4)\<close>; and the format
  \<^verbatim>\<open>:.3f\<close> of a number that is not negative.\<close>

definition round_even :: "rat \<Rightarrow> int" where
  "round_even y =
     (let f = \<lfloor>y\<rfloor>; r = y - of_int f in
      if r < 1 / 2 then f else if 1 / 2 < r then f + 1 else if even f then f else f + 1)"

definition round4 :: "rat \<Rightarrow> rat" where
  "round4 x = of_int (round_even (x * 10000)) / 10000"

definition format_3f :: "rat \<Rightarrow> string" where
  "format_3f x =
     (let k = nat (round_even (x * 1000)) in nat_str (k div 1000) @ ''.'' @ zfill 3 (k mod 1000))"

section \<open>Fibonacci legs\<close>

definition fib_leg_build ::
  "string \<Rightarrow> Timeframe \<Rightarrow> price option \<Rightarrow> price option \<Rightarrow> datetime option \<Rightarrow> datetime option \<Rightarrow> bool \<Rightarrow>
   FibonacciRetracement option result" where
  "fib_leg_build symbol timeframe swing_high swing_low swing_high_timestamp swing_low_timestamp bullish =
     (case (swing_high, swing_low, swing_high_timestamp, swing_low_timestamp) of
        (Some high, Some low, Some high_ts, Some low_ts) \<Rightarrow>
          if high \<le> low then Inr None
          else (case mk_FibonacciRetracement symbol timeframe high low high_ts low_ts bullish of
              Inr r \<Rightarrow> Inr (Some r)
            | Inl (ConfigurationError _) \<Rightarrow> Inr None
            | Inl e \<Rightarrow> Inl e)
      | _ \<Rightarrow> Inr None)"

definition select_leg_for_sh_bms_rto ::
  "string \<Rightarrow> Timeframe \<Rightarrow> BreakInMarketStructure \<Rightarrow> LiquiditySweep option \<Rightarrow> bool \<Rightarrow>
   FibonacciRetracement option result" where
  "select_leg_for_sh_bms_rto symbol timeframe htf_bms sweep bullish =
     (case sweep of
        None \<Rightarrow> Inr None
      | Some s \<Rightarrow>
          if bullish
          then fib_leg_build symbol timeframe (Some (bms_breakout_price htf_bms))
                 (Some (ls_swept_level s)) (Some (bms_timestamp htf_bms)) (Some (ls_timestamp s)) True
          else fib_leg_build symbol timeframe (Some (ls_swept_level s))
                 (Some (bms_breakout_price htf_bms)) (Some (ls_timestamp s))
                 (Some (bms_timestamp htf_bms)) False)"

definition select_leg_for_sms_bms_rto ::
  "string \<Rightarrow> Timeframe \<Rightarrow> ShiftInMarketStructure \<Rightarrow> BreakInMarketStructure \<Rightarrow> bool \<Rightarrow>
   FibonacciRetracement option result" where
  "select_leg_for_sms_bms_rto symbol timeframe htf_sms ltf_bms bullish =
     (if bullish
      then fib_leg_build symbol timeframe (Some (bms_breakout_price ltf_bms))
             (Some (sms_failed_level htf_sms)) (Some (bms_timestamp ltf_bms))
             (Some (sms_failed_level_timestamp htf_sms)) True
      else fib_leg_build symbol timeframe (Some (sms_failed_level htf_sms))
             (Some (bms_breakout_price ltf_bms)) (Some (sms_failed_level_timestamp htf_sms))
             (Some (bms_timestamp ltf_bms)) False)"

definition select_leg_for_choch_bms_rto ::
  "string \<Rightarrow> Timeframe \<Rightarrow> ChangeOfCharacter \<Rightarrow> bool \<Rightarrow> FibonacciRetracement option result" where
  "select_leg_for_choch_bms_rto symbol timeframe htf_choch bullish =
     (if bullish
      then fib_leg_build symbol timeframe (Some (coc_breakout_price htf_choch))
             (Some (coc_broken_level htf_choch)) (Some (coc_timestamp htf_choch))
             (Some (coc_broken_level_timestamp htf_choch)) True
      else fib_leg_build symbol timeframe (Some (coc_broken_level htf_choch))
             (Some (coc_breakout_price htf_choch)) (Some (coc_broken_level_timestamp htf_choch))
             (Some (coc_timestamp htf_choch)) False)"

definition select_leg_for_amd ::
  "string \<Rightarrow> Timeframe \<Rightarrow> price option \<Rightarrow> price option \<Rightarrow> datetime option \<Rightarrow> datetime option \<Rightarrow>
   BreakInMarketStructure \<Rightarrow> bool \<Rightarrow> FibonacciRetracement option result" where
  "select_leg_for_amd symbol timeframe asian_range_high asian_range_low asian_range_start
       asian_range_end ltf_bms bullish =
     (let asian_range_end = (if asian_range_end = None then Some (bms_timestamp ltf_bms)
            else asian_range_end);
          asian_range_start = (if asian_range_start = None then asian_range_end
            else asian_range_start)
      in if bullish
      then fib_leg_build symbol timeframe (Some (bms_breakout_price ltf_bms)) asian_range_low
             (Some (bms_timestamp ltf_bms)) asian_range_start True
      else fib_leg_build symbol timeframe asian_range_high (Some (bms_breakout_price ltf_bms))
             asian_range_start (Some (bms_timestamp ltf_bms)) False)"

text \<open>The turtle soup selectors: a leg needs a swing on the other side of the swept level, and the
  nearest one anchors it.\<close>

definition select_leg_for_turtle_soup_long ::
  "string \<Rightarrow> Timeframe \<Rightarrow> LiquiditySweep option \<Rightarrow> SwingHigh list \<Rightarrow>
   FibonacciRetracement option result" where
  "select_leg_for_turtle_soup_long symbol timeframe sweep swing_highs =
     (case sweep of
        None \<Rightarrow> Inr None
      | Some s \<Rightarrow>
          case min_key (\<lambda>sh. sh_price sh - ls_swept_level s)
              (filter (\<lambda>sh. ls_swept_level s < sh_price sh) swing_highs) of
            None \<Rightarrow> Inr None
          | Some anchor \<Rightarrow>
              fib_leg_build symbol timeframe (Some (sh_price anchor)) (Some (ls_swept_level s))
                (Some (sh_timestamp anchor)) (Some (ls_timestamp s)) True)"

definition select_leg_for_turtle_soup_short ::
  "string \<Rightarrow> Timeframe \<Rightarrow> LiquiditySweep option \<Rightarrow> SwingLow list \<Rightarrow>
   FibonacciRetracement option result" where
  "select_leg_for_turtle_soup_short symbol timeframe sweep swing_lows =
     (case sweep of
        None \<Rightarrow> Inr None
      | Some s \<Rightarrow>
          case min_key (\<lambda>sl. ls_swept_level s - sl_price sl)
              (filter (\<lambda>sl. sl_price sl < ls_swept_level s) swing_lows) of
            None \<Rightarrow> Inr None
          | Some anchor \<Rightarrow>
              fib_leg_build symbol timeframe (Some (ls_swept_level s)) (Some (sl_price anchor))
                (Some (ls_timestamp s)) (Some (sl_timestamp anchor)) False)"

section \<open>Zone validator\<close>

definition ranges_overlap :: "price \<Rightarrow> price \<Rightarrow> price \<Rightarrow> price \<Rightarrow> bool" where
  "ranges_overlap a_lower a_upper b_lower b_upper \<longleftrightarrow> a_lower \<le> b_upper \<and> b_lower \<le> a_upper"

definition get_associated_fvg ::
  "SMCConfig \<Rightarrow> OrderBlock \<Rightarrow> FairValueGap list \<Rightarrow> FairValueGap option" where
  "get_associated_fvg config ob fvgs =
     find (\<lambda>fvg.
       if fvg_direction fvg \<noteq> ob_direction ob then False
       else if int (sc_fvg_max_candle_distance config) <
               \<bar>int (fvg_candle_index fvg) - int (ob_candle_index ob)\<bar> then False
       else if ranges_overlap (ob_lower_bound ob) (ob_upper_bound ob) (fvg_lower_bound fvg)
               (fvg_upper_bound fvg) then True
       else if ob_direction ob = BULLISH then ob_lower_bound ob \<le> fvg_lower_bound fvg
       else fvg_upper_bound fvg \<le> ob_upper_bound ob) fvgs"

definition validate_ob_has_fvg :: "SMCConfig \<Rightarrow> OrderBlock \<Rightarrow> FairValueGap list \<Rightarrow> bool" where
  "validate_ob_has_fvg config ob fvgs =
     (if \<not> sc_require_fvg_with_ob config then True else get_associated_fvg config ob fvgs \<noteq> None)"

text \<open>Every branch of the source returns \<^verbatim>\<open>True\<close>.\<close>

definition validate_ob_has_liquidity ::
  "SMCConfig \<Rightarrow> OrderBlock \<Rightarrow> LiquiditySweep option list \<Rightarrow> InducementEvent list \<Rightarrow> bool" where
  "validate_ob_has_liquidity config ob liquidity_sweeps inducement_events =
     (let max_distance = int (sc_fvg_max_candle_distance config); i = int (ob_candle_index ob) in
      if list_ex (\<lambda>sweep. case sweep of None \<Rightarrow> False
           | Some s \<Rightarrow> \<bar>int (ls_candle_index s) - i\<bar> \<le> max_distance) liquidity_sweeps then True
      else if list_ex (\<lambda>inducement. ie_cleared inducement \<and>
           (case ie_cleared_timestamp inducement of None \<Rightarrow> False
            | Some t \<Rightarrow> t \<le> ob_timestamp ob \<or> \<bar>int (ie_candle_index inducement) - i\<bar> \<le> max_distance))
           inducement_events then True
      else True)"

definition score_ob_fib_confluence ::
  "SMCConfig \<Rightarrow> OrderBlock \<Rightarrow> FibonacciRetracement option \<Rightarrow> nat result" where
  "score_ob_fib_confluence config ob retracement =
     (case retracement of
        None \<Rightarrow> Inr 0
      | Some r \<Rightarrow>
          bindR (fa_is_at_ote (ob_midpoint ob) r (sc_fibonacci_tolerance_pips config)) (\<lambda>at_ote.
            if at_ote then Inr 3
            else bindR (fr_get_zone_for_price r (ob_midpoint ob)) (\<lambda>zone.
              if ob_direction ob = BULLISH \<and> zone = DISCOUNT then Inr 2
              else if ob_direction ob = BEARISH \<and> zone = PREMIUM then Inr 2
              else if zone = EQUILIBRIUM then Inr 1
              else Inr 0)))"

definition validate_ob_at_premium_discount ::
  "OrderBlock \<Rightarrow> FibonacciRetracement option \<Rightarrow> bool" where
  "validate_ob_at_premium_discount ob retracement = True"

definition relevant_idm :: "OrderBlock \<Rightarrow> Direction \<Rightarrow> price option \<Rightarrow> InducementEvent \<Rightarrow> bool" where
  "relevant_idm ob direction breakout idm \<longleftrightarrow>
     ie_cleared idm \<and> ie_direction idm = direction \<and>
     (let level = ie_inducement_level idm in
      if direction = BULLISH
      then \<not> level < ob_lower_bound ob \<and>
           (case breakout of None \<Rightarrow> True | Some p \<Rightarrow> \<not> p < level)
      else \<not> ob_upper_bound ob < level \<and>
           (case breakout of None \<Rightarrow> True | Some p \<Rightarrow> \<not> level < p))"

definition select_relevant_inducement ::
  "OrderBlock \<Rightarrow> Direction \<Rightarrow> InducementEvent list \<Rightarrow> price option \<Rightarrow> InducementEvent option" where
  "select_relevant_inducement ob direction inducement_events breakout =
     max_key (\<lambda>idm. case ie_cleared_timestamp idm of
           Some t \<Rightarrow> t | None \<Rightarrow> ie_inducement_timestamp idm)
       (filter (relevant_idm ob direction breakout) inducement_events)"

definition LiquidityType_value :: "LiquidityType \<Rightarrow> string" where
  "LiquidityType_value t = (case t of BSL \<Rightarrow> ''BSL'' | SSL \<Rightarrow> ''SSL'' | EQUAL_HIGHS \<Rightarrow> ''EQUAL_HIGHS''
     | EQUAL_LOWS \<Rightarrow> ''EQUAL_LOWS'' | INDUCEMENT \<Rightarrow> ''INDUCEMENT'' | COMPRESSION \<Rightarrow> ''COMPRESSION''
     | PDH_SWEEP \<Rightarrow> ''PDH_SWEEP'' | PDL_SWEEP \<Rightarrow> ''PDL_SWEEP'')"

definition build_sweep_context ::
  "LiquiditySweep option \<Rightarrow> OrderBlock option \<Rightarrow> (string \<times> json) list option" where
  "build_sweep_context sweep ob =
     (case sweep of
        None \<Rightarrow> None
      | Some s \<Rightarrow> Some
          [(''liquidity_type'', JStr (LiquidityType_value (ls_liquidity_type s))),
           (''sweep_pips'', JNum (round2 (ls_sweep_pips s))),
           (''closed_back_inside'', JBool (ls_closed_back_inside s)),
           (''is_major_sweep'', JBool (ls_is_major_sweep s))])"

definition PriceZone_value :: "PriceZone \<Rightarrow> string" where
  "PriceZone_value z = (case z of PREMIUM \<Rightarrow> ''PREMIUM'' | EQUILIBRIUM \<Rightarrow> ''EQUILIBRIUM''
     | DISCOUNT \<Rightarrow> ''DISCOUNT'')"

record fib_context =
  fc_percentage :: rat
  fc_zone :: PriceZone
  fc_is_in_ote :: bool
  fc_nearest_level :: FibonacciLevel

definition fib_context_json :: "fib_context \<Rightarrow> (string \<times> json) list" where
  "fib_context_json c =
     [(''percentage'', JNum (fc_percentage c)), (''zone'', JStr (PriceZone_value (fc_zone c))),
      (''is_in_ote'', JBool (fc_is_in_ote c)),
      (''nearest_level_name'', JStr (fib_value_str (fc_nearest_level c)))]"

definition fib_percentage :: "price \<Rightarrow> FibonacciRetracement \<Rightarrow> rat" where
  "fib_percentage price r =
     (let range_size = fr_swing_high r - fr_swing_low r in
      if fr_is_bullish r then (fr_swing_high r - price) / range_size
      else (price - fr_swing_low r) / range_size)"

definition build_fib_context ::
  "SMCConfig \<Rightarrow> price \<Rightarrow> FibonacciRetracement option \<Rightarrow> fib_context option result" where
  "build_fib_context config price retracement =
     (case retracement of
        None \<Rightarrow> Inr None
      | Some r \<Rightarrow>
          if fr_swing_high r - fr_swing_low r \<le> 0 then Inr None
          else if price < fr_swing_low r \<or> fr_swing_high r < price then Inr None
          else let percentage = fib_percentage price r in
            bindR (fr_get_zone_for_price r price) (\<lambda>zone.
            bindR (fa_is_at_ote price r (sc_fibonacci_tolerance_pips config)) (\<lambda>is_in_ote.
              Inr (map_option (\<lambda>nearest_level.
                  \<lparr>fc_percentage = round4 percentage, fc_zone = zone, fc_is_in_ote = is_in_ote,
                   fc_nearest_level = fst nearest_level\<rparr>)
                (min_key (\<lambda>kv. \<bar>percentage - snd kv\<bar>) FIBONACCI_VALUES)))))"

definition validate_zone_freshness :: "OrderBlock \<Rightarrow> CandleSequence \<Rightarrow> bool" where
  "validate_zone_freshness ob sequence =
     (if length (seq_candles sequence) - 1 \<le> ob_candle_index ob then True
      else list_all (\<lambda>candle.
          if ob_direction ob = BULLISH then \<not> c_close candle < ob_lower_bound ob
          else \<not> ob_upper_bound ob < c_close candle)
        (drop (ob_candle_index ob + 1) (seq_candles sequence)))"

definition validate_zone_no_overlap :: "OrderBlock \<Rightarrow> OrderBlock list \<Rightarrow> bool result" where
  "validate_zone_no_overlap ob other_obs =
     bindR (anyR (\<lambda>other_ob.
         if ob_timestamp other_ob = ob_timestamp ob then Inr False
         else bindR (ob_to_zone ob) (\<lambda>z. bindR (ob_to_zone other_ob) (\<lambda>w. Inr (overlaps_with z w))))
       other_obs) (\<lambda>overlap. Inr (\<not> overlap))"

definition validate_all_ob_rules ::
  "SMCConfig \<Rightarrow> OrderBlock \<Rightarrow> FairValueGap list \<Rightarrow> LiquiditySweep option list \<Rightarrow> InducementEvent list \<Rightarrow>
   FibonacciRetracement option \<Rightarrow> CandleSequence \<Rightarrow> OrderBlock list \<Rightarrow> bool result" where
  "validate_all_ob_rules config ob fvgs liquidity_sweeps inducement_events retracement sequence other_obs =
     (let has_fvg = validate_ob_has_fvg config ob fvgs;
          has_liquidity = validate_ob_has_liquidity config ob liquidity_sweeps inducement_events;
          at_premium_discount = validate_ob_at_premium_discount ob retracement;
          is_fresh = validate_zone_freshness ob sequence
      in bindR (score_ob_fib_confluence config ob retracement) (\<lambda>fib_score.
           Inr (has_fvg \<and> has_liquidity \<and> at_premium_discount \<and> is_fresh)))"

section \<open>Lower-timeframe confirmations\<close>

definition validate_liquidity_taken :: "LiquiditySweep option \<Rightarrow> bool" where
  "validate_liquidity_taken sweep = (case sweep of None \<Rightarrow> False | Some s \<Rightarrow> ls_closed_back_inside s)"

definition validate_choch_present :: "ChangeOfCharacter option \<Rightarrow> LiquiditySweep option \<Rightarrow> bool" where
  "validate_choch_present choch sweep =
     (case choch of
        None \<Rightarrow> False
      | Some c \<Rightarrow> (case sweep of None \<Rightarrow> True | Some s \<Rightarrow> ls_candle_index s \<le> coc_candle_index c))"

definition validate_bms_confirmed ::
  "BreakInMarketStructure option \<Rightarrow> ChangeOfCharacter option \<Rightarrow> bool" where
  "validate_bms_confirmed bms choch =
     (case bms of
        None \<Rightarrow> False
      | Some b \<Rightarrow> (case choch of
          None \<Rightarrow> False
        | Some c \<Rightarrow> coc_candle_index c \<le> bms_candle_index b \<and> bms_direction b = coc_direction c))"

definition validate_rto_to_ob ::
  "OrderBlock option \<Rightarrow> BreakInMarketStructure option \<Rightarrow> price \<Rightarrow> bool" where
  "validate_rto_to_ob ob bms current_price =
     (case (ob, bms) of
        (Some z, Some b) \<Rightarrow>
          if ob_timestamp z \<le> bms_timestamp b then False
          else ob_lower_bound z \<le> current_price \<and> current_price \<le> ob_upper_bound z
      | _ \<Rightarrow> False)"

definition validate_session_timing :: "SMCConfig \<Rightarrow> CandleSequence \<Rightarrow> bool result" where
  "validate_session_timing config sequence =
     (if \<not> sc_require_session_timing config then Inr True
      else bindR (last_candle sequence) (\<lambda>latest_candle.
        bindR (identify_session (c_timestamp latest_candle)) (\<lambda>session_state.
          Inr (st_active_session session_state \<in> {LONDON, NEW_YORK, OVERLAP_LONDON_NY}))))"

definition validate_inducement_cleared :: "InducementEvent list \<Rightarrow> OrderBlock option \<Rightarrow> bool" where
  "validate_inducement_cleared inducement_events ob =
     (case ob of
        None \<Rightarrow> False
      | Some z \<Rightarrow>
          let relevant_inducements = filter (\<lambda>idm. ie_timestamp idm < ob_timestamp z \<and>
                ie_direction idm = ob_direction z) inducement_events
          in if relevant_inducements = [] then True else list_all ie_cleared relevant_inducements)"

definition validate_ltf_fvg_present :: "FairValueGap list \<Rightarrow> OrderBlock option \<Rightarrow> bool" where
  "validate_ltf_fvg_present ltf_fvgs ob =
     (case ob of
        None \<Rightarrow> False
      | Some z \<Rightarrow> if ltf_fvgs = [] then False
          else list_ex (\<lambda>fvg. fvg_direction fvg = ob_direction z) ltf_fvgs)"

definition validate_all_ltf_confirmations ::
  "SMCConfig \<Rightarrow> LiquiditySweep option \<Rightarrow> ChangeOfCharacter option \<Rightarrow> BreakInMarketStructure option \<Rightarrow>
   OrderBlock option \<Rightarrow> InducementEvent list \<Rightarrow> CandleSequence \<Rightarrow> price \<Rightarrow> FairValueGap list \<Rightarrow>
   bool result" where
  "validate_all_ltf_confirmations config sweep choch bms ob inducement_events sequence current_price
       ltf_fvgs =
     (let liquidity_ok = validate_liquidity_taken sweep;
          choch_ok = validate_choch_present choch sweep;
          bms_ok = validate_bms_confirmed bms choch;
          rto_ok = validate_rto_to_ob ob bms current_price
      in bindR (validate_session_timing config sequence) (\<lambda>session_ok.
        let inducement_ok = validate_inducement_cleared inducement_events ob;
            fvg_ok = validate_ltf_fvg_present ltf_fvgs ob
        in Inr (liquidity_ok \<and> choch_ok \<and> bms_ok \<and> rto_ok \<and> session_ok \<and> inducement_ok \<and> fvg_ok)))"


section \<open>Lemmas\<close>

lemma round_even_error: "\<bar>of_int (round_even y) - y\<bar> \<le> 1 / 2"
proof -
  define f where "f = \<lfloor>y\<rfloor>"
  have "of_int f \<le> y" "y < of_int f + 1" unfolding f_def by linarith+
  then show ?thesis unfolding round_even_def Let_def f_def [symmetric] by auto
qed

lemma round_even_mono: "x \<le> y \<Longrightarrow> round_even x \<le> round_even y"
proof -
  assume xy: "x \<le> y"
  show ?thesis
  proof (cases "\<lfloor>x\<rfloor> = \<lfloor>y\<rfloor>")
    case True
    then show ?thesis using xy by (auto simp: round_even_def Let_def)
  next
    case False
    then have "\<lfloor>x\<rfloor> + 1 \<le> \<lfloor>y\<rfloor>" using floor_mono [OF xy] by linarith
    moreover have "round_even x \<le> \<lfloor>x\<rfloor> + 1" "\<lfloor>y\<rfloor> \<le> round_even y" by (simp_all add: round_even_def Let_def)
    ultimately show ?thesis by linarith
  qed
qed

lemma round_even_int [simp]: "round_even (of_int n) = n"
  by (simp add: round_even_def)

lemma round4_unit:
  assumes "0 \<le> x" and "x \<le> 1"
  shows "0 \<le> round4 x" "round4 x \<le> 1"
proof -
  have "round_even 0 = 0" "round_even 10000 = 10000"
    using round_even_int [of 0] round_even_int [of 10000] by simp_all
  moreover have "round_even 0 \<le> round_even (x * 10000)" "round_even (x * 10000) \<le> round_even 10000"
    using assms by (intro round_even_mono; simp)+
  ultimately show "0 \<le> round4 x" "round4 x \<le> 1" by (simp_all add: round4_def)
qed

text \<open>A gap that the rule of association accepts: not entirely on the far side of the block.\<close>

definition associated :: "SMCConfig \<Rightarrow> OrderBlock \<Rightarrow> FairValueGap \<Rightarrow> bool" where
  "associated config ob fvg \<longleftrightarrow> fvg_direction fvg = ob_direction ob \<and>
     \<bar>int (fvg_candle_index fvg) - int (ob_candle_index ob)\<bar> \<le> int (sc_fvg_max_candle_distance config) \<and>
     (if ob_direction ob = BULLISH then ob_lower_bound ob \<le> fvg_upper_bound fvg
      else fvg_lower_bound fvg \<le> ob_upper_bound ob)"

definition wf_zone_bounds :: "price \<Rightarrow> price \<Rightarrow> bool" where
  "wf_zone_bounds lower upper \<longleftrightarrow> 0 < lower \<and> lower < upper"

lemma get_associated_fvg_find:
  assumes "wf_zone_bounds (ob_lower_bound ob) (ob_upper_bound ob)"
    and "\<forall>f \<in> set fvgs. wf_zone_bounds (fvg_lower_bound f) (fvg_upper_bound f)"
  shows "get_associated_fvg config ob fvgs = find (associated config ob) fvgs"
  using assms unfolding get_associated_fvg_def
  by (intro find_cong) (auto simp: associated_def ranges_overlap_def wf_zone_bounds_def not_less)

lemma ball_set_drop:
  "(\<forall>x \<in> set (drop n xs). P x) \<longleftrightarrow> (\<forall>k. n \<le> k \<and> k < length xs \<longrightarrow> P (xs ! k))"
proof
  assume *: "\<forall>x \<in> set (drop n xs). P x"
  show "\<forall>k. n \<le> k \<and> k < length xs \<longrightarrow> P (xs ! k)"
  proof (intro allI impI)
    fix k assume "n \<le> k \<and> k < length xs"
    then have "drop n xs ! (k - n) = xs ! k" "k - n < length (drop n xs)" by (simp_all add: diff_less_mono)
    then show "P (xs ! k)" using * by (metis nth_mem)
  qed
qed (auto simp: in_set_conv_nth)

lemma fresh_iff_unbroken:
  "validate_zone_freshness ob s \<longleftrightarrow>
     (\<forall>k. ob_candle_index ob < k \<and> k < length (seq_candles s) \<longrightarrow> \<not> breaks_ob ob (seq_candles s ! k))"
proof (cases "length (seq_candles s) - 1 \<le> ob_candle_index ob")
  case True
  then show ?thesis by (auto simp: validate_zone_freshness_def)
next
  case False
  then have "validate_zone_freshness ob s \<longleftrightarrow>
      (\<forall>c \<in> set (drop (ob_candle_index ob + 1) (seq_candles s)). \<not> breaks_ob ob c)"
    by (simp add: validate_zone_freshness_def list_all_iff breaks_ob_def)
  then show ?thesis by (simp add: ball_set_drop Suc_le_eq)
qed

lemma fresh_iff_no_breaker:
  "validate_zone_freshness ob s \<longleftrightarrow> detect_breaker_from_ob s ob = Inr None"
proof -
  define f where "f = find_from (breaks_ob ob) (ob_candle_index ob + 1) (seq_candles s)"
  have short: "length (seq_candles s) - 1 \<le> ob_candle_index ob \<Longrightarrow> f = None"
    by (auto simp: f_def find_from_None)
  have "detect_breaker_from_ob s ob = Inr None \<longleftrightarrow> f = None"
    unfolding detect_breaker_from_ob_def Let_def f_def [symmetric] using short by (cases f) auto
  moreover have "validate_zone_freshness ob s \<longleftrightarrow> f = None"
    by (simp add: f_def fresh_iff_unbroken find_from_None Suc_le_eq)
  ultimately show ?thesis by simp
qed

lemma fa_is_at_ote_total:
  assumes "wf_fr r"
  shows "\<exists>b. fa_is_at_ote p r tol = Inr b"
proof -
  obtain z where "get_ote_zone r = Inr z" using get_ote_zone_Inr [OF assms] by blast
  then show ?thesis by (simp add: fa_is_at_ote_def Let_def)
qed

lemma fr_zone_total: "\<exists>z. fr_get_zone_for_price r p = Inr z"
  by (simp add: fr_get_zone_for_price_def get_level_price_Inr Let_def)

lemma score_total:
  assumes "\<forall>r \<in> set_option retracement. wf_fr r"
  shows "\<exists>n \<le> 3. score_ob_fib_confluence config ob retracement = Inr n"
proof (cases retracement)
  case None
  then show ?thesis by (simp add: score_ob_fib_confluence_def)
next
  case (Some r)
  obtain b where "fa_is_at_ote (ob_midpoint ob) r (sc_fibonacci_tolerance_pips config) = Inr b"
    using fa_is_at_ote_total [of r] assms Some by force
  moreover obtain z where "fr_get_zone_for_price r (ob_midpoint ob) = Inr z" using fr_zone_total by blast
  ultimately show ?thesis using Some by (auto simp: score_ob_fib_confluence_def)
qed

text \<open>A leg is either absent or well formed, with the direction asked for.\<close>

lemma fib_leg_build_wf:
  assumes "fib_leg_build sy tf h l ht lt b = Inr r" and "clean_symbol sy"
  shows "\<forall>x \<in> set_option r. wf_fr x \<and> fr_is_bullish x = b \<and> h = Some (fr_swing_high x) \<and>
     l = Some (fr_swing_low x)"
  using assms mk_FibonacciRetracement_wf [of sy tf _ _ _ _ b]
  by (auto simp: fib_leg_build_def mk_FibonacciRetracement_def mk_model_Inr wf_fr_def clean_symbol_def
      split: option.splits if_splits sum.splits py_error.splits)

lemma fib_leg_build_total:
  assumes "clean_symbol sy" and "pos_opt h" and "pos_opt l"
  shows "\<exists>r. fib_leg_build sy tf h l ht lt b = Inr r"
  using assms
  by (auto simp: fib_leg_build_def mk_FibonacciRetracement_def mk_model_clean split: option.splits)


lemma fib_percentage_unit:
  assumes "wf_fr r" and "fr_swing_low r \<le> p" and "p \<le> fr_swing_high r"
  shows "0 \<le> fib_percentage p r" "fib_percentage p r \<le> 1"
proof -
  have "0 < fr_swing_high r - fr_swing_low r" using assms(1) by (simp add: wf_fr_def)
  then show "0 \<le> fib_percentage p r" "fib_percentage p r \<le> 1"
    using assms by (simp_all add: fib_percentage_def Let_def)
qed

lemma fib_percentage_level:
  assumes "wf_fr r" and "get_level_price r level = Inr p"
  shows "fib_percentage p r = fib_value level"
proof -
  have "fr_swing_high r - fr_swing_low r \<noteq> 0" using assms(1) by (simp add: wf_fr_def)
  then show ?thesis
    using assms(2) by (auto simp: get_level_price_Inr fib_percentage_def Let_def fr_range_size_def field_simps)
qed

section \<open>Properties\<close>

text \<open>C19. The composite zone check of the SMC builders never raises on well-formed zones and legs, and
  its verdict is exact: it accepts a block if and only if a fair value gap is associated with it (when
  one is required) and the breaker detector finds no candle that closes through it. Rules 3 and 5 of
  the documented seven never reject: the verdict does not depend on sweeps, inducements, the
  Fibonacci leg or the other blocks. A gap is associated when it has the block's direction, lies
  within the configured number of candles and is not entirely on the far side of the block; there
  is no upper bound on its distance in price.\<close>

theorem zone_rules_spec:
  assumes "wf_zone_bounds (ob_lower_bound ob) (ob_upper_bound ob)"
    and "\<forall>f \<in> set fvgs. wf_zone_bounds (fvg_lower_bound f) (fvg_upper_bound f)"
    and "\<forall>r \<in> set_option retracement. wf_fr r"
  shows "validate_all_ob_rules config ob fvgs sweeps idms retracement s other_obs =
     Inr ((sc_require_fvg_with_ob config \<longrightarrow> (\<exists>f \<in> set fvgs. associated config ob f)) \<and>
          detect_breaker_from_ob s ob = Inr None)"
proof -
  obtain n where n: "score_ob_fib_confluence config ob retracement = Inr n"
    using score_total [OF assms(3)] by blast
  have "validate_ob_has_liquidity config ob sweeps idms" by (simp add: validate_ob_has_liquidity_def Let_def)
  moreover have "validate_ob_has_fvg config ob fvgs \<longleftrightarrow>
      (sc_require_fvg_with_ob config \<longrightarrow> (\<exists>f \<in> set fvgs. associated config ob f))"
    by (auto simp: validate_ob_has_fvg_def get_associated_fvg_find [OF assms(1,2)] find_None_iff
        simp del: not_None_eq)
  ultimately show ?thesis
    by (simp add: validate_all_ob_rules_def Let_def n validate_ob_at_premium_discount_def
        fresh_iff_no_breaker)
qed

text \<open>The documented score of a block against its own leg is 2 in the premium half for sells and in
  the discount half for buys, and 0 in the wrong half. Outside the OTE pocket and away from
  equilibrium the code gives 2 exactly to the blocks below the midpoint of the leg, for sells as
  well as for buys: a sell in the premium half scores 0 and one in the discount half scores 2.\<close>

theorem fib_score_by_half:
  assumes "wf_fr r" and "ob_direction ob \<noteq> NEUTRAL" and "fr_is_bullish r = (ob_direction ob = BULLISH)"
    and "fr_swing_low r \<le> ob_midpoint ob" and "ob_midpoint ob \<le> fr_swing_high r"
    and "fa_is_at_ote (ob_midpoint ob) r (sc_fibonacci_tolerance_pips config) = Inr False"
  shows "score_ob_fib_confluence config ob (Some r) =
     Inr (let eq = (fr_swing_low r + fr_swing_high r) / 2 in
       if \<bar>ob_midpoint ob - eq\<bar> \<le> fr_range_size r * (2 / 100) then 1
       else if ob_midpoint ob < eq then 2 else 0)"
proof -
  define m where "m = ob_midpoint ob"
  define eq where "eq = (fr_swing_low r + fr_swing_high r) / 2"
  have e: "get_level_price r LEVEL_50 = Inr eq"
    by (simp add: get_level_price_Inr eq_def fr_range_size_def field_simps)
  have "fr_get_zone_for_price r m = Inr (if \<bar>m - eq\<bar> \<le> fr_range_size r * (2 / 100) then EQUILIBRIUM
      else if fr_is_bullish r then if eq < m then PREMIUM else DISCOUNT
      else if m < eq then PREMIUM else DISCOUNT)"
    using assms(4,5) by (simp add: fr_get_zone_for_price_def e Let_def m_def [symmetric])
  moreover have "0 \<le> fr_range_size r" using assms(1) by (simp add: wf_fr_def fr_range_size_def)
  then have "m = eq \<Longrightarrow> \<bar>m - eq\<bar> \<le> fr_range_size r * (2 / 100)" by simp
  ultimately show ?thesis
    using assms(2,3,6) unfolding m_def [symmetric] eq_def [symmetric]
    by (cases "ob_direction ob")
       (auto simp: score_ob_fib_confluence_def m_def [symmetric] eq_def [symmetric] Let_def)
qed


definition ex_far_fvg :: FairValueGap where
  "ex_far_fvg = \<lparr>fvg_symbol = ''EURUSD'', fvg_timeframe = H1, fvg_upper_bound = 50, fvg_lower_bound = 40,
     fvg_timestamp = 60, fvg_candle_index = 1, fvg_direction = BULLISH, fvg_filled = False,
     fvg_fill_timestamp = None, fvg_fill_percentage = 0\<rparr>"

theorem zone_rules_spec_witness:
  "validate_all_ob_rules default_SMCConfig ex_ob [ex_far_fvg] [] [] (Some (ex_fr True)) ex_soup_seq [] = Inr True"
proof -
  have "detect_breaker_from_ob ex_soup_seq ex_ob = Inr None" by code_simp
  moreover have "associated default_SMCConfig ex_ob ex_far_fvg"
    by (simp add: associated_def ex_ob_def ex_far_fvg_def default_SMCConfig_def)
  ultimately show ?thesis
    using zone_rules_spec [of ex_ob "[ex_far_fvg]" "Some (ex_fr True)" default_SMCConfig "[]" "[]" ex_soup_seq "[]"]
    by (simp add: wf_zone_bounds_def ex_ob_def ex_far_fvg_def wf_ex_fr)
qed

definition ex_premium_ob :: OrderBlock where
  "ex_premium_ob = ex_ob\<lparr>ob_upper_bound := 98 / 50, ob_lower_bound := 96 / 50, ob_direction := BEARISH\<rparr>"

theorem fib_score_by_half_witness:
  "score_ob_fib_confluence default_SMCConfig ex_premium_ob (Some (ex_fr False)) = Inr 0 \<and>
   (fr_swing_low (ex_fr False) + fr_swing_high (ex_fr False)) / 2 < ob_midpoint ex_premium_ob"
proof -
  have "fa_is_at_ote (ob_midpoint ex_premium_ob) (ex_fr False) (sc_fibonacci_tolerance_pips default_SMCConfig) = Inr False"
    by code_simp
  then show ?thesis
    using fib_score_by_half [OF wf_ex_fr, of ex_premium_ob False default_SMCConfig]
    by (simp add: ex_premium_ob_def ex_ob_def ex_fr_def ob_midpoint_def fr_range_size_def)
qed

end
