(* ===== verification/SmcBuilders.thy ===== *)
theory SmcBuilders
  imports SmcValidators
begin

text \<open>
  The candidate builders of \<^verbatim>\<open>engine/ta/smc/builders\<close>: \<^verbatim>\<open>continuation.py\<close>,
  \<^verbatim>\<open>reversal.py\<close> and \<^verbatim>\<open>amd/candidates.py\<close>. The bullish and the bearish method of a
  builder run the same steps with the side swapped; the body is written once with the direction as
  an argument, and the two methods are its instances. The helpers \<^verbatim>\<open>_compute_structural_stop_loss\<close>,
  \<^verbatim>\<open>_find_nearest_bsl_target\<close>, \<^verbatim>\<open>_find_nearest_ssl_target\<close>, \<^verbatim>\<open>_fib_level_str\<close> and
  \<^verbatim>\<open>_build_metadata\<close> have the same text in all three classes and are modelled once.
\<close>

section \<open>Shared helpers\<close>

definition builder_stop_loss :: "OrderBlock \<Rightarrow> Direction \<Rightarrow> price option \<Rightarrow> price" where
  "builder_stop_loss ob direction protective_level =
     (let ob_edge = (if direction = BULLISH then ob_lower_bound ob else ob_upper_bound ob);
          invalidation_level = (case protective_level of Some p \<Rightarrow> p | None \<Rightarrow> ob_edge)
      in compute_structural_stop_loss (ob_symbol ob) (ob_timeframe ob) direction invalidation_level
           (Some ob_edge) None)"

definition min_reward :: "SMCConfig \<Rightarrow> price \<Rightarrow> price option \<Rightarrow> rat option \<Rightarrow> rat" where
  "min_reward config entry_price stop_loss min_tp_rr =
     (let rr = (case min_tp_rr of Some r \<Rightarrow> r | None \<Rightarrow> sc_min_take_profit_rr config) in
      case stop_loss of None \<Rightarrow> 0 | Some sl \<Rightarrow> \<bar>entry_price - sl\<bar> * rr)"

definition find_nearest_bsl_target ::
  "SMCConfig \<Rightarrow> price \<Rightarrow> SwingHigh list \<Rightarrow> price option \<Rightarrow> rat option \<Rightarrow> price option" where
  "find_nearest_bsl_target config entry_price swing_highs stop_loss min_tp_rr =
     (let reward = min_reward config entry_price stop_loss min_tp_rr in
      min_key (\<lambda>p. p) (map sh_price
        (filter (\<lambda>sh. entry_price < sh_price sh \<and> reward \<le> sh_price sh - entry_price) swing_highs)))"

definition find_nearest_ssl_target ::
  "SMCConfig \<Rightarrow> price \<Rightarrow> SwingLow list \<Rightarrow> price option \<Rightarrow> rat option \<Rightarrow> price option" where
  "find_nearest_ssl_target config entry_price swing_lows stop_loss min_tp_rr =
     (let reward = min_reward config entry_price stop_loss min_tp_rr in
      max_key (\<lambda>p. p) (map sl_price
        (filter (\<lambda>sl. sl_price sl < entry_price \<and> reward \<le> entry_price - sl_price sl) swing_lows)))"

definition get_swing_highs_from_sequence :: "CandleSequence \<Rightarrow> SwingHigh list result" where
  "get_swing_highs_from_sequence sequence =
     (let candles = seq_candles sequence in
      collectR (\<lambda>i.
          if c_high (candles ! (i - 1)) < c_high (candles ! i) \<and> c_high (candles ! (i + 1)) < c_high (candles ! i)
          then bindR (mk_SwingHigh (seq_symbol sequence) (seq_timeframe sequence)
                 (c_timestamp (candles ! i)) (c_high (candles ! i)) i 1 1 1 False None) (\<lambda>sh. Inr (Some sh))
          else Inr None)
        [1..<length candles - 1])"

definition get_swing_lows_from_sequence :: "CandleSequence \<Rightarrow> SwingLow list result" where
  "get_swing_lows_from_sequence sequence =
     (let candles = seq_candles sequence in
      collectR (\<lambda>i.
          if c_low (candles ! i) < c_low (candles ! (i - 1)) \<and> c_low (candles ! i) < c_low (candles ! (i + 1))
          then bindR (mk_SwingLow (seq_symbol sequence) (seq_timeframe sequence)
                 (c_timestamp (candles ! i)) (c_low (candles ! i)) i 1 1 1 False None) (\<lambda>sl. Inr (Some sl))
          else Inr None)
        [1..<length candles - 1])"

definition fib_level_str ::
  "SMCConfig \<Rightarrow> price \<Rightarrow> FibonacciRetracement option \<Rightarrow> string option result" where
  "fib_level_str config price retracement =
     bindR (build_fib_context config price retracement) (\<lambda>context.
       Inr (map_option (\<lambda>c. format_3f (fc_percentage c)) context))"

definition build_metadata ::
  "SMCConfig \<Rightarrow> (string \<times> json) list \<Rightarrow> price \<Rightarrow> FibonacciRetracement option \<Rightarrow> LiquiditySweep option \<Rightarrow>
   OrderBlock option \<Rightarrow> (string \<times> json) list result" where
  "build_metadata config base price retracement sweep ob =
     bindR (build_fib_context config price retracement) (\<lambda>fib_context.
       Inr (base @
         (case fib_context of None \<Rightarrow> [] | Some c \<Rightarrow> [(''fib_context'', JObj (fib_context_json c))]) @
         (case build_sweep_context sweep ob of None \<Rightarrow> [] | Some c \<Rightarrow> [(''sweep_context'', JObj c)])))"

definition option_list :: "'a option \<Rightarrow> 'a option list" where
  "option_list x = (case x of None \<Rightarrow> [] | Some y \<Rightarrow> [Some y])"

text \<open>The points of a confluence count that several builders award.\<close>

definition points :: "bool \<Rightarrow> nat" where
  "points b = (if b then 1 else 0)"

definition fib_points :: "nat \<Rightarrow> nat" where
  "fib_points fib_score = (if 3 \<le> fib_score then 2 else if 2 \<le> fib_score then 1 else 0)"

definition strong_displacement :: "SMCConfig \<Rightarrow> OrderBlock \<Rightarrow> bool" where
  "strong_displacement config ob \<longleftrightarrow> 0 < ob_displacement_pips ob \<and>
     sc_bms_strong_displacement_pips config \<le> ob_displacement_pips ob / get_pip_value (ob_symbol ob)"

definition sweep_closed_inside :: "LiquiditySweep option \<Rightarrow> bool" where
  "sweep_closed_inside sweep = (case sweep of None \<Rightarrow> False | Some s \<Rightarrow> ls_closed_back_inside s)"

section \<open>Keyword arguments of a candidate\<close>

text \<open>The groups of arguments that the builders pass for an order block, a break, a gap, a sweep, an
  inducement and the confirmation.\<close>

definition with_ob :: "OrderBlock \<Rightarrow> SMCCandidate \<Rightarrow> SMCCandidate" where
  "with_ob ob c = c\<lparr>cd_order_block_upper := Some (ob_upper_bound ob),
     cd_order_block_lower := Some (ob_lower_bound ob), cd_order_block_timestamp := Some (ob_timestamp ob)\<rparr>"

definition with_bms :: "BreakInMarketStructure \<Rightarrow> SMCCandidate \<Rightarrow> SMCCandidate" where
  "with_bms bms c = c\<lparr>cd_bms_detected := True, cd_bms_price := Some (bms_breakout_price bms),
     cd_bms_timestamp := Some (bms_timestamp bms), cd_displacement_pips := Some (bms_displacement_pips bms)\<rparr>"

definition with_choch :: "bool \<Rightarrow> ChangeOfCharacter option \<Rightarrow> SMCCandidate \<Rightarrow> SMCCandidate" where
  "with_choch detected choch c = c\<lparr>cd_choch_detected := detected,
     cd_choch_price := map_option coc_breakout_price choch, cd_choch_timestamp := map_option coc_timestamp choch\<rparr>"

definition with_fvg :: "FairValueGap option \<Rightarrow> SMCCandidate \<Rightarrow> SMCCandidate" where
  "with_fvg fvg c = c\<lparr>cd_fvg_upper := map_option fvg_upper_bound fvg,
     cd_fvg_lower := map_option fvg_lower_bound fvg, cd_fvg_timestamp := map_option fvg_timestamp fvg\<rparr>"

definition with_sweep :: "LiquiditySweep option \<Rightarrow> SMCCandidate \<Rightarrow> SMCCandidate" where
  "with_sweep sweep c = c\<lparr>cd_liquidity_swept := (sweep \<noteq> None),
     cd_swept_level := map_option ls_swept_level sweep, cd_sweep_timestamp := map_option ls_timestamp sweep\<rparr>"

definition with_idm :: "InducementEvent option \<Rightarrow> SMCCandidate \<Rightarrow> SMCCandidate" where
  "with_idm idm c = c\<lparr>cd_inducement_cleared := (idm \<noteq> None),
     cd_inducement_level := map_option ie_inducement_level idm\<rparr>"

definition with_ltf :: "bool \<Rightarrow> datetime \<Rightarrow> SMCCandidate \<Rightarrow> SMCCandidate" where
  "with_ltf ltf_confirmed timestamp c = c\<lparr>cd_ltf_confirmation := ltf_confirmed,
     cd_ltf_confirmation_timestamp := (if ltf_confirmed then Some timestamp else None)\<rparr>"

text \<open>The last steps of a builder: the Fibonacci text, the metadata and the constructor.\<close>

definition emit_candidate ::
  "SMCConfig \<Rightarrow> (string \<times> json) list \<Rightarrow> price \<Rightarrow> FibonacciRetracement option \<Rightarrow> LiquiditySweep option \<Rightarrow>
   OrderBlock option \<Rightarrow> SMCCandidate \<Rightarrow> SMCCandidate option result" where
  "emit_candidate config base entry_price retracement sweep ob c =
     bindR (fib_level_str config entry_price retracement) (\<lambda>fib_level.
     bindR (build_metadata config base entry_price retracement sweep ob) (\<lambda>metadata.
     bindR (mk_SMCCandidate (c\<lparr>cd_fib_level := fib_level, cd_metadata := metadata\<rparr>)) (\<lambda>candidate.
       Inr (Some candidate))))"

section \<open>Continuation builder\<close>

definition count_confluences ::
  "SMCConfig \<Rightarrow> BreakInMarketStructure \<Rightarrow> BreakInMarketStructure \<Rightarrow> LiquiditySweep option \<Rightarrow>
   ChangeOfCharacter option \<Rightarrow> OrderBlock \<Rightarrow> FairValueGap list \<Rightarrow> FibonacciRetracement option \<Rightarrow>
   InducementEvent list \<Rightarrow> nat result" where
  "count_confluences config htf_bms ltf_bms sweep choch ob fvgs retracement inducement_events =
     bindR (score_ob_fib_confluence config ob retracement) (\<lambda>fib_score.
       Inr (1 + points (bms_confirmed htf_bms) + points (bms_confirmed ltf_bms) +
            points (sweep_closed_inside sweep) + points (choch \<noteq> None) +
            points (list_ex (\<lambda>fvg. fvg_direction fvg = ob_direction ob) fvgs) + fib_points fib_score +
            points (list_ex ie_cleared inducement_events) + points (strong_displacement config ob) +
            points (ob_is_breaker ob)))"

definition build_continuation ::
  "SMCConfig \<Rightarrow> Direction \<Rightarrow> CandleSequence \<Rightarrow> CandleSequence \<Rightarrow> BreakInMarketStructure \<Rightarrow>
   LiquiditySweep option \<Rightarrow> ChangeOfCharacter option \<Rightarrow> BreakInMarketStructure \<Rightarrow> OrderBlock \<Rightarrow>
   FairValueGap list \<Rightarrow> InducementEvent list \<Rightarrow> SMCCandidate option result" where
  "build_continuation config d htf_sequence ltf_sequence htf_bms ltf_sweep ltf_choch ltf_bms ltf_ob
       ltf_fvgs inducement_events =
     (if bms_direction htf_bms \<noteq> d then Inr None
      else if bms_direction ltf_bms \<noteq> d then Inr None
      else if ob_direction ltf_ob \<noteq> d then Inr None
      else bindR (select_leg_for_sh_bms_rto (seq_symbol ltf_sequence) (seq_timeframe ltf_sequence)
              ltf_bms ltf_sweep (d = BULLISH)) (\<lambda>candidate_retracement.
        bindR (validate_all_ob_rules config ltf_ob ltf_fvgs (option_list ltf_sweep) inducement_events
              candidate_retracement ltf_sequence []) (\<lambda>valid.
        if \<not> valid then Inr None
        else bindR (last_candle ltf_sequence) (\<lambda>latest.
        bindR (validate_all_ltf_confirmations config ltf_sweep ltf_choch (Some ltf_bms) (Some ltf_ob)
              inducement_events ltf_sequence (c_close latest) ltf_fvgs) (\<lambda>ltf_confirmed.
        bindR (count_confluences config htf_bms ltf_bms ltf_sweep ltf_choch ltf_ob ltf_fvgs
              candidate_retracement inducement_events) (\<lambda>confluences.
        let entry_price = ob_midpoint ltf_ob;
            stop_loss = builder_stop_loss ltf_ob d
              (map_option (if d = BULLISH then ls_sweep_low else ls_sweep_high) ltf_sweep);
            min_tp_rr = resolve_min_tp_rr (Some (ob_timeframe ltf_ob)) None None
        in bindR (if d = BULLISH
              then bindR (get_swing_highs_from_sequence htf_sequence) (\<lambda>swings.
                Inr (find_nearest_bsl_target config entry_price swings (Some stop_loss) (Some min_tp_rr)))
              else bindR (get_swing_lows_from_sequence htf_sequence) (\<lambda>swings.
                Inr (find_nearest_ssl_target config entry_price swings (Some stop_loss) (Some min_tp_rr))))
          (\<lambda>take_profit.
        let associated_fvg = get_associated_fvg config ltf_ob ltf_fvgs;
            idm = select_relevant_inducement ltf_ob d inducement_events (Some (bms_breakout_price ltf_bms))
        in emit_candidate config [(''confluences'', JNum (of_nat confluences))] entry_price
          candidate_retracement ltf_sweep (Some ltf_ob)
          (with_ob ltf_ob (with_bms ltf_bms (with_choch (ltf_choch \<noteq> None) ltf_choch
            (with_fvg associated_fvg (with_sweep ltf_sweep (with_idm idm
              (with_ltf ltf_confirmed (c_timestamp latest)
                (SMCCandidate_of (seq_symbol ltf_sequence) (seq_timeframe ltf_sequence)
                  (if d = BULLISH then SH_BMS_RTO_BULLISH else SH_BMS_RTO_BEARISH) d
                  (c_timestamp latest) entry_price stop_loss take_profit
                  (seq_timeframe htf_sequence) (seq_timeframe ltf_sequence))))))))))))))))"

definition build_bullish_continuation ::
  "SMCConfig \<Rightarrow> CandleSequence \<Rightarrow> CandleSequence \<Rightarrow> BreakInMarketStructure \<Rightarrow>
   LiquiditySweep option \<Rightarrow> ChangeOfCharacter option \<Rightarrow> BreakInMarketStructure \<Rightarrow> OrderBlock \<Rightarrow>
   FairValueGap list \<Rightarrow> InducementEvent list \<Rightarrow> SMCCandidate option result" where
  "build_bullish_continuation config = build_continuation config BULLISH"

definition build_bearish_continuation ::
  "SMCConfig \<Rightarrow> CandleSequence \<Rightarrow> CandleSequence \<Rightarrow> BreakInMarketStructure \<Rightarrow>
   LiquiditySweep option \<Rightarrow> ChangeOfCharacter option \<Rightarrow> BreakInMarketStructure \<Rightarrow> OrderBlock \<Rightarrow>
   FairValueGap list \<Rightarrow> InducementEvent list \<Rightarrow> SMCCandidate option result" where
  "build_bearish_continuation config = build_continuation config BEARISH"

section \<open>Reversal builder\<close>

definition count_sms_confluences ::
  "SMCConfig \<Rightarrow> ShiftInMarketStructure \<Rightarrow> BreakInMarketStructure \<Rightarrow> ChangeOfCharacter option \<Rightarrow>
   OrderBlock \<Rightarrow> FairValueGap list \<Rightarrow> FibonacciRetracement option \<Rightarrow> InducementEvent list \<Rightarrow>
   nat result" where
  "count_sms_confluences config sms bms choch ob fvgs retracement inducement_events =
     bindR (score_ob_fib_confluence config ob retracement) (\<lambda>fib_score.
       Inr (1 + 1 + points (bms_confirmed bms) + points (choch \<noteq> None) +
            points (list_ex (\<lambda>fvg. fvg_direction fvg = ob_direction ob) fvgs) + fib_points fib_score +
            points (list_ex ie_cleared inducement_events) + points (strong_displacement config ob) +
            points (ob_is_breaker ob)))"

text \<open>The bearish method sets \<^verbatim>\<open>choch_detected\<close> to \<^verbatim>\<open>True\<close> unconditionally.\<close>

definition build_sms_reversal ::
  "SMCConfig \<Rightarrow> Direction \<Rightarrow> CandleSequence \<Rightarrow> CandleSequence \<Rightarrow> ShiftInMarketStructure \<Rightarrow>
   BreakInMarketStructure \<Rightarrow> ChangeOfCharacter option \<Rightarrow> OrderBlock \<Rightarrow> FairValueGap list \<Rightarrow>
   InducementEvent list \<Rightarrow> (price \<Rightarrow> price \<Rightarrow> rat \<Rightarrow> price option) \<Rightarrow> SMCCandidate option result" where
  "build_sms_reversal config d htf_sequence ltf_sequence htf_sms ltf_bms ltf_choch ltf_ob ltf_fvgs
       inducement_events target =
     (if sms_direction htf_sms \<noteq> d then Inr None
      else if bms_direction ltf_bms \<noteq> d then Inr None
      else if ob_direction ltf_ob \<noteq> d then Inr None
      else bindR (select_leg_for_sms_bms_rto (seq_symbol ltf_sequence) (seq_timeframe ltf_sequence)
              htf_sms ltf_bms (d = BULLISH)) (\<lambda>candidate_retracement.
        bindR (validate_all_ob_rules config ltf_ob ltf_fvgs [] inducement_events candidate_retracement
              ltf_sequence []) (\<lambda>valid.
        if \<not> valid then Inr None
        else bindR (last_candle ltf_sequence) (\<lambda>latest.
        bindR (validate_all_ltf_confirmations config None ltf_choch (Some ltf_bms) (Some ltf_ob)
              inducement_events ltf_sequence (c_close latest) ltf_fvgs) (\<lambda>ltf_confirmed.
        bindR (count_sms_confluences config htf_sms ltf_bms ltf_choch ltf_ob ltf_fvgs
              candidate_retracement inducement_events) (\<lambda>confluences.
        let entry_price = ob_midpoint ltf_ob;
            stop_loss = builder_stop_loss ltf_ob d (Some (sms_failed_level htf_sms));
            take_profit = target entry_price stop_loss (resolve_min_tp_rr (Some (ob_timeframe ltf_ob)) None None);
            associated_fvg = get_associated_fvg config ltf_ob ltf_fvgs;
            idm = select_relevant_inducement ltf_ob d inducement_events (Some (bms_breakout_price ltf_bms))
        in emit_candidate config [(''confluences'', JNum (of_nat confluences))] entry_price
          candidate_retracement None None
          ((with_ob ltf_ob (with_bms ltf_bms
            (with_choch (if d = BULLISH then ltf_choch \<noteq> None else True) ltf_choch
            (with_fvg associated_fvg (with_idm idm (with_ltf ltf_confirmed (c_timestamp latest)
                (SMCCandidate_of (seq_symbol ltf_sequence) (seq_timeframe ltf_sequence)
                  (if d = BULLISH then SMS_BMS_RTO_BULLISH else SMS_BMS_RTO_BEARISH) d
                  (c_timestamp latest) entry_price stop_loss take_profit
                  (seq_timeframe htf_sequence) (seq_timeframe ltf_sequence))))))))
              \<lparr>cd_sms_detected := True, cd_sms_price := Some (sms_failed_level htf_sms),
               cd_sms_timestamp := Some (sms_timestamp htf_sms)\<rparr>)))))))"

definition build_bullish_sms_reversal ::
  "SMCConfig \<Rightarrow> CandleSequence \<Rightarrow> CandleSequence \<Rightarrow> ShiftInMarketStructure \<Rightarrow>
   BreakInMarketStructure \<Rightarrow> ChangeOfCharacter option \<Rightarrow> OrderBlock \<Rightarrow> FairValueGap list \<Rightarrow>
   InducementEvent list \<Rightarrow> SwingHigh list \<Rightarrow> SMCCandidate option result" where
  "build_bullish_sms_reversal config htf_sequence ltf_sequence htf_sms ltf_bms ltf_choch ltf_ob
       ltf_fvgs inducement_events swing_highs =
     build_sms_reversal config BULLISH htf_sequence ltf_sequence htf_sms ltf_bms ltf_choch ltf_ob
       ltf_fvgs inducement_events (\<lambda>entry_price stop_loss min_tp_rr.
         find_nearest_bsl_target config entry_price swing_highs (Some stop_loss) (Some min_tp_rr))"

definition build_bearish_sms_reversal ::
  "SMCConfig \<Rightarrow> CandleSequence \<Rightarrow> CandleSequence \<Rightarrow> ShiftInMarketStructure \<Rightarrow>
   BreakInMarketStructure \<Rightarrow> ChangeOfCharacter option \<Rightarrow> OrderBlock \<Rightarrow> FairValueGap list \<Rightarrow>
   InducementEvent list \<Rightarrow> SwingLow list \<Rightarrow> SMCCandidate option result" where
  "build_bearish_sms_reversal config htf_sequence ltf_sequence htf_sms ltf_bms ltf_choch ltf_ob
       ltf_fvgs inducement_events swing_lows =
     build_sms_reversal config BEARISH htf_sequence ltf_sequence htf_sms ltf_bms ltf_choch ltf_ob
       ltf_fvgs inducement_events (\<lambda>entry_price stop_loss min_tp_rr.
         find_nearest_ssl_target config entry_price swing_lows (Some stop_loss) (Some min_tp_rr))"

text \<open>The guards of the turtle soup methods, and the candidate both construct.\<close>

definition turtle_soup_ok :: "SMCConfig \<Rightarrow> CandleSequence \<Rightarrow> LiquiditySweep \<Rightarrow> bool result" where
  "turtle_soup_ok config ltf_sequence sweep =
     (if \<not> ls_closed_back_inside sweep then Inr False
      else if ls_sweep_pips sweep < sc_turtle_soup_min_pips config then Inr False
      else validate_session_timing config ltf_sequence)"

definition turtle_soup_candidate ::
  "CandleSequence \<Rightarrow> LiquiditySweep \<Rightarrow> CandidatePattern \<Rightarrow> Direction \<Rightarrow> price \<Rightarrow> price option \<Rightarrow>
   SMCCandidate option result" where
  "turtle_soup_candidate ltf_sequence sweep pattern direction stop_loss take_profit =
     bindR (mk_SMCCandidate (with_ltf True (ls_timestamp sweep) (with_sweep (Some sweep)
         (SMCCandidate_of (seq_symbol ltf_sequence) (seq_timeframe ltf_sequence) pattern direction
            (ls_timestamp sweep) (ls_swept_level sweep) stop_loss take_profit
            (seq_timeframe ltf_sequence) (seq_timeframe ltf_sequence)))
         \<lparr>cd_metadata := (case build_sweep_context (Some sweep) None of
            None \<Rightarrow> [] | Some c \<Rightarrow> [(''sweep_context'', JObj c)])\<rparr>)) (\<lambda>candidate. Inr (Some candidate))"

definition build_turtle_soup_long ::
  "SMCConfig \<Rightarrow> CandleSequence \<Rightarrow> LiquiditySweep \<Rightarrow> SwingHigh list \<Rightarrow> SMCCandidate option result" where
  "build_turtle_soup_long config ltf_sequence sweep swing_highs =
     bindR (turtle_soup_ok config ltf_sequence sweep) (\<lambda>ok.
       if \<not> ok then Inr None
       else let pip_val = get_pip_value (seq_symbol ltf_sequence);
                structural_sl = compute_structural_stop_loss (seq_symbol ltf_sequence)
                  (seq_timeframe ltf_sequence) BULLISH (ls_sweep_low sweep) None None;
                turtle_min_sl = ls_sweep_low sweep - sc_turtle_soup_min_sl_pips config * pip_val;
                stop_loss = min structural_sl turtle_min_sl;
                take_profit = find_nearest_bsl_target config (ls_swept_level sweep) swing_highs
                  (Some stop_loss) (Some (resolve_min_tp_rr (Some (seq_timeframe ltf_sequence)) None None))
            in turtle_soup_candidate ltf_sequence sweep TURTLE_SOUP_LONG BULLISH stop_loss take_profit)"

definition build_turtle_soup_short ::
  "SMCConfig \<Rightarrow> CandleSequence \<Rightarrow> LiquiditySweep \<Rightarrow> SwingLow list \<Rightarrow> SMCCandidate option result" where
  "build_turtle_soup_short config ltf_sequence sweep swing_lows =
     bindR (turtle_soup_ok config ltf_sequence sweep) (\<lambda>ok.
       if \<not> ok then Inr None
       else let pip_val = get_pip_value (seq_symbol ltf_sequence);
                structural_sl = compute_structural_stop_loss (seq_symbol ltf_sequence)
                  (seq_timeframe ltf_sequence) BEARISH (ls_sweep_high sweep) None None;
                turtle_min_sl = ls_sweep_high sweep + sc_turtle_soup_min_sl_pips config * pip_val;
                stop_loss = max structural_sl turtle_min_sl;
                take_profit = find_nearest_ssl_target config (ls_swept_level sweep) swing_lows
                  (Some stop_loss) (Some (resolve_min_tp_rr (Some (seq_timeframe ltf_sequence)) None None))
            in turtle_soup_candidate ltf_sequence sweep TURTLE_SOUP_SHORT BEARISH stop_loss take_profit)"

section \<open>AMD builder\<close>

definition count_amd_confluences ::
  "SMCConfig \<Rightarrow> AMDContext \<Rightarrow> LiquiditySweep option \<Rightarrow> BreakInMarketStructure \<Rightarrow>
   ChangeOfCharacter option \<Rightarrow> OrderBlock \<Rightarrow> FairValueGap list \<Rightarrow> FibonacciRetracement option \<Rightarrow>
   InducementEvent list \<Rightarrow> nat result" where
  "count_amd_confluences config amd sweep bms choch ob fvgs retracement inducement_events =
     bindR (score_ob_fib_confluence config ob retracement) (\<lambda>fib_score.
       Inr (1 + 1 + points (choch \<noteq> None) + points (sweep_closed_inside sweep) +
            points (list_ex (\<lambda>fvg. fvg_direction fvg = ob_direction ob) fvgs) + fib_points fib_score +
            points (list_ex ie_cleared inducement_events)))"

definition build_amd ::
  "SMCConfig \<Rightarrow> Direction \<Rightarrow> CandleSequence \<Rightarrow> CandleSequence \<Rightarrow> AMDContext \<Rightarrow> LiquiditySweep option \<Rightarrow>
   BreakInMarketStructure \<Rightarrow> ChangeOfCharacter option \<Rightarrow> OrderBlock \<Rightarrow> FairValueGap list \<Rightarrow>
   InducementEvent list \<Rightarrow> (price \<Rightarrow> price \<Rightarrow> rat \<Rightarrow> price option) \<Rightarrow> SMCCandidate option result" where
  "build_amd config d htf_sequence ltf_sequence amd ltf_sweep ltf_bms ltf_choch ltf_ob ltf_fvgs
       inducement_events target =
     (if amd_phase amd \<noteq> DISTRIBUTION then Inr None
      else if amd_distribution_direction amd \<noteq> Some d then Inr None
      else if bms_direction ltf_bms \<noteq> d then Inr None
      else if ob_direction ltf_ob \<noteq> d then Inr None
      else let asian_range = amd_asian_range amd in
        bindR (select_leg_for_amd (seq_symbol ltf_sequence) (seq_timeframe ltf_sequence)
              (map_option dr_high asian_range) (map_option dr_low asian_range)
              (map_option dr_start_time asian_range) (Option.bind asian_range dr_end_time)
              ltf_bms (d = BULLISH)) (\<lambda>candidate_retracement.
        bindR (validate_all_ob_rules config ltf_ob ltf_fvgs (option_list ltf_sweep) inducement_events
              candidate_retracement ltf_sequence []) (\<lambda>valid.
        if \<not> valid then Inr None
        else bindR (last_candle ltf_sequence) (\<lambda>latest.
        bindR (validate_all_ltf_confirmations config ltf_sweep ltf_choch (Some ltf_bms) (Some ltf_ob)
              inducement_events ltf_sequence (c_close latest) ltf_fvgs) (\<lambda>ltf_confirmed.
        bindR (count_amd_confluences config amd ltf_sweep ltf_bms ltf_choch ltf_ob ltf_fvgs
              candidate_retracement inducement_events) (\<lambda>confluences.
        let entry_price = ob_midpoint ltf_ob;
            stop_loss = builder_stop_loss ltf_ob d
              (map_option (if d = BULLISH then dr_low else dr_high) asian_range);
            take_profit = target entry_price stop_loss (resolve_min_tp_rr (Some (ob_timeframe ltf_ob)) None None);
            associated_fvg = get_associated_fvg config ltf_ob ltf_fvgs;
            idm = select_relevant_inducement ltf_ob d inducement_events (Some (bms_breakout_price ltf_bms))
        in emit_candidate config [(''confluences'', JNum (of_nat confluences))] entry_price
          candidate_retracement ltf_sweep (Some ltf_ob)
          ((with_ob ltf_ob (with_bms ltf_bms (with_choch (ltf_choch \<noteq> None) ltf_choch
            (with_fvg associated_fvg (with_sweep ltf_sweep (with_idm idm
              (with_ltf ltf_confirmed (c_timestamp latest)
                (SMCCandidate_of (seq_symbol ltf_sequence) (seq_timeframe ltf_sequence)
                  (if d = BULLISH then AMD_BULLISH else AMD_BEARISH) d
                  (c_timestamp latest) entry_price stop_loss take_profit
                  (seq_timeframe htf_sequence) (seq_timeframe ltf_sequence)))))))))
              \<lparr>cd_session_context := Some ''AMD_DISTRIBUTION''\<rparr>)))))))"

definition build_bullish_amd ::
  "SMCConfig \<Rightarrow> CandleSequence \<Rightarrow> CandleSequence \<Rightarrow> AMDContext \<Rightarrow> LiquiditySweep option \<Rightarrow>
   BreakInMarketStructure \<Rightarrow> ChangeOfCharacter option \<Rightarrow> OrderBlock \<Rightarrow> FairValueGap list \<Rightarrow>
   InducementEvent list \<Rightarrow> SwingHigh list \<Rightarrow> SMCCandidate option result" where
  "build_bullish_amd config htf_sequence ltf_sequence amd ltf_sweep ltf_bms ltf_choch ltf_ob
       ltf_fvgs inducement_events swing_highs =
     build_amd config BULLISH htf_sequence ltf_sequence amd ltf_sweep ltf_bms ltf_choch ltf_ob
       ltf_fvgs inducement_events (\<lambda>entry_price stop_loss min_tp_rr.
         find_nearest_bsl_target config entry_price swing_highs (Some stop_loss) (Some min_tp_rr))"

definition build_bearish_amd ::
  "SMCConfig \<Rightarrow> CandleSequence \<Rightarrow> CandleSequence \<Rightarrow> AMDContext \<Rightarrow> LiquiditySweep option \<Rightarrow>
   BreakInMarketStructure \<Rightarrow> ChangeOfCharacter option \<Rightarrow> OrderBlock \<Rightarrow> FairValueGap list \<Rightarrow>
   InducementEvent list \<Rightarrow> SwingLow list \<Rightarrow> SMCCandidate option result" where
  "build_bearish_amd config htf_sequence ltf_sequence amd ltf_sweep ltf_bms ltf_choch ltf_ob
       ltf_fvgs inducement_events swing_lows =
     build_amd config BEARISH htf_sequence ltf_sequence amd ltf_sweep ltf_bms ltf_choch ltf_ob
       ltf_fvgs inducement_events (\<lambda>entry_price stop_loss min_tp_rr.
         find_nearest_ssl_target config entry_price swing_lows (Some stop_loss) (Some min_tp_rr))"


section \<open>Lemmas\<close>

lemmas with_defs = with_ob_def with_bms_def with_choch_def with_fvg_def with_sweep_def with_idm_def
  with_ltf_def SMCCandidate_of_def

text \<open>The geometry of a trade: the stop is on the losing side of the entry, and a target, when there is
  one, on the winning side at a distance of at least \<open>rr\<close> times the risk.\<close>

definition sound_trade :: "Direction \<Rightarrow> rat \<Rightarrow> price \<Rightarrow> price \<Rightarrow> price option \<Rightarrow> bool" where
  "sound_trade d rr entry sl tp \<longleftrightarrow>
     (case d of
        BULLISH \<Rightarrow> sl < entry \<and> (\<forall>t. tp = Some t \<longrightarrow> entry < t \<and> rr * (entry - sl) \<le> t - entry)
      | BEARISH \<Rightarrow> entry < sl \<and> (\<forall>t. tp = Some t \<longrightarrow> t < entry \<and> rr * (sl - entry) \<le> entry - t)
      | NEUTRAL \<Rightarrow> False)"

lemma bsl_target_spec:
  assumes "find_nearest_bsl_target config entry shs (Some sl) (Some rr) = Some t"
  shows "entry < t \<and> \<bar>entry - sl\<bar> * rr \<le> t - entry \<and> t \<in> sh_price ` set shs \<and>
     (\<forall>h \<in> set shs. entry < sh_price h \<and> \<bar>entry - sl\<bar> * rr \<le> sh_price h - entry \<longrightarrow> t \<le> sh_price h)"
  using min_key_Some [OF assms [unfolded find_nearest_bsl_target_def Let_def]]
  by (auto simp: min_reward_def Let_def)

lemma ssl_target_spec:
  assumes "find_nearest_ssl_target config entry sls (Some sl) (Some rr) = Some t"
  shows "t < entry \<and> \<bar>entry - sl\<bar> * rr \<le> entry - t \<and> t \<in> sl_price ` set sls \<and>
     (\<forall>l \<in> set sls. sl_price l < entry \<and> \<bar>entry - sl\<bar> * rr \<le> entry - sl_price l \<longrightarrow> sl_price l \<le> t)"
  using max_key_Some [OF assms [unfolded find_nearest_ssl_target_def Let_def]]
  by (auto simp: min_reward_def Let_def)

lemma bsl_target_sound:
  "sl < entry \<Longrightarrow> sound_trade BULLISH rr entry sl (find_nearest_bsl_target config entry shs (Some sl) (Some rr))"
  by (auto simp: sound_trade_def mult.commute dest!: bsl_target_spec)

lemma ssl_target_sound:
  "entry < sl \<Longrightarrow> sound_trade BEARISH rr entry sl (find_nearest_ssl_target config entry sls (Some sl) (Some rr))"
  by (auto simp: sound_trade_def mult.commute abs_minus_commute dest!: ssl_target_spec)

lemma stop_loss_inside_floor:
  assumes "ob_edge = Some e"
  shows "compute_structural_stop_loss sy tf BULLISH lvl ob_edge r < e"
    and "e < compute_structural_stop_loss sy tf BEARISH lvl ob_edge r"
  using assms buffer_pos [of sy tf r]
  by (auto simp: compute_structural_stop_loss_def Let_def min_def max_def)

lemma midpoint_inside:
  assumes "wf_zone_bounds (ob_lower_bound ob) (ob_upper_bound ob)"
  shows "ob_lower_bound ob < ob_midpoint ob" "ob_midpoint ob < ob_upper_bound ob" "0 < ob_midpoint ob"
  using assms by (simp_all add: wf_zone_bounds_def ob_midpoint_def)

lemma builder_stop_loss_side:
  assumes "wf_zone_bounds (ob_lower_bound ob) (ob_upper_bound ob)"
  shows "builder_stop_loss ob BULLISH p < ob_midpoint ob" "ob_midpoint ob < builder_stop_loss ob BEARISH p"
proof -
  note m = midpoint_inside [OF assms]
  show "builder_stop_loss ob BULLISH p < ob_midpoint ob"
    using less_trans [OF stop_loss_inside_floor(1) [OF refl] m(1)] by (simp add: builder_stop_loss_def Let_def)
  show "ob_midpoint ob < builder_stop_loss ob BEARISH p"
    using less_trans [OF m(2) stop_loss_inside_floor(2) [OF refl]] by (simp add: builder_stop_loss_def Let_def)
qed

lemma resolve_timeframe: "resolve_min_tp_rr (Some tf) None None = timeframe_min_tp_rr tf"
  by (simp add: resolve_min_tp_rr_def)

lemma zone_rules_fresh:
  "validate_all_ob_rules config ob fvgs sweeps idms retracement s others = Inr True \<Longrightarrow>
     validate_zone_freshness ob s"
  by (simp add: validate_all_ob_rules_def Let_def)

lemma confirmations_need:
  "validate_all_ltf_confirmations config sweep choch (Some bms) (Some ob) idms s p fvgs = Inr True \<Longrightarrow>
     sweep \<noteq> None \<and> choch \<noteq> None \<and> bms_timestamp bms < ob_timestamp ob"
  by (auto simp: validate_all_ltf_confirmations_def Let_def validate_liquidity_taken_def
      validate_choch_present_def validate_rto_to_ob_def split: option.splits if_splits)

text \<open>What every candidate built on a return to an order block has.\<close>

definition rto_candidate ::
  "Direction \<Rightarrow> rat \<Rightarrow> CandleSequence \<Rightarrow> OrderBlock \<Rightarrow> BreakInMarketStructure \<Rightarrow> LiquiditySweep option \<Rightarrow>
   SMCCandidate \<Rightarrow> bool" where
  "rto_candidate d rr ltf ob bms sweep c \<longleftrightarrow> cd_direction c = d \<and> smc_fields_ok c \<and>
     cd_entry_price c = ob_midpoint ob \<and> validate_zone_freshness ob ltf \<and>
     sound_trade d rr (cd_entry_price c) (cd_stop_loss c) (cd_take_profit c) \<and>
     (cd_ltf_confirmation c \<longrightarrow> sweep \<noteq> None \<and> bms_timestamp bms < ob_timestamp ob)"


lemma emit_fields:
  assumes "emit_candidate config base p r sweep ob c = Inr (Some x)"
  shows "smc_fields_ok x \<and> cd_direction x = cd_direction c \<and> cd_pattern x = cd_pattern c \<and>
    cd_entry_price x = cd_entry_price c \<and> cd_stop_loss x = cd_stop_loss c \<and>
    cd_take_profit x = cd_take_profit c \<and> cd_ltf_confirmation x = cd_ltf_confirmation c \<and>
    cd_choch_detected x = cd_choch_detected c \<and> cd_choch_price x = cd_choch_price c"
  using assms by (auto simp: emit_candidate_def mk_SMCCandidate_Inr smc_fields_ok_def)

lemma emit_some: "emit_candidate config base p r sweep ob c \<noteq> Inr None"
  by (auto simp: emit_candidate_def)

lemma build_continuation_shape:
  assumes b: "build_continuation config d htf ltf htf_bms sweep choch bms ob fvgs idms = Inr (Some c)"
    and d: "d = BULLISH \<or> d = BEARISH" and ob: "wf_zone_bounds (ob_lower_bound ob) (ob_upper_bound ob)"
  shows "rto_candidate d (timeframe_min_tp_rr (ob_timeframe ob)) ltf ob bms sweep c \<and>
     cd_pattern c \<in> {SH_BMS_RTO_BULLISH, SH_BMS_RTO_BEARISH}"
  using d
proof
  assume d: "d = BULLISH"
  show ?thesis
    using b unfolding build_continuation_def Let_def resolve_timeframe d
    by (auto simp: rto_candidate_def with_defs bsl_target_sound builder_stop_loss_side [OF ob]
        split: if_splits dest!: emit_fields zone_rules_fresh confirmations_need)
next
  assume d: "d = BEARISH"
  show ?thesis
    using b unfolding build_continuation_def Let_def resolve_timeframe d
    by (auto simp: rto_candidate_def with_defs ssl_target_sound builder_stop_loss_side [OF ob]
        split: if_splits dest!: emit_fields zone_rules_fresh confirmations_need)
qed

lemma build_sms_reversal_shape:
  assumes b: "build_sms_reversal config d htf ltf sms bms choch ob fvgs idms target = Inr (Some c)"
    and d: "d = BULLISH \<or> d = BEARISH" and ob: "wf_zone_bounds (ob_lower_bound ob) (ob_upper_bound ob)"
    and t: "\<And>sl. (if d = BULLISH then sl < ob_midpoint ob else ob_midpoint ob < sl) \<Longrightarrow>
      sound_trade d (timeframe_min_tp_rr (ob_timeframe ob)) (ob_midpoint ob) sl
        (target (ob_midpoint ob) sl (timeframe_min_tp_rr (ob_timeframe ob)))"
  shows "rto_candidate d (timeframe_min_tp_rr (ob_timeframe ob)) ltf ob bms None c \<and>
     cd_pattern c \<in> {SMS_BMS_RTO_BULLISH, SMS_BMS_RTO_BEARISH} \<and> cd_choch_price c = map_option coc_breakout_price choch \<and>
     cd_choch_detected c = (d \<noteq> BULLISH \<or> choch \<noteq> None)"
proof -
  have trade: "sound_trade d (timeframe_min_tp_rr (ob_timeframe ob)) (ob_midpoint ob) (builder_stop_loss ob d p)
      (target (ob_midpoint ob) (builder_stop_loss ob d p) (timeframe_min_tp_rr (ob_timeframe ob)))" for p
    using d builder_stop_loss_side [OF ob] by (intro t) auto
  from d show ?thesis
  proof
    assume d: "d = BULLISH"
    show ?thesis
      using b unfolding build_sms_reversal_def Let_def resolve_timeframe d
      by (auto simp: rto_candidate_def with_defs trade [unfolded d]
          split: if_splits dest!: emit_fields zone_rules_fresh confirmations_need)
  next
    assume d: "d = BEARISH"
    show ?thesis
      using b unfolding build_sms_reversal_def Let_def resolve_timeframe d
      by (auto simp: rto_candidate_def with_defs trade [unfolded d]
          split: if_splits dest!: emit_fields zone_rules_fresh confirmations_need)
  qed
qed

lemma build_amd_shape:
  assumes b: "build_amd config d htf ltf amd sweep bms choch ob fvgs idms target = Inr (Some c)"
    and d: "d = BULLISH \<or> d = BEARISH" and ob: "wf_zone_bounds (ob_lower_bound ob) (ob_upper_bound ob)"
    and t: "\<And>sl. (if d = BULLISH then sl < ob_midpoint ob else ob_midpoint ob < sl) \<Longrightarrow>
      sound_trade d (timeframe_min_tp_rr (ob_timeframe ob)) (ob_midpoint ob) sl
        (target (ob_midpoint ob) sl (timeframe_min_tp_rr (ob_timeframe ob)))"
  shows "rto_candidate d (timeframe_min_tp_rr (ob_timeframe ob)) ltf ob bms sweep c \<and>
     cd_pattern c \<in> {AMD_BULLISH, AMD_BEARISH} \<and> amd_phase amd = DISTRIBUTION \<and>
     amd_distribution_direction amd = Some d"
proof -
  have trade: "sound_trade d (timeframe_min_tp_rr (ob_timeframe ob)) (ob_midpoint ob) (builder_stop_loss ob d p)
      (target (ob_midpoint ob) (builder_stop_loss ob d p) (timeframe_min_tp_rr (ob_timeframe ob)))" for p
    using d builder_stop_loss_side [OF ob] by (intro t) auto
  from d show ?thesis
  proof
    assume d: "d = BULLISH"
    show ?thesis
      using b unfolding build_amd_def Let_def resolve_timeframe d
      by (auto simp: rto_candidate_def with_defs trade [unfolded d]
          split: if_splits dest!: emit_fields zone_rules_fresh confirmations_need)
  next
    assume d: "d = BEARISH"
    show ?thesis
      using b unfolding build_amd_def Let_def resolve_timeframe d
      by (auto simp: rto_candidate_def with_defs trade [unfolded d]
          split: if_splits dest!: emit_fields zone_rules_fresh confirmations_need)
  qed
qed

lemma turtle_soup_candidate_fields:
  assumes "turtle_soup_candidate ltf sweep pattern d sl tp = Inr (Some c)"
  shows "smc_fields_ok c \<and> cd_direction c = d \<and> cd_pattern c = pattern \<and> cd_entry_price c = ls_swept_level sweep \<and>
     cd_stop_loss c = sl \<and> cd_take_profit c = tp"
  using assms by (auto simp: turtle_soup_candidate_def mk_SMCCandidate_Inr with_defs smc_fields_ok_def)

lemma turtle_long_shape:
  assumes b: "build_turtle_soup_long config ltf sweep shs = Inr (Some c)"
    and "ls_sweep_low sweep < ls_swept_level sweep"
  shows "smc_fields_ok c \<and> cd_direction c = BULLISH \<and> cd_pattern c = TURTLE_SOUP_LONG \<and>
     sound_trade BULLISH (timeframe_min_tp_rr (seq_timeframe ltf)) (cd_entry_price c) (cd_stop_loss c)
       (cd_take_profit c)"
proof -
  have "compute_structural_stop_loss sy tf BULLISH lvl None None < lvl" for sy tf lvl
    using buffer_pos [of sy tf None] by (simp add: compute_structural_stop_loss_def Let_def)
  then have "min (compute_structural_stop_loss sy tf BULLISH (ls_sweep_low sweep) None None) y < ls_swept_level sweep" for sy tf y
    using assms(2) by (meson less_trans min_less_iff_disj)
  then show ?thesis
    using b unfolding build_turtle_soup_long_def Let_def resolve_timeframe
    by (auto simp: bsl_target_sound split: if_splits dest!: turtle_soup_candidate_fields)
qed

lemma turtle_short_shape:
  assumes b: "build_turtle_soup_short config ltf sweep sls = Inr (Some c)"
    and "ls_swept_level sweep < ls_sweep_high sweep"
  shows "smc_fields_ok c \<and> cd_direction c = BEARISH \<and> cd_pattern c = TURTLE_SOUP_SHORT \<and>
     sound_trade BEARISH (timeframe_min_tp_rr (seq_timeframe ltf)) (cd_entry_price c) (cd_stop_loss c)
       (cd_take_profit c)"
proof -
  have "lvl < compute_structural_stop_loss sy tf BEARISH lvl None None" for sy tf lvl
    using buffer_pos [of sy tf None] by (simp add: compute_structural_stop_loss_def Let_def)
  then have "ls_swept_level sweep < max (compute_structural_stop_loss sy tf BEARISH (ls_sweep_high sweep) None None) y" for sy tf y
    using assms(2) by (meson less_trans less_max_iff_disj)
  then show ?thesis
    using b unfolding build_turtle_soup_short_def Let_def resolve_timeframe
    by (auto simp: ssl_target_sound split: if_splits dest!: turtle_soup_candidate_fields)
qed

end
