(* ===== verification/SmcDetector.thy ===== *)
theory SmcDetector
  imports SmcBuilders
begin

text \<open>
  The SMC orchestration of \<^verbatim>\<open>engine/ta/smc/detector.py\<close>: it runs every detector on the higher and
  the lower timeframe and hands their events to the builders. The bullish and the bearish half of a
  method run the same loops; the half is written once with the direction as an argument. A loop that
  appends the candidates it builds is \<^const>\<open>collectR\<close>, and \<^verbatim>\<open>candidates.extend\<close> is
  \<^const>\<open>concatR\<close>.
\<close>

record SMCDetector =
  smc_config :: SMCConfig
  smc_swing_analyzer :: SwingAnalyzer
  smc_sweep_analyzer :: SweepAnalyzer
  smc_dealing_range_analyzer :: DealingRangeAnalyzer

section \<open>Helpers\<close>

definition sweep_matches :: "Direction \<Rightarrow> LiquiditySweep \<Rightarrow> bool" where
  "sweep_matches direction sweep \<longleftrightarrow>
     direction = BULLISH \<and> ls_liquidity_type sweep \<in> {SSL, EQUAL_LOWS, PDL_SWEEP} \<or>
     direction = BEARISH \<and> ls_liquidity_type sweep \<in> {BSL, EQUAL_HIGHS, PDH_SWEEP}"

definition find_relevant_sweep ::
  "SMCConfig \<Rightarrow> LiquiditySweep list \<Rightarrow> Direction \<Rightarrow> BreakInMarketStructure \<Rightarrow> LiquiditySweep option" where
  "find_relevant_sweep config sweeps direction bms =
     (let max_distance = int (sc_sweep_max_candle_distance config) in
      fst (foldl (\<lambda>(best_sweep, best_distance) sweep.
          let distance = \<bar>int (ls_candle_index sweep) - int (bms_candle_index bms)\<bar> in
          if max_distance < distance then (best_sweep, best_distance)
          else if sweep_matches direction sweep \<and> distance < best_distance then (Some sweep, distance)
          else (best_sweep, best_distance)) (None, max_distance + 1) sweeps))"

definition find_bsl_target :: "price \<Rightarrow> SwingHigh list \<Rightarrow> rat \<Rightarrow> price option" where
  "find_bsl_target entry_price swing_highs reward =
     min_key (\<lambda>p. p) (map sh_price
       (filter (\<lambda>sh. entry_price < sh_price sh \<and> reward \<le> sh_price sh - entry_price) swing_highs))"

definition find_ssl_target :: "price \<Rightarrow> SwingLow list \<Rightarrow> rat \<Rightarrow> price option" where
  "find_ssl_target entry_price swing_lows reward =
     max_key (\<lambda>p. p) (map sl_price
       (filter (\<lambda>sl. sl_price sl < entry_price \<and> reward \<le> entry_price - sl_price sl) swing_lows))"

text \<open>The order block method of a direction.\<close>

definition detect_ob ::
  "SMCConfig \<Rightarrow> Direction \<Rightarrow> CandleSequence \<Rightarrow> BreakInMarketStructure \<Rightarrow> OrderBlock option result" where
  "detect_ob config d sequence bms =
     (if d = BULLISH then detect_bullish_ob config sequence bms else detect_bearish_ob config sequence bms)"

text \<open>\<^verbatim>\<open>ob = ...; if not ob: continue; candidate = ...\<close>: skip when there is no order block.\<close>

definition on_ob ::
  "OrderBlock option result \<Rightarrow> (OrderBlock \<Rightarrow> SMCCandidate option result) \<Rightarrow> SMCCandidate option result" where
  "on_ob r f = bindR r (\<lambda>ob. case ob of None \<Rightarrow> Inr None | Some z \<Rightarrow> f z)"

section \<open>CHoCH candidates\<close>

definition count_choch_confluences ::
  "SMCConfig \<Rightarrow> ChangeOfCharacter \<Rightarrow> BreakInMarketStructure \<Rightarrow> ChangeOfCharacter option \<Rightarrow>
   LiquiditySweep option \<Rightarrow> OrderBlock \<Rightarrow> FairValueGap list \<Rightarrow> FibonacciRetracement option \<Rightarrow>
   InducementEvent list \<Rightarrow> nat result" where
  "count_choch_confluences config htf_choch ltf_bms ltf_choch ltf_sweep ob fvgs retracement
       inducement_events =
     bindR (score_ob_fib_confluence config ob retracement) (\<lambda>fib_score.
       Inr (1 + points (\<not> coc_is_minor htf_choch) + 1 + points (bms_confirmed ltf_bms) +
            points (ltf_choch \<noteq> None) + points (sweep_closed_inside ltf_sweep) +
            points (list_ex (\<lambda>fvg. fvg_direction fvg = ob_direction ob) fvgs) + fib_points fib_score +
            points (list_ex ie_cleared inducement_events) + points (strong_displacement config ob) +
            points (ob_is_breaker ob)))"

definition build_choch_candidate ::
  "SMCConfig \<Rightarrow> CandleSequence \<Rightarrow> CandleSequence \<Rightarrow> ChangeOfCharacter \<Rightarrow> BreakInMarketStructure \<Rightarrow>
   ChangeOfCharacter option \<Rightarrow> LiquiditySweep option \<Rightarrow> OrderBlock \<Rightarrow> FairValueGap list \<Rightarrow>
   InducementEvent list \<Rightarrow> Direction \<Rightarrow> SwingHigh list \<Rightarrow> SwingLow list \<Rightarrow>
   SMCCandidate option result" where
  "build_choch_candidate config htf_sequence ltf_sequence htf_choch ltf_bms ltf_choch ltf_sweep ob
       ltf_fvgs inducement_events direction swing_highs swing_lows =
     bindR (select_leg_for_choch_bms_rto (seq_symbol ltf_sequence) (seq_timeframe ltf_sequence)
           htf_choch (direction = BULLISH)) (\<lambda>candidate_retracement.
     bindR (validate_all_ob_rules config ob ltf_fvgs (option_list ltf_sweep) inducement_events
           candidate_retracement ltf_sequence []) (\<lambda>valid.
     if \<not> valid then Inr None
     else bindR (last_candle ltf_sequence) (\<lambda>latest.
     bindR (validate_all_ltf_confirmations config ltf_sweep ltf_choch (Some ltf_bms) (Some ob)
           inducement_events ltf_sequence (c_close latest) ltf_fvgs) (\<lambda>ltf_confirmed.
     bindR (count_choch_confluences config htf_choch ltf_bms ltf_choch ltf_sweep ob ltf_fvgs
           candidate_retracement inducement_events) (\<lambda>confluences.
     let entry_price = ob_midpoint ob;
         stop_loss = (if direction = BULLISH
           then compute_structural_stop_loss (seq_symbol ltf_sequence) (seq_timeframe ltf_sequence)
                  BULLISH (coc_broken_level htf_choch) (Some (ob_lower_bound ob)) None
           else compute_structural_stop_loss (seq_symbol ltf_sequence) (seq_timeframe ltf_sequence)
                  BEARISH (coc_broken_level htf_choch) (Some (ob_upper_bound ob)) None);
         reward = \<bar>entry_price - stop_loss\<bar> *
           resolve_min_tp_rr (Some (seq_timeframe ltf_sequence)) None None;
         take_profit = (if direction = BULLISH then find_bsl_target entry_price swing_highs reward
           else find_ssl_target entry_price swing_lows reward);
         idm = select_relevant_inducement ob direction inducement_events (Some (bms_breakout_price ltf_bms))
     in emit_candidate config
          [(''confluences'', JNum (of_nat confluences)), (''htf_choch_is_minor'', JBool (coc_is_minor htf_choch))]
          entry_price candidate_retracement ltf_sweep (Some ob)
          (with_ob ob (with_bms ltf_bms (with_choch True (Some htf_choch) (with_sweep ltf_sweep (with_idm idm
            (with_ltf ltf_confirmed (c_timestamp latest)
              (SMCCandidate_of (seq_symbol ltf_sequence) (seq_timeframe ltf_sequence)
                (if direction = BULLISH then CHOCH_BMS_RTO_BULLISH else CHOCH_BMS_RTO_BEARISH)
                direction (c_timestamp latest) entry_price stop_loss take_profit
                (seq_timeframe htf_sequence) (seq_timeframe ltf_sequence)))))))))))))"

text \<open>The bms events of a direction on a sequence, from its own swings.\<close>

definition detect_own_bms ::
  "SMCDetector \<Rightarrow> Direction \<Rightarrow> CandleSequence \<Rightarrow> BreakInMarketStructure list result" where
  "detect_own_bms self d sequence =
     (if d = BULLISH
      then bindR (detect_swing_highs (smc_swing_analyzer self) sequence)
             (detect_bullish_bms (smc_config self) sequence)
      else bindR (detect_swing_lows (smc_swing_analyzer self) sequence)
             (detect_bearish_bms (smc_config self) sequence))"

definition choch_reversal_side ::
  "SMCDetector \<Rightarrow> Direction \<Rightarrow> CandleSequence \<Rightarrow> CandleSequence \<Rightarrow> ChangeOfCharacter list \<Rightarrow>
   BreakInMarketStructure list \<Rightarrow> ChangeOfCharacter list \<Rightarrow> FairValueGap list \<Rightarrow> InducementEvent list \<Rightarrow>
   LiquiditySweep list \<Rightarrow> SwingHigh list \<Rightarrow> SwingLow list \<Rightarrow> SMCCandidate list result" where
  "choch_reversal_side self d htf_sequence ltf_sequence htf_choch ltf_bms_list ltf_chochs ltf_fvgs
       inducement_events sweeps swing_highs swing_lows =
     (let config = smc_config self in
      case get_latest_choch htf_choch of
        None \<Rightarrow> Inr []
      | Some latest_htf_choch \<Rightarrow> concatR
          [collectR (\<lambda>ltf_bms. on_ob (detect_ob config d ltf_sequence ltf_bms) (\<lambda>ltf_ob.
               build_choch_candidate config htf_sequence ltf_sequence latest_htf_choch ltf_bms
                 (get_latest_choch ltf_chochs) (find_relevant_sweep config sweeps d ltf_bms) ltf_ob
                 ltf_fvgs inducement_events d swing_highs swing_lows)) ltf_bms_list,
           if ltf_bms_list \<noteq> [] then Inr []
           else bindR (detect_own_bms self d htf_sequence) (\<lambda>htf_bms_from_choch.
             case get_latest_bms htf_bms_from_choch of
               None \<Rightarrow> Inr []
             | Some latest_htf_bms \<Rightarrow>
                 collectR (\<lambda>_. on_ob (detect_ob config d htf_sequence latest_htf_bms) (\<lambda>htf_ob.
                   build_choch_candidate config htf_sequence ltf_sequence latest_htf_choch
                     latest_htf_bms None None htf_ob ltf_fvgs inducement_events d swing_highs swing_lows))
                   [()])])"

definition build_choch_reversal_candidates ::
  "SMCDetector \<Rightarrow> CandleSequence \<Rightarrow> CandleSequence \<Rightarrow> ChangeOfCharacter list \<Rightarrow> ChangeOfCharacter list \<Rightarrow>
   BreakInMarketStructure list \<Rightarrow> BreakInMarketStructure list \<Rightarrow> ChangeOfCharacter list \<Rightarrow>
   ChangeOfCharacter list \<Rightarrow> FairValueGap list \<Rightarrow> InducementEvent list \<Rightarrow> LiquiditySweep list \<Rightarrow>
   SwingHigh list \<Rightarrow> SwingLow list \<Rightarrow> SMCCandidate list result" where
  "build_choch_reversal_candidates self htf_sequence ltf_sequence htf_choch_bullish htf_choch_bearish
       ltf_bms_bullish ltf_bms_bearish ltf_choch_bullish ltf_choch_bearish ltf_fvgs inducement_events
       sweeps ltf_swing_highs ltf_swing_lows =
     concatR
       [choch_reversal_side self BULLISH htf_sequence ltf_sequence htf_choch_bullish ltf_bms_bullish
          ltf_choch_bullish ltf_fvgs inducement_events sweeps ltf_swing_highs ltf_swing_lows,
        choch_reversal_side self BEARISH htf_sequence ltf_sequence htf_choch_bearish ltf_bms_bearish
          ltf_choch_bearish ltf_fvgs inducement_events sweeps ltf_swing_highs ltf_swing_lows]"

section \<open>Continuation candidates\<close>

definition continuation_side ::
  "SMCConfig \<Rightarrow> Direction \<Rightarrow> CandleSequence \<Rightarrow> CandleSequence \<Rightarrow> BreakInMarketStructure list \<Rightarrow>
   BreakInMarketStructure list \<Rightarrow> ChangeOfCharacter list \<Rightarrow> FairValueGap list \<Rightarrow> InducementEvent list \<Rightarrow>
   LiquiditySweep list \<Rightarrow> SMCCandidate list result" where
  "continuation_side config d htf_sequence ltf_sequence htf_bms_list ltf_bms_list ltf_chochs ltf_fvgs
       inducement_events sweeps =
     (case get_latest_bms htf_bms_list of
        None \<Rightarrow> Inr []
      | Some latest_htf_bms \<Rightarrow> concatR
          [collectR (\<lambda>htf_bms. on_ob (detect_ob config d htf_sequence htf_bms) (\<lambda>htf_ob.
               build_continuation config d htf_sequence ltf_sequence latest_htf_bms
                 (find_relevant_sweep config sweeps d htf_bms) (get_latest_choch ltf_chochs) htf_bms
                 htf_ob ltf_fvgs inducement_events)) htf_bms_list,
           collectR (\<lambda>ltf_bms. on_ob (detect_ob config d ltf_sequence ltf_bms) (\<lambda>ltf_ob.
               build_continuation config d htf_sequence ltf_sequence latest_htf_bms
                 (find_relevant_sweep config sweeps d ltf_bms) (get_latest_choch ltf_chochs) ltf_bms
                 ltf_ob ltf_fvgs inducement_events)) ltf_bms_list,
           collectR (\<lambda>ltf_choch_event. on_ob (detect_ob_from_choch ltf_sequence ltf_choch_event)
               (\<lambda>choch_ob. if ob_direction choch_ob \<noteq> d then Inr None
                 else build_continuation config d htf_sequence ltf_sequence latest_htf_bms
                   (find_relevant_sweep config sweeps d latest_htf_bms) (Some ltf_choch_event)
                   latest_htf_bms choch_ob ltf_fvgs inducement_events)) ltf_chochs])"

definition build_continuation_candidates ::
  "SMCConfig \<Rightarrow> CandleSequence \<Rightarrow> CandleSequence \<Rightarrow> BreakInMarketStructure list \<Rightarrow>
   BreakInMarketStructure list \<Rightarrow> BreakInMarketStructure list \<Rightarrow> BreakInMarketStructure list \<Rightarrow>
   ChangeOfCharacter list \<Rightarrow> ChangeOfCharacter list \<Rightarrow> FairValueGap list \<Rightarrow> InducementEvent list \<Rightarrow>
   LiquiditySweep list \<Rightarrow> SMCCandidate list result" where
  "build_continuation_candidates config htf_sequence ltf_sequence htf_bms_bullish htf_bms_bearish
       ltf_bms_bullish ltf_bms_bearish ltf_choch_bullish ltf_choch_bearish ltf_fvgs inducement_events
       sweeps =
     concatR
       [continuation_side config BULLISH htf_sequence ltf_sequence htf_bms_bullish ltf_bms_bullish
          ltf_choch_bullish ltf_fvgs inducement_events sweeps,
        continuation_side config BEARISH htf_sequence ltf_sequence htf_bms_bearish ltf_bms_bearish
          ltf_choch_bearish ltf_fvgs inducement_events sweeps]"

section \<open>Reversal candidates\<close>

definition sms_coherence_window :: "SMCConfig \<Rightarrow> CandleSequence \<Rightarrow> int" where
  "sms_coherence_window config htf_sequence =
     tf_minutes (seq_timeframe htf_sequence) * int (sc_sms_max_ob_candle_distance config) * 60"

text \<open>\<open>build\<close> is the reversal builder's method of the direction.\<close>

definition reversal_side ::
  "SMCDetector \<Rightarrow> Direction \<Rightarrow> CandleSequence \<Rightarrow> CandleSequence \<Rightarrow> ShiftInMarketStructure list \<Rightarrow>
   BreakInMarketStructure list \<Rightarrow> ChangeOfCharacter list \<Rightarrow>
   (ShiftInMarketStructure \<Rightarrow> BreakInMarketStructure \<Rightarrow> ChangeOfCharacter option \<Rightarrow> OrderBlock \<Rightarrow>
      SMCCandidate option result) \<Rightarrow> SMCCandidate list result" where
  "reversal_side self d htf_sequence ltf_sequence htf_sms_list ltf_bms_list ltf_chochs build =
     (let config = smc_config self; window = sms_coherence_window config htf_sequence in
      case get_latest_sms htf_sms_list of
        None \<Rightarrow> Inr []
      | Some latest_htf_sms \<Rightarrow> concatR
          [collectR (\<lambda>ltf_bms. on_ob (detect_ob config d ltf_sequence ltf_bms) (\<lambda>ltf_ob.
               if window < \<bar>ob_timestamp ltf_ob - sms_timestamp latest_htf_sms\<bar> then Inr None
               else build latest_htf_sms ltf_bms (get_latest_choch ltf_chochs) ltf_ob)) ltf_bms_list,
           if ltf_bms_list \<noteq> [] then Inr []
           else collectR (\<lambda>_. bindR (detect_own_bms self d htf_sequence) (\<lambda>htf_bms_from_sms.
               case get_latest_bms htf_bms_from_sms of
                 None \<Rightarrow> Inr None
               | Some latest_htf_bms \<Rightarrow>
                   on_ob (detect_ob config d htf_sequence latest_htf_bms) (\<lambda>htf_ob.
                     if window < \<bar>ob_timestamp htf_ob - sms_timestamp latest_htf_sms\<bar> then Inr None
                     else build latest_htf_sms latest_htf_bms None htf_ob))) htf_sms_list])"

definition build_reversal_candidates ::
  "SMCDetector \<Rightarrow> CandleSequence \<Rightarrow> CandleSequence \<Rightarrow> ShiftInMarketStructure list \<Rightarrow>
   ShiftInMarketStructure list \<Rightarrow> BreakInMarketStructure list \<Rightarrow> BreakInMarketStructure list \<Rightarrow>
   ChangeOfCharacter list \<Rightarrow> ChangeOfCharacter list \<Rightarrow> FairValueGap list \<Rightarrow> InducementEvent list \<Rightarrow>
   SwingHigh list \<Rightarrow> SwingLow list \<Rightarrow> SMCCandidate list result" where
  "build_reversal_candidates self htf_sequence ltf_sequence htf_sms_bullish htf_sms_bearish
       ltf_bms_bullish ltf_bms_bearish ltf_choch_bullish ltf_choch_bearish ltf_fvgs inducement_events
       ltf_swing_highs ltf_swing_lows =
     concatR
       [reversal_side self BULLISH htf_sequence ltf_sequence htf_sms_bullish ltf_bms_bullish
          ltf_choch_bullish (\<lambda>sms bms choch ob.
            build_bullish_sms_reversal (smc_config self) htf_sequence ltf_sequence sms bms choch ob
              ltf_fvgs inducement_events ltf_swing_highs),
        reversal_side self BEARISH htf_sequence ltf_sequence htf_sms_bearish ltf_bms_bearish
          ltf_choch_bearish (\<lambda>sms bms choch ob.
            build_bearish_sms_reversal (smc_config self) htf_sequence ltf_sequence sms bms choch ob
              ltf_fvgs inducement_events ltf_swing_lows)]"

section \<open>Turtle soup and AMD candidates\<close>

definition build_turtle_soup_candidates ::
  "SMCConfig \<Rightarrow> CandleSequence \<Rightarrow> LiquiditySweep list \<Rightarrow> LiquiditySweep list \<Rightarrow> SwingHigh list \<Rightarrow>
   SwingLow list \<Rightarrow> SMCCandidate list result" where
  "build_turtle_soup_candidates config ltf_sequence turtle_soup_long turtle_soup_short ltf_swing_highs
       ltf_swing_lows =
     (let candidate = (\<lambda>latest build. case latest of None \<Rightarrow> Inr None | Some sweep \<Rightarrow> build sweep) in
      collectR (\<lambda>r. r)
        [candidate (max_key ls_timestamp turtle_soup_long)
           (\<lambda>sweep. build_turtle_soup_long config ltf_sequence sweep ltf_swing_highs),
         candidate (max_key ls_timestamp turtle_soup_short)
           (\<lambda>sweep. build_turtle_soup_short config ltf_sequence sweep ltf_swing_lows)])"

definition build_amd_candidates ::
  "SMCConfig \<Rightarrow> CandleSequence \<Rightarrow> CandleSequence \<Rightarrow> AMDContext \<Rightarrow> BreakInMarketStructure list \<Rightarrow>
   BreakInMarketStructure list \<Rightarrow> ChangeOfCharacter list \<Rightarrow> ChangeOfCharacter list \<Rightarrow>
   FairValueGap list \<Rightarrow> InducementEvent list \<Rightarrow> LiquiditySweep list \<Rightarrow> SwingHigh list \<Rightarrow> SwingLow list \<Rightarrow>
   SMCCandidate list result" where
  "build_amd_candidates config htf_sequence ltf_sequence amd ltf_bms_bullish ltf_bms_bearish
       ltf_choch_bullish ltf_choch_bearish ltf_fvgs inducement_events sweeps ltf_swing_highs
       ltf_swing_lows =
     (if amd_distribution_direction amd = Some BULLISH
      then collectR (\<lambda>ltf_bms. on_ob (detect_bullish_ob config ltf_sequence ltf_bms) (\<lambda>ltf_ob.
          build_bullish_amd config htf_sequence ltf_sequence amd
            (find_relevant_sweep config sweeps BULLISH ltf_bms) ltf_bms
            (get_latest_choch ltf_choch_bullish) ltf_ob ltf_fvgs inducement_events ltf_swing_highs))
        ltf_bms_bullish
      else if amd_distribution_direction amd = Some BEARISH
      then collectR (\<lambda>ltf_bms. on_ob (detect_bearish_ob config ltf_sequence ltf_bms) (\<lambda>ltf_ob.
          build_bearish_amd config htf_sequence ltf_sequence amd
            (find_relevant_sweep config sweeps BEARISH ltf_bms) ltf_bms
            (get_latest_choch ltf_choch_bearish) ltf_ob ltf_fvgs inducement_events ltf_swing_lows))
        ltf_bms_bearish
      else Inr [])"

section \<open>Detection\<close>

definition smc_detect_patterns ::
  "SMCDetector \<Rightarrow> CandleSequence \<Rightarrow> CandleSequence \<Rightarrow> SMCCandidate list result" where
  "smc_detect_patterns self htf_sequence ltf_sequence =
     (let config = smc_config self; swings = smc_swing_analyzer self; sweeper = smc_sweep_analyzer self in
      if \<not> sc_enabled config then Inr []
      else
        bindR (detect_swing_highs swings htf_sequence) (\<lambda>htf_swing_highs.
        bindR (detect_swing_lows swings htf_sequence) (\<lambda>htf_swing_lows.
        bindR (detect_bullish_bms config htf_sequence htf_swing_highs) (\<lambda>htf_bms_bullish.
        bindR (detect_bearish_bms config htf_sequence htf_swing_lows) (\<lambda>htf_bms_bearish.
        bindR (detect_bullish_sms htf_sequence htf_swing_lows) (\<lambda>htf_sms_bullish.
        bindR (detect_bearish_sms htf_sequence htf_swing_highs) (\<lambda>htf_sms_bearish.
        bindR (detect_bullish_choch htf_sequence htf_swing_highs) (\<lambda>htf_choch_bullish.
        bindR (detect_bearish_choch htf_sequence htf_swing_lows) (\<lambda>htf_choch_bearish.
        bindR (detect_swing_highs swings ltf_sequence) (\<lambda>ltf_swing_highs.
        bindR (detect_swing_lows swings ltf_sequence) (\<lambda>ltf_swing_lows.
        bindR (detect_bullish_bms config ltf_sequence ltf_swing_highs) (\<lambda>ltf_bms_bullish.
        bindR (detect_bearish_bms config ltf_sequence ltf_swing_lows) (\<lambda>ltf_bms_bearish.
        bindR (detect_bullish_choch ltf_sequence ltf_swing_highs) (\<lambda>ltf_choch_bullish.
        bindR (detect_bearish_choch ltf_sequence ltf_swing_lows) (\<lambda>ltf_choch_bearish.
        bindR (detect_fvgs config ltf_sequence) (\<lambda>ltf_fvgs.
        bindR (detect_bullish_inducement config ltf_sequence ltf_swing_lows) (\<lambda>idm_bullish.
        bindR (detect_bearish_inducement config ltf_sequence ltf_swing_highs) (\<lambda>idm_bearish.
        bindR (if_enabled (sc_enable_turtle_soup config)
            (detect_turtle_soup_long config sweeper ltf_sequence ltf_swing_lows)) (\<lambda>turtle_soup_long.
        bindR (if_enabled (sc_enable_turtle_soup config)
            (detect_turtle_soup_short config sweeper ltf_sequence ltf_swing_highs)) (\<lambda>turtle_soup_short.
        bindR (if sc_enable_amd config
            then detect_amd_context (smc_dealing_range_analyzer self) ltf_sequence else Inr None) (\<lambda>amd.
        bindR (detect_fvgs config htf_sequence) (\<lambda>htf_fvgs.
        bindR (detect_sweeps_in_sequence sweeper ltf_sequence ltf_swing_highs ltf_swing_lows)
          (\<lambda>ltf_all_sweeps.
        let all_fvgs = ltf_fvgs @ htf_fvgs; all_inducements = idm_bullish @ idm_bearish;
            all_sweeps = ltf_all_sweeps @ turtle_soup_long @ turtle_soup_short
        in concatR
          [if_enabled (sc_enable_sh_bms_rto config)
             (build_continuation_candidates config htf_sequence ltf_sequence htf_bms_bullish
                htf_bms_bearish ltf_bms_bullish ltf_bms_bearish ltf_choch_bullish ltf_choch_bearish
                all_fvgs all_inducements all_sweeps),
           if_enabled (sc_enable_sms_bms_rto config)
             (build_reversal_candidates self htf_sequence ltf_sequence htf_sms_bullish htf_sms_bearish
                ltf_bms_bullish ltf_bms_bearish ltf_choch_bullish ltf_choch_bearish all_fvgs
                all_inducements ltf_swing_highs ltf_swing_lows),
           if_enabled (sc_enable_choch_reversal config)
             (build_choch_reversal_candidates self htf_sequence ltf_sequence htf_choch_bullish
                htf_choch_bearish ltf_bms_bullish ltf_bms_bearish ltf_choch_bullish ltf_choch_bearish
                all_fvgs all_inducements all_sweeps ltf_swing_highs ltf_swing_lows),
           if_enabled (sc_enable_turtle_soup config)
             (build_turtle_soup_candidates config ltf_sequence turtle_soup_long turtle_soup_short
                ltf_swing_highs ltf_swing_lows),
           (case amd of
              Some context \<Rightarrow> if_enabled (sc_enable_amd config)
                (build_amd_candidates config htf_sequence ltf_sequence context ltf_bms_bullish
                   ltf_bms_bearish ltf_choch_bullish ltf_choch_bearish all_fvgs all_inducements
                   all_sweeps ltf_swing_highs ltf_swing_lows)
            | None \<Rightarrow> Inr [])])))))))))))))))))))))))"


section \<open>Lemmas\<close>

lemma on_ob_Some: "on_ob r f = Inr (Some c) \<longleftrightarrow> (\<exists>ob. r = Inr (Some ob) \<and> f ob = Inr (Some c))"
  by (auto simp: on_ob_def split: option.splits)

lemma mk_OrderBlock_wf:
  "mk_OrderBlock sy tf u l ts i d disp brk mit mts = Inr ob \<Longrightarrow>
     wf_zone_bounds (ob_lower_bound ob) (ob_upper_bound ob) \<and> ob_timestamp ob = ts \<and> ob_candle_index ob = i \<and>
     ob_direction ob = d \<and> ob_timeframe ob = tf \<and> ob_symbol ob = norm_symbol (str_strip sy) \<and>
     ob_displacement_pips ob = disp"
  by (auto simp: mk_OrderBlock_def mk_model_Inr check_bounds_def wf_zone_bounds_def split: if_splits)

text \<open>An order block comes from a candle before the break it is detected for.\<close>

definition ob_before :: "CandleSequence \<Rightarrow> nat \<Rightarrow> OrderBlock \<Rightarrow> bool" where
  "ob_before s n ob \<longleftrightarrow> wf_zone_bounds (ob_lower_bound ob) (ob_upper_bound ob) \<and> ob_candle_index ob < n \<and>
     ob_candle_index ob < length (seq_candles s) \<and>
     ob_timestamp ob = c_timestamp (seq_candles s ! ob_candle_index ob) \<and> ob_timeframe ob = seq_timeframe s"

lemma ob_of_candle_before:
  assumes "ob_of_candle s d disp i (seq_candles s ! i) = Inr (Some ob)" and "i < n" and "i < length (seq_candles s)"
  shows "ob_before s n ob \<and> ob_direction ob = d \<and> ob_displacement_pips ob = disp"
  using assms by (auto simp: ob_of_candle_def ob_before_def dest: mk_OrderBlock_wf)

lemma ob_at_before:
  assumes "firstR (ob_at config s opp move d) (rev [0..<n]) = Inr (Some ob)"
  shows "ob_before s n ob \<and> ob_direction ob = d \<and> sc_min_displacement_pips config \<le> ob_displacement_pips ob"
proof -
  obtain i where "i < n" and at: "ob_at config s opp move d i = Inr (Some ob)"
    using firstR_Some [OF assms] by auto
  then show ?thesis
    by (auto simp: ob_at_def py_nth_def not_less split: if_splits dest!: ob_of_candle_before)
qed

lemma detect_ob_before:
  assumes "detect_ob config d s e = Inr (Some ob)"
  shows "ob_before s (bms_candle_index e) ob \<and> ob_direction ob = bms_direction e \<and>
     sc_min_displacement_pips config \<le> ob_displacement_pips ob"
  using assms
  by (auto simp: detect_ob_def detect_bullish_ob_def detect_bearish_ob_def split: if_splits dest!: ob_at_before)

lemma choch_ob_before:
  assumes "detect_ob_from_choch s e = Inr (Some ob)"
  shows "ob_before s (coc_candle_index e) ob"
proof -
  let ?b = "coc_direction e = BULLISH"
  let ?f = "\<lambda>i. bindR (py_nth (seq_candles s) i) (\<lambda>candle.
      if (if ?b then is_bearish candle else is_bullish candle)
      then ob_of_candle s (if ?b then BULLISH else BEARISH) 0 i candle else Inr None)"
  have "firstR ?f (rev [0..<coc_candle_index e]) = Inr (Some ob)"
    using assms by (simp add: detect_ob_from_choch_def Let_def split: if_splits)
  from firstR_Some [OF this] obtain i where "i \<in> set (rev [0..<coc_candle_index e])" "?f i = Inr (Some ob)"
    by (rule bexE)
  then show ?thesis by (auto simp: py_nth_def split: if_splits dest!: ob_of_candle_before)
qed

text \<open>A break reported on a sequence: it is confirmed no earlier than the candle that breaks.\<close>

definition bms_on :: "CandleSequence \<Rightarrow> Direction \<Rightarrow> BreakInMarketStructure \<Rightarrow> bool" where
  "bms_on s d e \<longleftrightarrow> bms_direction e = d \<and> bms_candle_index e < length (seq_candles s) \<and>
     c_timestamp (seq_candles s ! bms_candle_index e) \<le> bms_timestamp e"

lemma ob_before_break:
  assumes "wf_seq s" and "ob_before s (bms_candle_index e) ob" and "bms_on s d e"
  shows "ob_timestamp ob < bms_timestamp e"
  using assms wf_seq_times [OF assms(1)] unfolding ob_before_def bms_on_def by fastforce

lemma bms_event_on:
  assumes "wf_seq s" and "valid_SMCConfig config" and "is_bms config s beyond level i b"
  shows "bms_on s d (bms_event config s d level ts b)"
proof -
  have "3 \<le> sc_bms_weak_confirm_candles config" using assms(2) by (simp add: valid_SMCConfig_def)
  then have r: "2 \<le> bms_required config s level b" by (rule bms_required_ge)
  have "b + bms_required config s level b \<le> length (seq_candles s)"
    using assms(3) by (simp add: is_bms_def confirmed_break_def)
  then have "b < b + bms_required config s level b - 1" "b + bms_required config s level b - 1 < length (seq_candles s)"
    using r by linarith+
  then show ?thesis using wf_seq_times [OF assms(1)] by (auto simp: bms_on_def bms_event_def less_imp_le)
qed

lemma ball_nil: "\<forall>x \<in> set []. P x"
  by simp

lemma detected_bms_on:
  assumes "wf_seq s" and "clean_symbol (seq_symbol s)" and "valid_SMCConfig config"
  shows "\<forall>h \<in> set shs. 0 < sh_price h \<Longrightarrow> detect_bullish_bms config s shs = Inr es \<Longrightarrow> \<forall>e \<in> set es. bms_on s BULLISH e"
    and "\<forall>l \<in> set sls. 0 < sl_price l \<Longrightarrow> detect_bearish_bms config s sls = Inr fs \<Longrightarrow> \<forall>e \<in> set fs. bms_on s BEARISH e"
proof -
  show "\<forall>e \<in> set es. bms_on s BULLISH e"
    if p: "\<forall>h \<in> set shs. 0 < sh_price h" and d: "detect_bullish_bms config s shs = Inr es"
  proof
    fix e assume e: "e \<in> set es"
    obtain xs where xs: "detect_bullish_bms config s shs = Inr xs" and iff: "\<forall>e. e \<in> set xs \<longleftrightarrow>
        (\<exists>h \<in> set shs. \<exists>b. is_bms config s (>) (sh_price h) (sh_index h) b \<and>
          e = bms_event config s BULLISH (sh_price h) (sh_timestamp h) b)"
      using detect_bms_reports [OF assms p, of "[]", OF ball_nil] by (elim exE conjE) (rule that, assumption+)
    have "xs = es" using xs d by simp
    then show "bms_on s BULLISH e" using iff [rule_format, THEN iffD1] e bms_event_on [OF assms(1,3)] by blast
  qed
  show "\<forall>e \<in> set fs. bms_on s BEARISH e"
    if p: "\<forall>l \<in> set sls. 0 < sl_price l" and d: "detect_bearish_bms config s sls = Inr fs"
  proof
    fix e assume e: "e \<in> set fs"
    obtain xs where xs: "detect_bearish_bms config s sls = Inr xs" and iff: "\<forall>e. e \<in> set xs \<longleftrightarrow>
        (\<exists>l \<in> set sls. \<exists>b. is_bms config s (<) (sl_price l) (sl_index l) b \<and>
          e = bms_event config s BEARISH (sl_price l) (sl_timestamp l) b)"
      using detect_bms_reports [OF assms _ p, of "[]", OF ball_nil] by (elim exE conjE) (rule that, assumption+)
    have "xs = fs" using xs d by simp
    then show "bms_on s BEARISH e" using iff [rule_format, THEN iffD1] e bms_event_on [OF assms(1,3)] by blast
  qed
qed

text \<open>Swings of a well-formed market have positive prices.\<close>

lemma mk_SwingHigh_pos: "build_swing_high self cs l r i acc = Inr x \<Longrightarrow> 0 < sh_price x"
  by (auto simp: build_swing_high_def Let_def mk_SwingHigh_Inr)

lemma mk_SwingLow_pos: "build_swing_low self cs l r i acc = Inr x \<Longrightarrow> 0 < sl_price x"
  by (auto simp: build_swing_low_def Let_def mk_SwingLow_Inr)

lemma build_loop_all:
  assumes "build_loop test build is acc = Inr xs" and "\<forall>x \<in> set acc. P x"
    and "\<And>i acc x. build i acc = Inr x \<Longrightarrow> P x"
  shows "\<forall>x \<in> set xs. P x"
proof (rule foldR_invariant [OF assms(1) [unfolded build_loop_def], where I = "\<lambda>ys. \<forall>x \<in> set ys. P x"])
  show "\<forall>x \<in> set acc. P x" by (rule assms(2))
next
  fix i u v
  assume u: "\<forall>x \<in> set u. P x"
    and v: "(if test i then bindR (build i u) (\<lambda>x. Inr (u @ [x])) else Inr u) = Inr v"
  show "\<forall>x \<in> set v. P x"
  proof (cases "test i")
    case True
    then obtain x where "build i u = Inr x" "v = u @ [x]" using v by auto
    then show ?thesis using u assms(3) [of i u x] by simp
  qed (use u v in simp)
qed

lemma detected_swings_pos:
  "detect_swing_highs self s = Inr shs \<Longrightarrow> \<forall>h \<in> set shs. 0 < sh_price h"
  "detect_swing_lows self s = Inr sls \<Longrightarrow> \<forall>l \<in> set sls. 0 < sl_price l"
proof -
  obtain l r where lr: "get_effective_bars self s = (l, r)" by (cases "get_effective_bars self s")
  show "\<forall>h \<in> set shs. 0 < sh_price h" if h: "detect_swing_highs self s = Inr shs"
    by (rule build_loop_all [OF h [unfolded detect_swing_highs_def Let_def lr prod.case]])
       (simp_all add: mk_SwingHigh_pos)
  show "\<forall>l \<in> set sls. 0 < sl_price l" if h: "detect_swing_lows self s = Inr sls"
    by (rule build_loop_all [OF h [unfolded detect_swing_lows_def Let_def lr prod.case]])
       (simp_all add: mk_SwingLow_pos)
qed


text \<open>What every emitted candidate is shown to satisfy.\<close>

definition confirmable :: "CandidatePattern set" where
  "confirmable = {TURTLE_SOUP_LONG, TURTLE_SOUP_SHORT, SH_BMS_RTO_BULLISH, SH_BMS_RTO_BEARISH}"

definition good_candidate :: "SMCCandidate \<Rightarrow> bool" where
  "good_candidate c \<longleftrightarrow> smc_fields_ok c \<and>
     sound_trade (cd_direction c) 2 (cd_entry_price c) (cd_stop_loss c) (cd_take_profit c) \<and>
     (cd_ltf_confirmation c \<longrightarrow> cd_pattern c \<in> confirmable)"

lemma sound_trade_mono:
  assumes "sound_trade d rr entry sl tp" and "rr' \<le> rr"
  shows "sound_trade d rr' entry sl tp"
proof (cases d)
  case BULLISH
  then have "sl < entry" using assms(1) by (simp add: sound_trade_def)
  then have "rr' * (entry - sl) \<le> rr * (entry - sl)" using assms(2) by (intro mult_right_mono) simp_all
  from order_trans [OF this] show ?thesis using assms(1) BULLISH by (simp add: sound_trade_def)
next
  case BEARISH
  then have "entry < sl" using assms(1) by (simp add: sound_trade_def)
  then have "rr' * (sl - entry) \<le> rr * (sl - entry)" using assms(2) by (intro mult_right_mono) simp_all
  from order_trans [OF this] show ?thesis using assms(1) BEARISH by (simp add: sound_trade_def)
qed (use assms in \<open>simp add: sound_trade_def\<close>)

lemma two_le_floor: "2 \<le> timeframe_min_tp_rr tf"
  using tp_floor_ge [of tf] by (simp add: LOWEST_STYLE_MIN_RR_def MIN_RR_SCALPING_def)

lemma rto_good:
  assumes "rto_candidate d (timeframe_min_tp_rr tf) ltf ob bms sweep c"
    and "sweep \<noteq> None \<and> bms_timestamp bms < ob_timestamp ob \<Longrightarrow> cd_pattern c \<in> confirmable"
  shows "good_candidate c"
  using assms sound_trade_mono [OF _ two_le_floor, of d tf] unfolding good_candidate_def rto_candidate_def by blast

lemma bsl_find: "find_bsl_target entry shs (\<bar>entry - sl\<bar> * rr) = find_nearest_bsl_target config entry shs (Some sl) (Some rr)"
  by (simp add: find_bsl_target_def find_nearest_bsl_target_def min_reward_def)

lemma ssl_find: "find_ssl_target entry sls (\<bar>entry - sl\<bar> * rr) = find_nearest_ssl_target config entry sls (Some sl) (Some rr)"
  by (simp add: find_ssl_target_def find_nearest_ssl_target_def min_reward_def)

lemma build_choch_shape:
  assumes b: "build_choch_candidate config htf ltf htf_choch bms choch sweep ob fvgs idms d shs sls = Inr (Some c)"
    and d: "d = BULLISH \<or> d = BEARISH" and ob: "wf_zone_bounds (ob_lower_bound ob) (ob_upper_bound ob)"
  shows "rto_candidate d (timeframe_min_tp_rr (seq_timeframe ltf)) ltf ob bms sweep c"
proof -
  note m = midpoint_inside [OF ob]
  have side: "compute_structural_stop_loss sy tf BULLISH lvl (Some (ob_lower_bound ob)) None < ob_midpoint ob"
      "ob_midpoint ob < compute_structural_stop_loss sy tf BEARISH lvl (Some (ob_upper_bound ob)) None" for sy tf lvl
    using less_trans [OF stop_loss_inside_floor(1) [OF refl] m(1)]
      less_trans [OF m(2) stop_loss_inside_floor(2) [OF refl]] by blast+
  from d show ?thesis
  proof
    assume d: "d = BULLISH"
    show ?thesis
      using b unfolding build_choch_candidate_def Let_def resolve_timeframe d bsl_find [of _ _ _ _ config]
      by (auto simp: rto_candidate_def with_defs bsl_target_sound side
          split: if_splits dest!: emit_fields zone_rules_fresh confirmations_need)
  next
    assume d: "d = BEARISH"
    show ?thesis
      using b unfolding build_choch_candidate_def Let_def resolve_timeframe d ssl_find [of _ _ _ _ config]
      by (auto simp: rto_candidate_def with_defs ssl_target_sound side
          split: if_splits dest!: emit_fields zone_rules_fresh confirmations_need)
  qed
qed

lemma collect_on_ob:
  assumes "collectR (\<lambda>x. on_ob (g x) (h x)) xs = Inr cs" and "c \<in> set cs"
  obtains x ob where "x \<in> set xs" "g x = Inr (Some ob)" "h x ob = Inr (Some c)"
  using assms by (auto simp: collectR_set on_ob_Some)

lemma continuation_side_good:
  assumes s: "continuation_side config d htf ltf hbms lbms lcs fvgs idms sweeps = Inr cs" and c: "c \<in> set cs"
    and d: "d = BULLISH \<or> d = BEARISH"
  shows "good_candidate c"
proof -
  have built: "good_candidate c"
    if "build_continuation config d htf ltf latest sweep choch bms ob fvgs idms = Inr (Some c)"
      and "ob_before s n ob" for latest sweep choch bms ob s n
    using build_continuation_shape [OF that(1) d] that(2)
    by (auto intro!: rto_good simp: confirmable_def ob_before_def)
  obtain latest where "get_latest_bms hbms = Some latest"
    using s c by (cases "get_latest_bms hbms") (simp_all add: continuation_side_def)
  note u = s [unfolded continuation_side_def this option.case concatR_simps]
  from u c consider
    (htf) xs where "collectR (\<lambda>htf_bms. on_ob (detect_ob config d htf htf_bms) (\<lambda>htf_ob.
        build_continuation config d htf ltf latest (find_relevant_sweep config sweeps d htf_bms)
          (get_latest_choch lcs) htf_bms htf_ob fvgs idms)) hbms = Inr xs" "c \<in> set xs"
  | (ltf) xs where "collectR (\<lambda>ltf_bms. on_ob (detect_ob config d ltf ltf_bms) (\<lambda>ltf_ob.
        build_continuation config d htf ltf latest (find_relevant_sweep config sweeps d ltf_bms)
          (get_latest_choch lcs) ltf_bms ltf_ob fvgs idms)) lbms = Inr xs" "c \<in> set xs"
  | (choch) xs where "collectR (\<lambda>e. on_ob (detect_ob_from_choch ltf e) (\<lambda>choch_ob.
        if ob_direction choch_ob \<noteq> d then Inr None
        else build_continuation config d htf ltf latest (find_relevant_sweep config sweeps d latest)
          (Some e) latest choch_ob fvgs idms)) lcs = Inr xs" "c \<in> set xs"
    by (elim exE conjE) auto
  then show ?thesis
  proof cases
    case htf
    then show ?thesis by (rule collect_on_ob) (rule built, assumption, erule detect_ob_before [THEN conjunct1])
  next
    case ltf
    then show ?thesis by (rule collect_on_ob) (rule built, assumption, erule detect_ob_before [THEN conjunct1])
  next
    case choch
    then show ?thesis
      by (rule collect_on_ob) (rule built, simp split: if_splits, erule choch_ob_before)
  qed
qed


lemma own_bms_on:
  assumes "wf_seq s" and "clean_symbol (seq_symbol s)" and "valid_SMCConfig (smc_config self)"
    and "d = BULLISH \<or> d = BEARISH" and "detect_own_bms self d s = Inr es" and "e \<in> set es"
  shows "bms_on s d e"
  using assms(4)
proof
  assume d: "d = BULLISH"
  obtain shs where shs: "detect_swing_highs (smc_swing_analyzer self) s = Inr shs"
      "detect_bullish_bms (smc_config self) s shs = Inr es"
    using assms(5) d by (auto simp: detect_own_bms_def)
  from detected_bms_on(1) [OF assms(1-3) detected_swings_pos(1) [OF shs(1)] shs(2)] show ?thesis
    using assms(6) d by blast
next
  assume d: "d = BEARISH"
  obtain sls where sls: "detect_swing_lows (smc_swing_analyzer self) s = Inr sls"
      "detect_bearish_bms (smc_config self) s sls = Inr es"
    using assms(5) d by (auto simp: detect_own_bms_def)
  from detected_bms_on(2) [OF assms(1-3) detected_swings_pos(2) [OF sls(1)] sls(2)] show ?thesis
    using assms(6) d by blast
qed

text \<open>A candidate on the order block of its own break cannot be confirmed: the block precedes it.\<close>

lemma own_ob_good:
  assumes "rto_candidate d (timeframe_min_tp_rr tf) ltf ob bms sweep c" and "wf_seq s"
    and "detect_ob config d s bms = Inr (Some ob)" and "bms_on s d bms"
  shows "good_candidate c"
proof -
  have "ob_timestamp ob < bms_timestamp bms"
    using ob_before_break [OF assms(2) detect_ob_before [OF assms(3), THEN conjunct1] assms(4)] .
  then show ?thesis using assms(1) by (auto intro: rto_good)
qed

lemma detect_ob_bounds:
  "detect_ob config d s bms = Inr (Some ob) \<Longrightarrow> wf_zone_bounds (ob_lower_bound ob) (ob_upper_bound ob)"
  by (drule detect_ob_before) (simp add: ob_before_def)

lemma choch_reversal_side_good:
  assumes s: "choch_reversal_side self d htf ltf hcs lbms lcs fvgs idms sweeps shs sls = Inr cs" and c: "c \<in> set cs"
    and d: "d = BULLISH \<or> d = BEARISH" and wf: "wf_seq htf" "wf_seq ltf" "clean_symbol (seq_symbol htf)"
    and cfg: "valid_SMCConfig (smc_config self)" and lb: "\<forall>e \<in> set lbms. bms_on ltf d e"
  shows "good_candidate c"
proof -
  have built: "good_candidate c"
    if "build_choch_candidate (smc_config self) htf ltf hc bms choch sweep ob fvgs idms d shs sls = Inr (Some c)"
      and "wf_seq s" and "detect_ob (smc_config self) d s bms = Inr (Some ob)" and "bms_on s d bms"
    for hc bms choch sweep ob s
    by (rule own_ob_good [OF build_choch_shape [OF that(1) d detect_ob_bounds [OF that(3)]] that(2,3,4)])
  obtain hc where "get_latest_choch hcs = Some hc"
    using s c by (cases "get_latest_choch hcs") (simp_all add: choch_reversal_side_def)
  note u = s [unfolded choch_reversal_side_def Let_def this option.case concatR_simps]
  from u c consider
    (ltf) xs where "collectR (\<lambda>ltf_bms. on_ob (detect_ob (smc_config self) d ltf ltf_bms) (\<lambda>ltf_ob.
        build_choch_candidate (smc_config self) htf ltf hc ltf_bms (get_latest_choch lcs)
          (find_relevant_sweep (smc_config self) sweeps d ltf_bms) ltf_ob fvgs idms d shs sls)) lbms = Inr xs"
      "c \<in> set xs"
  | (htf) es e xs where "detect_own_bms self d htf = Inr es" "get_latest_bms es = Some e"
      "collectR (\<lambda>_. on_ob (detect_ob (smc_config self) d htf e) (\<lambda>htf_ob.
        build_choch_candidate (smc_config self) htf ltf hc e None None htf_ob fvgs idms d shs sls)) [()] = Inr xs"
      "c \<in> set xs"
    by (elim exE conjE) (auto split: if_splits option.splits)
  then show ?thesis
  proof cases
    case ltf
    then show ?thesis by (rule collect_on_ob) (erule built, rule wf(2), assumption, use lb in blast)
  next
    case htf
    have on: "bms_on htf d e" using own_bms_on [OF wf(1,3) cfg d htf(1)] max_key_Some [OF htf(2) [unfolded get_latest_bms_def]] by blast
    show ?thesis by (rule collect_on_ob [OF htf(3,4)]) (erule built, rule wf(1), assumption, rule on)
  qed
qed

lemma reversal_side_good:
  assumes s: "reversal_side self d htf ltf smss lbms lcs build = Inr cs" and c: "c \<in> set cs"
    and built: "\<And>sms bms choch ob s. build sms bms choch ob = Inr (Some c) \<Longrightarrow>
      detect_ob (smc_config self) d s bms = Inr (Some ob) \<Longrightarrow> good_candidate c"
  shows "good_candidate c"
proof -
  obtain sms where "get_latest_sms smss = Some sms"
    using s c by (cases "get_latest_sms smss") (simp_all add: reversal_side_def)
  note u = s [unfolded reversal_side_def Let_def this option.case concatR_simps]
  have pick: "good_candidate c"
    if "on_ob (detect_ob (smc_config self) d s bms) (\<lambda>ob. if far ob then Inr None else build sms bms choch ob) =
      Inr (Some c)" for s bms choch far
    using that built by (auto simp: on_ob_Some split: if_splits)
  from u c consider
    (ltf) e where "on_ob (detect_ob (smc_config self) d ltf e) (\<lambda>ob.
        if sms_coherence_window (smc_config self) htf < \<bar>ob_timestamp ob - sms_timestamp sms\<bar> then Inr None
        else build sms e (get_latest_choch lcs) ob) = Inr (Some c)"
  | (htf) e where "on_ob (detect_ob (smc_config self) d htf e) (\<lambda>ob.
        if sms_coherence_window (smc_config self) htf < \<bar>ob_timestamp ob - sms_timestamp sms\<bar> then Inr None
        else build sms e None ob) = Inr (Some c)"
    by (elim exE conjE) (auto simp: collectR_set split: if_splits option.splits)
  then show ?thesis by cases (rule pick, assumption)+
qed

lemma build_reversal_good:
  assumes "build_reversal_candidates self htf ltf hsb hsr lbb lbr lcb lcr fvgs idms shs sls = Inr cs" and "c \<in> set cs"
  shows "good_candidate c"
proof -
  have bull: "good_candidate c"
    if "build_bullish_sms_reversal (smc_config self) htf ltf sms bms choch ob fvgs idms shs = Inr (Some c)"
      "detect_ob (smc_config self) BULLISH s bms = Inr (Some ob)" for sms bms choch ob s
    using build_sms_reversal_shape [OF that(1) [unfolded build_bullish_sms_reversal_def] _ detect_ob_bounds [OF that(2)]]
    by (auto simp: bsl_target_sound intro: rto_good)
  have bear: "good_candidate c"
    if "build_bearish_sms_reversal (smc_config self) htf ltf sms bms choch ob fvgs idms sls = Inr (Some c)"
      "detect_ob (smc_config self) BEARISH s bms = Inr (Some ob)" for sms bms choch ob s
    using build_sms_reversal_shape [OF that(1) [unfolded build_bearish_sms_reversal_def] _ detect_ob_bounds [OF that(2)]]
    by (auto simp: ssl_target_sound intro: rto_good)
  from assms obtain xs ys where xs: "reversal_side self BULLISH htf ltf hsb lbb lcb (\<lambda>sms bms choch ob.
        build_bullish_sms_reversal (smc_config self) htf ltf sms bms choch ob fvgs idms shs) = Inr xs"
    and ys: "reversal_side self BEARISH htf ltf hsr lbr lcr (\<lambda>sms bms choch ob.
        build_bearish_sms_reversal (smc_config self) htf ltf sms bms choch ob fvgs idms sls) = Inr ys"
    and cs: "cs = xs @ ys"
    unfolding build_reversal_candidates_def concatR_simps by auto
  from assms(2) cs consider "c \<in> set xs" | "c \<in> set ys" by auto
  then show ?thesis
  proof cases
    case 1 then show ?thesis by (rule reversal_side_good [OF xs]) (rule bull)
  next
    case 2 then show ?thesis by (rule reversal_side_good [OF ys]) (rule bear)
  qed
qed

lemma build_amd_good:
  assumes b: "build_amd_candidates config htf ltf amd lbb lbr lcb lcr fvgs idms sweeps shs sls = Inr cs"
    and c: "c \<in> set cs" and wf: "wf_seq ltf" and on: "\<forall>e \<in> set lbb. bms_on ltf BULLISH e" "\<forall>e \<in> set lbr. bms_on ltf BEARISH e"
  shows "good_candidate c"
proof (cases "amd_distribution_direction amd = Some BULLISH")
  case True
  then have "collectR (\<lambda>e. on_ob (detect_ob config BULLISH ltf e) (\<lambda>ob.
      build_bullish_amd config htf ltf amd (find_relevant_sweep config sweeps BULLISH e) e (get_latest_choch lcb) ob
        fvgs idms shs)) lbb = Inr cs"
    using b by (simp add: build_amd_candidates_def detect_ob_def)
  then show ?thesis
  proof (rule collect_on_ob [OF _ c])
    fix e ob
    assume e: "e \<in> set lbb" and ob: "detect_ob config BULLISH ltf e = Inr (Some ob)"
      and built: "build_bullish_amd config htf ltf amd (find_relevant_sweep config sweeps BULLISH e) e
        (get_latest_choch lcb) ob fvgs idms shs = Inr (Some c)"
    have "rto_candidate BULLISH (timeframe_min_tp_rr (ob_timeframe ob)) ltf ob e (find_relevant_sweep config sweeps BULLISH e) c"
      using build_amd_shape [OF built [unfolded build_bullish_amd_def] _ detect_ob_bounds [OF ob]]
      by (simp add: bsl_target_sound)
    from own_ob_good [OF this wf ob] show ?thesis using on(1) e by blast
  qed
next
  case False
  then have bear: "amd_distribution_direction amd = Some BEARISH"
    using b c by (auto simp: build_amd_candidates_def split: if_splits)
  then have "collectR (\<lambda>e. on_ob (detect_ob config BEARISH ltf e) (\<lambda>ob.
      build_bearish_amd config htf ltf amd (find_relevant_sweep config sweeps BEARISH e) e (get_latest_choch lcr) ob
        fvgs idms sls)) lbr = Inr cs"
    using b by (simp add: build_amd_candidates_def detect_ob_def)
  then show ?thesis
  proof (rule collect_on_ob [OF _ c])
    fix e ob
    assume e: "e \<in> set lbr" and ob: "detect_ob config BEARISH ltf e = Inr (Some ob)"
      and built: "build_bearish_amd config htf ltf amd (find_relevant_sweep config sweeps BEARISH e) e
        (get_latest_choch lcr) ob fvgs idms sls = Inr (Some c)"
    have "rto_candidate BEARISH (timeframe_min_tp_rr (ob_timeframe ob)) ltf ob e (find_relevant_sweep config sweeps BEARISH e) c"
      using build_amd_shape [OF built [unfolded build_bearish_amd_def] _ detect_ob_bounds [OF ob]]
      by (simp add: ssl_target_sound)
    from own_ob_good [OF this wf ob] show ?thesis using on(2) e by blast
  qed
qed

lemma turtle_sweeps_beyond:
  "detect_turtle_soup_long config a s sls = Inr es \<Longrightarrow> e \<in> set es \<Longrightarrow> ls_sweep_low e < ls_swept_level e"
  "detect_turtle_soup_short config a s shs = Inr es \<Longrightarrow> e \<in> set es \<Longrightarrow> ls_swept_level e < ls_sweep_high e"
  by (auto simp: detect_turtle_soup_long_def detect_turtle_soup_short_def detect_ssl_sweep_def detect_bsl_sweep_def
      collectR_set keep_turtle_soup_def mk_LiquiditySweep_def mk_model_Inr split: if_splits option.splits)

lemma turtle_soup_good:
  assumes b: "build_turtle_soup_candidates config ltf longs shorts shs sls = Inr cs" and c: "c \<in> set cs"
    and l: "\<forall>e \<in> set longs. ls_sweep_low e < ls_swept_level e" and s: "\<forall>e \<in> set shorts. ls_swept_level e < ls_sweep_high e"
  shows "good_candidate c"
proof -
  from b c consider
    (long) e where "max_key ls_timestamp longs = Some e" "build_turtle_soup_long config ltf e shs = Inr (Some c)"
  | (short) e where "max_key ls_timestamp shorts = Some e" "build_turtle_soup_short config ltf e sls = Inr (Some c)"
    by (auto simp: build_turtle_soup_candidates_def Let_def collectR_set simp del: collectR.simps split: option.splits)
  then show ?thesis
  proof cases
    case long
    have "ls_sweep_low e < ls_swept_level e" using max_key_Some [OF long(1)] l by blast
    from turtle_long_shape [OF long(2) this] show ?thesis
      using sound_trade_mono [OF _ two_le_floor] by (auto simp: good_candidate_def confirmable_def)
  next
    case short
    have "ls_swept_level e < ls_sweep_high e" using max_key_Some [OF short(1)] s by blast
    from turtle_short_shape [OF short(2) this] show ?thesis
      using sound_trade_mono [OF _ two_le_floor] by (auto simp: good_candidate_def confirmable_def)
  qed
qed


lemma detect_patterns_good:
  assumes run: "smc_detect_patterns self htf ltf = Inr cs" and c: "c \<in> set cs"
    and wf: "wf_seq htf" "wf_seq ltf" "clean_symbol (seq_symbol htf)" "clean_symbol (seq_symbol ltf)"
    and cfg: "valid_SMCConfig (smc_config self)"
  shows "good_candidate c"
proof -
  let ?config = "smc_config self"
  have en: "sc_enabled ?config" using run c by (auto simp: smc_detect_patterns_def Let_def split: if_splits)
  obtain shs sls lbb lbr longs shorts amd cont rev chr tur am hbb hbr hsb hsr hcb hcr lcb lcr fvgs idms sweeps where
    sw: "detect_swing_highs (smc_swing_analyzer self) ltf = Inr shs"
      "detect_swing_lows (smc_swing_analyzer self) ltf = Inr sls" and
    bms: "detect_bullish_bms ?config ltf shs = Inr lbb" "detect_bearish_bms ?config ltf sls = Inr lbr" and
    soup: "if_enabled (sc_enable_turtle_soup ?config)
        (detect_turtle_soup_long ?config (smc_sweep_analyzer self) ltf sls) = Inr longs"
      "if_enabled (sc_enable_turtle_soup ?config)
        (detect_turtle_soup_short ?config (smc_sweep_analyzer self) ltf shs) = Inr shorts" and
    cont: "if_enabled (sc_enable_sh_bms_rto ?config) (build_continuation_candidates ?config htf ltf hbb hbr
        lbb lbr lcb lcr fvgs idms sweeps) = Inr cont" and
    rev: "if_enabled (sc_enable_sms_bms_rto ?config) (build_reversal_candidates self htf ltf hsb hsr lbb lbr
        lcb lcr fvgs idms shs sls) = Inr rev" and
    chr: "if_enabled (sc_enable_choch_reversal ?config) (build_choch_reversal_candidates self htf ltf hcb hcr
        lbb lbr lcb lcr fvgs idms sweeps shs sls) = Inr chr" and
    tur: "if_enabled (sc_enable_turtle_soup ?config) (build_turtle_soup_candidates ?config ltf longs shorts
        shs sls) = Inr tur" and
    am: "(case amd of Some context \<Rightarrow> if_enabled (sc_enable_amd ?config) (build_amd_candidates ?config htf ltf
        context lbb lbr lcb lcr fvgs idms sweeps shs sls) | None \<Rightarrow> Inr []) = Inr am" and
    cs: "cs = cont @ rev @ chr @ tur @ am"
    using run en by (simp only: smc_detect_patterns_def Let_def bindR_eq_Inr if_True not_True_eq_False if_False concatR_simps simp_thms append_Nil2) (elim exE conjE, rule that, (assumption | simp)+)
  note pos = detected_swings_pos(1) [OF sw(1)] detected_swings_pos(2) [OF sw(2)]
  note on = detected_bms_on(1) [OF wf(2,4) cfg pos(1) bms(1)] detected_bms_on(2) [OF wf(2,4) cfg pos(2) bms(2)]
  from c cs consider (cont) "c \<in> set cont" | (rev) "c \<in> set rev" | (chr) "c \<in> set chr" | (tur) "c \<in> set tur"
    | (am) "c \<in> set am" by auto
  then show ?thesis
  proof cases
    case cont
    with \<open>if_enabled (sc_enable_sh_bms_rto ?config) _ = _\<close> show ?thesis
      by (auto simp: if_enabled_def build_continuation_candidates_def concatR_simps split: if_splits
          dest: continuation_side_good)
  next
    case rev
    with \<open>if_enabled (sc_enable_sms_bms_rto ?config) _ = _\<close> show ?thesis
      by (auto simp: if_enabled_def split: if_splits dest: build_reversal_good)
  next
    case chr
    with \<open>if_enabled (sc_enable_choch_reversal ?config) _ = _\<close> show ?thesis
      by (auto simp: if_enabled_def build_choch_reversal_candidates_def concatR_simps split: if_splits
          dest: choch_reversal_side_good [OF _ _ _ wf(1-3) cfg, rotated -1, OF on(1)]
            choch_reversal_side_good [OF _ _ _ wf(1-3) cfg, rotated -1, OF on(2)])
  next
    case tur
    have "\<forall>e \<in> set longs. ls_sweep_low e < ls_swept_level e" "\<forall>e \<in> set shorts. ls_swept_level e < ls_sweep_high e"
      using soup turtle_sweeps_beyond by (auto simp: if_enabled_def split: if_splits)
    from turtle_soup_good [OF _ tur this] show ?thesis
      using \<open>if_enabled _ (build_turtle_soup_candidates _ _ _ _ _ _) = _\<close> tur by (auto simp: if_enabled_def split: if_splits)
  next
    case am
    with \<open>(case amd of Some _ \<Rightarrow> _ | None \<Rightarrow> _) = _\<close> show ?thesis
      using build_amd_good [OF _ am wf(2) on] by (auto simp: if_enabled_def split: if_splits option.splits)
  qed
qed


definition ex_smc :: SMCDetector where
  "ex_smc = \<lparr>smc_config = default_SMCConfig, smc_swing_analyzer = \<lparr>sa_left_bars = 1, sa_right_bars = 1,
     sa_equal_tolerance_pips = 0\<rparr>, smc_sweep_analyzer = \<lparr>sw_min_sweep_pips = 1, sw_turtle_soup_min_pips = 5\<rparr>,
     smc_dealing_range_analyzer = \<lparr>da_min_range_pips = 0\<rparr>\<rparr>"

definition ex_htf :: CandleSequence where
  "ex_htf = \<lparr>seq_symbol = ''EURUSD'', seq_timeframe = H1, seq_candles = [ex_candle 0 10 12 8 11]\<rparr>"

definition ex_ltf :: CandleSequence where
  "ex_ltf = \<lparr>seq_symbol = ''EURUSD'', seq_timeframe = H1,
     seq_candles = [ex_candle 28800 10 11 9 10, ex_candle 32400 10 30 9 11, ex_candle 36000 11 12 8 10,
       ex_candle 39600 10 12 9 10, ex_candle 43200 10 11 7 9]\<rparr>"

lemma ex_smc_run:
  "case smc_detect_patterns ex_smc ex_htf ex_ltf of
     Inr [c] \<Rightarrow> cd_pattern c = TURTLE_SOUP_LONG \<and> cd_direction c = BULLISH \<and> cd_ltf_confirmation c \<and>
       cd_entry_price c = 8 \<and> cd_take_profit c = Some 30
   | _ \<Rightarrow> False"
  by code_simp

lemma ex_smc_wf: "wf_seq ex_htf" "wf_seq ex_ltf" "clean_symbol (seq_symbol ex_htf)"
    "clean_symbol (seq_symbol ex_ltf)" "valid_SMCConfig (smc_config ex_smc)"
  by (simp_all add: ex_htf_def ex_ltf_def wf_seq_def wf_candle_def uniform_def ex_smc_def valid_default_SMCConfig)

lemma ex_smc_candidate:
  obtains c where "smc_detect_patterns ex_smc ex_htf ex_ltf = Inr [c]" "cd_pattern c = TURTLE_SOUP_LONG"
    "cd_direction c = BULLISH" "cd_ltf_confirmation c" "cd_entry_price c = 8" "cd_take_profit c = Some 30"
  using ex_smc_run by (auto split: sum.splits list.splits)

text \<open>C4. Every candidate the SMC detector emits, from any of its ten patterns, on well-formed
  sequences of both timeframes, is a consistent trade: entry and stop are positive prices, the stop is
  on the losing side of the entry, and a take profit, when there is one, is on the winning side at a
  distance of at least twice the risk. The detector never emits a neutral candidate.\<close>

theorem smc_candidates_sound:
  assumes "wf_seq htf" and "wf_seq ltf" and "clean_symbol (seq_symbol htf)" and "clean_symbol (seq_symbol ltf)"
    and "valid_SMCConfig (smc_config self)" and "smc_detect_patterns self htf ltf = Inr cs" and "c \<in> set cs"
  shows "0 < cd_entry_price c \<and> 0 < cd_stop_loss c \<and>
     (case cd_direction c of
        BULLISH \<Rightarrow> cd_stop_loss c < cd_entry_price c \<and> (\<forall>t. cd_take_profit c = Some t \<longrightarrow>
          cd_entry_price c < t \<and> 2 * (cd_entry_price c - cd_stop_loss c) \<le> t - cd_entry_price c)
      | BEARISH \<Rightarrow> cd_entry_price c < cd_stop_loss c \<and> (\<forall>t. cd_take_profit c = Some t \<longrightarrow>
          t < cd_entry_price c \<and> 2 * (cd_stop_loss c - cd_entry_price c) \<le> cd_entry_price c - t)
      | NEUTRAL \<Rightarrow> False)"
  using detect_patterns_good [OF assms(6,7,1-5)] by (simp add: good_candidate_def sound_trade_def smc_fields_ok_def)

theorem smc_candidates_sound_witness:
  "\<exists>c. smc_detect_patterns ex_smc ex_htf ex_ltf = Inr [c] \<and> cd_entry_price c = 8 \<and> cd_stop_loss c < 8 \<and>
     2 * (8 - cd_stop_loss c) \<le> 22"
proof -
  obtain c where c: "smc_detect_patterns ex_smc ex_htf ex_ltf = Inr [c]" "cd_direction c = BULLISH"
      "cd_entry_price c = 8" "cd_take_profit c = Some 30"
    by (rule ex_smc_candidate)
  from smc_candidates_sound [OF ex_smc_wf c(1), of c] c show ?thesis by simp
qed

text \<open>C16. Which patterns can be confirmed on the lower timeframe. A return to an order block counts as
  confirmed only when the block is later than the break, while a break's own block is searched among
  the candles before it; and the shift reversals are validated without a sweep, which the validator
  asks for. So a candidate with \<^verbatim>\<open>ltf_confirmation\<close> is a turtle soup, whose builder sets
  the flag itself, or a continuation: no SMS, CHoCH or AMD candidate is ever confirmed.\<close>

theorem smc_confirmed_only:
  assumes "wf_seq htf" and "wf_seq ltf" and "clean_symbol (seq_symbol htf)" and "clean_symbol (seq_symbol ltf)"
    and "valid_SMCConfig (smc_config self)" and "smc_detect_patterns self htf ltf = Inr cs" and "c \<in> set cs"
    and "cd_ltf_confirmation c"
  shows "cd_pattern c \<in> {TURTLE_SOUP_LONG, TURTLE_SOUP_SHORT, SH_BMS_RTO_BULLISH, SH_BMS_RTO_BEARISH}"
  using detect_patterns_good [OF assms(6,7,1-5)] assms(8) by (simp add: good_candidate_def confirmable_def)

theorem smc_confirmed_only_witness:
  "\<exists>c. smc_detect_patterns ex_smc ex_htf ex_ltf = Inr [c] \<and> cd_ltf_confirmation c \<and>
     cd_pattern c \<in> {TURTLE_SOUP_LONG, TURTLE_SOUP_SHORT, SH_BMS_RTO_BULLISH, SH_BMS_RTO_BEARISH}"
proof -
  obtain c where c: "smc_detect_patterns ex_smc ex_htf ex_ltf = Inr [c]" "cd_ltf_confirmation c"
    by (rule ex_smc_candidate)
  from smc_confirmed_only [OF ex_smc_wf c(1) _ c(2)] c show ?thesis by simp
qed

end
