(* ===== verification/Compression.thy ===== *)
theory Compression
  imports LiquidityModels
begin

text \<open>
  \<^verbatim>\<open>CompressionAnalyzer\<close> of \<^verbatim>\<open>engine/ta/common/analyzers/compression.py\<close>. The
  \<^verbatim>\<open>for\<close> loop of \<^verbatim>\<open>_find_compression_at_index\<close> walks the candles after the start
  candle; the \<^verbatim>\<open>while\<close> loop of \<^verbatim>\<open>detect_compression\<close> is a recursion whose
  termination rests on the end index of an event lying after its start.
\<close>

section \<open>The analyzer\<close>

record CompressionAnalyzer =
  co_min_candles :: nat
  co_max_range_pips :: rat
  co_min_range_pips :: rat

definition determine_compression_direction :: "Candle list \<Rightarrow> Direction" where
  "determine_compression_direction candles =
     (if candles = [] then NEUTRAL
      else let first_close = c_close (hd candles); last_close = c_close (last candles) in
      if first_close < last_close then BULLISH
      else if last_close < first_close then BEARISH
      else NEUTRAL)"

fun compression_scan ::
  "CompressionAnalyzer \<Rightarrow> Candle list \<Rightarrow> nat \<Rightarrow> price \<Rightarrow> price \<Rightarrow> nat \<Rightarrow> nat \<Rightarrow> Candle list \<Rightarrow>
   CompressionEvent option result" where
  "compression_scan self candles start_index high low candle_count i [] = Inr None"
| "compression_scan self candles start_index high low candle_count i (current # rest) =
     (let temp_high = max high (c_high current); temp_low = min low (c_low current) in
      bindR (calculate_pips temp_low temp_high (c_symbol current)) (\<lambda>temp_range_pips.
        if co_max_range_pips self < temp_range_pips then Inr None
        else if co_min_candles self \<le> candle_count + 1
        then bindR (calculate_pips temp_low temp_high (c_symbol current)) (\<lambda>range_pips.
          if range_pips < co_min_range_pips self
          then compression_scan self candles start_index temp_high temp_low (candle_count + 1)
                 (i + 1) rest
          else let start_candle = candles ! start_index in
            bindR (mk_CompressionEvent (c_symbol start_candle) (c_timeframe start_candle)
                (c_timestamp start_candle) (Some (c_timestamp current)) temp_high temp_low
                (determine_compression_direction (drop start_index (take (i + 1) candles)))
                (candle_count + 1) start_index (Some i)) (\<lambda>e. Inr (Some e)))
        else compression_scan self candles start_index temp_high temp_low (candle_count + 1)
               (i + 1) rest))"

definition find_compression_at_index ::
  "CompressionAnalyzer \<Rightarrow> CandleSequence \<Rightarrow> nat \<Rightarrow> CompressionEvent option result" where
  "find_compression_at_index self sequence start_index =
     (let candles = seq_candles sequence in
      if length candles < start_index + co_min_candles self then Inr None
      else if length candles \<le> start_index then Inl IndexError
      else let start_candle = candles ! start_index in
        compression_scan self candles start_index (c_high start_candle) (c_low start_candle) 1
          (start_index + 1) (drop (start_index + 1) candles))"

lemma compression_scan_end:
  "compression_scan self cs a h l n i rest = Inr (Some e) \<Longrightarrow>
     \<exists>k. ce_end_index e = Some k \<and> i \<le> k \<and> k < i + length rest"
proof (induction self cs a h l n i rest rule: compression_scan.induct)
  case (2 self cs a h l n i current rest)
  then show ?case
    by (fastforce simp: Let_def mk_CompressionEvent_def mk_model_Inr split: if_splits)
qed simp

lemma find_compression_end:
  "find_compression_at_index self s i = Inr (Some e) \<Longrightarrow>
     \<exists>k. ce_end_index e = Some k \<and> i < k \<and> k < length (seq_candles s)"
  by (force simp: find_compression_at_index_def Let_def split: if_splits dest!: compression_scan_end)

function compression_loop ::
  "CompressionAnalyzer \<Rightarrow> CandleSequence \<Rightarrow> nat \<Rightarrow> CompressionEvent list result" where
  "compression_loop self sequence i =
     (if i + co_min_candles self < length (seq_candles sequence) + 1
      then bindR (find_compression_at_index self sequence i) (\<lambda>compression.
        case compression of
          None \<Rightarrow> compression_loop self sequence (i + 1)
        | Some c \<Rightarrow>
            bindR (compression_loop self sequence
                (case ce_end_index c of
                   Some e \<Rightarrow> if e \<noteq> 0 then e + 1 else i + 1
                 | None \<Rightarrow> i + 1)) (\<lambda>rest. Inr (c # rest)))
      else Inr [])"
  by pat_completeness auto
termination
  by (relation "measure (\<lambda>(_, sequence, i). Suc (length (seq_candles sequence)) - i)")
     (auto dest: find_compression_end)

declare compression_loop.simps [simp del]

definition detect_compression ::
  "CompressionAnalyzer \<Rightarrow> CandleSequence \<Rightarrow> CompressionEvent list result" where
  "detect_compression self sequence = compression_loop self sequence 0"

definition detect_breakout :: "CompressionEvent \<Rightarrow> CandleSequence \<Rightarrow> Direction option" where
  "detect_breakout compression sequence =
     (case ce_end_index compression of
        None \<Rightarrow> None
      | Some e \<Rightarrow>
          if length (seq_candles sequence) \<le> e + 1 then None
          else let breakout_candle = seq_candles sequence ! (e + 1) in
          if ce_high compression < c_close breakout_candle then Some BULLISH
          else if c_close breakout_candle < ce_low compression then Some BEARISH
          else None)"

definition is_compression :: "CompressionAnalyzer \<Rightarrow> Candle list \<Rightarrow> string \<Rightarrow> bool result" where
  "is_compression self candles symbol =
     (if length candles < co_min_candles self then Inr False
      else bindR (py_min (map c_low candles)) (\<lambda>low.
           bindR (py_max (map c_high candles)) (\<lambda>high.
           bindR (calculate_pips low high symbol) (\<lambda>range_pips.
             if range_pips < co_min_range_pips self \<or> co_max_range_pips self < range_pips
             then Inr False else Inr True))))"

definition is_valid_compression :: "CompressionAnalyzer \<Rightarrow> CompressionEvent \<Rightarrow> bool result" where
  "is_valid_compression self compression =
     (if ce_candle_count compression < co_min_candles self then Inr False
      else bindR (calculate_pips (ce_low compression) (ce_high compression) (ce_symbol compression))
        (\<lambda>range_pips.
          if range_pips < co_min_range_pips self \<or> co_max_range_pips self < range_pips
          then Inr False else Inr True))"

definition get_compression_midpoint :: "CompressionEvent \<Rightarrow> price" where
  "get_compression_midpoint compression = (ce_high compression + ce_low compression) / 2"

section \<open>Windows\<close>

text \<open>The highest high and lowest low of the candles \<open>a\<close> to \<open>k\<close>, both included.\<close>

definition whigh :: "Candle list \<Rightarrow> nat \<Rightarrow> nat \<Rightarrow> price" where
  "whigh cs a k = Max (c_high ` set (drop a (take (Suc k) cs)))"

definition wlow :: "Candle list \<Rightarrow> nat \<Rightarrow> nat \<Rightarrow> price" where
  "wlow cs a k = Min (c_low ` set (drop a (take (Suc k) cs)))"

definition wpips :: "Candle list \<Rightarrow> nat \<Rightarrow> nat \<Rightarrow> rat" where
  "wpips cs a k = (whigh cs a k - wlow cs a k) / get_pip_value (c_symbol (cs ! k))"

lemma window_set:
  assumes "a \<le> k" "k < length cs"
  shows "set (drop a (take (Suc k) cs)) = insert (cs ! k) (set (drop a (take k cs)))"
  using assms by (simp add: take_Suc_conv_app_nth)

lemma window_single:
  assumes "a < length cs"
  shows "whigh cs a a = c_high (cs ! a)" "wlow cs a a = c_low (cs ! a)"
  using window_set [of a a cs] assms by (simp_all add: whigh_def wlow_def)

lemma window_Suc:
  assumes "a \<le> k" "Suc k < length cs"
  shows "whigh cs a (Suc k) = max (whigh cs a k) (c_high (cs ! Suc k))"
    and "wlow cs a (Suc k) = min (wlow cs a k) (c_low (cs ! Suc k))"
proof -
  have "set (drop a (take (Suc k) cs)) \<noteq> {}" using window_set [of a k cs] assms by simp
  then show "whigh cs a (Suc k) = max (whigh cs a k) (c_high (cs ! Suc k))"
      "wlow cs a (Suc k) = min (wlow cs a k) (c_low (cs ! Suc k))"
    using window_set [of a "Suc k" cs] assms
    by (simp_all add: whigh_def wlow_def max.commute min.commute)
qed

lemma window_pos:
  assumes "wf_market s" and "a \<le> k" and "k < length (seq_candles s)"
  shows "0 < wlow (seq_candles s) a k" "wlow (seq_candles s) a k \<le> whigh (seq_candles s) a k"
    "0 < whigh (seq_candles s) a k"
proof -
  let ?W = "set (drop a (take (Suc k) (seq_candles s)))"
  have ne: "?W \<noteq> {}" using window_set [OF assms(2,3)] by simp
  have "?W \<subseteq> set (seq_candles s)" by (meson order_trans set_drop_subset set_take_subset)
  then have wf: "wf_candle c" if "c \<in> ?W" for c
    using assms(1) that by (auto simp: wf_market_def wf_seq_def)
  show low: "0 < wlow (seq_candles s) a k"
    unfolding wlow_def using ne wf_candleD(1) [OF wf] by simp
  define c where "c = seq_candles s ! k"
  have c: "c \<in> ?W" using window_set [OF assms(2,3)] by (simp add: c_def)
  have "wlow (seq_candles s) a k \<le> c_low c" "c_high c \<le> whigh (seq_candles s) a k"
    unfolding wlow_def whigh_def using c by simp_all
  then show "wlow (seq_candles s) a k \<le> whigh (seq_candles s) a k"
    using wf_candleD(5) [OF wf [OF c]] by linarith
  then show "0 < whigh (seq_candles s) a k" using low by linarith
qed

lemma wpips_mono:
  assumes "wf_market s" and "a \<le> j" and "j \<le> k" and "k < length (seq_candles s)"
  shows "wpips (seq_candles s) a j \<le> wpips (seq_candles s) a k"
proof -
  let ?cs = "seq_candles s"
  let ?W = "\<lambda>k. set (drop a (take (Suc k) ?cs))"
  have "?W j \<subseteq> ?W k"
    unfolding drop_take using assms(3) by (intro set_take_subset_set_take) simp
  moreover have "?W j \<noteq> {}" using window_set [of a j ?cs] assms by simp
  ultimately have "whigh ?cs a j \<le> whigh ?cs a k" "wlow ?cs a k \<le> wlow ?cs a j"
    unfolding whigh_def wlow_def by (auto intro!: Max_mono Min_antimono)
  then have "whigh ?cs a j - wlow ?cs a j \<le> whigh ?cs a k - wlow ?cs a k" by linarith
  moreover have "c_symbol (?cs ! j) = c_symbol (?cs ! k)"
    by (rule wf_market_symbol(1) [OF assms(1)]) (use assms in simp_all)
  ultimately show ?thesis
    unfolding wpips_def by (simp add: divide_right_mono less_imp_le)
qed

section \<open>What the scan finds\<close>

text \<open>The candles \<open>a\<close> to \<open>k\<close> form a compression.\<close>

definition compressed :: "CompressionAnalyzer \<Rightarrow> Candle list \<Rightarrow> nat \<Rightarrow> nat \<Rightarrow> bool" where
  "compressed self cs a k \<longleftrightarrow> co_min_candles self \<le> k + 1 - a \<and>
     co_min_range_pips self \<le> wpips cs a k \<and> wpips cs a k \<le> co_max_range_pips self"

definition compression_event :: "Candle list \<Rightarrow> nat \<Rightarrow> nat \<Rightarrow> CompressionEvent" where
  "compression_event cs a k =
     \<lparr>ce_symbol = c_symbol (cs ! a), ce_timeframe = c_timeframe (cs ! a),
      ce_start_timestamp = c_timestamp (cs ! a), ce_end_timestamp = Some (c_timestamp (cs ! k)),
      ce_high = whigh cs a k, ce_low = wlow cs a k,
      ce_direction = determine_compression_direction (drop a (take (k + 1) cs)),
      ce_candle_count = k + 1 - a, ce_start_index = a, ce_end_index = Some k, ce_broken = False,
      ce_breakout_direction = None\<rparr>"

lemma window_pips:
  assumes "wf_market s" and "a \<le> k" and "k < length (seq_candles s)"
  shows "calculate_pips (wlow (seq_candles s) a k) (whigh (seq_candles s) a k)
     (c_symbol (seq_candles s ! k)) = Inr (wpips (seq_candles s) a k)"
  using window_pos [OF assms] by (simp add: calculate_pips_Inr less_imp_le wpips_def)

lemma compression_scan_find:
  assumes "wf_market s" and "a < i" and "i \<le> length (seq_candles s)"
  shows "compression_scan self (seq_candles s) a (whigh (seq_candles s) a (i - 1))
      (wlow (seq_candles s) a (i - 1)) (i - a) i (drop i (seq_candles s)) =
     Inr (map_option (compression_event (seq_candles s) a)
       (find (compressed self (seq_candles s) a) [i..<length (seq_candles s)]))"
  using assms(2,3)
proof (induction "length (seq_candles s) - i" arbitrary: i)
  case 0
  then show ?case by simp
next
  case (Suc m)
  let ?cs = "seq_candles s"
  have i: "i < length ?cs" "a \<le> i" using Suc by simp_all
  then have d: "drop i ?cs = ?cs ! i # drop (Suc i) ?cs" and u: "[i..<length ?cs] = i # [Suc i..<length ?cs]"
    by (simp_all add: Cons_nth_drop_Suc upt_conv_Cons)
  have w: "max (whigh ?cs a (i - 1)) (c_high (?cs ! i)) = whigh ?cs a i"
      "min (wlow ?cs a (i - 1)) (c_low (?cs ! i)) = wlow ?cs a i"
    using window_Suc [of a "i - 1" ?cs] Suc.prems i by simp_all
  have IH: "compression_scan self ?cs a (whigh ?cs a i) (wlow ?cs a i) (Suc (i - a)) (Suc i)
      (drop (Suc i) ?cs) = Inr (map_option (compression_event ?cs a)
       (find (compressed self ?cs a) [Suc i..<length ?cs]))"
    using Suc.hyps(1) [of "Suc i"] Suc.hyps(2) Suc.prems i by (simp add: Suc_diff_le)
  have stop: "find (compressed self ?cs a) [Suc i..<length ?cs] = None"
    if "co_max_range_pips self < wpips ?cs a i"
  proof -
    have "\<not> compressed self ?cs a k" if "i \<le> k" "k < length ?cs" for k
      using wpips_mono [OF assms(1) i(2) that] \<open>co_max_range_pips self < wpips ?cs a i\<close>
      unfolding compressed_def by linarith
    then show ?thesis by (auto simp: find_None_iff)
  qed
  have mk: "mk_CompressionEvent (c_symbol (?cs ! a)) (c_timeframe (?cs ! a)) (c_timestamp (?cs ! a))
      (Some (c_timestamp (?cs ! i))) (whigh ?cs a i) (wlow ?cs a i)
      (determine_compression_direction (drop a (take (i + 1) ?cs))) (i - a + 1) a (Some i) =
      Inr (compression_event ?cs a i)"
    using window_pos [OF assms(1) i(2,1)] wf_marketD(4) [OF assms(1), of a] i Suc.prems
    by (simp add: mk_CompressionEvent_def mk_model_clean compression_event_def Suc_diff_le)
  have step: "compression_scan self ?cs a (whigh ?cs a (i - 1)) (wlow ?cs a (i - 1)) (i - a) i
      (drop i ?cs) =
     (if co_max_range_pips self < wpips ?cs a i then Inr None
      else if co_min_candles self \<le> i - a + 1 \<and> \<not> wpips ?cs a i < co_min_range_pips self
      then Inr (Some (compression_event ?cs a i))
      else compression_scan self ?cs a (whigh ?cs a i) (wlow ?cs a i) (Suc (i - a)) (Suc i)
        (drop (Suc i) ?cs))"
    unfolding d compression_scan.simps Let_def w window_pips [OF assms(1) i(2,1)] bindR.simps mk
    by simp
  have ci: "compressed self ?cs a i \<longleftrightarrow> \<not> co_max_range_pips self < wpips ?cs a i \<and>
      co_min_candles self \<le> i - a + 1 \<and> \<not> wpips ?cs a i < co_min_range_pips self"
    using i by (auto simp: compressed_def Suc_diff_le not_less)
  show ?case
  proof (cases "co_max_range_pips self < wpips ?cs a i")
    case True
    then show ?thesis using stop ci unfolding step u by simp
  next
    case False
    then show ?thesis using ci unfolding step u IH by (cases "compressed self ?cs a i") auto
  qed
qed

lemma find_compression_spec:
  assumes "wf_market s" and "0 < co_min_candles self"
  shows "find_compression_at_index self s a =
     Inr (if a + co_min_candles self \<le> length (seq_candles s)
          then map_option (compression_event (seq_candles s) a)
            (find (compressed self (seq_candles s) a) [Suc a..<length (seq_candles s)])
          else None)"
proof (cases "a + co_min_candles self \<le> length (seq_candles s)")
  case True
  then have a: "a < length (seq_candles s)" using assms(2) by simp
  have "compression_scan self (seq_candles s) a (c_high (seq_candles s ! a)) (c_low (seq_candles s ! a))
      1 (a + 1) (drop (a + 1) (seq_candles s)) = Inr (map_option (compression_event (seq_candles s) a)
       (find (compressed self (seq_candles s) a) [Suc a..<length (seq_candles s)]))"
    using compression_scan_find [OF assms(1), of a "Suc a" self] window_single [OF a] a by simp
  then show ?thesis using True a by (simp add: find_compression_at_index_def Let_def not_less)
qed (simp add: find_compression_at_index_def Let_def)

section \<open>What the detector reports\<close>

text \<open>An event is the earliest compression that begins at its start index.\<close>

definition earliest_compression :: "CompressionAnalyzer \<Rightarrow> Candle list \<Rightarrow> CompressionEvent \<Rightarrow> bool" where
  "earliest_compression self cs e \<longleftrightarrow>
     (\<exists>a k. e = compression_event cs a k \<and> a < k \<and> k < length cs \<and> compressed self cs a k \<and>
        (\<forall>j. a < j \<and> j < k \<longrightarrow> \<not> compressed self cs a j))"

definition covers :: "CompressionEvent \<Rightarrow> nat \<Rightarrow> bool" where
  "covers e a \<longleftrightarrow> ce_start_index e \<le> a \<and> (\<exists>k. ce_end_index e = Some k \<and> a \<le> k)"

definition ends_before :: "CompressionEvent \<Rightarrow> CompressionEvent \<Rightarrow> bool" where
  "ends_before e f \<longleftrightarrow> (\<exists>k. ce_end_index e = Some k \<and> k < ce_start_index f)"

lemma find_compression_cases:
  assumes "wf_market s" and "0 < co_min_candles self"
  obtains (none) "find_compression_at_index self s a = Inr None"
      "\<And>k. a < k \<Longrightarrow> k < length (seq_candles s) \<Longrightarrow> \<not> compressed self (seq_candles s) a k"
  | (event) k where "find_compression_at_index self s a = Inr (Some (compression_event (seq_candles s) a k))"
      "earliest_compression self (seq_candles s) (compression_event (seq_candles s) a k)"
      "a < k" "k < length (seq_candles s)"
proof (cases "find (compressed self (seq_candles s) a) [Suc a..<length (seq_candles s)]")
  case None
  then have n: "\<And>k. a < k \<Longrightarrow> k < length (seq_candles s) \<Longrightarrow> \<not> compressed self (seq_candles s) a k"
    by (auto simp: find_None_iff)
  show thesis by (rule none) (use None n in \<open>simp_all add: find_compression_spec [OF assms]\<close>)
next
  case (Some k)
  then have k: "a < k" "k < length (seq_candles s)" "compressed self (seq_candles s) a k"
      "\<And>j. a < j \<Longrightarrow> j < k \<Longrightarrow> \<not> compressed self (seq_candles s) a j"
    by (auto simp: find_upt_Some Suc_le_eq)
  then have "a + co_min_candles self \<le> length (seq_candles s)"
    using k(1-3) unfolding compressed_def by linarith
  then show thesis using Some k
    by (intro event [of k]) (auto simp: find_compression_spec [OF assms] earliest_compression_def)
qed

lemma compression_loop_spec:
  assumes "wf_market s" and "0 < co_min_candles self"
  shows "\<exists>es. compression_loop self s i = Inr es \<and>
     (\<forall>e \<in> set es. earliest_compression self (seq_candles s) e \<and> i \<le> ce_start_index e) \<and>
     sorted_wrt ends_before es \<and>
     (\<forall>a k. i \<le> a \<and> a < k \<and> k < length (seq_candles s) \<and> compressed self (seq_candles s) a k \<longrightarrow>
        (\<exists>e \<in> set es. covers e a))"
proof (induction "Suc (length (seq_candles s)) - i" arbitrary: i rule: less_induct)
  case less
  let ?cs = "seq_candles s"
  show ?case
  proof (cases "i + co_min_candles self \<le> length ?cs")
    case False
    then have "compression_loop self s i = Inr []" by (simp add: compression_loop.simps)
    moreover have False if "i \<le> a" "a < k" "k < length ?cs" "compressed self ?cs a k" for a k
      using that False unfolding compressed_def by linarith
    ultimately show ?thesis by auto
  next
    case True
    then have i: "i < length ?cs" using assms(2) by simp
    from assms show ?thesis
    proof (cases rule: find_compression_cases [where a = i])
      case none
      obtain es where es: "compression_loop self s (Suc i) = Inr es"
          "\<forall>e \<in> set es. earliest_compression self ?cs e \<and> Suc i \<le> ce_start_index e"
          "sorted_wrt ends_before es"
          "\<And>a k. Suc i \<le> a \<Longrightarrow> a < k \<Longrightarrow> k < length ?cs \<Longrightarrow> compressed self ?cs a k \<Longrightarrow>
             \<exists>e \<in> set es. covers e a"
        using less [of "Suc i"] i by (simp add: Suc_diff_le) metis
      have "compression_loop self s i = Inr es"
        using True none(1) es(1) by (simp add: compression_loop.simps [of self s i])
      moreover have "\<exists>e \<in> set es. covers e a"
        if "i \<le> a" "a < k" "k < length ?cs" "compressed self ?cs a k" for a k
        using that none(2) es(4) by (cases "a = i") auto
      ultimately show ?thesis using es(2,3) Suc_leD by blast
    next
      case (event k)
      let ?e = "compression_event ?cs i k"
      have lt: "Suc (length ?cs) - Suc k < Suc (length ?cs) - i" using event i by simp
      obtain es where es: "compression_loop self s (Suc k) = Inr es"
          "\<forall>e \<in> set es. earliest_compression self ?cs e \<and> Suc k \<le> ce_start_index e"
          "sorted_wrt ends_before es"
          "\<And>a j. Suc k \<le> a \<Longrightarrow> a < j \<Longrightarrow> j < length ?cs \<Longrightarrow> compressed self ?cs a j \<Longrightarrow>
             \<exists>e \<in> set es. covers e a"
        using less [OF lt] by metis
      have e: "ce_end_index ?e = Some k" "ce_start_index ?e = i"
        by (simp_all add: compression_event_def)
      have "compression_loop self s i = Inr (?e # es)"
        using True event es(1) e by (simp add: compression_loop.simps [of self s i])
      moreover have "\<exists>f \<in> set (?e # es). covers f a"
        if "i \<le> a" "a < j" "j < length ?cs" "compressed self ?cs a j" for a j
        using that es(4) [of a j] e by (cases "a \<le> k") (auto simp: covers_def)
      moreover have "sorted_wrt ends_before (?e # es)"
        using es(2,3) e by (auto simp: ends_before_def Suc_le_eq)
      moreover have "\<forall>f \<in> set (?e # es). earliest_compression self ?cs f \<and> i \<le> ce_start_index f"
        using es(2) event e by (auto dest!: Suc_leD)
      ultimately show ?thesis by blast
    qed
  qed
qed

section \<open>Properties\<close>

text \<open>C21. On a well-formed market, and for \<open>min_candles > 0\<close>, \<^verbatim>\<open>detect_compression\<close>
  terminates without raising. Every event it returns spans a window of at least
  \<open>min_candles\<close> candles whose range lies between \<open>min_range_pips\<close> and
  \<open>max_range_pips\<close>, is the earliest such window from its start, and is accepted by
  \<^verbatim>\<open>is_valid_compression\<close>; the windows are disjoint and in order; and no compression is
  missed: wherever some window qualifies, its first candle lies inside a returned event.\<close>

theorem detect_compression_spec:
  assumes "wf_market s" and "0 < co_min_candles self"
  shows "\<exists>es. detect_compression self s = Inr es \<and>
     (\<forall>e \<in> set es. earliest_compression self (seq_candles s) e \<and>
        is_valid_compression self e = Inr True) \<and>
     sorted_wrt ends_before es \<and>
     (\<forall>a k. a < k \<and> k < length (seq_candles s) \<and> compressed self (seq_candles s) a k \<longrightarrow>
        (\<exists>e \<in> set es. covers e a))"
proof -
  have "is_valid_compression self e = Inr True" if h: "earliest_compression self (seq_candles s) e" for e
  proof -
    obtain a k where e: "e = compression_event (seq_candles s) a k" "a < k" "k < length (seq_candles s)"
        "compressed self (seq_candles s) a k"
      using h unfolding earliest_compression_def by blast
    have "c_symbol (seq_candles s ! a) = c_symbol (seq_candles s ! k)"
      by (rule wf_market_symbol(1) [OF assms(1)]) (use e in simp_all)
    then show ?thesis
      using window_pips [OF assms(1), of a k] e
      by (auto simp: is_valid_compression_def compression_event_def compressed_def)
  qed
  moreover obtain es where "compression_loop self s 0 = Inr es"
      "\<forall>e \<in> set es. earliest_compression self (seq_candles s) e" "sorted_wrt ends_before es"
      "\<forall>a k. a < k \<and> k < length (seq_candles s) \<and> compressed self (seq_candles s) a k \<longrightarrow>
         (\<exists>e \<in> set es. covers e a)"
    using compression_loop_spec [OF assms, of 0] by auto
  ultimately show ?thesis unfolding detect_compression_def by (intro exI [of _ es]) simp
qed

definition ex_compression_analyzer :: CompressionAnalyzer where
  "ex_compression_analyzer =
     \<lparr>co_min_candles = 2, co_max_range_pips = 20000, co_min_range_pips = 5\<rparr>"

theorem detect_compression_spec_witness:
  "\<exists>es. detect_compression ex_compression_analyzer ex_seq = Inr es \<and> (\<exists>e \<in> set es. covers e 0)"
proof -
  have wf: "wf_market ex_seq" using wf_ex_seq by (simp add: wf_market_def) (simp add: ex_seq_def)
  have "compressed ex_compression_analyzer (seq_candles ex_seq) 0 1"
    by (simp add: compressed_def ex_compression_analyzer_def wpips_def whigh_def wlow_def ex_seq_def
        pip_EURUSD)
  moreover have "0 < co_min_candles ex_compression_analyzer" "1 < length (seq_candles ex_seq)"
    by (simp_all add: ex_compression_analyzer_def ex_seq_def)
  ultimately show ?thesis
    using detect_compression_spec [OF wf, of ex_compression_analyzer] zero_less_one by metis
qed

end
