(* ===== verification/SnD.thy ===== *)
theory SnD
  imports ZoneModels Structure CandleAnalysis Compression Liquidity
begin

text \<open>
  The supply and demand detectors of \<^verbatim>\<open>engine/ta/snd/detectors\<close>: Quasimodo levels
  (\<^verbatim>\<open>qm.py\<close>), support/resistance flips (\<^verbatim>\<open>sr_flip.py\<close>, \<^verbatim>\<open>rs_flip.py\<close>),
  fakeout tests (\<^verbatim>\<open>fakeouts.py\<close>), mini price levels (\<^verbatim>\<open>mpl.py\<close>), previous highs and
  lows (\<^verbatim>\<open>previous_levels.py\<close>) and supply and demand zones
  (\<^verbatim>\<open>supply_demand.py\<close>), with the settings they read (\<^verbatim>\<open>snd/config.py\<close>). As in
  \<open>Structure\<close>, the mirrored methods of a detector are one definition with the comparison
  \<open>beyond\<close> as an argument.
\<close>

section \<open>Settings\<close>

record SnDConfig =
  sn_min_previous_touches :: nat
  sn_previous_level_tolerance_pips :: rat
  sn_compression_min_candles :: nat
  sn_enabled :: bool
  sn_marubozu_body_percentage_threshold :: rat
  sn_marubozu_max_wick_percentage :: rat
  sn_min_fakeout_tests :: nat
  sn_require_fibonacci_confluence :: bool
  sn_fibonacci_tolerance_pips :: rat
  sn_enable_qml_baseline :: bool
  sn_enable_qml_previous_levels_type1 :: bool
  sn_enable_qml_previous_levels_type2 :: bool
  sn_enable_fakeout_king :: bool

definition default_SnDConfig :: SnDConfig where
  "default_SnDConfig = \<lparr>sn_min_previous_touches = 2, sn_previous_level_tolerance_pips = 3,
     sn_compression_min_candles = 3, sn_enabled = True, sn_marubozu_body_percentage_threshold = 80,
     sn_marubozu_max_wick_percentage = 10, sn_min_fakeout_tests = 1,
     sn_require_fibonacci_confluence = False, sn_fibonacci_tolerance_pips = 5,
     sn_enable_qml_baseline = True, sn_enable_qml_previous_levels_type1 = True,
     sn_enable_qml_previous_levels_type2 = True, sn_enable_fakeout_king = True\<rparr>"

text \<open>The bounds of the fields together with the two field validators.\<close>

definition valid_SnDConfig :: "SnDConfig \<Rightarrow> bool" where
  "valid_SnDConfig c \<longleftrightarrow> 2 \<le> sn_min_previous_touches c \<and> sn_min_previous_touches c \<le> 10 \<and>
     1 \<le> sn_previous_level_tolerance_pips c \<and> sn_previous_level_tolerance_pips c \<le> 10 \<and>
     2 \<le> sn_compression_min_candles c \<and> sn_compression_min_candles c \<le> 10 \<and>
     80 \<le> sn_marubozu_body_percentage_threshold c \<and> sn_marubozu_body_percentage_threshold c \<le> 95 \<and>
     5 \<le> sn_marubozu_max_wick_percentage c \<and> sn_marubozu_max_wick_percentage c \<le> 20 \<and>
     1 \<le> sn_min_fakeout_tests c \<and> sn_min_fakeout_tests c \<le> 10 \<and>
     2 \<le> sn_fibonacci_tolerance_pips c \<and> sn_fibonacci_tolerance_pips c \<le> 15"

section \<open>Quasimodo levels\<close>

text \<open>A swing as price, index and timestamp.\<close>

type_synonym swing3 = "price \<times> nat \<times> datetime"

abbreviation swing_of_high :: "SwingHigh \<Rightarrow> swing3" where
  "swing_of_high s \<equiv> (sh_price s, sh_index s, sh_timestamp s)"

abbreviation swing_of_low :: "SwingLow \<Rightarrow> swing3" where
  "swing_of_low s \<equiv> (sl_price s, sl_index s, sl_timestamp s)"

text \<open>The most extreme opposite swing strictly between two times; the first of equal ones.\<close>

fun qm_neckline ::
  "(price \<Rightarrow> price \<Rightarrow> bool) \<Rightarrow> datetime \<Rightarrow> datetime \<Rightarrow> swing3 option \<Rightarrow> swing3 list \<Rightarrow> swing3 option" where
  "qm_neckline beyond t1 t2 neckline [] = neckline"
| "qm_neckline beyond t1 t2 neckline ((p, i, t) # rest) =
     qm_neckline beyond t1 t2
       (if t1 < t \<and> t < t2 \<and> (case neckline of None \<Rightarrow> True | Some (q, _, _) \<Rightarrow> beyond p q)
        then Some (p, i, t) else neckline) rest"

text \<open>\<^verbatim>\<open>QMDetector._get_required_confirmations\<close>, a copy of the method of the CHOCH detector.\<close>

definition qm_required_confirmations :: "Timeframe \<Rightarrow> nat" where
  "qm_required_confirmations timeframe =
     (if timeframe \<in> {M1, M5} then 1 else if timeframe \<in> {M15, M30} then 2 else 3)"

definition mk_qm ::
  "CandleSequence \<Rightarrow> Direction \<Rightarrow> swing3 \<Rightarrow> swing3 \<Rightarrow> swing3 \<Rightarrow> nat \<Rightarrow> Candle \<Rightarrow> QuasiModoLevel result" where
  "mk_qm sequence direction shoulder head neckline break_idx confirm =
     (case (shoulder, head, neckline) of ((p1, i1, t1), (p2, i2, t2), (pn, inx, tn)) \<Rightarrow>
      let ts = c_timestamp confirm; cl = c_close confirm in
      if direction = BEARISH
      then mk_QuasiModoLevel (seq_symbol sequence) (seq_timeframe sequence) p1 t1 break_idx BEARISH
             (Some p1) (Some p2) (Some t1) (Some t2) (Some i2)
             (Some pn) (Some cl) (Some tn) (Some ts) None ts True
      else mk_QuasiModoLevel (seq_symbol sequence) (seq_timeframe sequence) p1 t1 break_idx BULLISH
             (Some pn) (Some cl) (Some tn) (Some ts) None
             (Some p1) (Some p2) (Some t1) (Some t2) (Some i2) ts True)"

definition qm_at ::
  "CandleSequence \<Rightarrow> (price \<Rightarrow> price \<Rightarrow> bool) \<Rightarrow> Direction \<Rightarrow> swing3 list \<Rightarrow> swing3 list \<Rightarrow> nat \<Rightarrow>
   QuasiModoLevel option result" where
  "qm_at sequence beyond direction shoulders necks i =
     (let candles = seq_candles sequence;
          required_closes = qm_required_confirmations (seq_timeframe sequence);
          (p1, i1, t1) = shoulders ! i; (p2, i2, t2) = shoulders ! (i + 1)
      in if \<not> beyond p1 p2 then Inr None
      else case qm_neckline beyond t1 t2 None necks of
        None \<Rightarrow> Inr None
      | Some (pn, inx, tn) \<Rightarrow>
          case first_break_idx beyond candles pn (i2 + 1) of
            None \<Rightarrow> Inr None
          | Some first_break \<Rightarrow>
              if confirmed_count beyond candles pn first_break required_closes < required_closes
              then Inr None
              else bindR (mk_qm sequence direction (p1, i1, t1) (p2, i2, t2) (pn, inx, tn) first_break
                     (candles ! confirm_candle_idx candles first_break required_closes))
                   (\<lambda>qm. Inr (Some qm)))"

definition detect_qml ::
  "CandleSequence \<Rightarrow> SwingHigh list \<Rightarrow> SwingLow list \<Rightarrow> QuasiModoLevel list result" where
  "detect_qml sequence swing_highs swing_lows =
     (if length swing_highs < 2 \<or> swing_lows = [] then Inr []
      else let sorted_highs = map swing_of_high (sort_key sh_timestamp swing_highs);
               sorted_lows = map swing_of_low (sort_key sl_timestamp swing_lows)
           in collectR (qm_at sequence (<) BEARISH sorted_highs sorted_lows) [0..<length sorted_highs - 1])"

definition detect_qmh ::
  "CandleSequence \<Rightarrow> SwingLow list \<Rightarrow> SwingHigh list \<Rightarrow> QuasiModoLevel list result" where
  "detect_qmh sequence swing_lows swing_highs =
     (if length swing_lows < 2 \<or> swing_highs = [] then Inr []
      else let sorted_lows = map swing_of_low (sort_key sl_timestamp swing_lows);
               sorted_highs = map swing_of_high (sort_key sh_timestamp swing_highs)
           in collectR (qm_at sequence (>) BULLISH sorted_lows sorted_highs) [0..<length sorted_lows - 1])"

definition get_latest_qml :: "QuasiModoLevel list \<Rightarrow> QuasiModoLevel option" where
  "get_latest_qml qml_levels = max_key qm_timestamp (filter qm_is_valid qml_levels)"

definition get_latest_qmh :: "QuasiModoLevel list \<Rightarrow> QuasiModoLevel option" where
  "get_latest_qmh qmh_levels = max_key qm_timestamp (filter qm_is_valid qmh_levels)"

section \<open>Flips\<close>

definition sr_flip_at ::
  "MarubozuAnalyzer \<Rightarrow> CandleSequence \<Rightarrow> SwingLow \<Rightarrow> nat \<Rightarrow> SRFlip option result" where
  "sr_flip_at marubozu_analyzer sequence swing_low i =
     (let candle = seq_candles sequence ! i in
      bindR (is_bearish_marubozu_for_timeframe marubozu_analyzer candle (seq_timeframe sequence)) (\<lambda>b.
        if \<not> b then Inr None
        else if sl_price swing_low \<le> c_close candle then Inr None
        else bindR (mk_SRFlip (seq_symbol sequence) (seq_timeframe sequence) (c_timestamp candle)
               (sl_price swing_low) (sl_timestamp swing_low) i (c_close candle) (sl_price swing_low)
               BEARISH True) (\<lambda>sr_flip. Inr (Some sr_flip))))"

definition detect_sr_flips ::
  "MarubozuAnalyzer \<Rightarrow> CandleSequence \<Rightarrow> SwingLow list \<Rightarrow> SRFlip list result" where
  "detect_sr_flips marubozu_analyzer sequence swing_lows =
     collectR (\<lambda>swing_low.
        if length (seq_candles sequence) - 1 \<le> sl_index swing_low then Inr None
        else firstR (sr_flip_at marubozu_analyzer sequence swing_low)
               [sl_index swing_low + 1..<length (seq_candles sequence)]) swing_lows"

definition get_latest_sr_flip :: "SRFlip list \<Rightarrow> SRFlip option" where
  "get_latest_sr_flip sr_flips = max_key srf_timestamp (filter srf_is_valid sr_flips)"

definition validate_sr_flip_with_marubozu ::
  "MarubozuAnalyzer \<Rightarrow> SRFlip \<Rightarrow> CandleSequence \<Rightarrow> bool result" where
  "validate_sr_flip_with_marubozu marubozu_analyzer sr_flip sequence =
     (if length (seq_candles sequence) \<le> srf_breakout_candle_index sr_flip then Inr False
      else is_bearish_marubozu_for_timeframe marubozu_analyzer
             (seq_candles sequence ! srf_breakout_candle_index sr_flip) (seq_timeframe sequence))"

definition rs_flip_at ::
  "MarubozuAnalyzer \<Rightarrow> CandleSequence \<Rightarrow> SwingHigh \<Rightarrow> nat \<Rightarrow> RSFlip option result" where
  "rs_flip_at marubozu_analyzer sequence swing_high i =
     (let candle = seq_candles sequence ! i in
      bindR (is_bullish_marubozu_for_timeframe marubozu_analyzer candle (seq_timeframe sequence)) (\<lambda>b.
        if \<not> b then Inr None
        else if c_close candle \<le> sh_price swing_high then Inr None
        else bindR (mk_RSFlip (seq_symbol sequence) (seq_timeframe sequence) (c_timestamp candle)
               (sh_price swing_high) (sh_timestamp swing_high) i (c_close candle) (sh_price swing_high)
               BULLISH True) (\<lambda>rs_flip. Inr (Some rs_flip))))"

definition detect_rs_flips ::
  "MarubozuAnalyzer \<Rightarrow> CandleSequence \<Rightarrow> SwingHigh list \<Rightarrow> RSFlip list result" where
  "detect_rs_flips marubozu_analyzer sequence swing_highs =
     collectR (\<lambda>swing_high.
        if length (seq_candles sequence) - 1 \<le> sh_index swing_high then Inr None
        else firstR (rs_flip_at marubozu_analyzer sequence swing_high)
               [sh_index swing_high + 1..<length (seq_candles sequence)]) swing_highs"

definition get_latest_rs_flip :: "RSFlip list \<Rightarrow> RSFlip option" where
  "get_latest_rs_flip rs_flips = max_key rsf_timestamp (filter rsf_is_valid rs_flips)"

definition validate_rs_flip_with_marubozu ::
  "MarubozuAnalyzer \<Rightarrow> RSFlip \<Rightarrow> CandleSequence \<Rightarrow> bool result" where
  "validate_rs_flip_with_marubozu marubozu_analyzer rs_flip sequence =
     (if length (seq_candles sequence) \<le> rsf_breakout_candle_index rs_flip then Inr False
      else is_bullish_marubozu_for_timeframe marubozu_analyzer
             (seq_candles sequence ! rsf_breakout_candle_index rs_flip) (seq_timeframe sequence))"

section \<open>Fakeouts\<close>

record FakeoutTest =
  ft_symbol :: string
  ft_timeframe :: Timeframe
  ft_test_number :: nat
  ft_level :: price
  ft_timestamp :: datetime
  ft_candle_index :: nat
  ft_direction :: Direction
  ft_is_diamond_fakeout :: bool

definition check_diamond_fakeout :: "CandleSequence \<Rightarrow> nat \<Rightarrow> Direction \<Rightarrow> bool" where
  "check_diamond_fakeout sequence candle_index direction =
     (let candles = seq_candles sequence in
      if candle_index < 2 \<or> length candles - 1 \<le> candle_index then False
      else let prev_candle = candles ! (candle_index - 1); candle = candles ! candle_index;
               next_candle = candles ! (candle_index + 1)
        in if direction = BEARISH
           then c_high prev_candle < c_high candle \<and> c_high next_candle < c_high candle \<and>
                c_close candle < c_close prev_candle
           else c_low candle < c_low prev_candle \<and> c_low candle < c_low next_candle \<and>
                c_close prev_candle < c_close candle)"

text \<open>The loop of both methods: for resistance the wick is the high and \<open>beyond\<close> is \<open>>\<close>, for support
  the wick is the low and \<open>beyond\<close> is \<open><\<close>.\<close>

fun fakeout_loop ::
  "CandleSequence \<Rightarrow> (Candle \<Rightarrow> price) \<Rightarrow> (price \<Rightarrow> price \<Rightarrow> bool) \<Rightarrow> Direction \<Rightarrow> price \<Rightarrow> nat \<Rightarrow> nat list \<Rightarrow>
   FakeoutTest list" where
  "fakeout_loop sequence wick beyond direction level test_number [] = []"
| "fakeout_loop sequence wick beyond direction level test_number (i # rest) =
     (let candle = seq_candles sequence ! i;
          fakeout = \<lparr>ft_symbol = seq_symbol sequence, ft_timeframe = seq_timeframe sequence,
            ft_test_number = test_number, ft_level = level, ft_timestamp = c_timestamp candle,
            ft_candle_index = i, ft_direction = direction,
            ft_is_diamond_fakeout = check_diamond_fakeout sequence i direction\<rparr>
      in if \<not> beyond level (wick candle) \<and> beyond level (c_close candle)
         then fakeout # (if beyond (c_close candle) level then []
                else fakeout_loop sequence wick beyond direction level (test_number + 1) rest)
         else if beyond (c_close candle) level then []
         else fakeout_loop sequence wick beyond direction level test_number rest)"

definition detect_resistance_fakeouts :: "CandleSequence \<Rightarrow> price \<Rightarrow> nat \<Rightarrow> FakeoutTest list" where
  "detect_resistance_fakeouts sequence sr_flip_level sr_flip_index =
     fakeout_loop sequence c_high (>) BEARISH sr_flip_level 1
       [sr_flip_index + 1..<length (seq_candles sequence)]"

definition detect_support_fakeouts :: "CandleSequence \<Rightarrow> price \<Rightarrow> nat \<Rightarrow> FakeoutTest list" where
  "detect_support_fakeouts sequence rs_flip_level rs_flip_index =
     fakeout_loop sequence c_low (<) BULLISH rs_flip_level 1
       [rs_flip_index + 1..<length (seq_candles sequence)]"

definition check_compression_at_fakeout ::
  "SnDConfig \<Rightarrow> CompressionAnalyzer \<Rightarrow> CandleSequence \<Rightarrow> nat \<Rightarrow> bool result" where
  "check_compression_at_fakeout config compression_analyzer sequence fakeout_index =
     (if fakeout_index < sn_compression_min_candles config then Inr False
      else let start_index = fakeout_index - sn_compression_min_candles config;
               compression_candles = drop start_index (take (fakeout_index + 1) (seq_candles sequence))
           in is_compression compression_analyzer compression_candles (seq_symbol sequence))"

definition check_fakeout_broken_by_marubozu ::
  "MarubozuAnalyzer \<Rightarrow> CandleSequence \<Rightarrow> price \<Rightarrow> Direction \<Rightarrow> nat \<Rightarrow> nat option result" where
  "check_fakeout_broken_by_marubozu marubozu_analyzer sequence fakeout_level direction last_fakeout_index =
     firstR (\<lambda>i. let candle = seq_candles sequence ! i in
         if direction = BULLISH
         then bindR (is_bullish_marubozu marubozu_analyzer candle) (\<lambda>b.
                Inr (if b \<and> fakeout_level < c_close candle then Some i else None))
         else bindR (is_bearish_marubozu marubozu_analyzer candle) (\<lambda>b.
                Inr (if b \<and> c_close candle < fakeout_level then Some i else None)))
       [last_fakeout_index + 1..<length (seq_candles sequence)]"

section \<open>Mini price levels\<close>

definition check_internal_engulfing :: "Candle \<Rightarrow> Candle \<Rightarrow> Candle \<Rightarrow> bool" where
  "check_internal_engulfing prev_candle candle next_candle =
     (if is_bullish candle
      then c_close prev_candle < c_open candle \<and> c_close candle < c_open next_candle \<and>
           c_close next_candle < c_open candle
      else c_open candle < c_close prev_candle \<and> c_open next_candle < c_close candle \<and>
           c_open candle < c_close next_candle)"

definition mpl_at ::
  "CandleSequence \<Rightarrow> (Candle \<Rightarrow> bool) \<Rightarrow> (Candle \<Rightarrow> price) \<Rightarrow> Direction \<Rightarrow> nat \<Rightarrow>
   MiniPriceLevel option result" where
  "mpl_at sequence oriented level direction i =
     (let candles = seq_candles sequence in
      if i < 1 \<or> length candles - 1 \<le> i then Inr None
      else let candle = candles ! i;
               has_internal_structure =
                 check_internal_engulfing (candles ! (i - 1)) candle (candles ! (i + 1))
        in if oriented candle
           then bindR (mk_MiniPriceLevel (seq_symbol sequence) (seq_timeframe sequence) (level candle)
                  (c_timestamp candle) i direction has_internal_structure has_internal_structure)
                (\<lambda>mpl. Inr (Some mpl))
           else Inr None)"

text \<open>The parameters \<^verbatim>\<open>qml_level\<close> and \<^verbatim>\<open>qmh_level\<close> are not read by the methods.\<close>

definition detect_bearish_mpl :: "CandleSequence \<Rightarrow> price \<Rightarrow> nat \<Rightarrow> MiniPriceLevel list result" where
  "detect_bearish_mpl sequence qml_level h2_index =
     (if h2_index < 2 then Inr []
      else collectR (mpl_at sequence is_bullish c_high BEARISH) [h2_index - 10..<h2_index])"

definition detect_bullish_mpl :: "CandleSequence \<Rightarrow> price \<Rightarrow> nat \<Rightarrow> MiniPriceLevel list result" where
  "detect_bullish_mpl sequence qmh_level l2_index =
     (if l2_index < 2 then Inr []
      else collectR (mpl_at sequence is_bearish c_low BULLISH) [l2_index - 10..<l2_index])"

section \<open>Previous highs and lows\<close>

record 'a PreviousHighsLows =
  ph_symbol :: string
  ph_timeframe :: Timeframe
  ph_level :: price
  ph_direction :: Direction
  ph_touches :: "'a list"
  ph_touch_count :: nat

definition cluster_near :: "rat \<Rightarrow> string \<Rightarrow> price \<Rightarrow> price \<Rightarrow> bool result" where
  "cluster_near tolerance symbol price1 price2 =
     bindR (calculate_pips price1 price2 symbol) (\<lambda>price_diff_pips.
       Inr (\<bar>price_diff_pips\<bar> \<le> tolerance))"

definition cluster_inner ::
  "('a \<Rightarrow> 'a \<Rightarrow> bool result) \<Rightarrow> 'a list \<Rightarrow> nat \<Rightarrow> nat set \<Rightarrow> ('a list \<times> nat set) result" where
  "cluster_inner near swings i processed =
     foldR (\<lambda>j (cluster_touches, processed).
         if j \<in> processed \<or> j = i then Inr (cluster_touches, processed)
         else bindR (near (swings ! i) (swings ! j)) (\<lambda>b.
           Inr (if b then (cluster_touches @ [swings ! j], insert j processed)
                else (cluster_touches, processed))))
       [0..<length swings] ([swings ! i], insert i processed)"

definition cluster_levels ::
  "SnDConfig \<Rightarrow> ('a \<Rightarrow> price) \<Rightarrow> ('a \<Rightarrow> Timeframe) \<Rightarrow> 'a list \<Rightarrow> string \<Rightarrow> Direction \<Rightarrow>
   'a PreviousHighsLows list result" where
  "cluster_levels config price timeframe swings symbol direction =
     bindR (foldR (\<lambda>i (clusters, processed).
         if i \<in> processed then Inr (clusters, processed)
         else bindR (cluster_inner
                (\<lambda>s t. cluster_near (sn_previous_level_tolerance_pips config) symbol (price s) (price t))
                swings i processed) (\<lambda>(cluster_touches, processed).
           Inr (if sn_min_previous_touches config \<le> length cluster_touches
                then (clusters @ [\<lparr>ph_symbol = symbol, ph_timeframe = timeframe (hd cluster_touches),
                       ph_level = sum_list (map price cluster_touches) / of_nat (length cluster_touches),
                       ph_direction = direction, ph_touches = cluster_touches,
                       ph_touch_count = length cluster_touches\<rparr>], processed)
                else (clusters, processed))))
       [0..<length swings] ([], {}))
     (\<lambda>(clusters, processed). Inr clusters)"

definition detect_previous_highs ::
  "SnDConfig \<Rightarrow> CandleSequence \<Rightarrow> SwingHigh list \<Rightarrow> SwingHigh PreviousHighsLows list result" where
  "detect_previous_highs config sequence swing_highs =
     (if length swing_highs < sn_min_previous_touches config then Inr []
      else bindR (cluster_levels config sh_price sh_timeframe swing_highs (seq_symbol sequence) BEARISH)
        (\<lambda>clustered_highs.
          Inr (filter (\<lambda>c. sn_min_previous_touches config \<le> ph_touch_count c) clustered_highs)))"

definition detect_previous_lows ::
  "SnDConfig \<Rightarrow> CandleSequence \<Rightarrow> SwingLow list \<Rightarrow> SwingLow PreviousHighsLows list result" where
  "detect_previous_lows config sequence swing_lows =
     (if length swing_lows < sn_min_previous_touches config then Inr []
      else bindR (cluster_levels config sl_price sl_timeframe swing_lows (seq_symbol sequence) BULLISH)
        (\<lambda>clustered_lows.
          Inr (filter (\<lambda>c. sn_min_previous_touches config \<le> ph_touch_count c) clustered_lows)))"

definition find_previous_highs_at_qml ::
  "SnDConfig \<Rightarrow> SwingHigh PreviousHighsLows list \<Rightarrow> price \<Rightarrow> string \<Rightarrow>
   SwingHigh PreviousHighsLows list result" where
  "find_previous_highs_at_qml config previous_highs qml_level symbol =
     collectR (\<lambda>prev_high. bindR (cluster_near (sn_previous_level_tolerance_pips config) symbol
         (ph_level prev_high) qml_level) (\<lambda>b. Inr (if b then Some prev_high else None))) previous_highs"

definition find_previous_lows_at_qmh ::
  "SnDConfig \<Rightarrow> SwingLow PreviousHighsLows list \<Rightarrow> price \<Rightarrow> string \<Rightarrow>
   SwingLow PreviousHighsLows list result" where
  "find_previous_lows_at_qmh config previous_lows qmh_level symbol =
     collectR (\<lambda>prev_low. bindR (cluster_near (sn_previous_level_tolerance_pips config) symbol
         (ph_level prev_low) qmh_level) (\<lambda>b. Inr (if b then Some prev_low else None))) previous_lows"

section \<open>Supply and demand zones\<close>

definition create_supply_zone ::
  "CandleSequence \<Rightarrow> price \<Rightarrow> datetime \<Rightarrow> price \<Rightarrow> datetime \<Rightarrow> SupplyZone result" where
  "create_supply_zone sequence qml_level qml_timestamp sr_flip_level sr_flip_timestamp =
     mk_SupplyZone (seq_symbol sequence) (seq_timeframe sequence) (max qml_level sr_flip_level)
       (min qml_level sr_flip_level) sr_flip_timestamp qml_level qml_timestamp sr_flip_level
       sr_flip_timestamp True"

definition create_demand_zone ::
  "CandleSequence \<Rightarrow> price \<Rightarrow> datetime \<Rightarrow> price \<Rightarrow> datetime \<Rightarrow> DemandZone result" where
  "create_demand_zone sequence qmh_level qmh_timestamp rs_flip_level rs_flip_timestamp =
     mk_DemandZone (seq_symbol sequence) (seq_timeframe sequence) (max qmh_level rs_flip_level)
       (min qmh_level rs_flip_level) rs_flip_timestamp qmh_level qmh_timestamp rs_flip_level
       rs_flip_timestamp True"

definition check_price_in_supply_zone :: "SupplyZone \<Rightarrow> price \<Rightarrow> bool" where
  "check_price_in_supply_zone supply_zone current_price \<longleftrightarrow>
     sz_lower_bound supply_zone \<le> current_price \<and> current_price \<le> sz_upper_bound supply_zone"

definition check_price_in_demand_zone :: "DemandZone \<Rightarrow> price \<Rightarrow> bool" where
  "check_price_in_demand_zone demand_zone current_price \<longleftrightarrow>
     dz_lower_bound demand_zone \<le> current_price \<and> current_price \<le> dz_upper_bound demand_zone"

section \<open>Quasimodo structures\<close>

lemma qm_required_pos: "0 < qm_required_confirmations tf"
  by (simp add: qm_required_confirmations_def)

definition between :: "datetime \<Rightarrow> datetime \<Rightarrow> swing3 \<Rightarrow> bool" where
  "between t1 t2 x \<longleftrightarrow> t1 < snd (snd x) \<and> snd (snd x) < t2"

context break_side
begin

lemma neckline_extreme:
  "(qm_neckline beyond t1 t2 acc xs = None \<longleftrightarrow> acc = None \<and> (\<forall>x \<in> set xs. \<not> between t1 t2 x)) \<and>
   (\<forall>n. qm_neckline beyond t1 t2 acc xs = Some n \<longrightarrow>
      (acc = Some n \<or> n \<in> set xs \<and> between t1 t2 n) \<and>
      (\<forall>a. acc = Some a \<longrightarrow> \<not> beyond (fst a) (fst n)) \<and>
      (\<forall>m \<in> set xs. between t1 t2 m \<longrightarrow> \<not> beyond (fst m) (fst n)))"
proof (induction xs arbitrary: acc)
  case Nil
  show ?case using beyond_irrefl by auto
next
  case (Cons x xs)
  obtain p i t where x: "x = (p, i, t)" by (cases x)
  let ?take = "t1 < t \<and> t < t2 \<and> (case acc of None \<Rightarrow> True | Some (q, _, _) \<Rightarrow> beyond p q)"
  show ?case
  proof (cases ?take)
    case True
    then have q: "qm_neckline beyond t1 t2 acc (x # xs) = qm_neckline beyond t1 t2 (Some x) xs"
      by (simp add: x)
    have bt: "between t1 t2 x" using True by (simp add: between_def x)
    have tr: "\<not> beyond (fst a) (fst n)" if "acc = Some a" "\<not> beyond p (fst n)" for a n
      using True that beyond_trans by (auto split: prod.splits)
    show ?thesis using Cons [of "Some x"] bt tr unfolding q by (auto simp: x)
  next
    case False
    then have q: "qm_neckline beyond t1 t2 acc (x # xs) = qm_neckline beyond t1 t2 acc xs"
      unfolding x qm_neckline.simps by (simp only: if_False)
    have tr: "\<not> beyond p (fst n)" if bx: "between t1 t2 x" and ac: "\<And>a. acc = Some a \<Longrightarrow> \<not> beyond (fst a) (fst n)" for n
    proof -
      obtain a where a: "acc = Some a" "\<not> beyond p (fst a)"
        using False bx by (auto simp: between_def x split: option.splits prod.splits)
      then show ?thesis using ac [OF a(1)] beyond_trans beyond_total by metis
    qed
    have "acc \<noteq> None" if "between t1 t2 x" using False that by (auto simp: between_def x split: option.splits)
    then show ?thesis using Cons [of acc] tr unfolding q by (auto simp: x)
  qed
qed

end

definition qm_event ::
  "CandleSequence \<Rightarrow> Direction \<Rightarrow> swing3 \<Rightarrow> swing3 \<Rightarrow> swing3 \<Rightarrow> nat \<Rightarrow> QuasiModoLevel" where
  "qm_event s d shoulder head neck b =
     (case (shoulder, head, neck) of ((p1, i1, t1), (p2, i2, t2), (pn, inx, tn)) \<Rightarrow>
      let c = seq_candles s ! (b + qm_required_confirmations (seq_timeframe s) - 1) in
      \<lparr>qm_symbol = seq_symbol s, qm_timeframe = seq_timeframe s, qm_qml_price = p1, qm_timestamp = t1,
       qm_candle_index = b, qm_direction = d,
       qm_h_price = Some (if d = BEARISH then p1 else pn),
       qm_hh_price = Some (if d = BEARISH then p2 else c_close c),
       qm_h_timestamp = Some (if d = BEARISH then t1 else tn),
       qm_hh_timestamp = Some (if d = BEARISH then t2 else c_timestamp c),
       qm_hh_index = (if d = BEARISH then Some i2 else None),
       qm_l_price = Some (if d = BEARISH then pn else p1),
       qm_ll_price = Some (if d = BEARISH then c_close c else p2),
       qm_l_timestamp = Some (if d = BEARISH then tn else t1),
       qm_ll_timestamp = Some (if d = BEARISH then c_timestamp c else t2),
       qm_ll_index = (if d = BEARISH then None else Some i2),
       qm_break_timestamp = c_timestamp c, qm_is_valid = True, qm_tested = False,
       qm_test_timestamp = None\<rparr>)"

text \<open>Swings \<open>i\<close> and \<open>i + 1\<close> are shoulder and head, \<open>n\<close> is the neckline between them, and candle \<open>b\<close>
  opens a confirmed break of it after the head.\<close>

definition quasimodo ::
  "CandleSequence \<Rightarrow> (price \<Rightarrow> price \<Rightarrow> bool) \<Rightarrow> swing3 list \<Rightarrow> swing3 list \<Rightarrow> nat \<Rightarrow> swing3 \<Rightarrow> nat \<Rightarrow> bool" where
  "quasimodo s beyond shoulders necks i n b \<longleftrightarrow>
     beyond (fst (shoulders ! i)) (fst (shoulders ! (i + 1))) \<and>
     qm_neckline beyond (snd (snd (shoulders ! i))) (snd (snd (shoulders ! (i + 1)))) None necks = Some n \<and>
     confirmed_break beyond (seq_candles s) (fst n) (fst (snd (shoulders ! (i + 1))) + 1)
       (qm_required_confirmations (seq_timeframe s)) b"

context break_side
begin

lemma qm_at_reports:
  assumes "wf_seq s" and "clean_symbol (seq_symbol s)" and "d \<noteq> NEUTRAL"
    and "0 < fst (shoulders ! i)" and "0 < fst (shoulders ! (i + 1))" and "\<forall>x \<in> set necks. 0 < fst x"
  shows "\<exists>r. qm_at s beyond d shoulders necks i = Inr r \<and> (\<forall>e. r = Some e \<longleftrightarrow>
     (\<exists>n b. quasimodo s beyond shoulders necks i n b \<and>
        e = qm_event s d (shoulders ! i) (shoulders ! (i + 1)) n b))"
proof -
  obtain p1 i1 t1 p2 i2 t2 where sh: "shoulders ! i = (p1, i1, t1)" "shoulders ! (i + 1) = (p2, i2, t2)"
    by (metis prod_cases3)
  let ?cs = "seq_candles s" and ?req = "qm_required_confirmations (seq_timeframe s)"
  show ?thesis
  proof (cases "beyond p1 p2 \<and> qm_neckline beyond t1 t2 None necks \<noteq> None")
    case False
    then have "qm_at s beyond d shoulders necks i = Inr None" using sh [simplified]
      by (cases "qm_neckline beyond t1 t2 None necks") (auto simp: qm_at_def Let_def)
    moreover have "\<not> quasimodo s beyond shoulders necks i n b" for n b
      using False sh [simplified] by (cases n) (auto simp: quasimodo_def)
    ultimately show ?thesis by simp
  next
    case True
    then obtain pn inx tn where n: "qm_neckline beyond t1 t2 None necks = Some (pn, inx, tn)" by auto
    then have "(pn, inx, tn) \<in> set necks" using neckline_extreme [of t1 t2 None necks] by simp
    then have pn: "0 < pn" using assms(6) by auto
    have qm: "quasimodo s beyond shoulders necks i m b \<longleftrightarrow>
        m = (pn, inx, tn) \<and> confirmed_break beyond ?cs pn (i2 + 1) ?req b" for m b
      using True n sh [simplified] by (auto simp: quasimodo_def)
    show ?thesis
    proof (cases "first_break_idx beyond ?cs pn (i2 + 1)")
      case None
      then have "\<not> confirmed_break beyond ?cs pn (i2 + 1) ?req b" for b
        using scan_confirmed(2) [OF qm_required_pos] by fastforce
      then show ?thesis using None True n sh [simplified] by (simp add: qm_at_def Let_def qm)
    next
      case (Some b)
      note cc = scan_confirmed(3) [OF qm_required_pos Some]
      have uniq: "confirmed_break beyond ?cs pn (i2 + 1) ?req b' \<Longrightarrow> b' = b" for b'
        using Some scan_confirmed(2) [OF qm_required_pos] by fastforce
      show ?thesis
      proof (cases "confirmed_break beyond ?cs pn (i2 + 1) ?req b")
        case False
        then have "\<not> confirmed_break beyond ?cs pn (i2 + 1) ?req b'" for b' using uniq by blast
        then show ?thesis
          using Some [simplified] cc True n sh [simplified] by (simp add: qm_at_def Let_def qm)
      next
        case cb: True
        have "b + ?req \<le> length ?cs" using cb by (simp add: confirmed_break_def)
        then have k: "confirm_candle_idx ?cs b ?req = b + ?req - 1" "b + ?req - 1 < length ?cs"
          using confirm_index [OF cb qm_required_pos] qm_required_pos [of "seq_timeframe s"] by linarith+
        let ?c = "?cs ! (b + ?req - 1)"
        have cl: "0 < c_close ?c" using wf_candleD(3) [OF wf_seq_nth [OF assms(1) k(2)]] .
        have ev: "mk_qm s d (p1, i1, t1) (p2, i2, t2) (pn, inx, tn) b ?c =
            Inr (qm_event s d (p1, i1, t1) (p2, i2, t2) (pn, inx, tn) b)"
          using assms(2-5) sh [simplified] pn cl
          by (cases d) (simp_all add: mk_qm_def mk_QuasiModoLevel_def mk_model_clean qm_event_def Let_def)
        then have "qm_at s beyond d shoulders necks i =
            Inr (Some (qm_event s d (p1, i1, t1) (p2, i2, t2) (pn, inx, tn) b))"
          using Some [simplified] cc [THEN iffD2, OF cb] True n sh [simplified] k(1) by (simp add: qm_at_def Let_def)
        moreover have "(\<exists>n b'. quasimodo s beyond shoulders necks i n b' \<and>
            e = qm_event s d (shoulders ! i) (shoulders ! (i + 1)) n b') \<longleftrightarrow>
            e = qm_event s d (p1, i1, t1) (p2, i2, t2) (pn, inx, tn) b" for e
          unfolding qm sh using uniq cb by metis
        ultimately show ?thesis by (metis option.inject)
      qed
    qed
  qed
qed

lemma qm_collect:
  assumes "wf_seq s" and "clean_symbol (seq_symbol s)" and "d \<noteq> NEUTRAL"
    and "\<forall>x \<in> set shoulders. 0 < fst x" and "\<forall>x \<in> set necks. 0 < fst x"
  shows "\<exists>es. collectR (qm_at s beyond d shoulders necks) [0..<length shoulders - 1] = Inr es \<and>
     (\<forall>e. e \<in> set es \<longleftrightarrow> (\<exists>i n b. i + 1 < length shoulders \<and> quasimodo s beyond shoulders necks i n b \<and>
        e = qm_event s d (shoulders ! i) (shoulders ! (i + 1)) n b))"
proof -
  let ?P = "\<lambda>i e. \<exists>n b. quasimodo s beyond shoulders necks i n b \<and>
      e = qm_event s d (shoulders ! i) (shoulders ! (i + 1)) n b"
  have "\<exists>es. collectR (qm_at s beyond d shoulders necks) [0..<length shoulders - 1] = Inr es \<and>
      (\<forall>e. e \<in> set es \<longleftrightarrow> (\<exists>i \<in> set [0..<length shoulders - 1]. ?P i e))"
    using assms(4) by (intro collectR_reports qm_at_reports [OF assms(1-3) _ _ assms(5)]) auto
  moreover have "(\<exists>i \<in> set [0..<length shoulders - 1]. Q i) \<longleftrightarrow> (\<exists>i. i + 1 < length shoulders \<and> Q i)" for Q
    by (auto simp: less_diff_conv)
  ultimately show ?thesis by simp
qed

end

section \<open>Lemmas on flips, fakeouts and clusters\<close>

definition sr_breaks :: "MarubozuAnalyzer \<Rightarrow> CandleSequence \<Rightarrow> price \<Rightarrow> nat \<Rightarrow> bool" where
  "sr_breaks ma s level i \<longleftrightarrow> (let c = seq_candles s ! i in
     is_bearish c \<and> marubozu_at ma (seq_timeframe s) c \<and> c_close c < level)"

definition rs_breaks :: "MarubozuAnalyzer \<Rightarrow> CandleSequence \<Rightarrow> price \<Rightarrow> nat \<Rightarrow> bool" where
  "rs_breaks ma s level i \<longleftrightarrow> (let c = seq_candles s ! i in
     is_bullish c \<and> marubozu_at ma (seq_timeframe s) c \<and> level < c_close c)"

definition sr_flip_event :: "CandleSequence \<Rightarrow> SwingLow \<Rightarrow> nat \<Rightarrow> SRFlip" where
  "sr_flip_event s l i = \<lparr>srf_symbol = seq_symbol s, srf_timeframe = seq_timeframe s,
     srf_timestamp = c_timestamp (seq_candles s ! i), srf_original_support_level = sl_price l,
     srf_original_support_timestamp = sl_timestamp l, srf_breakout_candle_index = i,
     srf_breakout_price = c_close (seq_candles s ! i), srf_new_resistance_level = sl_price l,
     srf_direction = BEARISH, srf_is_valid = True\<rparr>"

definition rs_flip_event :: "CandleSequence \<Rightarrow> SwingHigh \<Rightarrow> nat \<Rightarrow> RSFlip" where
  "rs_flip_event s h i = \<lparr>rsf_symbol = seq_symbol s, rsf_timeframe = seq_timeframe s,
     rsf_timestamp = c_timestamp (seq_candles s ! i), rsf_original_resistance_level = sh_price h,
     rsf_original_resistance_timestamp = sh_timestamp h, rsf_breakout_candle_index = i,
     rsf_breakout_price = c_close (seq_candles s ! i), rsf_new_support_level = sh_price h,
     rsf_direction = BULLISH, rsf_is_valid = True\<rparr>"

lemma marubozu_for_timeframe_Inr [no_raise]:
  assumes "wf_candle c"
  shows "is_bearish_marubozu_for_timeframe ma c tf = Inr (is_bearish c \<and> marubozu_at ma tf c)"
    and "is_bullish_marubozu_for_timeframe ma c tf = Inr (is_bullish c \<and> marubozu_at ma tf c)"
  using is_marubozu_for_timeframe_Inr [OF assms, of ma tf]
  by (simp_all add: is_bearish_marubozu_for_timeframe_def is_bullish_marubozu_for_timeframe_def)

text \<open>The first index after \<open>a\<close> with \<open>q\<close>.\<close>

definition first_after :: "(nat \<Rightarrow> bool) \<Rightarrow> nat \<Rightarrow> nat \<Rightarrow> nat \<Rightarrow> bool" where
  "first_after q a n i \<longleftrightarrow> a < i \<and> i < n \<and> q i \<and> (\<forall>k. a < k \<and> k < i \<longrightarrow> \<not> q k)"

lemma find_first_after: "find q [a + 1..<n] = Some i \<longleftrightarrow> first_after q a n i"
  by (simp add: find_upt_Some first_after_def Suc_le_eq)

lemma flip_scan:
  assumes "\<And>i. a < i \<Longrightarrow> i < n \<Longrightarrow> f i = Inr (if q i then Some (g i) else None)"
  shows "\<exists>r. (if n - 1 \<le> a then Inr None else firstR f [a + 1..<n]) = Inr r \<and>
     (\<forall>e. r = Some e \<longleftrightarrow> (\<exists>i. first_after q a n i \<and> e = g i))"
proof -
  have "firstR f [a + 1..<n] = Inr (map_option g (find q [a + 1..<n]))"
    using assms by (intro firstR_find) auto
  moreover have "map_option g (find q [a + 1..<n]) = Some e \<longleftrightarrow> (\<exists>i. first_after q a n i \<and> e = g i)" for e
    unfolding map_option_eq_Some find_first_after [symmetric] by auto
  moreover have "\<not> first_after q a n i" if "n - 1 \<le> a" for i using that by (auto simp: first_after_def)
  ultimately show ?thesis by (cases "n - 1 \<le> a") auto
qed

lemma sr_flip_reports:
  assumes "wf_seq s" and "clean_symbol (seq_symbol s)" and "0 < sl_price l"
  shows "\<exists>r. (if length (seq_candles s) - 1 \<le> sl_index l then Inr None
      else firstR (sr_flip_at ma s l) [sl_index l + 1..<length (seq_candles s)]) = Inr r \<and>
     (\<forall>e. r = Some e \<longleftrightarrow> (\<exists>i. first_after (sr_breaks ma s (sl_price l)) (sl_index l) (length (seq_candles s)) i \<and>
        e = sr_flip_event s l i))"
proof (rule flip_scan)
  fix i
  assume "i < length (seq_candles s)"
  then have c: "wf_candle (seq_candles s ! i)" by (rule wf_seq_nth [OF assms(1)])
  show "sr_flip_at ma s l i = Inr (if sr_breaks ma s (sl_price l) i then Some (sr_flip_event s l i) else None)"
    using assms(2,3) wf_candleD [OF c] marubozu_for_timeframe_Inr [OF c]
    by (auto simp: sr_flip_at_def sr_breaks_def sr_flip_event_def Let_def mk_SRFlip_def mk_model_clean)
qed

lemma rs_flip_reports:
  assumes "wf_seq s" and "clean_symbol (seq_symbol s)" and "0 < sh_price h"
  shows "\<exists>r. (if length (seq_candles s) - 1 \<le> sh_index h then Inr None
      else firstR (rs_flip_at ma s h) [sh_index h + 1..<length (seq_candles s)]) = Inr r \<and>
     (\<forall>e. r = Some e \<longleftrightarrow> (\<exists>i. first_after (rs_breaks ma s (sh_price h)) (sh_index h) (length (seq_candles s)) i \<and>
        e = rs_flip_event s h i))"
proof (rule flip_scan)
  fix i
  assume "i < length (seq_candles s)"
  then have c: "wf_candle (seq_candles s ! i)" by (rule wf_seq_nth [OF assms(1)])
  show "rs_flip_at ma s h i = Inr (if rs_breaks ma s (sh_price h) i then Some (rs_flip_event s h i) else None)"
    using assms(2,3) wf_candleD [OF c] marubozu_for_timeframe_Inr [OF c]
    by (auto simp: rs_flip_at_def rs_breaks_def rs_flip_event_def Let_def mk_RSFlip_def mk_model_clean)
qed

context break_side
begin

text \<open>A test touches the level with its wick and closes on the inner side.\<close>

lemma fakeout_loop_indices:
  "map ft_candle_index (fakeout_loop s wick beyond d level k js) =
     filter (\<lambda>i. \<not> beyond level (wick (seq_candles s ! i)) \<and> beyond level (c_close (seq_candles s ! i)))
       (takeWhile (\<lambda>i. \<not> beyond (c_close (seq_candles s ! i)) level) js)"
proof (induction js arbitrary: k)
  case (Cons j js)
  have "\<not> beyond (c_close (seq_candles s ! j)) level" if "beyond level (c_close (seq_candles s ! j))"
    using that beyond_trans beyond_irrefl by blast
  then show ?case using Cons by (auto simp: Let_def)
qed simp

lemma fakeout_loop_numbers:
  "map ft_test_number (fakeout_loop s wick beyond d level k js) =
     [k..<k + length (fakeout_loop s wick beyond d level k js)]"
proof (induction js arbitrary: k)
  case (Cons j js)
  show ?case using Cons [of k] Cons [of "k + 1"] by (auto simp: Let_def upt_conv_Cons simp del: upt_Suc)
qed simp

lemma fakeout_loop_fields:
  "f \<in> set (fakeout_loop s wick beyond d level k js) \<Longrightarrow>
     ft_level f = level \<and> ft_direction f = d \<and> ft_timestamp f = c_timestamp (seq_candles s ! ft_candle_index f) \<and>
     ft_is_diamond_fakeout f = check_diamond_fakeout s (ft_candle_index f) d"
  by (induction js arbitrary: k) (auto simp: Let_def split: if_splits)

end

lemma cluster_inner_equal:
  assumes "{..<i} \<subseteq> P" and "i < length xs"
  shows "cluster_inner near xs i P = equal_inner near xs i (insert i P)"
proof -
  let ?f = "\<lambda>j (ts, processed). if j \<in> processed \<or> j = i then Inr (ts, processed)
      else bindR (near (xs ! i) (xs ! j)) (\<lambda>b. Inr (if b then (ts @ [xs ! j], insert j processed) else (ts, processed)))"
  have u: "[0..<length xs] = [0..<i + 1] @ [i + 1..<length xs]"
    using assms(2) upt_add_eq_append [of 0 "i + 1" "length xs - (i + 1)"]
    by (metis Suc_eq_plus1 Suc_leI le_add_diff_inverse zero_le)
  have "foldR ?f [0..<i + 1] ([xs ! i], insert i P) = Inr ([xs ! i], insert i P)"
    by (rule foldR_skip) (use assms(1) in \<open>auto simp: less_Suc_eq\<close>)
  then have "cluster_inner near xs i P = foldR ?f [i + 1..<length xs] ([xs ! i], insert i P)"
    unfolding cluster_inner_def u foldR_append by simp
  also have "\<dots> = equal_inner near xs i (insert i P)"
    unfolding equal_inner_def by (rule foldR_cong) auto
  finally show ?thesis .
qed

definition ph_event :: "('a \<Rightarrow> price) \<Rightarrow> ('a \<Rightarrow> Timeframe) \<Rightarrow> string \<Rightarrow> Direction \<Rightarrow> 'a list \<Rightarrow> 'a PreviousHighsLows" where
  "ph_event price timeframe symbol d g = \<lparr>ph_symbol = symbol, ph_timeframe = timeframe (hd g),
     ph_level = sum_list (map price g) / of_nat (length g), ph_direction = d, ph_touches = g,
     ph_touch_count = length g\<rparr>"

definition price_near :: "rat \<Rightarrow> string \<Rightarrow> ('a \<Rightarrow> price) \<Rightarrow> 'a \<Rightarrow> 'a \<Rightarrow> bool" where
  "price_near tol symbol price s t \<longleftrightarrow> \<bar>price s - price t\<bar> / get_pip_value symbol \<le> tol"

lemma cluster_near_Inr:
  assumes "0 \<le> a" and "0 \<le> b"
  shows "cluster_near tol symbol a b = Inr (\<bar>a - b\<bar> / get_pip_value symbol \<le> tol)"
  using assms by (simp add: cluster_near_def calculate_pips_Inr abs_of_pos)

lemma cluster_levels_greedy:
  assumes "\<forall>x \<in> set xs. 0 < price x"
  shows "cluster_levels config price timeframe xs symbol d =
     Inr (map (ph_event price timeframe symbol d) (filter (\<lambda>g. sn_min_previous_touches config \<le> length g)
       (greedy (price_near (sn_previous_level_tolerance_pips config) symbol price) xs)))"
proof -
  let ?nr = "price_near (sn_previous_level_tolerance_pips config) symbol price"
  let ?near = "\<lambda>s t. cluster_near (sn_previous_level_tolerance_pips config) symbol (price s) (price t)"
  let ?big = "\<lambda>g. sn_min_previous_touches config \<le> length g" and ?ev = "ph_event price timeframe symbol d"
  let ?out = "\<lambda>i (clusters, processed).
         if i \<in> processed then Inr (clusters, processed)
         else bindR (cluster_inner ?near xs i processed) (\<lambda>(g, processed).
           Inr (if ?big g then (clusters @ [?ev g], processed) else (clusters, processed)))"
  have near: "?near (xs ! i) (xs ! j) = Inr (?nr (xs ! i) (xs ! j))" if "i < j" "j < length xs" for i j
    using assms that by (simp add: cluster_near_Inr price_near_def less_imp_le)
  have "\<exists>Q. foldR ?out [i..<length xs] (cs, P) =
      Inr (cs @ map ?ev (filter ?big (greedy ?nr (map ((!) xs) (filter (\<lambda>j. j \<notin> P) [i..<length xs])))), Q)"
    if "{..<i} \<subseteq> P" "i \<le> length xs" for i cs P
    using that
  proof (induction "length xs - i" arbitrary: i cs P)
    case (Suc m)
    then have i: "i < length xs" and u: "[i..<length xs] = i # [Suc i..<length xs]"
        and hm: "m = length xs - Suc i" by (simp_all add: upt_conv_Cons)
    show ?case
    proof (cases "i \<in> P")
      case True
      then show ?thesis
        using Suc.hyps(1) [OF hm, of P cs] Suc.prems i by (simp add: u lessThan_Suc)
    next
      case False
      let ?x = "xs ! i"
      define Q where "Q = insert i P \<union> {j. i < j \<and> j < length xs \<and> ?nr ?x (xs ! j)}"
      define g where "g = ?x # map ((!) xs) (filter (\<lambda>j. j \<notin> P \<and> ?nr ?x (xs ! j)) [Suc i..<length xs])"
      have "filter (\<lambda>j. j \<notin> insert i P \<and> ?nr ?x (xs ! j)) [i + 1..<length xs] =
          filter (\<lambda>j. j \<notin> P \<and> ?nr ?x (xs ! j)) [Suc i..<length xs]"
        by (auto intro!: filter_cong)
      then have inner: "cluster_inner ?near xs i P = Inr (g, Q)"
        using equal_inner_Inr [of i xs ?near ?nr "insert i P"] near i
        unfolding cluster_inner_equal [OF Suc.prems(1) i] g_def Q_def by simp
      have rest: "filter (\<lambda>j. j \<notin> Q) [Suc i..<length xs] =
          filter (\<lambda>j. \<not> ?nr ?x (xs ! j)) (filter (\<lambda>j. j \<notin> P) [Suc i..<length xs])"
        by (auto simp: Q_def intro!: filter_cong)
      have split: "greedy ?nr (map ((!) xs) (filter (\<lambda>j. j \<notin> P) [i..<length xs])) =
          g # greedy ?nr (map ((!) xs) (filter (\<lambda>j. j \<notin> Q) [Suc i..<length xs]))"
        unfolding rest using False by (simp add: u g_def filter_map comp_def conj_commute)
      have "{..<Suc i} \<subseteq> Q" using Suc.prems(1) by (auto simp: Q_def less_Suc_eq)
      then show ?thesis
        using Suc.hyps(1) [OF hm, of Q "if ?big g then cs @ [?ev g] else cs"] i False inner split
        by (cases "?big g") (simp_all add: u)
    qed
  qed simp
  from this [of 0 "{}" "[]"] obtain Q where Q: "foldR ?out [0..<length xs] ([], {}) =
      Inr ([] @ map ?ev (filter ?big (greedy ?nr (map ((!) xs) (filter (\<lambda>j. j \<notin> {}) [0..<length xs])))), Q)"
    by auto
  show ?thesis unfolding cluster_levels_def ph_event_def [symmetric] Q by (simp add: map_nth)
qed

lemma detect_qm_reports:
  assumes "wf_seq s" and "clean_symbol (seq_symbol s)"
    and "\<forall>h \<in> set shs. 0 < sh_price h" and "\<forall>l \<in> set sls. 0 < sl_price l"
    and "H = map swing_of_high (sort_key sh_timestamp shs)" and "L = map swing_of_low (sort_key sl_timestamp sls)"
  shows "\<exists>es. detect_qml s shs sls = Inr es \<and> (\<forall>e. e \<in> set es \<longleftrightarrow>
      (\<exists>i n b. i + 1 < length H \<and> quasimodo s (<) H L i n b \<and>
        e = qm_event s BEARISH (H ! i) (H ! (i + 1)) n b))"
    and "\<exists>fs. detect_qmh s sls shs = Inr fs \<and> (\<forall>e. e \<in> set fs \<longleftrightarrow>
      (\<exists>i n b. i + 1 < length L \<and> quasimodo s (>) L H i n b \<and>
        e = qm_event s BULLISH (L ! i) (L ! (i + 1)) n b))"
proof -
  have pos: "\<forall>x \<in> set H. 0 < fst x" "\<forall>x \<in> set L. 0 < fst x" using assms(3-6) by auto
  have none: "\<not> quasimodo s by H [] i n b" "\<not> quasimodo s by L [] i n b" for "by" i n b
    by (simp_all add: quasimodo_def)
  have "detect_qml s shs sls = collectR (qm_at s (<) BEARISH H L) [0..<length H - 1]" if "sls \<noteq> []"
    using that assms(5,6) by (auto simp: detect_qml_def Let_def)
  moreover have "\<exists>es. collectR (qm_at s (<) BEARISH H L) [0..<length H - 1] = Inr es \<and>
      (\<forall>e. e \<in> set es \<longleftrightarrow> (\<exists>i n b. i + 1 < length H \<and> quasimodo s (<) H L i n b \<and>
        e = qm_event s BEARISH (H ! i) (H ! (i + 1)) n b))"
    by (rule downward.qm_collect [OF assms(1,2) _ pos]) simp
  ultimately show "\<exists>es. detect_qml s shs sls = Inr es \<and> (\<forall>e. e \<in> set es \<longleftrightarrow>
      (\<exists>i n b. i + 1 < length H \<and> quasimodo s (<) H L i n b \<and>
        e = qm_event s BEARISH (H ! i) (H ! (i + 1)) n b))"
    using none(1) assms(6) by (cases "sls = []") (simp_all add: detect_qml_def)
  have "detect_qmh s sls shs = collectR (qm_at s (>) BULLISH L H) [0..<length L - 1]" if "shs \<noteq> []"
    using that assms(5,6) by (auto simp: detect_qmh_def Let_def)
  moreover have "\<exists>es. collectR (qm_at s (>) BULLISH L H) [0..<length L - 1] = Inr es \<and>
      (\<forall>e. e \<in> set es \<longleftrightarrow> (\<exists>i n b. i + 1 < length L \<and> quasimodo s (>) L H i n b \<and>
        e = qm_event s BULLISH (L ! i) (L ! (i + 1)) n b))"
    by (rule upward.qm_collect [OF assms(1,2) _ pos(2,1)]) simp
  ultimately show "\<exists>fs. detect_qmh s sls shs = Inr fs \<and> (\<forall>e. e \<in> set fs \<longleftrightarrow>
      (\<exists>i n b. i + 1 < length L \<and> quasimodo s (>) L H i n b \<and>
        e = qm_event s BULLISH (L ! i) (L ! (i + 1)) n b))"
    using none(2) assms(5) by (cases "shs = []") (simp_all add: detect_qmh_def)
qed

lemma detect_flip_reports:
  assumes "wf_seq s" and "clean_symbol (seq_symbol s)"
  shows "\<forall>l \<in> set sls. 0 < sl_price l \<Longrightarrow> \<exists>es. detect_sr_flips ma s sls = Inr es \<and> (\<forall>e. e \<in> set es \<longleftrightarrow>
      (\<exists>l \<in> set sls. \<exists>i. first_after (sr_breaks ma s (sl_price l)) (sl_index l)
        (length (seq_candles s)) i \<and> e = sr_flip_event s l i))"
    and "\<forall>h \<in> set shs. 0 < sh_price h \<Longrightarrow> \<exists>fs. detect_rs_flips ma s shs = Inr fs \<and> (\<forall>e. e \<in> set fs \<longleftrightarrow>
      (\<exists>h \<in> set shs. \<exists>i. first_after (rs_breaks ma s (sh_price h)) (sh_index h)
        (length (seq_candles s)) i \<and> e = rs_flip_event s h i))"
  unfolding detect_sr_flips_def detect_rs_flips_def
  by (rule collectR_reports, rule sr_flip_reports [OF assms], blast)
     (rule collectR_reports, rule rs_flip_reports [OF assms], blast)

lemma detect_previous_total:
  "\<forall>h \<in> set shs. 0 < sh_price h \<Longrightarrow> \<exists>ps. detect_previous_highs config s shs = Inr ps \<and> (\<forall>p \<in> set ps. 0 \<le> ph_level p)"
  "\<forall>l \<in> set sls. 0 < sl_price l \<Longrightarrow> \<exists>ps. detect_previous_lows config s sls = Inr ps \<and> (\<forall>p \<in> set ps. 0 \<le> ph_level p)"
proof -
  have avg: "0 \<le> ph_level (ph_event price tf sy d g)"
    if "\<forall>x \<in> set xs. 0 < price x" "g \<in> set (greedy nr xs)" for price :: "'a \<Rightarrow> rat" and tf sy d g nr xs
  proof -
    have "mset (concat (greedy nr xs)) = mset xs" by (rule greedy_mset)
    then have "set g \<subseteq> set xs" using that(2) mset_eq_setD by fastforce
    then have "0 \<le> sum_list (map price g)" using that(1) by (intro sum_list_nonneg) (auto simp: less_imp_le)
    then show ?thesis by (simp add: ph_event_def)
  qed
  show "\<exists>ps. detect_previous_highs config s shs = Inr ps \<and> (\<forall>p \<in> set ps. 0 \<le> ph_level p)"
    if p: "\<forall>h \<in> set shs. 0 < sh_price h"
    using cluster_levels_greedy [OF p, of config sh_timeframe "seq_symbol s" BEARISH] avg [OF p]
    by (auto simp: detect_previous_highs_def)
  show "\<exists>ps. detect_previous_lows config s sls = Inr ps \<and> (\<forall>p \<in> set ps. 0 \<le> ph_level p)"
    if p: "\<forall>l \<in> set sls. 0 < sl_price l"
    using cluster_levels_greedy [OF p, of config sl_timeframe "seq_symbol s" BULLISH] avg [OF p]
    by (auto simp: detect_previous_lows_def)
qed

section \<open>Properties\<close>


text \<open>The alias \<^verbatim>\<open>h1_price\<close> of a Quasimodo level, documented as the price of the first swing
  point, returns the neckline for every bullish level the detector builds, and \<^verbatim>\<open>h2_price\<close>
  the confirming close, because both swings of the pattern are stored under the low fields and the
  high fields are filled too; \<^verbatim>\<open>level\<close> and \<^verbatim>\<open>h2_index\<close> are right.\<close>

theorem qmh_alias_returns_neckline:
  "qm_h1_price (qm_event s BULLISH (p1, i1, t1) (p2, i2, t2) (pn, inx, tn) b) = pn \<and>
   qm_h2_price (qm_event s BULLISH (p1, i1, t1) (p2, i2, t2) (pn, inx, tn) b) =
     c_close (seq_candles s ! (b + qm_required_confirmations (seq_timeframe s) - 1)) \<and>
   qm_level (qm_event s BULLISH (p1, i1, t1) (p2, i2, t2) (pn, inx, tn) b) = p1 \<and>
   qm_h2_index (qm_event s BULLISH (p1, i1, t1) (p2, i2, t2) (pn, inx, tn) b) = Some i2 \<and>
   qm_h1_price (qm_event s BEARISH (p1, i1, t1) (p2, i2, t2) (pn, inx, tn) b) = p1 \<and>
   qm_h2_price (qm_event s BEARISH (p1, i1, t1) (p2, i2, t2) (pn, inx, tn) b) = p2"
  by (simp add: qm_event_def Let_def qm_h1_price_def qm_h2_price_def qm_level_def qm_h2_index_def or_else_def)

lemma validate_flip_Inr:
  assumes "wf_seq s"
  shows "validate_sr_flip_with_marubozu ma f s = Inr (srf_breakout_candle_index f < length (seq_candles s) \<and>
      is_bearish (seq_candles s ! srf_breakout_candle_index f) \<and>
      marubozu_at ma (seq_timeframe s) (seq_candles s ! srf_breakout_candle_index f))"
    and "validate_rs_flip_with_marubozu ma g s = Inr (rsf_breakout_candle_index g < length (seq_candles s) \<and>
      is_bullish (seq_candles s ! rsf_breakout_candle_index g) \<and>
      marubozu_at ma (seq_timeframe s) (seq_candles s ! rsf_breakout_candle_index g))"
  using marubozu_for_timeframe_Inr [OF wf_seq_nth [OF assms]]
  by (auto simp: validate_sr_flip_with_marubozu_def validate_rs_flip_with_marubozu_def not_le)

text \<open>C36. On a well-formed sequence the flip detectors never raise. A support flips exactly when a later
  bearish marubozu (by the timeframe-scaled test) closes below it, a resistance exactly when a later
  bullish marubozu closes above it, and the event names the first such candle. The two validations
  accept exactly the flips whose candle exists and is a bearish marubozu for a support and a bullish one
  for a resistance, so every detected flip passes its own validation.\<close>

theorem detect_flips_spec:
  assumes "wf_seq s" and "clean_symbol (seq_symbol s)"
    and "\<forall>l \<in> set sls. 0 < sl_price l" and "\<forall>h \<in> set shs. 0 < sh_price h"
  shows "\<exists>es fs. detect_sr_flips ma s sls = Inr es \<and> detect_rs_flips ma s shs = Inr fs \<and>
     (\<forall>e. e \<in> set es \<longleftrightarrow> (\<exists>l \<in> set sls. \<exists>i. first_after (sr_breaks ma s (sl_price l)) (sl_index l)
        (length (seq_candles s)) i \<and> e = sr_flip_event s l i)) \<and>
     (\<forall>e. e \<in> set fs \<longleftrightarrow> (\<exists>h \<in> set shs. \<exists>i. first_after (rs_breaks ma s (sh_price h)) (sh_index h)
        (length (seq_candles s)) i \<and> e = rs_flip_event s h i)) \<and>
     (\<forall>f. validate_sr_flip_with_marubozu ma f s = Inr (srf_breakout_candle_index f < length (seq_candles s) \<and>
        is_bearish (seq_candles s ! srf_breakout_candle_index f) \<and>
        marubozu_at ma (seq_timeframe s) (seq_candles s ! srf_breakout_candle_index f))) \<and>
     (\<forall>f. validate_rs_flip_with_marubozu ma f s = Inr (rsf_breakout_candle_index f < length (seq_candles s) \<and>
        is_bullish (seq_candles s ! rsf_breakout_candle_index f) \<and>
        marubozu_at ma (seq_timeframe s) (seq_candles s ! rsf_breakout_candle_index f))) \<and>
     (\<forall>e \<in> set es. validate_sr_flip_with_marubozu ma e s = Inr True) \<and>
     (\<forall>e \<in> set fs. validate_rs_flip_with_marubozu ma e s = Inr True)"
proof -
  obtain es where es: "detect_sr_flips ma s sls = Inr es" "\<forall>e. e \<in> set es \<longleftrightarrow>
      (\<exists>l \<in> set sls. \<exists>i. first_after (sr_breaks ma s (sl_price l)) (sl_index l)
        (length (seq_candles s)) i \<and> e = sr_flip_event s l i)"
    using detect_flip_reports(1) [OF assms(1-3), of ma] by (elim exE conjE)
  obtain fs where fs: "detect_rs_flips ma s shs = Inr fs" "\<forall>e. e \<in> set fs \<longleftrightarrow>
      (\<exists>h \<in> set shs. \<exists>i. first_after (rs_breaks ma s (sh_price h)) (sh_index h)
        (length (seq_candles s)) i \<and> e = rs_flip_event s h i)"
    using detect_flip_reports(2) [OF assms(1,2,4), of ma] by (elim exE conjE)
  have sr: "validate_sr_flip_with_marubozu ma e s = Inr True" if "e \<in> set es" for e
  proof -
    from that obtain l i where "first_after (sr_breaks ma s (sl_price l)) (sl_index l) (length (seq_candles s)) i"
        "e = sr_flip_event s l i"
      unfolding es(2) [rule_format] by blast
    then show ?thesis
      by (simp add: validate_flip_Inr [OF assms(1)] first_after_def sr_breaks_def sr_flip_event_def Let_def)
  qed
  have rs: "validate_rs_flip_with_marubozu ma e s = Inr True" if "e \<in> set fs" for e
  proof -
    from that obtain h i where "first_after (rs_breaks ma s (sh_price h)) (sh_index h) (length (seq_candles s)) i"
        "e = rs_flip_event s h i"
      unfolding fs(2) [rule_format] by blast
    then show ?thesis
      by (simp add: validate_flip_Inr [OF assms(1)] first_after_def rs_breaks_def rs_flip_event_def Let_def)
  qed
  show ?thesis
    by (intro exI [of _ es] exI [of _ fs] conjI es fs ballI allI validate_flip_Inr [OF assms(1)]; erule sr rs)
qed

text \<open>The fakeout tests of a flipped resistance are exactly the candles after the flip whose high
  reaches the level while they close below it, up to the first candle that closes above it; they
  come in order and are numbered 1, 2, 3 and so on. For a flipped support the same holds with the
  comparisons reversed.\<close>

theorem detect_fakeouts_spec:
  "(let fs = detect_resistance_fakeouts s level k; cs = seq_candles s in
      map ft_candle_index fs = filter (\<lambda>i. level \<le> c_high (cs ! i) \<and> c_close (cs ! i) < level)
        (takeWhile (\<lambda>i. c_close (cs ! i) \<le> level) [k + 1..<length cs]) \<and>
      map ft_test_number fs = [1..<length fs + 1] \<and>
      list_all (\<lambda>f. ft_level f = level \<and> ft_direction f = BEARISH) fs) \<and>
   (let fs = detect_support_fakeouts s level k; cs = seq_candles s in
      map ft_candle_index fs = filter (\<lambda>i. c_low (cs ! i) \<le> level \<and> level < c_close (cs ! i))
        (takeWhile (\<lambda>i. level \<le> c_close (cs ! i)) [k + 1..<length cs]) \<and>
      map ft_test_number fs = [1..<length fs + 1] \<and>
      list_all (\<lambda>f. ft_level f = level \<and> ft_direction f = BULLISH) fs)"
  unfolding Let_def detect_resistance_fakeouts_def detect_support_fakeouts_def
    upward.fakeout_loop_indices downward.fakeout_loop_indices
    upward.fakeout_loop_numbers downward.fakeout_loop_numbers list_all_iff
  using upward.fakeout_loop_fields downward.fakeout_loop_fields by (auto simp: not_less add.commute)

text \<open>The previous-level detectors compute the greedy grouping of the swings by distance to the
  first member: each swing belongs to exactly one group, groups below the configured number of
  touches are dropped, and the reported level, the average of the group, is within the configured
  tolerance of the group's first swing.\<close>

theorem previous_levels_greedy:
  assumes "\<forall>h \<in> set shs. 0 < sh_price h" and "valid_SnDConfig config"
  shows "detect_previous_highs config s shs = Inr (map (ph_event sh_price sh_timeframe (seq_symbol s) BEARISH)
       (filter (\<lambda>g. sn_min_previous_touches config \<le> length g)
         (greedy (price_near (sn_previous_level_tolerance_pips config) (seq_symbol s) sh_price) shs))) \<and>
     mset (concat (greedy (price_near (sn_previous_level_tolerance_pips config) (seq_symbol s) sh_price) shs)) =
       mset shs \<and>
     (\<forall>ps p. detect_previous_highs config s shs = Inr ps \<and> p \<in> set ps \<longrightarrow>
        sn_min_previous_touches config \<le> ph_touch_count p \<and>
        \<bar>ph_level p - sh_price (hd (ph_touches p))\<bar> \<le>
          sn_previous_level_tolerance_pips config * get_pip_value (seq_symbol s))"
proof -
  let ?nr = "price_near (sn_previous_level_tolerance_pips config) (seq_symbol s) sh_price"
  let ?gs = "filter (\<lambda>g. sn_min_previous_touches config \<le> length g) (greedy ?nr shs)"
  let ?ev = "ph_event sh_price sh_timeframe (seq_symbol s) BEARISH"
  have small: "?gs = []" if "length shs < sn_min_previous_touches config"
  proof -
    have "length g \<le> length shs" if "g \<in> set (greedy ?nr shs)" for g
    proof -
      have "length g \<le> length (concat (greedy ?nr shs))"
        using that by (simp add: length_concat member_le_sum_list)
      also have "\<dots> = length shs" using greedy_mset [of ?nr shs] mset_eq_length by blast
      finally show ?thesis .
    qed
    then show ?thesis using that by (fastforce simp: filter_empty_conv)
  qed
  have all: "filter (\<lambda>c. sn_min_previous_touches config \<le> ph_touch_count c) (map ?ev ?gs) = map ?ev ?gs"
    by (auto simp: filter_id_conv ph_event_def)
  have eq: "detect_previous_highs config s shs = Inr (map ?ev ?gs)"
    using small all cluster_levels_greedy [OF assms(1), of config sh_timeframe "seq_symbol s" BEARISH]
    by (simp add: detect_previous_highs_def)
  have each: "sn_min_previous_touches config \<le> ph_touch_count p \<and> \<bar>ph_level p - sh_price (hd (ph_touches p))\<bar> \<le>
      sn_previous_level_tolerance_pips config * get_pip_value (seq_symbol s)" if p: "p \<in> set (map ?ev ?gs)" for p
  proof -
    obtain g where g: "p = ?ev g" "g \<in> set (greedy ?nr shs)" "sn_min_previous_touches config \<le> length g"
      using p by auto
    obtain x ys where x: "g = x # ys" "\<forall>y \<in> set ys. ?nr x y" using greedy_near [OF g(2)] by blast
    have "\<bar>sh_price y - sh_price x\<bar> \<le> sn_previous_level_tolerance_pips config * get_pip_value (seq_symbol s)"
      if "y \<in> set g" for y
      using that x assms(2)
      by (auto simp: price_near_def pos_divide_le_eq abs_minus_commute valid_SnDConfig_def less_imp_le)
    then have "\<forall>v \<in> set (map sh_price g). \<bar>v - sh_price x\<bar> \<le>
        sn_previous_level_tolerance_pips config * get_pip_value (seq_symbol s)" by simp
    from average_near [OF _ this] x(1)
    have "\<bar>sum_list (map sh_price g) / of_nat (length (map sh_price g)) - sh_price x\<bar> \<le>
        sn_previous_level_tolerance_pips config * get_pip_value (seq_symbol s)" by blast
    then have "\<bar>ph_level p - sh_price x\<bar> \<le> sn_previous_level_tolerance_pips config * get_pip_value (seq_symbol s)"
      using g(1) by (simp add: ph_event_def)
    then show ?thesis using g(1,3) x(1) by (simp add: ph_event_def)
  qed
  show ?thesis
  proof (intro conjI allI impI)
    show "detect_previous_highs config s shs = Inr (map ?ev ?gs)" by (rule eq)
    show "mset (concat (greedy ?nr shs)) = mset shs" by (rule greedy_mset)
  qed (use each eq in auto)
qed

text \<open>For positive levels and a normalised symbol a supply zone is created unless its two
  levels coincide, in which case the constructor raises the configuration error to the caller; the
  zone spans the two levels in either order, its midpoint lies strictly inside, and it converts to a
  common zone. The same holds for demand zones.\<close>

theorem supply_demand_zone_error:
  assumes "clean_symbol (seq_symbol s)" and "0 < a" and "0 < b"
  shows "(a = b \<longrightarrow>
       create_supply_zone s a ta b tb = Inl (ConfigurationError ''Upper bound must be > lower bound'') \<and>
       create_demand_zone s a ta b tb = Inl (ConfigurationError ''Upper bound must be > lower bound'')) \<and>
     (a \<noteq> b \<longrightarrow> (\<exists>z w. create_supply_zone s a ta b tb = Inr z \<and> create_demand_zone s a ta b tb = Inr w \<and>
        (\<forall>p. check_price_in_supply_zone z p \<longleftrightarrow> min a b \<le> p \<and> p \<le> max a b) \<and>
        (\<forall>p. check_price_in_demand_zone w p \<longleftrightarrow> min a b \<le> p \<and> p \<le> max a b) \<and>
        (\<exists>zn wn. sz_to_zone z = Inr zn \<and> z_is_bearish zn \<and> dz_to_zone w = Inr wn \<and> z_is_bullish wn)))"
proof (cases "a = b")
  case True
  then show ?thesis
    using assms by (simp add: create_supply_zone_def create_demand_zone_def mk_SupplyZone_def
        mk_DemandZone_def mk_model_clean check_bounds_def)
next
  case False
  then have mm: "min a b < max a b" "0 < min a b" "\<not> (b \<le> a \<and> a \<le> b)" "0 < max a b"
    using assms by (auto simp: min_def max_def)
  obtain z where z: "create_supply_zone s a ta b tb = Inr z" "sz_upper_bound z = max a b"
      "sz_lower_bound z = min a b" "sz_symbol z = seq_symbol s"
    using assms mm by (simp add: create_supply_zone_def mk_SupplyZone_def mk_model_clean check_bounds_def)
  obtain w where w: "create_demand_zone s a ta b tb = Inr w" "dz_upper_bound w = max a b"
      "dz_lower_bound w = min a b" "dz_symbol w = seq_symbol s"
    using assms mm by (simp add: create_demand_zone_def mk_DemandZone_def mk_model_clean check_bounds_def)
  have zn: "\<exists>zn. sz_to_zone z = Inr zn \<and> z_is_bearish zn" "\<exists>wn. dz_to_zone w = Inr wn \<and> z_is_bullish wn"
    using z w mm assms(1)
    by (simp_all add: sz_to_zone_def dz_to_zone_def mk_Zone_def mk_model_clean check_bounds_def
        z_is_bearish_def z_is_bullish_def)
  then show ?thesis
    using False z w by (auto simp: check_price_in_supply_zone_def check_price_in_demand_zone_def)
qed

section \<open>Witnesses\<close>

definition ex_sl :: "price \<Rightarrow> nat \<Rightarrow> SwingLow" where
  "ex_sl p i = \<lparr>sl_symbol = ''EURUSD'', sl_timeframe = H1, sl_timestamp = 60 * int i, sl_price = p,
     sl_index = i, sl_strength = 2, sl_left_bars = 1, sl_right_bars = 1, sl_is_equal_low = False,
     sl_equal_low_tolerance_pips = None\<rparr>"

definition ex_high :: "price \<Rightarrow> nat \<Rightarrow> SwingHigh" where
  "ex_high p i = \<lparr>sh_symbol = ''EURUSD'', sh_timeframe = H1, sh_timestamp = 60 * int i, sh_price = p,
     sh_index = i, sh_strength = 2, sh_left_bars = 1, sh_right_bars = 1, sh_is_equal_high = False,
     sh_equal_high_tolerance_pips = None\<rparr>"

text \<open>A high at 3, a low at 2, a higher high at 4, then three closes at 1.\<close>

definition ex_qm_seq :: CandleSequence where
  "ex_qm_seq = \<lparr>seq_symbol = ''EURUSD'', seq_timeframe = H1,
     seq_candles = [ex_candle 0 3 3 3 3, ex_candle 60 3 3 2 2, ex_candle 120 2 4 2 4,
       ex_candle 180 4 4 1 1, ex_candle 240 1 1 1 1, ex_candle 300 1 1 1 1]\<rparr>"

lemma wf_ex_qm_seq: "wf_seq ex_qm_seq" "clean_symbol (seq_symbol ex_qm_seq)"
  by (simp_all add: ex_qm_seq_def wf_seq_def wf_candle_def uniform_def)


definition ex_marubozu :: MarubozuAnalyzer where
  "ex_marubozu = \<lparr>ma_min_body_percentage = 80, ma_max_wick_percentage = 10, ma_min_displacement_pips = 20\<rparr>"

theorem detect_flips_spec_witness:
  "\<exists>es. detect_sr_flips ex_marubozu ex_qm_seq [ex_sl 2 1] = Inr es \<and>
     sr_flip_event ex_qm_seq (ex_sl 2 1) 3 \<in> set es \<and>
     validate_sr_flip_with_marubozu ex_marubozu (sr_flip_event ex_qm_seq (ex_sl 2 1) 3) ex_qm_seq = Inr True"
proof -
  let ?l = "ex_sl 2 1"
  have pos: "\<forall>l \<in> set [?l]. 0 < sl_price l" "\<forall>h \<in> set []. 0 < sh_price h" by (simp_all add: ex_sl_def)
  have l: "sl_price ?l = 2" "sl_index ?l = 1" by (simp_all add: ex_sl_def)
  have "sr_breaks ex_marubozu ex_qm_seq 2 3" "\<not> sr_breaks ex_marubozu ex_qm_seq 2 2"
    by (simp_all add: sr_breaks_def ex_qm_seq_def is_bearish_def marubozu_at_def ex_marubozu_def
        body_percentage_def body_size_def total_range_def upper_wick_percentage_def upper_wick_def
        lower_wick_percentage_def lower_wick_def body_pips_def pip_EURUSD dict_get_def
        TF_DISPLACEMENT_SCALE_def)
  then have f: "first_after (sr_breaks ex_marubozu ex_qm_seq (sl_price ?l)) (sl_index ?l)
      (length (seq_candles ex_qm_seq)) 3"
    unfolding l first_after_def by (auto simp: less_Suc_eq numeral_eq_Suc ex_qm_seq_def)
  obtain es where es: "detect_sr_flips ex_marubozu ex_qm_seq [?l] = Inr es"
      "\<forall>e. e \<in> set es \<longleftrightarrow> (\<exists>l \<in> set [?l]. \<exists>i. first_after (sr_breaks ex_marubozu ex_qm_seq (sl_price l)) (sl_index l)
        (length (seq_candles ex_qm_seq)) i \<and> e = sr_flip_event ex_qm_seq l i)"
      "\<forall>e \<in> set es. validate_sr_flip_with_marubozu ex_marubozu e ex_qm_seq = Inr True"
    using detect_flips_spec [OF wf_ex_qm_seq pos, of ex_marubozu] by (elim exE conjE) (rule that)
  have "sr_flip_event ex_qm_seq ?l 3 \<in> set es" unfolding es(2) [rule_format] using f by (intro bexI exI conjI) simp_all
  with es(1,3) show ?thesis by blast
qed

theorem previous_levels_greedy_witness:
  "\<exists>p. detect_previous_highs default_SnDConfig ex_qm_seq [ex_high 3 0, ex_high 4 2, ex_high 3 4] = Inr [p] \<and>
     ph_touches p = [ex_high 3 0, ex_high 3 4]"
proof -
  let ?shs = "[ex_high 3 0, ex_high 4 2, ex_high 3 4]"
  let ?nr = "price_near (sn_previous_level_tolerance_pips default_SnDConfig) (seq_symbol ex_qm_seq) sh_price"
  have pos: "\<forall>h \<in> set ?shs. 0 < sh_price h" "valid_SnDConfig default_SnDConfig"
    by (simp_all add: ex_high_def valid_SnDConfig_def default_SnDConfig_def)
  have nr: "?nr (ex_high a i) (ex_high b j) \<longleftrightarrow> \<bar>a - b\<bar> * 10000 \<le> 3" for a i b j
    by (simp add: price_near_def default_SnDConfig_def ex_qm_seq_def pip_EURUSD ex_high_def)
  have "greedy ?nr ?shs = [[ex_high 3 0, ex_high 3 4], [ex_high 4 2]]" by (simp add: nr)
  then show ?thesis
    using conjunct1 [OF previous_levels_greedy [OF pos, of ex_qm_seq]]
    by (simp add: default_SnDConfig_def ph_event_def)
qed

theorem supply_demand_zone_error_witness:
  "create_supply_zone ex_qm_seq 3 0 3 60 = Inl (ConfigurationError ''Upper bound must be > lower bound'') \<and>
   (\<exists>z. create_supply_zone ex_qm_seq 3 0 2 60 = Inr z)"
  using supply_demand_zone_error [OF wf_ex_qm_seq(2), of 3 3 0 60]
    supply_demand_zone_error [OF wf_ex_qm_seq(2), of 3 2 0 60] by auto

end
