(* ===== verification/SndBuilders.thy ===== *)
theory SndBuilders
  imports Candidates SnD Fibonacci StopLoss
begin

text \<open>
  The candidate builders of the supply and demand framework: the marubozu validator
  (\<^verbatim>\<open>engine/ta/snd/validators/marubozu/validator.py\<close>), the lower-timeframe confirmations
  (\<^verbatim>\<open>engine/ta/snd/validators/ltf/confirmation.py\<close>), the trade geometry
  (\<^verbatim>\<open>engine/ta/snd/builders/levels.py\<close>) and the Quasimodo, fakeout and continuation builders
  (\<^verbatim>\<open>engine/ta/snd/builders/candidates\<close>). \<^verbatim>\<open>_check_compression\<close>,
  \<^verbatim>\<open>_get_fib_level\<close> and \<^verbatim>\<open>_validate_marubozu\<close> have the same text in the three
  builder classes and are modelled once, and the construction that ends all six methods is
  \<open>build_snd_candidate\<close>. Prices are exact, so the checks for \<^verbatim>\<open>nan\<close> and infinity in
  \<^verbatim>\<open>_is_positive_finite\<close> have no counterpart.
\<close>

section \<open>Marubozu validator\<close>

definition validate_wicks :: "SnDConfig \<Rightarrow> Candle \<Rightarrow> price \<Rightarrow> price \<Rightarrow> bool" where
  "validate_wicks config candle uwick lwick =
     (let total_range = c_high candle - c_low candle in
      if total_range = 0 then False
      else \<not> sn_marubozu_max_wick_percentage config < uwick / total_range * 100 \<and>
           \<not> sn_marubozu_max_wick_percentage config < lwick / total_range * 100)"

definition validate_bullish_marubozu :: "SnDConfig \<Rightarrow> Candle \<Rightarrow> bool result" where
  "validate_bullish_marubozu config candle =
     (if \<not> is_bullish candle then Inr False
      else bindR (calculate_body_percentage (c_open candle) (c_close candle) (c_high candle) (c_low candle))
        (\<lambda>body_pct.
          if body_pct < sn_marubozu_body_percentage_threshold config then Inr False
          else Inr (validate_wicks config candle (c_high candle - c_close candle)
                 (c_open candle - c_low candle))))"

definition validate_bearish_marubozu :: "SnDConfig \<Rightarrow> Candle \<Rightarrow> bool result" where
  "validate_bearish_marubozu config candle =
     (if \<not> is_bearish candle then Inr False
      else bindR (calculate_body_percentage (c_open candle) (c_close candle) (c_high candle) (c_low candle))
        (\<lambda>body_pct.
          if body_pct < sn_marubozu_body_percentage_threshold config then Inr False
          else Inr (validate_wicks config candle (c_high candle - c_open candle)
                 (c_close candle - c_low candle))))"

definition validate_sr_flip_marubozu :: "SnDConfig \<Rightarrow> CandleSequence \<Rightarrow> nat \<Rightarrow> bool result" where
  "validate_sr_flip_marubozu config sequence breakout_candle_index =
     (if length (seq_candles sequence) \<le> breakout_candle_index then Inr False
      else validate_bearish_marubozu config (seq_candles sequence ! breakout_candle_index))"

definition validate_rs_flip_marubozu :: "SnDConfig \<Rightarrow> CandleSequence \<Rightarrow> nat \<Rightarrow> bool result" where
  "validate_rs_flip_marubozu config sequence breakout_candle_index =
     (if length (seq_candles sequence) \<le> breakout_candle_index then Inr False
      else validate_bullish_marubozu config (seq_candles sequence ! breakout_candle_index))"

definition validate_fakeout_breakout_marubozu ::
  "SnDConfig \<Rightarrow> CandleSequence \<Rightarrow> nat \<Rightarrow> bool \<Rightarrow> bool result" where
  "validate_fakeout_breakout_marubozu config sequence breakout_candle_index bullish =
     (if length (seq_candles sequence) \<le> breakout_candle_index then Inr False
      else if bullish then validate_bullish_marubozu config (seq_candles sequence ! breakout_candle_index)
      else validate_bearish_marubozu config (seq_candles sequence ! breakout_candle_index))"

section \<open>Lower-timeframe confirmations\<close>

definition validate_compression_at_zone ::
  "SnDConfig \<Rightarrow> CompressionAnalyzer \<Rightarrow> CandleSequence \<Rightarrow> FakeoutTest list \<Rightarrow> bool result" where
  "validate_compression_at_zone config compression_analyzer sequence fakeout_tests =
     (if fakeout_tests = [] then Inr False
      else let last_fakeout = last fakeout_tests in
        if ft_candle_index last_fakeout < sn_compression_min_candles config then Inr False
        else let start_index = ft_candle_index last_fakeout - sn_compression_min_candles config;
                 end_index = ft_candle_index last_fakeout + 1;
                 compression_candles = drop start_index (take end_index (seq_candles sequence))
             in is_compression compression_analyzer compression_candles (seq_symbol sequence))"

definition validate_fakeout_broken_by_marubozu :: "nat option \<Rightarrow> bool" where
  "validate_fakeout_broken_by_marubozu breakout_candle_index \<longleftrightarrow> breakout_candle_index \<noteq> None"

definition validate_decision_point ::
  "CandleSequence \<Rightarrow> FakeoutTest list \<Rightarrow> Direction \<Rightarrow> Candle option" where
  "validate_decision_point sequence fakeout_tests direction =
     (if fakeout_tests = [] then None
      else let last_fakeout = last fakeout_tests in
        if length (seq_candles sequence) \<le> ft_candle_index last_fakeout then None
        else let decision_candle = seq_candles sequence ! ft_candle_index last_fakeout in
          if direction = BULLISH
          then if c_low decision_candle \<le> ft_level last_fakeout \<and>
                  ft_level last_fakeout < c_close decision_candle
               then Some decision_candle else None
          else if ft_level last_fakeout \<le> c_high decision_candle \<and>
                  c_close decision_candle < ft_level last_fakeout
               then Some decision_candle else None)"

definition check_fibonacci_alignment ::
  "SnDConfig \<Rightarrow> price \<Rightarrow> FibonacciRetracement option \<Rightarrow> bool result" where
  "check_fibonacci_alignment config zone_price retracement =
     (case retracement of
        None \<Rightarrow> Inr False
      | Some r \<Rightarrow>
          bindR (get_nearest_fib_level zone_price r) (\<lambda>nearest_level.
            case nearest_level of
              None \<Rightarrow> Inr False
            | Some level \<Rightarrow>
                bindR (get_level_price r level) (\<lambda>level_price.
                  if level_price = 0 then Inr False
                  else bindR (calculate_pips zone_price level_price (fr_symbol r)) (\<lambda>price_diff_pips.
                    Inr (\<not> sn_fibonacci_tolerance_pips config < \<bar>price_diff_pips\<bar>)))))"

definition snd_validate_all_ltf_confirmations ::
  "SnDConfig \<Rightarrow> CompressionAnalyzer \<Rightarrow> CandleSequence \<Rightarrow> FakeoutTest list \<Rightarrow> nat option \<Rightarrow> Direction \<Rightarrow>
   price \<Rightarrow> FibonacciRetracement option \<Rightarrow> bool result" where
  "snd_validate_all_ltf_confirmations config compression_analyzer sequence fakeout_tests
       breakout_candle_index direction zone_price retracement =
     bindR (validate_compression_at_zone config compression_analyzer sequence fakeout_tests)
       (\<lambda>compressed.
        if \<not> compressed then Inr False
        else if \<not> validate_fakeout_broken_by_marubozu breakout_candle_index then Inr False
        else case validate_decision_point sequence fakeout_tests direction of
            None \<Rightarrow> Inr False
          | Some decision_point \<Rightarrow>
              bindR (check_fibonacci_alignment config zone_price retracement) (\<lambda>is_aligned.
                Inr (\<not> (sn_require_fibonacci_confluence config \<and> \<not> is_aligned))))"

section \<open>Trade levels\<close>

record TradeLevels =
  tl_entry_price :: price
  tl_stop_loss :: price
  tl_take_profit :: price
  tl_risk :: rat

definition validate_geometry :: "Direction \<Rightarrow> price \<Rightarrow> price \<Rightarrow> price \<Rightarrow> rat \<Rightarrow> bool" where
  "validate_geometry direction entry_price stop_loss take_profit risk =
     (if \<not> (0 < entry_price \<and> 0 < stop_loss \<and> 0 < take_profit \<and> 0 < risk) then False
      else if direction = BEARISH then take_profit < entry_price \<and> entry_price < stop_loss
      else stop_loss < entry_price \<and> entry_price < take_profit)"

definition compute_trade_levels ::
  "string \<Rightarrow> Direction \<Rightarrow> price \<Rightarrow> price option \<Rightarrow> rat \<Rightarrow> rat option \<Rightarrow> Timeframe option \<Rightarrow>
   TradeLevels option result" where
  "compute_trade_levels symbol direction entry_price structural_extreme sl_buffer_pips risk_reward timeframe =
     (if \<not> 0 < entry_price then Inr None
      else if \<not> 0 \<le> sl_buffer_pips then Inr None
      else let rr = (case risk_reward of Some r \<Rightarrow> r
             | None \<Rightarrow> if timeframe \<noteq> None then resolve_min_tp_rr timeframe None None else 3) in
      if \<not> 0 < rr then Inr None
      else if (case structural_extreme of None \<Rightarrow> False | Some e \<Rightarrow> \<not> 0 < e) then Inr None
      else if direction \<noteq> BEARISH \<and> direction \<noteq> BULLISH then Inr None
      else let effective_buffer_pips = (case timeframe of None \<Rightarrow> sl_buffer_pips
                 | Some tf \<Rightarrow> max sl_buffer_pips (timeframe_floor_pips tf));
               sl_buffer_price = get_pip_value symbol * effective_buffer_pips;
               sl_anchor = (case structural_extreme of Some e \<Rightarrow> e | None \<Rightarrow> entry_price)
        in bindR (calculate_price_from_pips sl_anchor effective_buffer_pips symbol
                    (if direction = BEARISH then 1 else -1)) (\<lambda>anchored.
          let stop_loss = (if direction = BEARISH
                 then (if anchored \<le> entry_price then entry_price + sl_buffer_price else anchored)
                 else (if entry_price \<le> anchored then entry_price - sl_buffer_price else anchored));
              risk = (if direction = BEARISH then stop_loss - entry_price else entry_price - stop_loss);
              take_profit = (if direction = BEARISH then entry_price - risk * rr else entry_price + risk * rr)
          in if \<not> validate_geometry direction entry_price stop_loss take_profit risk then Inr None
             else Inr (Some \<lparr>tl_entry_price = entry_price, tl_stop_loss = stop_loss,
                             tl_take_profit = take_profit, tl_risk = risk\<rparr>)))"

section \<open>Helpers of the builders\<close>

definition check_compression ::
  "SnDConfig \<Rightarrow> CompressionAnalyzer \<Rightarrow> CandleSequence \<Rightarrow> FakeoutTest list \<Rightarrow> bool result" where
  "check_compression config compression_analyzer sequence fakeout_tests =
     (if fakeout_tests = [] then Inr False
      else validate_compression_at_zone config compression_analyzer sequence fakeout_tests)"

definition get_fib_level ::
  "SnDConfig \<Rightarrow> price \<Rightarrow> FibonacciRetracement \<Rightarrow> string option result" where
  "get_fib_level config price retracement =
     (let tolerance = sn_fibonacci_tolerance_pips config * get_pip_value (fr_symbol retracement) in
      bindR (foldR (\<lambda>level (best :: (FibonacciLevel \<times> rat) option).
          bindR (get_level_price retracement level) (\<lambda>level_price.
            let distance = \<bar>price - level_price\<bar> in
            Inr (if distance \<le> tolerance \<and> (case best of None \<Rightarrow> True | Some (_, d) \<Rightarrow> distance < d)
                 then Some (level, distance) else best))) OTE_LEVELS None)
        (\<lambda>best. Inr (map_option (\<lambda>(level, _). fib_value_str level) best)))"

definition validate_marubozu ::
  "SnDConfig \<Rightarrow> CandleSequence \<Rightarrow> nat option \<Rightarrow> Direction \<Rightarrow> (bool \<times> datetime option) result" where
  "validate_marubozu config sequence breakout_candle_index direction =
     (case breakout_candle_index of
        None \<Rightarrow> Inr (False, None)
      | Some i \<Rightarrow>
          if length (seq_candles sequence) \<le> i then Inr (False, None)
          else let candle = seq_candles sequence ! i in
            bindR (if direction = BEARISH then validate_bearish_marubozu config candle
                   else validate_bullish_marubozu config candle) (\<lambda>is_valid.
              Inr (is_valid, if is_valid then Some (c_timestamp candle) else None)))"

text \<open>The points for an alignment of the level with the retracement.\<close>

definition alignment_points :: "SnDConfig \<Rightarrow> price \<Rightarrow> FibonacciRetracement option \<Rightarrow> nat result" where
  "alignment_points config level retracement =
     (case retracement of
        None \<Rightarrow> Inr 0
      | Some r \<Rightarrow> bindR (check_fibonacci_alignment config level (Some r)) (\<lambda>b. Inr (if b then 2 else 0)))"

definition touch_points :: "'a PreviousHighsLows option \<Rightarrow> nat" where
  "touch_points previous =
     (case previous of None \<Rightarrow> 0 | Some p \<Rightarrow> if 2 \<le> ph_touch_count p then ph_touch_count p else 0)"

text \<open>The end of every build method: confirmations, confluences, marubozu, levels and the candidate.
  \<open>fill\<close> sets the fields that differ.\<close>

definition build_snd_candidate ::
  "SnDConfig \<Rightarrow> CompressionAnalyzer \<Rightarrow> Direction \<Rightarrow> CandleSequence \<Rightarrow> CandleSequence \<Rightarrow> FakeoutTest list \<Rightarrow>
   nat option \<Rightarrow> FibonacciRetracement option \<Rightarrow> price \<Rightarrow> price \<Rightarrow> price option \<Rightarrow> nat result \<Rightarrow>
   CandidatePattern \<Rightarrow> (SnDCandidate \<Rightarrow> SnDCandidate) \<Rightarrow> (string \<times> json) list \<Rightarrow>
   SnDCandidate option result" where
  "build_snd_candidate config compression_analyzer d htf_sequence ltf_sequence fakeout_tests
       breakout_candle_index retracement zone_price level structural_extreme confluences pattern fill tags =
     bindR (snd_validate_all_ltf_confirmations config compression_analyzer ltf_sequence fakeout_tests
              breakout_candle_index d zone_price retracement) (\<lambda>ltf_confirmed.
     bindR confluences (\<lambda>confluences.
     bindR (validate_marubozu config ltf_sequence breakout_candle_index d) (\<lambda>(marubozu_valid, marubozu_ts).
     bindR (compute_trade_levels (seq_symbol ltf_sequence) d level structural_extreme
              (sn_previous_level_tolerance_pips config) None (Some (seq_timeframe ltf_sequence))) (\<lambda>levels.
     case levels of
       None \<Rightarrow> Inr None
     | Some lv \<Rightarrow>
         bindR (last_candle ltf_sequence) (\<lambda>latest.
         bindR (check_compression config compression_analyzer ltf_sequence fakeout_tests) (\<lambda>compressed.
         bindR (case retracement of None \<Rightarrow> Inr None
                | Some r \<Rightarrow> get_fib_level config (tl_entry_price lv) r) (\<lambda>fib_level.
         bindR (mk_SnDCandidate (fill (SnDCandidate_of (seq_symbol ltf_sequence) (seq_timeframe ltf_sequence)
               pattern d (c_timestamp latest) (tl_entry_price lv) (tl_stop_loss lv)
               (Some (tl_take_profit lv)) (seq_timeframe htf_sequence) (seq_timeframe ltf_sequence))
             \<lparr>sd_fakeout_detected := fakeout_tests \<noteq> [],
              sd_fakeout_level := (if fakeout_tests = [] then None else Some (ft_level (last fakeout_tests))),
              sd_fakeout_timestamp :=
                (if fakeout_tests = [] then None else Some (ft_timestamp (last fakeout_tests))),
              sd_marubozu_detected := marubozu_valid, sd_marubozu_timestamp := marubozu_ts,
              sd_compression_detected := compressed, sd_ltf_confirmation := ltf_confirmed,
              sd_ltf_confirmation_timestamp := (if ltf_confirmed then Some (c_timestamp latest) else None),
              sd_fib_level := fib_level,
              sd_metadata := (''confluences'', JNum (of_nat confluences)) # tags\<rparr>))
           (\<lambda>candidate. Inr (Some candidate))))))))) "

section \<open>Quasimodo builder\<close>

text \<open>\<^verbatim>\<open>_count_qml_confluences\<close> and its copy \<^verbatim>\<open>_count_qmh_confluences\<close>.\<close>

definition count_qm_confluences ::
  "SnDConfig \<Rightarrow> QuasiModoLevel \<Rightarrow> FakeoutTest list \<Rightarrow> 'a PreviousHighsLows option \<Rightarrow>
   MiniPriceLevel option \<Rightarrow> FibonacciRetracement option \<Rightarrow> nat result" where
  "count_qm_confluences config qm fakeout_tests previous mpl retracement =
     bindR (alignment_points config (qm_level qm) retracement) (\<lambda>aligned.
       Inr (1 + length fakeout_tests + touch_points previous +
            (case mpl of None \<Rightarrow> 0 | Some m \<Rightarrow> if mpl_is_type1 m then 2 else 1) + aligned))"

definition with_qm :: "QuasiModoLevel \<Rightarrow> SnDCandidate \<Rightarrow> SnDCandidate" where
  "with_qm qm c = c\<lparr>sd_qml_detected := True, sd_qml_price := Some (qm_level qm),
     sd_qml_timestamp := Some (qm_timestamp qm)\<rparr>"

definition with_flip :: "Direction \<Rightarrow> price \<Rightarrow> SnDCandidate \<Rightarrow> SnDCandidate" where
  "with_flip d level c =
     (if d = BEARISH then c\<lparr>sd_sr_flip_detected := True, sd_sr_flip_price := Some level\<rparr>
      else c\<lparr>sd_rs_flip_detected := True, sd_rs_flip_price := Some level\<rparr>)"

definition with_touches :: "Direction \<Rightarrow> nat \<Rightarrow> SnDCandidate \<Rightarrow> SnDCandidate" where
  "with_touches d n c =
     (if d = BEARISH then c\<lparr>sd_previous_highs_count := n\<rparr> else c\<lparr>sd_previous_lows_count := n\<rparr>)"

definition with_mpl :: "MiniPriceLevel option \<Rightarrow> SnDCandidate \<Rightarrow> SnDCandidate" where
  "with_mpl mpl c = c\<lparr>sd_mpl_detected := mpl \<noteq> None, sd_mpl_price := map_option mpl_level mpl\<rparr>"

definition is_type1_mpl :: "MiniPriceLevel option \<Rightarrow> bool" where
  "is_type1_mpl mpl \<longleftrightarrow> (case mpl of None \<Rightarrow> False | Some m \<Rightarrow> mpl_is_type1 m)"

definition build_qml_baseline_short ::
  "SnDConfig \<Rightarrow> CompressionAnalyzer \<Rightarrow> CandleSequence \<Rightarrow> CandleSequence \<Rightarrow> QuasiModoLevel \<Rightarrow> price \<Rightarrow>
   FakeoutTest list \<Rightarrow> nat option \<Rightarrow> FibonacciRetracement option \<Rightarrow> SnDCandidate option result" where
  "build_qml_baseline_short config compression_analyzer htf_sequence ltf_sequence qml sr_flip_level
       fakeout_tests breakout_candle_index retracement =
     (if \<not> qm_is_valid qml then Inr None
      else if length fakeout_tests < sn_min_fakeout_tests config then Inr None
      else build_snd_candidate config compression_analyzer BEARISH htf_sequence ltf_sequence fakeout_tests
             breakout_candle_index retracement (qm_level qml) (qm_level qml) (qm_hh_price qml)
             (count_qm_confluences config qml fakeout_tests (None :: SwingHigh PreviousHighsLows option)
                None retracement)
             QML_BASELINE (with_qm qml \<circ> with_flip BEARISH sr_flip_level)
             [(''pattern_type'', JStr ''qml_baseline'')])"

definition build_qml_killer_setup_short ::
  "SnDConfig \<Rightarrow> CompressionAnalyzer \<Rightarrow> CandleSequence \<Rightarrow> CandleSequence \<Rightarrow> QuasiModoLevel \<Rightarrow> price \<Rightarrow>
   FakeoutTest list \<Rightarrow> nat option \<Rightarrow> SwingHigh PreviousHighsLows \<Rightarrow> MiniPriceLevel option \<Rightarrow>
   FibonacciRetracement option \<Rightarrow> SnDCandidate option result" where
  "build_qml_killer_setup_short config compression_analyzer htf_sequence ltf_sequence qml sr_flip_level
       fakeout_tests breakout_candle_index previous_highs mpl retracement =
     (if \<not> qm_is_valid qml then Inr None
      else if ph_touch_count previous_highs < sn_min_previous_touches config then Inr None
      else if length fakeout_tests < sn_min_fakeout_tests config then Inr None
      else build_snd_candidate config compression_analyzer BEARISH htf_sequence ltf_sequence fakeout_tests
             breakout_candle_index retracement (qm_level qml) (qm_level qml) (qm_hh_price qml)
             (count_qm_confluences config qml fakeout_tests (Some previous_highs) mpl retracement)
             (if is_type1_mpl mpl then QML_KILLER_TYPE1 else QML_KILLER_TYPE2)
             (with_qm qml \<circ> with_flip BEARISH sr_flip_level \<circ>
              with_touches BEARISH (ph_touch_count previous_highs) \<circ> with_mpl mpl)
             [(''pattern_type'', JStr (if is_type1_mpl mpl then ''qml_killer_type1'' else ''qml_killer_type2'')),
              (''is_90_percent_setup'', JBool True)])"

definition build_qmh_baseline_long ::
  "SnDConfig \<Rightarrow> CompressionAnalyzer \<Rightarrow> CandleSequence \<Rightarrow> CandleSequence \<Rightarrow> QuasiModoLevel \<Rightarrow> price \<Rightarrow>
   FakeoutTest list \<Rightarrow> nat option \<Rightarrow> FibonacciRetracement option \<Rightarrow> SnDCandidate option result" where
  "build_qmh_baseline_long config compression_analyzer htf_sequence ltf_sequence qmh rs_flip_level
       fakeout_tests breakout_candle_index retracement =
     (if \<not> qm_is_valid qmh then Inr None
      else if length fakeout_tests < sn_min_fakeout_tests config then Inr None
      else build_snd_candidate config compression_analyzer BULLISH htf_sequence ltf_sequence fakeout_tests
             breakout_candle_index retracement (qm_level qmh) (qm_level qmh) (qm_ll_price qmh)
             (count_qm_confluences config qmh fakeout_tests (None :: SwingLow PreviousHighsLows option)
                None retracement)
             QMH_BASELINE (with_qm qmh \<circ> with_flip BULLISH rs_flip_level)
             [(''pattern_type'', JStr ''qmh_baseline'')])"

definition build_qmh_killer_setup_long ::
  "SnDConfig \<Rightarrow> CompressionAnalyzer \<Rightarrow> CandleSequence \<Rightarrow> CandleSequence \<Rightarrow> QuasiModoLevel \<Rightarrow> price \<Rightarrow>
   FakeoutTest list \<Rightarrow> nat option \<Rightarrow> SwingLow PreviousHighsLows \<Rightarrow> MiniPriceLevel option \<Rightarrow>
   FibonacciRetracement option \<Rightarrow> SnDCandidate option result" where
  "build_qmh_killer_setup_long config compression_analyzer htf_sequence ltf_sequence qmh rs_flip_level
       fakeout_tests breakout_candle_index previous_lows mpl retracement =
     (if \<not> qm_is_valid qmh then Inr None
      else if ph_touch_count previous_lows < sn_min_previous_touches config then Inr None
      else if length fakeout_tests < sn_min_fakeout_tests config then Inr None
      else build_snd_candidate config compression_analyzer BULLISH htf_sequence ltf_sequence fakeout_tests
             breakout_candle_index retracement (qm_level qmh) (qm_level qmh) (qm_ll_price qmh)
             (count_qm_confluences config qmh fakeout_tests (Some previous_lows) mpl retracement)
             (if is_type1_mpl mpl then QMH_KILLER_TYPE1 else QMH_KILLER_TYPE2)
             (with_qm qmh \<circ> with_flip BULLISH rs_flip_level \<circ>
              with_touches BULLISH (ph_touch_count previous_lows) \<circ> with_mpl mpl)
             [(''pattern_type'', JStr (if is_type1_mpl mpl then ''qmh_killer_type1'' else ''qmh_killer_type2'')),
              (''is_90_percent_setup'', JBool True)])"

section \<open>Fakeout builder\<close>

definition count_fakeout_confluences ::
  "SnDConfig \<Rightarrow> FakeoutTest list \<Rightarrow> 'a PreviousHighsLows option \<Rightarrow> FibonacciRetracement option \<Rightarrow> price \<Rightarrow>
   nat result" where
  "count_fakeout_confluences config fakeout_tests previous_levels retracement zone_price =
     bindR (alignment_points config zone_price retracement) (\<lambda>aligned.
       Inr (length fakeout_tests + touch_points previous_levels + aligned +
            (if list_ex ft_is_diamond_fakeout fakeout_tests then 1 else 0)))"

definition build_fakeout_king ::
  "SnDConfig \<Rightarrow> CompressionAnalyzer \<Rightarrow> Direction \<Rightarrow> CandleSequence \<Rightarrow> CandleSequence \<Rightarrow> price \<Rightarrow>
   FakeoutTest list \<Rightarrow> nat option \<Rightarrow> 'a PreviousHighsLows option \<Rightarrow> FibonacciRetracement option \<Rightarrow>
   SnDCandidate option result" where
  "build_fakeout_king config compression_analyzer d htf_sequence ltf_sequence flip_level fakeout_tests
       breakout_candle_index previous retracement =
     (if length fakeout_tests < sn_min_fakeout_tests config then Inr None
      else build_snd_candidate config compression_analyzer d htf_sequence ltf_sequence fakeout_tests
             breakout_candle_index retracement flip_level flip_level None
             (count_fakeout_confluences config fakeout_tests previous retracement flip_level)
             (if 3 \<le> length fakeout_tests then FAKEOUT_KING else SOP)
             (with_flip d flip_level \<circ>
              with_touches d (case previous of None \<Rightarrow> 0 | Some p \<Rightarrow> ph_touch_count p))
             [(''pattern_type'', JStr (if 3 \<le> length fakeout_tests then ''fakeout_king'' else ''sop''))])"

definition build_fakeout_king_short ::
  "SnDConfig \<Rightarrow> CompressionAnalyzer \<Rightarrow> CandleSequence \<Rightarrow> CandleSequence \<Rightarrow> price \<Rightarrow> FakeoutTest list \<Rightarrow>
   nat option \<Rightarrow> SwingHigh PreviousHighsLows option \<Rightarrow> FibonacciRetracement option \<Rightarrow>
   SnDCandidate option result" where
  "build_fakeout_king_short config compression_analyzer = build_fakeout_king config compression_analyzer BEARISH"

definition build_fakeout_king_long ::
  "SnDConfig \<Rightarrow> CompressionAnalyzer \<Rightarrow> CandleSequence \<Rightarrow> CandleSequence \<Rightarrow> price \<Rightarrow> FakeoutTest list \<Rightarrow>
   nat option \<Rightarrow> SwingLow PreviousHighsLows option \<Rightarrow> FibonacciRetracement option \<Rightarrow>
   SnDCandidate option result" where
  "build_fakeout_king_long config compression_analyzer = build_fakeout_king config compression_analyzer BULLISH"

section \<open>Continuation builder\<close>

definition count_continuation_confluences ::
  "SnDConfig \<Rightarrow> QuasiModoLevel \<Rightarrow> FakeoutTest list \<Rightarrow> 'a PreviousHighsLows option \<Rightarrow>
   FibonacciRetracement option \<Rightarrow> nat result" where
  "count_continuation_confluences config qm fakeout_tests previous_levels retracement =
     bindR (alignment_points config (qm_level qm) retracement) (\<lambda>aligned.
       Inr (1 + length fakeout_tests + touch_points previous_levels + aligned))"

definition build_snd_continuation ::
  "SnDConfig \<Rightarrow> CompressionAnalyzer \<Rightarrow> Direction \<Rightarrow> CandleSequence \<Rightarrow> CandleSequence \<Rightarrow> QuasiModoLevel \<Rightarrow>
   price \<Rightarrow> FakeoutTest list \<Rightarrow> nat option \<Rightarrow> 'a PreviousHighsLows option \<Rightarrow>
   FibonacciRetracement option \<Rightarrow> SnDCandidate option result" where
  "build_snd_continuation config compression_analyzer d htf_sequence ltf_sequence qm flip_level
       fakeout_tests breakout_candle_index previous retracement =
     (if \<not> qm_is_valid qm then Inr None
      else if length fakeout_tests < 2 then Inr None
      else case previous of
        None \<Rightarrow> Inr None
      | Some p \<Rightarrow>
          if ph_touch_count p < 2 then Inr None
          else build_snd_candidate config compression_analyzer d htf_sequence ltf_sequence fakeout_tests
                 breakout_candle_index retracement (qm_level qm) flip_level None
                 (count_continuation_confluences config qm fakeout_tests previous retracement)
                 SND_CONTINUATION
                 (with_qm qm \<circ> with_flip d flip_level \<circ> with_touches d (ph_touch_count p))
                 [(''pattern_type'', JStr ''snd_continuation'')])"

definition build_continuation_short ::
  "SnDConfig \<Rightarrow> CompressionAnalyzer \<Rightarrow> CandleSequence \<Rightarrow> CandleSequence \<Rightarrow> QuasiModoLevel \<Rightarrow> price \<Rightarrow>
   FakeoutTest list \<Rightarrow> nat option \<Rightarrow> SwingHigh PreviousHighsLows option \<Rightarrow> FibonacciRetracement option \<Rightarrow>
   SnDCandidate option result" where
  "build_continuation_short config compression_analyzer =
     build_snd_continuation config compression_analyzer BEARISH"

definition build_continuation_long ::
  "SnDConfig \<Rightarrow> CompressionAnalyzer \<Rightarrow> CandleSequence \<Rightarrow> CandleSequence \<Rightarrow> QuasiModoLevel \<Rightarrow> price \<Rightarrow>
   FakeoutTest list \<Rightarrow> nat option \<Rightarrow> SwingLow PreviousHighsLows option \<Rightarrow> FibonacciRetracement option \<Rightarrow>
   SnDCandidate option result" where
  "build_continuation_long config compression_analyzer =
     build_snd_continuation config compression_analyzer BULLISH"


section \<open>Lemmas\<close>

lemma ex_bool: "\<exists>b. b" "\<exists>b. \<not> b"
  by blast+

lemma validate_marubozu_total:
  assumes "wf_seq s"
  shows "\<exists>r. validate_marubozu config s i d = Inr r"
proof -
  have "\<exists>b. validate_bearish_marubozu config c = Inr b \<and> (\<exists>b. validate_bullish_marubozu config c = Inr b)"
    if "wf_candle c" for c
    using wf_candleD(5) [OF that]
    by (auto simp: validate_bearish_marubozu_def validate_bullish_marubozu_def calculate_body_percentage_Inr)
  then show ?thesis
    using assms by (auto simp: validate_marubozu_def wf_seq_def Let_def split: option.splits)
qed

text \<open>What the detector passes as fakeout tests.\<close>

definition tests_on :: "CandleSequence \<Rightarrow> FakeoutTest list \<Rightarrow> bool" where
  "tests_on s ts \<longleftrightarrow> ts \<noteq> [] \<and> (\<forall>t \<in> set ts. ft_candle_index t < length (seq_candles s) \<and> 0 < ft_level t)"

lemma is_compression_total:
  assumes "cs \<noteq> []" and "\<forall>c \<in> set cs. wf_candle c"
  shows "\<exists>b. is_compression ca cs symbol = Inr b"
proof -
  have "hd cs \<in> set cs" using assms(1) by simp
  then have "0 < c_high (hd cs)" "c_high (hd cs) \<le> Max (c_high ` set cs)" using assms(2) wf_candleD(4) by auto
  then have "0 \<le> Max (c_high ` set cs)" by linarith
  moreover have "0 \<le> Min (c_low ` set cs)" using assms wf_candleD(1) by (auto simp: less_imp_le)
  ultimately show ?thesis
    using assms(1) by (auto simp: is_compression_def py_min_Inr py_max_Inr calculate_pips_Inr)
qed

lemma validate_compression_total:
  assumes "wf_seq s" and "tests_on s ts"
  shows "\<exists>b. validate_compression_at_zone config ca s ts = Inr b"
proof -
  let ?i = "ft_candle_index (last ts)"
  have "ts \<noteq> []" "?i < length (seq_candles s)" using assms(2) by (auto simp: tests_on_def)
  then have "drop (?i - n) (take (?i + 1) (seq_candles s)) \<noteq> []" for n by simp
  moreover have "\<forall>c \<in> set (drop m (take k (seq_candles s))). wf_candle c" for m k
    using assms(1) by (auto simp: wf_seq_def dest!: in_set_dropD in_set_takeD)
  ultimately show ?thesis
    unfolding validate_compression_at_zone_def Let_def by (auto intro!: is_compression_total simp del: drop_eq_Nil)
qed

lemma nearest_level_total: "\<exists>l. get_nearest_fib_level p r = Inr l"
proof -
  have "\<exists>ls. get_all_levels r = Inr ls"
    unfolding get_all_levels_def by (rule exI, rule mapR_Inr) (simp add: get_level_price_Inr)
  then show ?thesis by (auto simp: get_nearest_fib_level_def)
qed

lemma alignment_total:
  assumes "0 < p" and "\<forall>r \<in> set_option retracement. wf_fr r"
  shows "\<exists>b. check_fibonacci_alignment config p retracement = Inr b"
proof (cases retracement)
  case (Some r)
  obtain l where l: "get_nearest_fib_level p r = Inr l" using nearest_level_total by blast
  show ?thesis
  proof (cases l)
    case (Some k)
    obtain q where q: "get_level_price r k = Inr q" by (simp add: get_level_price_Inr)
    have "0 < fr_swing_low r" using assms(2) \<open>retracement = Some r\<close> by (simp add: wf_fr_def)
    then have "0 < q" using level_price_between(1) [OF _ q] assms(2) \<open>retracement = Some r\<close> by fastforce
    then show ?thesis
      using \<open>retracement = Some r\<close> l Some q assms(1) by (auto simp: check_fibonacci_alignment_def calculate_pips_Inr)
  qed (use Some l in \<open>auto simp: check_fibonacci_alignment_def\<close>)
qed (auto simp: check_fibonacci_alignment_def)

lemma alignment_points_total:
  assumes "0 < p" and "\<forall>r \<in> set_option retracement. wf_fr r"
  shows "\<exists>n. alignment_points config p retracement = Inr n"
  using alignment_total [OF assms] by (auto simp: alignment_points_def split: option.splits)

lemma confirmations_total:
  assumes "wf_seq s" and "tests_on s ts" and "0 < p" and "\<forall>r \<in> set_option retracement. wf_fr r"
  shows "\<exists>b. snd_validate_all_ltf_confirmations config ca s ts i d p retracement = Inr b"
proof -
  obtain b c where "validate_compression_at_zone config ca s ts = Inr b"
      "check_fibonacci_alignment config p retracement = Inr c"
    using validate_compression_total [OF assms(1,2), of config ca] alignment_total [OF assms(3,4), of config]
    by (elim exE)
  then show ?thesis
    by (simp add: snd_validate_all_ltf_confirmations_def ex_bool split: option.split)
qed

lemma get_fib_level_total: "\<exists>l. get_fib_level config p r = Inr l"
  by (auto simp: get_fib_level_def Let_def OTE_LEVELS_def get_level_price_Inr)

text \<open>The levels of a trade at a timeframe: positive, ordered, with the floor as reward multiple.\<close>

definition sound_levels :: "Direction \<Rightarrow> Timeframe \<Rightarrow> price \<Rightarrow> price \<Rightarrow> price \<Rightarrow> bool" where
  "sound_levels d tf entry sl tp \<longleftrightarrow> 0 < entry \<and> 0 < sl \<and> 0 < tp \<and>
     (case d of
        BULLISH \<Rightarrow> sl < entry \<and> tp - entry = timeframe_min_tp_rr tf * (entry - sl)
      | BEARISH \<Rightarrow> entry < sl \<and> entry - tp = timeframe_min_tp_rr tf * (sl - entry)
      | NEUTRAL \<Rightarrow> False)"

text \<open>The stop the function aims at.\<close>

definition snd_stop :: "string \<Rightarrow> Direction \<Rightarrow> price \<Rightarrow> price option \<Rightarrow> rat \<Rightarrow> price" where
  "snd_stop symbol d entry extreme pips =
     (let buffer = get_pip_value symbol * pips; anchor = (case extreme of Some e \<Rightarrow> e | None \<Rightarrow> entry) in
      if d = BEARISH then if entry < anchor + buffer then anchor + buffer else entry + buffer
      else if anchor - buffer < entry then anchor - buffer else entry - buffer)"

lemma compute_trade_levels_cases:
  fixes symbol :: string and tf :: Timeframe
  assumes "0 < entry" and "0 \<le> pips" and "pos_opt extreme" and "d = BULLISH \<or> d = BEARISH"
  defines "sl \<equiv> snd_stop symbol d entry extreme (max pips (timeframe_floor_pips tf))"
    and "rr \<equiv> timeframe_min_tp_rr tf"
  shows "compute_trade_levels symbol d entry extreme pips None (Some tf) =
     Inr (if d = BEARISH \<and> rr * (sl - entry) < entry
          then Some \<lparr>tl_entry_price = entry, tl_stop_loss = sl, tl_take_profit = entry - (sl - entry) * rr,
                 tl_risk = sl - entry\<rparr>
          else if d = BULLISH \<and> 0 < sl
          then Some \<lparr>tl_entry_price = entry, tl_stop_loss = sl, tl_take_profit = entry + (entry - sl) * rr,
                 tl_risk = entry - sl\<rparr>
          else None)"
    and "if d = BEARISH then entry < sl else sl < entry"
proof -
  define pp where "pp = max pips (timeframe_floor_pips tf)"
  define buf where "buf = get_pip_value symbol * pp"
  define anc where "anc = (case extreme of Some e \<Rightarrow> e | None \<Rightarrow> entry)"
  have rr: "2 \<le> rr" using tp_floor_ge [of tf] by (simp add: rr_def LOWEST_STYLE_MIN_RR_def MIN_RR_SCALPING_def)
  have buf: "0 < buf"
    using floor_pips_bounds(1) [of tf] unfolding buf_def pp_def by (intro mult_pos_pos) (simp_all add: less_max_iff_disj)
  have bufs: "get_pip_value symbol * pp = buf" "pp * get_pip_value symbol = buf" by (simp_all add: buf_def mult.commute)
  have sl_eq: "sl = (if d = BEARISH then if entry < anc + buf then anc + buf else entry + buf
      else if anc - buf < entry then anc - buf else entry - buf)"
    by (simp add: sl_def snd_stop_def Let_def anc_def buf_def pp_def)
  show side: "if d = BEARISH then entry < sl else sl < entry"
    using buf by (simp add: sl_eq)
  have res: "resolve_min_tp_rr (Some tf) None None = rr" by (simp add: resolve_min_tp_rr_def rr_def)
  have anchor: "0 < anc" using assms(1,3) by (cases extreme) (auto simp: anc_def)
  have ex: "\<not> (case extreme of None \<Rightarrow> False | Some e \<Rightarrow> \<not> 0 < e)" using assms(3) by (cases extreme) auto
  from assms(4) show "compute_trade_levels symbol d entry extreme pips None (Some tf) =
     Inr (if d = BEARISH \<and> rr * (sl - entry) < entry
          then Some \<lparr>tl_entry_price = entry, tl_stop_loss = sl, tl_take_profit = entry - (sl - entry) * rr,
                 tl_risk = sl - entry\<rparr>
          else if d = BULLISH \<and> 0 < sl
          then Some \<lparr>tl_entry_price = entry, tl_stop_loss = sl, tl_take_profit = entry + (entry - sl) * rr,
                 tl_risk = entry - sl\<rparr>
          else None)"
  proof
    assume d: "d = BEARISH"
    have "sl = (if anc + buf \<le> entry then entry + buf else anc + buf)" using d by (simp add: sl_eq)
    moreover have "0 < (sl - entry) * rr" using side d rr by (intro mult_pos_pos) simp_all
    ultimately show ?thesis
      using assms(1,2) d rr side anchor ex buf
      by (simp add: compute_trade_levels_def Let_def res calculate_price_from_pips_def validate_geometry_def
          anc_def [symmetric] pp_def [symmetric] bufs mult.commute [of rr])
  next
    assume d: "d = BULLISH"
    have "sl = (if entry \<le> anc - buf then entry - buf else anc - buf)" using d by (simp add: sl_eq)
    moreover have gain: "0 < entry + x * rr" if "0 < x" for x
      using assms(1) rr that by (intro add_pos_pos mult_pos_pos) simp_all
    ultimately show ?thesis
      using assms(1,2) d rr side anchor ex buf gain [OF buf] gain [of "entry - (anc - buf)"]
      by (simp add: compute_trade_levels_def Let_def res calculate_price_from_pips_def validate_geometry_def
          anc_def [symmetric] pp_def [symmetric] bufs mult.commute [of rr])
  qed
qed


text \<open>An update of a candidate that leaves its trade alone and keeps its fields valid.\<close>

definition keeps :: "(SnDCandidate \<Rightarrow> SnDCandidate) \<Rightarrow> bool" where
  "keeps fill \<longleftrightarrow> (\<forall>c. sd_symbol (fill c) = sd_symbol c \<and> sd_timeframe (fill c) = sd_timeframe c \<and>
     sd_direction (fill c) = sd_direction c \<and> sd_timestamp (fill c) = sd_timestamp c \<and>
     sd_entry_price (fill c) = sd_entry_price c \<and> sd_stop_loss (fill c) = sd_stop_loss c \<and>
     sd_take_profit (fill c) = sd_take_profit c \<and> (snd_fields_ok c \<longrightarrow> snd_fields_ok (fill c)))"

lemma keeps_comp: "keeps f \<Longrightarrow> keeps g \<Longrightarrow> keeps (f \<circ> g)"
  by (simp add: keeps_def)

lemma keeps_with:
  "0 < qm_level qm \<Longrightarrow> keeps (with_qm qm)" "0 < p \<Longrightarrow> keeps (with_flip d p)" "keeps (with_touches d n)"
  "\<forall>m \<in> set_option mpl. 0 < mpl_level m \<Longrightarrow> keeps (with_mpl mpl)"
  by (auto simp: keeps_def with_qm_def with_flip_def with_touches_def with_mpl_def snd_fields_ok_def)

lemmas keeps_intros = keeps_comp keeps_with

text \<open>What every emitted candidate satisfies: its levels are sound for the timeframe and the stop is
  at least the timeframe's floor away.\<close>

definition snd_good :: "CandleSequence \<Rightarrow> Direction \<Rightarrow> SnDCandidate \<Rightarrow> bool" where
  "snd_good s d c \<longleftrightarrow> sd_direction c = d \<and> sd_timeframe c = seq_timeframe s \<and>
     sd_timestamp c = c_timestamp (last (seq_candles s)) \<and>
     (\<exists>tp. sd_take_profit c = Some tp \<and> sound_levels d (seq_timeframe s) (sd_entry_price c) (sd_stop_loss c) tp) \<and>
     timeframe_floor_pips (seq_timeframe s) * get_pip_value (seq_symbol s) \<le> \<bar>sd_entry_price c - sd_stop_loss c\<bar>"

lemma snd_stop_floor:
  assumes "\<forall>e \<in> set_option extreme. if d = BEARISH then entry \<le> e else e \<le> entry" and "0 \<le> pips"
  shows "get_pip_value symbol * pips \<le> \<bar>entry - snd_stop symbol d entry extreme pips\<bar>"
proof -
  have "0 \<le> get_pip_value symbol * pips" using assms(2) by (simp add: less_imp_le)
  then show ?thesis using assms(1) by (auto simp: snd_stop_def Let_def split: option.splits)
qed

lemma trade_levels_good:
  assumes "0 < entry" and "0 \<le> pips" and "pos_opt extreme" and "d = BULLISH \<or> d = BEARISH"
    and "\<forall>e \<in> set_option extreme. if d = BEARISH then entry \<le> e else e \<le> entry"
  shows "\<exists>r. compute_trade_levels symbol d entry extreme pips None (Some tf) = Inr r \<and>
     (\<forall>lv. r = Some lv \<longrightarrow> tl_entry_price lv = entry \<and> sound_levels d tf entry (tl_stop_loss lv) (tl_take_profit lv) \<and>
        timeframe_floor_pips tf * get_pip_value symbol \<le> \<bar>entry - tl_stop_loss lv\<bar>)"
proof -
  define pp where "pp = max pips (timeframe_floor_pips tf)"
  let ?sl = "snd_stop symbol d entry extreme pp" and ?rr = "timeframe_min_tp_rr tf"
  note c = compute_trade_levels_cases [OF assms(1-4), of symbol tf, folded pp_def]
  have pp: "0 \<le> pp" "timeframe_floor_pips tf \<le> pp" using assms(2) by (simp_all add: pp_def le_max_iff_disj)
  have "timeframe_floor_pips tf * get_pip_value symbol \<le> get_pip_value symbol * pp"
    using pp(2) by (subst mult.commute) (intro mult_left_mono, simp_all add: less_imp_le)
  also have "\<dots> \<le> \<bar>entry - ?sl\<bar>" by (rule snd_stop_floor [OF assms(5) pp(1)])
  finally have floor: "timeframe_floor_pips tf * get_pip_value symbol \<le> \<bar>entry - ?sl\<bar>" .
  have rr: "0 < ?rr" using tp_floor_ge [of tf] by (simp add: LOWEST_STYLE_MIN_RR_def MIN_RR_SCALPING_def)
  from assms(4) show ?thesis
  proof
    assume d: "d = BEARISH"
    then have "entry < ?sl" using c(2) by simp
    then show ?thesis using c(1) d floor assms(1) by (auto simp: sound_levels_def mult.commute)
  next
    assume d: "d = BULLISH"
    then have "?sl < entry" using c(2) by simp
    moreover then have "0 < (entry - ?sl) * ?rr" using rr by (intro mult_pos_pos) simp_all
    ultimately show ?thesis using c(1) d floor assms(1) by (auto simp: sound_levels_def mult.commute)
  qed
qed

lemma build_snd_total:
  assumes wf: "wf_seq ltf" and sym: "clean_symbol (seq_symbol ltf)" "length (seq_symbol ltf) \<le> 20"
    and ts: "tests_on ltf ts" and fr: "\<forall>r \<in> set_option retracement. wf_fr r"
    and pos: "0 < zone" "0 < level" "pos_opt extreme" and d: "d = BULLISH \<or> d = BEARISH"
    and ext: "\<forall>e \<in> set_option extreme. if d = BEARISH then level \<le> e else e \<le> level"
    and cfg: "valid_SnDConfig config" and n: "confluences = Inr n" and fill: "keeps fill"
  shows "\<exists>r. build_snd_candidate config ca d htf ltf ts i retracement zone level extreme confluences pattern fill tags =
     Inr r \<and> (\<forall>c. r = Some c \<longrightarrow> snd_good ltf d c)"
proof -
  obtain b where b: "snd_validate_all_ltf_confirmations config ca ltf ts i d zone retracement = Inr b"
    using confirmations_total [OF wf ts pos(1) fr] by blast
  obtain mv mt where m: "validate_marubozu config ltf i d = Inr (mv, mt)"
    using validate_marubozu_total [OF wf, of config i d] by (metis surj_pair)
  have tol: "0 \<le> sn_previous_level_tolerance_pips config" using cfg by (simp add: valid_SnDConfig_def)
  obtain lvs where lvs: "compute_trade_levels (seq_symbol ltf) d level extreme
        (sn_previous_level_tolerance_pips config) None (Some (seq_timeframe ltf)) = Inr lvs"
      "\<And>lv. lvs = Some lv \<Longrightarrow> tl_entry_price lv = level \<and>
        sound_levels d (seq_timeframe ltf) level (tl_stop_loss lv) (tl_take_profit lv) \<and>
        timeframe_floor_pips (seq_timeframe ltf) * get_pip_value (seq_symbol ltf) \<le> \<bar>level - tl_stop_loss lv\<bar>"
    using trade_levels_good [OF pos(2) tol pos(3) d ext, of "seq_symbol ltf" "seq_timeframe ltf"]
    by (elim exE conjE) (rule that, assumption, simp)
  obtain k where k: "check_compression config ca ltf ts = Inr k"
    using validate_compression_total [OF wf ts, of config ca] ts by (auto simp: check_compression_def tests_on_def)
  obtain f where f: "(case retracement of None \<Rightarrow> Inr None | Some r \<Rightarrow> get_fib_level config level r) = Inr f"
    using get_fib_level_total [of config level] by (cases retracement) (simp, simp, blast)
  have last: "last_candle ltf = Inr (last (seq_candles ltf))" using wf by (simp add: last_candle_def wf_seq_def)
  show ?thesis
  proof (cases lvs)
    case None
    then show ?thesis by (simp add: build_snd_candidate_def b n m lvs(1))
  next
    case (Some lv)
    let ?base = "SnDCandidate_of (seq_symbol ltf) (seq_timeframe ltf) pattern d (c_timestamp (last (seq_candles ltf)))
        (tl_entry_price lv) (tl_stop_loss lv) (Some (tl_take_profit lv)) (seq_timeframe htf) (seq_timeframe ltf)"
    let ?c = "fill ?base
        \<lparr>sd_fakeout_detected := ts \<noteq> [], sd_fakeout_level := (if ts = [] then None else Some (ft_level (last ts))),
         sd_fakeout_timestamp := (if ts = [] then None else Some (ft_timestamp (last ts))),
         sd_marubozu_detected := mv, sd_marubozu_timestamp := mt, sd_compression_detected := k,
         sd_ltf_confirmation := b,
         sd_ltf_confirmation_timestamp := (if b then Some (c_timestamp (last (seq_candles ltf))) else None),
         sd_fib_level := f, sd_metadata := (''confluences'', JNum (of_nat n)) # tags\<rparr>"
    note lv = lvs(2) [OF Some]
    have f': "(case retracement of None \<Rightarrow> Inr None | Some r \<Rightarrow> get_fib_level config (tl_entry_price lv) r) = Inr f"
      using f lv by (cases retracement) simp_all
    have "snd_fields_ok ?base" using lv by (auto simp: snd_fields_ok_def SnDCandidate_of_def sound_levels_def)
    then have "snd_fields_ok (fill ?base)" using fill unfolding keeps_def by blast
    then have ok: "snd_fields_ok ?c" using ts by (simp add: snd_fields_ok_def tests_on_def)
    have same: "sd_symbol (fill ?base) = seq_symbol ltf" "sd_timeframe (fill ?base) = seq_timeframe ltf"
        "sd_direction (fill ?base) = d" "sd_timestamp (fill ?base) = c_timestamp (last (seq_candles ltf))"
        "sd_entry_price (fill ?base) = level" "sd_stop_loss (fill ?base) = tl_stop_loss lv"
        "sd_take_profit (fill ?base) = Some (tl_take_profit lv)"
      using fill lv unfolding keeps_def by (simp_all add: SnDCandidate_of_def)
    obtain c where c: "mk_SnDCandidate ?c = Inr c"
      using ok same(1) sym by (auto simp: mk_SnDCandidate_Inr clean_symbol_def)
    have "build_snd_candidate config ca d htf ltf ts i retracement zone level extreme confluences pattern fill tags = Inr (Some c)"
      using c by (simp add: build_snd_candidate_def b n m lvs(1) Some last k f')
    moreover have "snd_good ltf d c"
      using c lv same by (auto simp: snd_good_def mk_SnDCandidate_Inr)
    ultimately show ?thesis by simp
  qed
qed


text \<open>The situation in which the detector calls the builders.\<close>

definition snd_ctx :: "SnDConfig \<Rightarrow> CandleSequence \<Rightarrow> FakeoutTest list \<Rightarrow> FibonacciRetracement option \<Rightarrow> bool" where
  "snd_ctx config ltf ts retracement \<longleftrightarrow> valid_SnDConfig config \<and> wf_seq ltf \<and> clean_symbol (seq_symbol ltf) \<and>
     length (seq_symbol ltf) \<le> 20 \<and> tests_on ltf ts \<and> (\<forall>r \<in> set_option retracement. wf_fr r)"

definition qm_ok :: "Direction \<Rightarrow> QuasiModoLevel \<Rightarrow> bool" where
  "qm_ok d qm \<longleftrightarrow> 0 < qm_level qm \<and> (\<forall>e \<in> set_option (if d = BEARISH then qm_hh_price qm else qm_ll_price qm).
     0 < e \<and> (if d = BEARISH then qm_level qm \<le> e else e \<le> qm_level qm))"

definition good_result :: "CandleSequence \<Rightarrow> Direction \<Rightarrow> SnDCandidate option result \<Rightarrow> bool" where
  "good_result ltf d r \<longleftrightarrow> (\<exists>x. r = Inr x \<and> (\<forall>c. x = Some c \<longrightarrow> snd_good ltf d c))"

lemma good_None [simp]: "good_result ltf d (Inr None)"
  by (simp add: good_result_def)

lemma build_good:
  assumes "snd_ctx config ltf ts retracement" and "0 < zone" and "0 < level" and "d = BULLISH \<or> d = BEARISH"
    and "\<forall>e \<in> set_option extreme. 0 < e \<and> (if d = BEARISH then level \<le> e else e \<le> level)"
    and "\<exists>n. confluences = Inr n" and "keeps fill"
  shows "good_result ltf d (build_snd_candidate config ca d htf ltf ts i retracement zone level extreme confluences
     pattern fill tags)"
proof -
  obtain n where n: "confluences = Inr n" using assms(6) by blast
  have "pos_opt extreme" "\<forall>e \<in> set_option extreme. if d = BEARISH then level \<le> e else e \<le> level"
    using assms(5) by blast+
  then show ?thesis
    using assms(1-4,7) build_snd_total [OF _ _ _ _ _ _ _ _ _ _ _ n] unfolding snd_ctx_def good_result_def by blast
qed

lemma count_total:
  assumes "0 < qm_level qm" and "\<forall>r \<in> set_option retracement. wf_fr r"
  shows "\<exists>n. count_qm_confluences config qm ts prev mpl retracement = Inr n"
    and "\<exists>n. count_continuation_confluences config qm ts prev retracement = Inr n"
  using alignment_points_total [OF assms, of config]
  by (auto simp: count_qm_confluences_def count_continuation_confluences_def)

lemma count_fakeout_total:
  "0 < p \<Longrightarrow> \<forall>r \<in> set_option retracement. wf_fr r \<Longrightarrow> \<exists>n. count_fakeout_confluences config ts prev retracement p = Inr n"
  using alignment_points_total [of p retracement config] by (auto simp: count_fakeout_confluences_def)

lemma snd_ctxD: "snd_ctx config ltf ts retracement \<Longrightarrow> \<forall>r \<in> set_option retracement. wf_fr r"
  by (simp add: snd_ctx_def)

lemma qm_builders_good:
  assumes c: "snd_ctx config ltf ts retracement" and p: "0 < flip" and m: "\<forall>m \<in> set_option mpl. 0 < mpl_level m"
  shows "qm_ok BEARISH qm \<Longrightarrow>
      good_result ltf BEARISH (build_qml_baseline_short config ca htf ltf qm flip ts i retracement)"
    and "qm_ok BULLISH qm \<Longrightarrow>
      good_result ltf BULLISH (build_qmh_baseline_long config ca htf ltf qm flip ts i retracement)"
    and "qm_ok BEARISH qm \<Longrightarrow>
      good_result ltf BEARISH (build_qml_killer_setup_short config ca htf ltf qm flip ts i ph mpl retracement)"
    and "qm_ok BULLISH qm \<Longrightarrow>
      good_result ltf BULLISH (build_qmh_killer_setup_long config ca htf ltf qm flip ts i pl mpl retracement)"
  using p m snd_ctxD [OF c]
  by (auto simp: build_qml_baseline_short_def build_qmh_baseline_long_def build_qml_killer_setup_short_def
      build_qmh_killer_setup_long_def qm_ok_def intro!: build_good [OF c] keeps_intros count_total)

lemma flip_builders_good:
  assumes c: "snd_ctx config ltf ts retracement" and p: "0 < flip" and d: "d = BULLISH \<or> d = BEARISH"
  shows "good_result ltf d (build_fakeout_king config ca d htf ltf flip ts i prev retracement)"
    and "qm_ok d' qm \<Longrightarrow> good_result ltf d (build_snd_continuation config ca d htf ltf qm flip ts i prev retracement)"
  using p d snd_ctxD [OF c]
  by (auto simp: build_fakeout_king_def build_snd_continuation_def qm_ok_def split: option.split
      intro!: build_good [OF c] keeps_intros count_total count_fakeout_total)


section \<open>Properties\<close>

text \<open>C20. The trade geometry of the supply and demand builders is total and exact. For a positive
  entry, a non-negative buffer and a positive structural extreme it never raises; the stop is the
  extreme (or the entry) moved by the larger of the configured buffer and the timeframe's floor, or the
  entry moved by that buffer when the extreme is on the wrong side; the target is the timeframe's
  reward multiple of the risk away. Levels are refused exactly when the target of a short or the stop
  of a long would not be a positive price, and levels that are returned are positive and ordered.\<close>

theorem trade_levels_spec:
  assumes "0 < entry" and "0 \<le> pips" and "\<forall>e \<in> set_option extreme. 0 < e" and "d = BULLISH \<or> d = BEARISH"
    and "sl = snd_stop symbol d entry extreme (max pips (timeframe_floor_pips tf))"
  shows "\<exists>r. compute_trade_levels symbol d entry extreme pips None (Some tf) = Inr r \<and>
     (r = None \<longleftrightarrow> (if d = BEARISH then entry \<le> timeframe_min_tp_rr tf * (sl - entry) else sl \<le> 0)) \<and>
     (\<forall>lv. r = Some lv \<longrightarrow> tl_entry_price lv = entry \<and> tl_stop_loss lv = sl \<and> 0 < sl \<and> 0 < tl_take_profit lv \<and>
        tl_risk lv = \<bar>entry - sl\<bar> \<and> \<bar>tl_take_profit lv - entry\<bar> = timeframe_min_tp_rr tf * \<bar>entry - sl\<bar> \<and>
        (if d = BEARISH then tl_take_profit lv < entry \<and> entry < sl else sl < entry \<and> entry < tl_take_profit lv))"
proof -
  note c = compute_trade_levels_cases [OF assms(1-4), of symbol tf, folded assms(5)]
  have rr: "0 < timeframe_min_tp_rr tf" using tp_floor_ge [of tf] by (simp add: LOWEST_STYLE_MIN_RR_def MIN_RR_SCALPING_def)
  from assms(4) show ?thesis
  proof
    assume d: "d = BEARISH"
    then have sl: "entry < sl" using c(2) by simp
    then have "0 < (sl - entry) * timeframe_min_tp_rr tf" using rr by (intro mult_pos_pos) simp_all
    then show ?thesis using c(1) d sl assms(1) by (auto simp: mult.commute)
  next
    assume d: "d = BULLISH"
    then have sl: "sl < entry" using c(2) by simp
    then have "0 < (entry - sl) * timeframe_min_tp_rr tf" using rr by (intro mult_pos_pos) simp_all
    then show ?thesis using c(1) d sl assms(1) by (auto simp: mult.commute)
  qed
qed

theorem trade_levels_spec_witness:
  "compute_trade_levels ''ADAUSD'' BULLISH 5 None 3 None (Some H1) = Inr None \<and>
   (\<exists>lv. compute_trade_levels ''EURUSD'' BEARISH 1 (Some (11 / 10)) 3 None (Some H1) = Inr (Some lv) \<and>
      tl_take_profit lv < 1 \<and> 1 < tl_stop_loss lv)"
proof -
  have "snd_stop ''ADAUSD'' BULLISH 5 None (max 3 (timeframe_floor_pips H1)) \<le> 0" by code_simp
  moreover have "timeframe_min_tp_rr H1 * (snd_stop ''EURUSD'' BEARISH 1 (Some (11 / 10)) (max 3 (timeframe_floor_pips H1)) - 1) < 1"
    by code_simp
  ultimately show ?thesis
    using trade_levels_spec [of 5 3 None BULLISH _ "''ADAUSD''" H1, OF _ _ _ _ refl]
      trade_levels_spec [of 1 3 "Some (11 / 10)" BEARISH _ "''EURUSD''" H1, OF _ _ _ _ refl] by auto
qed

end
