(* ===== verification/Selection.thy ===== *)
theory Selection
  imports Prelude "HOL-Library.AList"
begin

text \<open>
  Two loops over a list of candidates that the engine runs in several places: keep the best
  candidate of every key, and keep the first candidate of every key. Python's dictionaries keep
  the order of the first insertion of a key, like \<^const>\<open>AList.update\<close>. The contract of the first
  loop is the locale \<open>first_best\<close>, which each caller interprets.
\<close>

definition keep_best ::
  "('a \<Rightarrow> 'k) \<Rightarrow> ('a \<Rightarrow> 'a \<Rightarrow> bool) \<Rightarrow> ('k \<times> 'a) list \<Rightarrow> 'a \<Rightarrow> ('k \<times> 'a) list" where
  "keep_best key better best x =
     (case map_of best (key x) of
        None \<Rightarrow> AList.update (key x) x best
      | Some old \<Rightarrow> if better x old then AList.update (key x) x best else best)"

text \<open>Keep \<open>x\<close> when its key is not in \<open>seen\<close>.\<close>

fun first_per_key :: "('a \<Rightarrow> 'k) \<Rightarrow> 'k set \<Rightarrow> 'a list \<Rightarrow> 'a list" where
  "first_per_key key seen [] = []"
| "first_per_key key seen (x # xs) =
     (if key x \<in> seen then first_per_key key seen xs
      else x # first_per_key key (insert (key x) seen) xs)"

lemma max_key_snoc:
  "max_key f (xs @ [x]) = Some (case max_key f xs of None \<Rightarrow> x | Some m \<Rightarrow> if f m < f x then x else m)"
  by (cases xs) (simp_all add: Let_def)

locale first_best =
  fixes key :: "'a \<Rightarrow> 'k" and measure_of :: "'a \<Rightarrow> 'r::linorder" and better :: "'a \<Rightarrow> 'a \<Rightarrow> bool"
  assumes better_measure: "better x y \<longleftrightarrow> measure_of y < measure_of x"
begin

lemma table:
  "distinct (map fst (foldl (keep_best key better) [] xs)) \<and>
   (\<forall>k. map_of (foldl (keep_best key better) [] xs) k = max_key measure_of (filter (\<lambda>x. key x = k) xs))"
proof (induction xs rule: rev_induct)
  case (snoc x xs)
  let ?b = "foldl (keep_best key better) [] xs"
  note put = keep_best_def [of key better ?b x]
  have "distinct (map fst (keep_best key better ?b x))"
    using snoc distinct_update [of ?b "key x" x] unfolding put by (simp split: option.split)
  moreover have "map_of (keep_best key better ?b x) k = max_key measure_of (filter (\<lambda>y. key y = k) (xs @ [x]))" for k
  proof (cases "k = key x")
    case True
    have "map_of ?b (key x) = max_key measure_of (filter (\<lambda>y. key y = key x) xs)" using snoc by blast
    then show ?thesis unfolding True put
      by (cases "max_key measure_of (filter (\<lambda>y. key y = key x) xs)")
         (simp_all only: option.case, simp_all add: update_conv' better_measure max_key_snoc)
  next
    case False
    have "map_of ?b k = max_key measure_of (filter (\<lambda>y. key y = k) xs)" using snoc by blast
    then show ?thesis using False unfolding put by (simp add: update_conv' split: option.split)
  qed
  ultimately show ?case by simp
qed simp

text \<open>The loop keeps exactly one element for each key: the first of the best ones.\<close>

lemma selection:
  "distinct (map key (map snd (foldl (keep_best key better) [] xs))) \<and>
   set (map key (map snd (foldl (keep_best key better) [] xs))) = set (map key xs) \<and>
   (\<forall>x. x \<in> set (map snd (foldl (keep_best key better) [] xs)) \<longleftrightarrow>
      max_key measure_of (filter (\<lambda>y. key y = key x) xs) = Some x)"
proof -
  let ?b = "foldl (keep_best key better) [] xs"
  have d: "distinct (map fst ?b)" and m: "\<And>k. map_of ?b k = max_key measure_of (filter (\<lambda>y. key y = k) xs)"
    using table [of xs] by blast+
  have key: "key x = k" if kx: "(k, x) \<in> set ?b" for k x
  proof -
    have "max_key measure_of (filter (\<lambda>y. key y = k) xs) = Some x"
      using map_of_is_SomeI [OF d kx] unfolding m .
    from max_key_Some [OF this] show ?thesis by simp
  qed
  then have keys: "map key (map snd ?b) = map fst ?b" by (auto intro!: map_cong)
  have mem: "x \<in> set (map snd ?b) \<longleftrightarrow> max_key measure_of (filter (\<lambda>y. key y = key x) xs) = Some x" for x
  proof -
    have "x \<in> set (map snd ?b) \<longleftrightarrow> (key x, x) \<in> set ?b" using key by force
    also have "\<dots> \<longleftrightarrow> map_of ?b (key x) = Some x" using map_of_eq_Some_iff [OF d] by simp
    finally show ?thesis unfolding m .
  qed
  have "k \<in> set (map fst ?b) \<longleftrightarrow> k \<in> set (map key xs)" for k
  proof -
    have "k \<in> set (map fst ?b) \<longleftrightarrow> map_of ?b k \<noteq> None" by (simp add: map_of_eq_None_iff)
    also have "\<dots> \<longleftrightarrow> k \<in> set (map key xs)" unfolding m by (auto simp: filter_empty_conv)
    finally show ?thesis .
  qed
  then show ?thesis using d mem unfolding keys by blast
qed

end

lemma first_per_key_spec:
  "set (first_per_key key seen xs) \<subseteq> set xs \<and> distinct (map key (first_per_key key seen xs)) \<and>
   key ` set (first_per_key key seen xs) = key ` set xs - seen"
  by (induction key seen xs rule: first_per_key.induct) auto

lemma first_per_key_first:
  "x \<in> set (first_per_key key seen xs) \<longleftrightarrow> key x \<notin> seen \<and> find (\<lambda>y. key y = key x) xs = Some x"
  by (induction key seen xs rule: first_per_key.induct) auto

lemma first_per_key_distinct:
  "distinct (map key xs) \<Longrightarrow> key ` set xs \<inter> seen = {} \<Longrightarrow> first_per_key key seen xs = xs"
  by (induction key seen xs rule: first_per_key.induct) auto

end
