(* ===== verification/SndDetector.thy ===== *)
theory SndDetector
  imports SndBuilders Selection "HOL-Library.Product_Lexorder"
begin

text \<open>
  The supply and demand orchestration of \<^verbatim>\<open>engine/ta/snd/detector.py\<close>: Quasimodo levels and
  previous levels of the higher timeframe are combined with the flips and fakeouts of the lower one,
  every builder is asked for a candidate, and the best candidate of each direction is kept. The
  bearish and the bullish half of \<^verbatim>\<open>detect_patterns\<close> are the same two nested loops; they are
  written once, with the methods of the direction as arguments. A dictionary that is filled in a loop
  is the list of its items in insertion order, and an assignment to a key is \<^const>\<open>AList.update\<close>.
\<close>

record SnDDetector =
  sdd_config :: SnDConfig
  sdd_swing_analyzer :: SwingAnalyzer
  sdd_marubozu_analyzer :: MarubozuAnalyzer
  sdd_compression_analyzer :: CompressionAnalyzer

section \<open>Selection of the best candidate\<close>

definition sd_confluences :: "SnDCandidate \<Rightarrow> rat" where
  "sd_confluences c =
     (case map_of (sd_metadata c) ''confluences'' of Some (JNum x) \<Rightarrow> x | _ \<Rightarrow> 0)"

definition best_key :: "SnDCandidate \<Rightarrow> Timeframe \<times> Direction" where
  "best_key candidate = (sd_timeframe candidate, sd_direction candidate)"

definition better :: "SnDCandidate \<Rightarrow> SnDCandidate \<Rightarrow> bool" where
  "better candidate existing \<longleftrightarrow>
     sd_confluences existing < sd_confluences candidate \<or>
     sd_confluences candidate = sd_confluences existing \<and> sd_timestamp existing < sd_timestamp candidate"

definition put_best ::
  "((Timeframe \<times> Direction) \<times> SnDCandidate) list \<Rightarrow> SnDCandidate \<Rightarrow>
   ((Timeframe \<times> Direction) \<times> SnDCandidate) list" where
  "put_best best candidate =
     (case map_of best (best_key candidate) of
        None \<Rightarrow> AList.update (best_key candidate) candidate best
      | Some existing \<Rightarrow>
          if better candidate existing then AList.update (best_key candidate) candidate best else best)"

definition select_best_per_direction :: "SnDCandidate list \<Rightarrow> SnDCandidate list" where
  "select_best_per_direction candidates = map snd (foldl put_best [] candidates)"

section \<open>Detection\<close>

definition create_fibonacci_retracement ::
  "SwingHigh list \<Rightarrow> SwingLow list \<Rightarrow> FibonacciRetracement option result" where
  "create_fibonacci_retracement swing_highs swing_lows =
     (case (get_latest_swing_high swing_highs, get_latest_swing_low swing_lows) of
        (Some latest_high, Some latest_low) \<Rightarrow>
          if sh_price latest_high \<le> sl_price latest_low then Inr None
          else bindR (create_retracement latest_high latest_low
                 (sh_timestamp latest_high < sl_timestamp latest_low)) (\<lambda>r. Inr (Some r))
      | _ \<Rightarrow> Inr None)"

text \<open>The body of the inner loop for one Quasimodo level and one flip \<open>(level, index)\<close>; \<open>previous\<close>
  holds the previous levels at the Quasimodo level. The four builders are given by direction.\<close>

definition flip_candidates ::
  "SnDDetector \<Rightarrow> Direction \<Rightarrow> CandleSequence \<Rightarrow> CandleSequence \<Rightarrow> QuasiModoLevel \<Rightarrow>
   'a PreviousHighsLows list \<Rightarrow>
   (FakeoutTest list \<Rightarrow> nat option \<Rightarrow> SnDCandidate option result) \<Rightarrow>
   (FakeoutTest list \<Rightarrow> nat option \<Rightarrow> 'a PreviousHighsLows \<Rightarrow> MiniPriceLevel option \<Rightarrow> SnDCandidate option result) \<Rightarrow>
   (FakeoutTest list \<Rightarrow> nat option \<Rightarrow> 'a PreviousHighsLows \<Rightarrow> SnDCandidate option result) \<Rightarrow>
   (FakeoutTest list \<Rightarrow> nat option \<Rightarrow> 'a PreviousHighsLows \<Rightarrow> SnDCandidate option result) \<Rightarrow>
   price \<Rightarrow> nat \<Rightarrow> SnDCandidate list result" where
  "flip_candidates self d htf_sequence ltf_sequence qm previous build_baseline build_killer build_king
       build_continuation flip_level flip_index =
     (let config = sdd_config self;
          fakeout_tests = (if d = BEARISH
            then detect_resistance_fakeouts ltf_sequence flip_level flip_index
            else detect_support_fakeouts ltf_sequence flip_level flip_index)
      in if fakeout_tests = [] then Inr []
      else
        bindR (check_fakeout_broken_by_marubozu (sdd_marubozu_analyzer self) ltf_sequence flip_level d
                 (ft_candle_index (last fakeout_tests))) (\<lambda>breakout_candle_index.
        bindR (if d = BEARISH
               then detect_bearish_mpl htf_sequence (qm_level qm)
                      (case qm_hh_index qm of None \<Rightarrow> 0 | Some i \<Rightarrow> i)
               else detect_bullish_mpl htf_sequence (qm_level qm)
                      (case qm_ll_index qm of None \<Rightarrow> 0 | Some i \<Rightarrow> i)) (\<lambda>mpl_levels.
        let mpl = (case mpl_levels of [] \<Rightarrow> None | m # _ \<Rightarrow> Some m) in
        concatR
          [if_enabled (sn_enable_qml_baseline config)
             (collectR (\<lambda>_. build_baseline fakeout_tests breakout_candle_index) [()]),
           if_enabled (sn_enable_qml_previous_levels_type1 config \<or> sn_enable_qml_previous_levels_type2 config)
             (collectR (\<lambda>p. build_killer fakeout_tests breakout_candle_index p mpl) previous),
           if_enabled (sn_enable_fakeout_king config)
             (collectR (build_king fakeout_tests breakout_candle_index) previous),
           if_enabled (previous \<noteq> [] \<and> 2 \<le> length fakeout_tests)
             (collectR (build_continuation fakeout_tests breakout_candle_index) previous)])))"

definition qml_candidates ::
  "SnDDetector \<Rightarrow> CandleSequence \<Rightarrow> CandleSequence \<Rightarrow> SwingHigh PreviousHighsLows list \<Rightarrow> SRFlip list \<Rightarrow>
   FibonacciRetracement option \<Rightarrow> QuasiModoLevel \<Rightarrow> SnDCandidate list result" where
  "qml_candidates self htf_sequence ltf_sequence htf_previous_highs ltf_sr_flips retracement qml =
     (let config = sdd_config self; ca = sdd_compression_analyzer self in
      bindR (find_previous_highs_at_qml config htf_previous_highs (qm_level qml) (seq_symbol htf_sequence))
        (\<lambda>matching_previous_highs.
         concatR (map (\<lambda>sr_flip. let level = srf_new_resistance_level sr_flip in
           flip_candidates self BEARISH htf_sequence ltf_sequence qml matching_previous_highs
             (\<lambda>tests i. build_qml_baseline_short config ca htf_sequence ltf_sequence qml level tests i retracement)
             (\<lambda>tests i prev_high mpl. build_qml_killer_setup_short config ca htf_sequence ltf_sequence qml level
                tests i prev_high mpl retracement)
             (\<lambda>tests i prev_high. build_fakeout_king_short config ca htf_sequence ltf_sequence level tests i
                (Some prev_high) retracement)
             (\<lambda>tests i prev_high. build_continuation_short config ca htf_sequence ltf_sequence qml level tests i
                (Some prev_high) retracement)
             level (srf_breakout_candle_index sr_flip)) ltf_sr_flips)))"

definition qmh_candidates ::
  "SnDDetector \<Rightarrow> CandleSequence \<Rightarrow> CandleSequence \<Rightarrow> SwingLow PreviousHighsLows list \<Rightarrow> RSFlip list \<Rightarrow>
   FibonacciRetracement option \<Rightarrow> QuasiModoLevel \<Rightarrow> SnDCandidate list result" where
  "qmh_candidates self htf_sequence ltf_sequence htf_previous_lows ltf_rs_flips retracement qmh =
     (let config = sdd_config self; ca = sdd_compression_analyzer self in
      bindR (find_previous_lows_at_qmh config htf_previous_lows (qm_level qmh) (seq_symbol htf_sequence))
        (\<lambda>matching_previous_lows.
         concatR (map (\<lambda>rs_flip. let level = rsf_new_support_level rs_flip in
           flip_candidates self BULLISH htf_sequence ltf_sequence qmh matching_previous_lows
             (\<lambda>tests i. build_qmh_baseline_long config ca htf_sequence ltf_sequence qmh level tests i retracement)
             (\<lambda>tests i prev_low mpl. build_qmh_killer_setup_long config ca htf_sequence ltf_sequence qmh level
                tests i prev_low mpl retracement)
             (\<lambda>tests i prev_low. build_fakeout_king_long config ca htf_sequence ltf_sequence level tests i
                (Some prev_low) retracement)
             (\<lambda>tests i prev_low. build_continuation_long config ca htf_sequence ltf_sequence qmh level tests i
                (Some prev_low) retracement)
             level (rsf_breakout_candle_index rs_flip)) ltf_rs_flips)))"

definition snd_detect_patterns ::
  "SnDDetector \<Rightarrow> CandleSequence \<Rightarrow> CandleSequence \<Rightarrow> SnDCandidate list result" where
  "snd_detect_patterns self htf_sequence ltf_sequence =
     (let config = sdd_config self; swings = sdd_swing_analyzer self; ma = sdd_marubozu_analyzer self in
      if \<not> sn_enabled config then Inr []
      else
        bindR (detect_swing_highs swings htf_sequence) (\<lambda>htf_swing_highs.
        bindR (detect_swing_lows swings htf_sequence) (\<lambda>htf_swing_lows.
        bindR (detect_qml htf_sequence htf_swing_highs htf_swing_lows) (\<lambda>htf_qml_levels.
        bindR (detect_qmh htf_sequence htf_swing_lows htf_swing_highs) (\<lambda>htf_qmh_levels.
        bindR (detect_previous_highs config htf_sequence htf_swing_highs) (\<lambda>htf_previous_highs.
        bindR (detect_previous_lows config htf_sequence htf_swing_lows) (\<lambda>htf_previous_lows.
        bindR (detect_swing_highs swings ltf_sequence) (\<lambda>ltf_swing_highs.
        bindR (detect_swing_lows swings ltf_sequence) (\<lambda>ltf_swing_lows.
        bindR (detect_sr_flips ma ltf_sequence ltf_swing_lows) (\<lambda>ltf_sr_flips.
        bindR (detect_rs_flips ma ltf_sequence ltf_swing_highs) (\<lambda>ltf_rs_flips.
        bindR (create_fibonacci_retracement htf_swing_highs htf_swing_lows) (\<lambda>retracement.
        bindR (concatR (map (qml_candidates self htf_sequence ltf_sequence htf_previous_highs ltf_sr_flips
                 retracement) htf_qml_levels)) (\<lambda>bearish.
        bindR (concatR (map (qmh_candidates self htf_sequence ltf_sequence htf_previous_lows ltf_rs_flips
                 retracement) htf_qmh_levels)) (\<lambda>bullish.
          Inr (select_best_per_direction (bearish @ bullish))))))))))))))))"


section \<open>Lemmas\<close>

abbreviation rank :: "SnDCandidate \<Rightarrow> rat \<times> datetime" where
  "rank c \<equiv> (sd_confluences c, sd_timestamp c)"

lemma better_rank: "better a b \<longleftrightarrow> rank b < rank a"
  by (auto simp: better_def)

lemma put_best_keep: "put_best = keep_best best_key better"
  by (intro ext) (simp add: put_best_def keep_best_def)

interpretation per_direction: first_best best_key rank better
  by unfold_locales (rule better_rank)

text \<open>A loop of the detector that does not raise and yields only good candidates.\<close>

definition good_list :: "CandleSequence \<Rightarrow> Direction \<Rightarrow> SnDCandidate list result \<Rightarrow> bool" where
  "good_list ltf d r \<longleftrightarrow> (\<exists>xs. r = Inr xs \<and> (\<forall>c \<in> set xs. snd_good ltf d c))"

lemma good_collect:
  assumes "\<And>x. x \<in> set xs \<Longrightarrow> good_result ltf d (f x)"
  shows "good_list ltf d (collectR f xs)"
proof -
  have "\<forall>x \<in> set xs. \<exists>r. f x = Inr r" using assms unfolding good_result_def by blast
  then obtain ys where ys: "collectR f xs = Inr ys" by (rule exE [OF collectR_raises [THEN iffD2]])
  have "snd_good ltf d c" if c: "c \<in> set ys" for c
  proof -
    obtain x where x: "x \<in> set xs" "f x = Inr (Some c)" using c unfolding collectR_set [OF ys] by blast
    show ?thesis using assms [OF x(1)] x(2) by (simp add: good_result_def)
  qed
  then show ?thesis using ys by (simp add: good_list_def)
qed

lemma good_concat:
  assumes "\<And>r. r \<in> set rs \<Longrightarrow> good_list ltf d r"
  shows "good_list ltf d (concatR rs)"
proof -
  have "\<forall>r \<in> set rs. \<exists>ys. r = Inr ys" using assms unfolding good_list_def by blast
  then obtain xs where xs: "concatR rs = Inr xs" by (rule exE [OF concatR_total [THEN iffD2]])
  have "snd_good ltf d c" if c: "c \<in> set xs" for c
  proof -
    obtain r ys where r: "r \<in> set rs" "r = Inr ys" "c \<in> set ys" using c unfolding concatR_set [OF xs] by blast
    show ?thesis using assms [OF r(1)] r(2,3) by (simp add: good_list_def)
  qed
  then show ?thesis using xs by (simp add: good_list_def)
qed

lemma good_if_enabled: "good_list ltf d r \<Longrightarrow> good_list ltf d (if_enabled b r)"
  by (simp add: if_enabled_def good_list_def)

text \<open>The fakeout tests of either kind lie on the sequence.\<close>

lemma fakeout_tests_on:
  assumes "0 < level" and "ts = (if d = BEARISH then detect_resistance_fakeouts s level i else detect_support_fakeouts s level i)"
    and "ts \<noteq> []"
  shows "tests_on s ts"
proof -
  have "set (map ft_candle_index ts) \<subseteq> {..<length (seq_candles s)}"
    unfolding assms(2) detect_resistance_fakeouts_def detect_support_fakeouts_def
    by (auto simp: upward.fakeout_loop_indices downward.fakeout_loop_indices simp del: set_map dest: set_takeWhileD)
  moreover have "\<forall>t \<in> set ts. ft_level t = level"
    unfolding assms(2) detect_resistance_fakeouts_def detect_support_fakeouts_def
    using upward.fakeout_loop_fields downward.fakeout_loop_fields by auto
  ultimately show ?thesis using assms(1,3) by (auto simp: tests_on_def)
qed

lemma is_marubozu_Inr: "wf_candle c \<Longrightarrow> \<exists>b. is_marubozu ma c = Inr b"
  by (auto simp: is_marubozu_def body_percentage_calc candle_pips_calc)

lemma firstR_total: "(\<And>x. x \<in> set xs \<Longrightarrow> \<exists>r. f x = Inr r) \<Longrightarrow> \<exists>r. firstR f xs = Inr r"
proof (induction xs)
  case (Cons x xs)
  obtain r where "f x = Inr r" using Cons.prems by (meson list.set_intros(1))
  then show ?case using Cons by (cases r) auto
qed simp

lemma broken_total:
  assumes "wf_seq s"
  shows "\<exists>r. check_fakeout_broken_by_marubozu ma s level d k = Inr r"
proof -
  have "\<exists>r. is_bullish_marubozu ma c = Inr r \<and> (\<exists>r. is_bearish_marubozu ma c = Inr r)" if "wf_candle c" for c
    using is_marubozu_Inr [OF that] by (auto simp: is_bullish_marubozu_def is_bearish_marubozu_def)
  then have "\<forall>i < length (seq_candles s). \<exists>r. is_bullish_marubozu ma (seq_candles s ! i) = Inr r \<and>
      (\<exists>r. is_bearish_marubozu ma (seq_candles s ! i) = Inr r)"
    using wf_seq_nth [OF assms] by blast
  then show ?thesis
    unfolding check_fakeout_broken_by_marubozu_def Let_def by (intro firstR_total) auto
qed


lemma mpl_total:
  assumes "wf_seq s" and "clean_symbol (seq_symbol s)"
  shows "\<exists>ms. detect_bearish_mpl s p k = Inr ms \<and> (\<forall>m \<in> set ms. 0 < mpl_level m)"
    and "\<exists>ms. detect_bullish_mpl s p k = Inr ms \<and> (\<forall>m \<in> set ms. 0 < mpl_level m)"
proof -
  have at: "\<exists>r. mpl_at s oriented level d i = Inr r \<and> (\<forall>m. r = Some m \<longrightarrow> 0 < mpl_level m)"
    if "\<And>c. wf_candle c \<Longrightarrow> 0 < level c" for oriented level d i
  proof (cases "i < 1 \<or> length (seq_candles s) - 1 \<le> i")
    case False
    then have "i < length (seq_candles s)" by linarith
    then have "wf_candle (seq_candles s ! i)" by (rule wf_seq_nth [OF assms(1)])
    then have "0 < level (seq_candles s ! i)" by (rule that)
    then show ?thesis
      using False assms(2) by (simp add: mpl_at_def Let_def mk_MiniPriceLevel_def mk_model_clean)
  qed (simp add: mpl_at_def)
  have all: "\<exists>ms. collectR f xs = Inr ms \<and> (\<forall>m \<in> set ms. 0 < mpl_level m)"
    if f: "\<And>i. \<exists>r. f i = Inr r \<and> (\<forall>m. r = Some m \<longrightarrow> 0 < mpl_level m)" for f :: "nat \<Rightarrow> MiniPriceLevel option result" and xs
  proof -
    have "\<forall>i \<in> set xs. \<exists>r. f i = Inr r" using f by blast
    then obtain ms where ms: "collectR f xs = Inr ms" by (rule exE [OF collectR_raises [THEN iffD2]])
    have "0 < mpl_level m" if m: "m \<in> set ms" for m
    proof -
      obtain i where "f i = Inr (Some m)" using m unfolding collectR_set [OF ms] by blast
      then show ?thesis using f [of i] by simp
    qed
    then show ?thesis using ms by blast
  qed
  show "\<exists>ms. detect_bearish_mpl s p k = Inr ms \<and> (\<forall>m \<in> set ms. 0 < mpl_level m)"
    using all [OF at [OF wf_candleD(4)]] by (simp add: detect_bearish_mpl_def)
  show "\<exists>ms. detect_bullish_mpl s p k = Inr ms \<and> (\<forall>m \<in> set ms. 0 < mpl_level m)"
    using all [OF at [OF wf_candleD(1)]] by (simp add: detect_bullish_mpl_def)
qed

lemma find_previous_total:
  assumes "0 < p"
  shows "\<forall>h \<in> set ps. 0 \<le> ph_level h \<Longrightarrow> \<exists>qs. find_previous_highs_at_qml config ps p symbol = Inr qs"
    and "\<forall>h \<in> set rs. 0 \<le> ph_level h \<Longrightarrow> \<exists>qs. find_previous_lows_at_qmh config rs p symbol = Inr qs"
  using assms
  by (auto simp: find_previous_highs_at_qml_def find_previous_lows_at_qmh_def collectR_raises cluster_near_Inr)

lemma flip_candidates_good:
  assumes wf: "wf_seq ltf" "wf_seq htf" "clean_symbol (seq_symbol htf)" and p: "0 < level"
    and ctx: "\<And>ts. tests_on ltf ts \<Longrightarrow> snd_ctx (sdd_config self) ltf ts retracement"
    and b1: "\<And>ts i. snd_ctx (sdd_config self) ltf ts retracement \<Longrightarrow> good_result ltf d (baseline ts i)"
    and b2: "\<And>ts i p m. snd_ctx (sdd_config self) ltf ts retracement \<Longrightarrow> \<forall>x \<in> set_option m. 0 < mpl_level x \<Longrightarrow>
      good_result ltf d (killer ts i p m)"
    and b3: "\<And>ts i p. snd_ctx (sdd_config self) ltf ts retracement \<Longrightarrow> good_result ltf d (king ts i p)"
    and b4: "\<And>ts i p. snd_ctx (sdd_config self) ltf ts retracement \<Longrightarrow> good_result ltf d (continuation ts i p)"
  shows "good_list ltf d (flip_candidates self d htf ltf qm previous baseline killer king continuation level k)"
proof -
  define ts where "ts = (if d = BEARISH then detect_resistance_fakeouts ltf level k else detect_support_fakeouts ltf level k)"
  show ?thesis
  proof (cases "ts = []")
    case True
    then show ?thesis by (simp add: flip_candidates_def Let_def ts_def [symmetric] good_list_def)
  next
    case False
    then have c: "snd_ctx (sdd_config self) ltf ts retracement" using ctx fakeout_tests_on [OF p ts_def] by blast
    obtain i where i: "check_fakeout_broken_by_marubozu (sdd_marubozu_analyzer self) ltf level d
        (ft_candle_index (last ts)) = Inr i"
      using broken_total [OF wf(1)] by blast
    obtain ms where ms: "(if d = BEARISH then detect_bearish_mpl htf (qm_level qm) (case qm_hh_index qm of None \<Rightarrow> 0 | Some i \<Rightarrow> i)
        else detect_bullish_mpl htf (qm_level qm) (case qm_ll_index qm of None \<Rightarrow> 0 | Some i \<Rightarrow> i)) = Inr ms"
        "\<forall>m \<in> set ms. 0 < mpl_level m"
      using mpl_total(1) [OF wf(2,3), of "qm_level qm" "case qm_hh_index qm of None \<Rightarrow> 0 | Some i \<Rightarrow> i"]
        mpl_total(2) [OF wf(2,3), of "qm_level qm" "case qm_ll_index qm of None \<Rightarrow> 0 | Some i \<Rightarrow> i"]
      by (cases "d = BEARISH") auto
    have m: "\<forall>x \<in> set_option (case ms of [] \<Rightarrow> None | m # _ \<Rightarrow> Some m). 0 < mpl_level x"
      using ms(2) by (cases ms) auto
    show ?thesis
      unfolding flip_candidates_def Let_def ts_def [symmetric] i ms(1)
      using False b1 [OF c] b2 [OF c m] b3 [OF c] b4 [OF c]
      by (auto intro!: good_concat good_if_enabled good_collect simp del: collectR.simps)
  qed
qed

lemma retracement_wf:
  assumes "wf_market s" and "\<forall>h \<in> set shs. sh_from (seq_candles s) h" and "\<forall>l \<in> set sls. sl_from (seq_candles s) l"
  shows "\<exists>r. create_fibonacci_retracement shs sls = Inr r \<and> (\<forall>x \<in> set_option r. wf_fr x)"
proof (cases "get_latest_swing_high shs = None \<or> get_latest_swing_low sls = None")
  case False
  then obtain h l where hl: "get_latest_swing_high shs = Some h" "get_latest_swing_low sls = Some l" by auto
  have h: "sh_from (seq_candles s) h" and l: "sl_from (seq_candles s) l"
    using assms(2,3) max_key_Some hl by (auto simp: get_latest_swing_high_def get_latest_swing_low_def dest!: max_key_Some)
  have "clean_symbol (c_symbol (seq_candles s ! sh_index h))"
    using wf_marketD(4) [OF assms(1)] h by (simp add: sh_from_def)
  then have sy: "clean_symbol (sh_symbol h)" using h by (simp add: sh_from_def clean_symbol_def)
  show ?thesis
  proof (cases "sh_price h \<le> sl_price l")
    case False
    then obtain r where "create_retracement h l (sh_timestamp h < sl_timestamp l) = Inr r" "wf_fr r"
      using sy h l by (auto simp: create_retracement_def mk_FibonacciRetracement_def mk_model_clean sh_from_def
          sl_from_def wf_fr_def)
    then show ?thesis using hl False by (auto simp: create_fibonacci_retracement_def)
  qed (use hl in \<open>simp add: create_fibonacci_retracement_def\<close>)
qed (auto simp: create_fibonacci_retracement_def split: option.splits)

lemma qm_events_ok:
  assumes "wf_seq s" and "clean_symbol (seq_symbol s)"
    and "\<forall>h \<in> set shs. 0 < sh_price h" and "\<forall>l \<in> set sls. 0 < sl_price l"
  shows "\<exists>es. detect_qml s shs sls = Inr es \<and> (\<forall>e \<in> set es. qm_ok BEARISH e)"
    and "\<exists>es. detect_qmh s sls shs = Inr es \<and> (\<forall>e \<in> set es. qm_ok BULLISH e)"
proof -
  let ?H = "map swing_of_high (sort_key sh_timestamp shs)" and ?L = "map swing_of_low (sort_key sl_timestamp sls)"
  have H: "0 < fst (?H ! i)" if "i < length shs" for i
    using that assms(3) by (simp add: nth_mem [of i "sort_key sh_timestamp shs", simplified])
  have L: "0 < fst (?L ! i)" if "i < length sls" for i
    using that assms(4) by (simp add: nth_mem [of i "sort_key sl_timestamp sls", simplified])
  have ok: "qm_ok d (qm_event s d x y n b)"
    if "0 < fst x" "0 < fst y" "if d = BEARISH then fst x < fst y else fst y < fst x" for d x y n b
    using that by (cases x; cases y; cases n) (auto simp: qm_ok_def qm_event_def qm_level_def Let_def)
  obtain es where es: "detect_qml s shs sls = Inr es" "\<forall>e. e \<in> set es \<longleftrightarrow> (\<exists>i n b. i + 1 < length ?H \<and>
      quasimodo s (<) ?H ?L i n b \<and> e = qm_event s BEARISH (?H ! i) (?H ! (i + 1)) n b)"
    using detect_qm_reports(1) [OF assms refl refl] by (elim exE conjE)
  have "qm_ok BEARISH e" if e: "e \<in> set es" for e
  proof -
    obtain i n b where i: "i + 1 < length ?H" "quasimodo s (<) ?H ?L i n b" "e = qm_event s BEARISH (?H ! i) (?H ! (i + 1)) n b"
      using es(2) [rule_format, THEN iffD1, OF e] by (elim exE conjE)
    then show ?thesis using H [of i] H [of "i + 1"] ok [of "?H ! i" "?H ! (i + 1)" BEARISH n b] by (simp add: quasimodo_def)
  qed
  then show "\<exists>es. detect_qml s shs sls = Inr es \<and> (\<forall>e \<in> set es. qm_ok BEARISH e)" using es(1) by blast
  obtain fs where fs: "detect_qmh s sls shs = Inr fs" "\<forall>e. e \<in> set fs \<longleftrightarrow> (\<exists>i n b. i + 1 < length ?L \<and>
      quasimodo s (>) ?L ?H i n b \<and> e = qm_event s BULLISH (?L ! i) (?L ! (i + 1)) n b)"
    using detect_qm_reports(2) [OF assms refl refl] by (elim exE conjE)
  have "qm_ok BULLISH e" if e: "e \<in> set fs" for e
  proof -
    obtain i n b where i: "i + 1 < length ?L" "quasimodo s (>) ?L ?H i n b" "e = qm_event s BULLISH (?L ! i) (?L ! (i + 1)) n b"
      using fs(2) [rule_format, THEN iffD1, OF e] by (elim exE conjE)
    then show ?thesis using L [of i] L [of "i + 1"] ok [of "?L ! i" "?L ! (i + 1)" BULLISH n b] by (simp add: quasimodo_def)
  qed
  then show "\<exists>es. detect_qmh s sls shs = Inr es \<and> (\<forall>e \<in> set es. qm_ok BULLISH e)" using fs(1) by blast
qed


lemma side_candidates_good:
  assumes cfg: "valid_SnDConfig (sdd_config self)" and wf: "wf_seq ltf" "wf_seq htf" "clean_symbol (seq_symbol htf)"
    and sy: "clean_symbol (seq_symbol ltf)" "length (seq_symbol ltf) \<le> 20" and fr: "\<forall>r \<in> set_option retracement. wf_fr r"
  shows "qm_ok BEARISH qm \<Longrightarrow> \<forall>p \<in> set ph. 0 \<le> ph_level p \<Longrightarrow> \<forall>f \<in> set srs. 0 < srf_new_resistance_level f \<Longrightarrow>
      good_list ltf BEARISH (qml_candidates self htf ltf ph srs retracement qm)"
    and "qm_ok BULLISH qm \<Longrightarrow> \<forall>p \<in> set pl. 0 \<le> ph_level p \<Longrightarrow> \<forall>f \<in> set rss. 0 < rsf_new_support_level f \<Longrightarrow>
      good_list ltf BULLISH (qmh_candidates self htf ltf pl rss retracement qm)"
proof -
  have ctx: "snd_ctx (sdd_config self) ltf ts retracement" if "tests_on ltf ts" for ts
    using that cfg wf(1) sy fr by (simp add: snd_ctx_def)
  show "good_list ltf BEARISH (qml_candidates self htf ltf ph srs retracement qm)"
    if q: "qm_ok BEARISH qm" and p: "\<forall>p \<in> set ph. 0 \<le> ph_level p" and f: "\<forall>f \<in> set srs. 0 < srf_new_resistance_level f"
  proof -
    obtain m where m: "find_previous_highs_at_qml (sdd_config self) ph (qm_level qm) (seq_symbol htf) = Inr m"
      using find_previous_total(1) [OF _ p, of "qm_level qm" "sdd_config self" "seq_symbol htf"] q
      by (auto simp: qm_ok_def)
    show ?thesis
      unfolding qml_candidates_def Let_def m using f q
      by (auto intro!: good_concat flip_candidates_good [OF wf _ ctx] qm_builders_good flip_builders_good
          simp: build_fakeout_king_short_def build_continuation_short_def)
  qed
  show "good_list ltf BULLISH (qmh_candidates self htf ltf pl rss retracement qm)"
    if q: "qm_ok BULLISH qm" and p: "\<forall>p \<in> set pl. 0 \<le> ph_level p" and f: "\<forall>f \<in> set rss. 0 < rsf_new_support_level f"
  proof -
    obtain m where m: "find_previous_lows_at_qmh (sdd_config self) pl (qm_level qm) (seq_symbol htf) = Inr m"
      using find_previous_total(2) [OF _ p, of "qm_level qm" "sdd_config self" "seq_symbol htf"] q
      by (auto simp: qm_ok_def)
    show ?thesis
      unfolding qmh_candidates_def Let_def m using f q
      by (auto intro!: good_concat flip_candidates_good [OF wf _ ctx] qm_builders_good flip_builders_good
          simp: build_fakeout_king_long_def build_continuation_long_def)
  qed
qed

lemma flips_positive:
  assumes "wf_seq s" and "clean_symbol (seq_symbol s)"
  shows "\<forall>l \<in> set sls. 0 < sl_price l \<Longrightarrow>
      \<exists>es. detect_sr_flips ma s sls = Inr es \<and> (\<forall>f \<in> set es. 0 < srf_new_resistance_level f)"
    and "\<forall>h \<in> set shs. 0 < sh_price h \<Longrightarrow>
      \<exists>es. detect_rs_flips ma s shs = Inr es \<and> (\<forall>f \<in> set es. 0 < rsf_new_support_level f)"
proof -
  show "\<exists>es. detect_sr_flips ma s sls = Inr es \<and> (\<forall>f \<in> set es. 0 < srf_new_resistance_level f)"
    if p: "\<forall>l \<in> set sls. 0 < sl_price l"
    using detect_flip_reports(1) [OF assms p, of ma] p by (elim exE conjE) (auto simp: sr_flip_event_def)
  show "\<exists>es. detect_rs_flips ma s shs = Inr es \<and> (\<forall>f \<in> set es. 0 < rsf_new_support_level f)"
    if p: "\<forall>h \<in> set shs. 0 < sh_price h"
    using detect_flip_reports(2) [OF assms p, of ma] p by (elim exE conjE) (auto simp: rs_flip_event_def)
qed

lemma good_lists:
  assumes "\<forall>x \<in> set xs. good_list ltf d (f x)"
  obtains cs where "concatR (map f xs) = Inr cs" "\<forall>c \<in> set cs. snd_good ltf d c"
proof -
  have "good_list ltf d (concatR (map f xs))" using assms by (intro good_concat) auto
  then show thesis using that by (auto simp: good_list_def)
qed

lemma snd_detect_run:
  assumes wf: "wf_market htf" "wf_market ltf" "clean_symbol (seq_symbol htf)" "clean_symbol (seq_symbol ltf)"
    and len: "length (seq_symbol ltf) \<le> 20" and cfg: "valid_SnDConfig (sdd_config self)"
    and sa: "0 \<le> sa_equal_tolerance_pips (sdd_swing_analyzer self)" "1 \<le> sa_left_bars (sdd_swing_analyzer self)"
      "1 \<le> sa_right_bars (sdd_swing_analyzer self)"
  obtains bear bull where "snd_detect_patterns self htf ltf = Inr (select_best_per_direction (bear @ bull))"
    "\<forall>c \<in> set bear. snd_good ltf BEARISH c" "\<forall>c \<in> set bull. snd_good ltf BULLISH c"
proof (cases "sn_enabled (sdd_config self)")
  case False
  then show thesis using that [of "[]" "[]"] by (simp add: snd_detect_patterns_def select_best_per_direction_def)
next
  case True
  have sq: "wf_seq htf" "wf_seq ltf" using wf(1,2) by (simp_all add: wf_market_def)
  obtain hsh hsl where h: "detect_swing_highs (sdd_swing_analyzer self) htf = Inr hsh"
      "detect_swing_lows (sdd_swing_analyzer self) htf = Inr hsl" "\<forall>h \<in> set hsh. sh_from (seq_candles htf) h"
      "\<forall>l \<in> set hsl. sl_from (seq_candles htf) l" "\<forall>h \<in> set hsh. 0 < sh_price h" "\<forall>l \<in> set hsl. 0 < sl_price l"
    by (rule swings_detected [OF wf(1) sa])
  obtain lsh lsl where l: "detect_swing_highs (sdd_swing_analyzer self) ltf = Inr lsh"
      "detect_swing_lows (sdd_swing_analyzer self) ltf = Inr lsl" "\<forall>h \<in> set lsh. 0 < sh_price h" "\<forall>l \<in> set lsl. 0 < sl_price l"
    by (rule swings_detected [OF wf(2) sa])
  obtain qml where qml: "detect_qml htf hsh hsl = Inr qml" "\<forall>e \<in> set qml. qm_ok BEARISH e"
    using qm_events_ok(1) [OF sq(1) wf(3) h(5,6)] by (elim exE conjE)
  obtain qmh where qmh: "detect_qmh htf hsl hsh = Inr qmh" "\<forall>e \<in> set qmh. qm_ok BULLISH e"
    using qm_events_ok(2) [OF sq(1) wf(3) h(5,6)] by (elim exE conjE)
  obtain ph where ph: "detect_previous_highs (sdd_config self) htf hsh = Inr ph" "\<forall>p \<in> set ph. 0 \<le> ph_level p"
    using detect_previous_total(1) [OF h(5), of "sdd_config self" htf] by (elim exE conjE)
  obtain pl where pl: "detect_previous_lows (sdd_config self) htf hsl = Inr pl" "\<forall>p \<in> set pl. 0 \<le> ph_level p"
    using detect_previous_total(2) [OF h(6), of "sdd_config self" htf] by (elim exE conjE)
  obtain srs where srs: "detect_sr_flips (sdd_marubozu_analyzer self) ltf lsl = Inr srs"
      "\<forall>f \<in> set srs. 0 < srf_new_resistance_level f"
    using flips_positive(1) [OF sq(2) wf(4) l(4), of "sdd_marubozu_analyzer self"] by (elim exE conjE)
  obtain rss where rss: "detect_rs_flips (sdd_marubozu_analyzer self) ltf lsh = Inr rss"
      "\<forall>f \<in> set rss. 0 < rsf_new_support_level f"
    using flips_positive(2) [OF sq(2) wf(4) l(3), of "sdd_marubozu_analyzer self"] by (elim exE conjE)
  obtain fr where fr: "create_fibonacci_retracement hsh hsl = Inr fr" "\<forall>r \<in> set_option fr. wf_fr r"
    using retracement_wf [OF wf(1) h(3,4)] by (elim exE conjE)
  note good = side_candidates_good [OF cfg sq(2,1) wf(3,4) len fr(2)]
  obtain bear where bear: "concatR (map (qml_candidates self htf ltf ph srs fr) qml) = Inr bear"
      "\<forall>c \<in> set bear. snd_good ltf BEARISH c"
    by (rule good_lists [of qml ltf BEARISH "qml_candidates self htf ltf ph srs fr"])
       (use qml(2) good(1) [OF _ ph(2) srs(2)] in blast)
  obtain bull where bull: "concatR (map (qmh_candidates self htf ltf pl rss fr) qmh) = Inr bull"
      "\<forall>c \<in> set bull. snd_good ltf BULLISH c"
    by (rule good_lists [of qmh ltf BULLISH "qmh_candidates self htf ltf pl rss fr"])
       (use qmh(2) good(2) [OF _ pl(2) rss(2)] in blast)
  show thesis
    by (rule that [OF _ bear(2) bull(2)])
       (simp add: snd_detect_patterns_def Let_def True h(1,2) l(1,2) qml(1) qmh(1) ph(1) pl(1) srs(1) rss(1) fr(1)
          bear(1) bull(1))
qed


lemma select_best_spec:
  "distinct (map best_key (select_best_per_direction cs)) \<and>
   set (map best_key (select_best_per_direction cs)) = set (map best_key cs) \<and>
   (\<forall>c. c \<in> set (select_best_per_direction cs) \<longleftrightarrow>
      max_key (\<lambda>x. (sd_confluences x, sd_timestamp x)) (filter (\<lambda>x. best_key x = best_key c) cs) = Some c)"
  unfolding select_best_per_direction_def put_best_keep by (rule per_direction.selection)

lemma selected_good:
  assumes "\<forall>c \<in> set bear. snd_good ltf BEARISH c" and "\<forall>c \<in> set bull. snd_good ltf BULLISH c"
    and cs: "cs = select_best_per_direction (bear @ bull)"
  shows "length cs \<le> 2" and "distinct (map sd_direction cs)" and "\<forall>c \<in> set cs. \<exists>d \<in> {BEARISH, BULLISH}. snd_good ltf d c"
proof -
  note sel = select_best_spec [of "bear @ bull", folded cs]
  have "c \<in> set (bear @ bull)" if c: "c \<in> set cs" for c
  proof -
    have "max_key rank (filter (\<lambda>x. best_key x = best_key c) (bear @ bull)) = Some c" using sel c by blast
    from max_key_Some [OF this] show ?thesis by simp
  qed
  then show good: "\<forall>c \<in> set cs. \<exists>d \<in> {BEARISH, BULLISH}. snd_good ltf d c" using assms(1,2) by auto
  then have tf: "best_key c = (seq_timeframe ltf, sd_direction c)" if "c \<in> set cs" for c
    using that by (auto simp: best_key_def snd_good_def)
  have "distinct (map best_key cs)" using sel by blast
  moreover have "map best_key cs = map (Pair (seq_timeframe ltf)) (map sd_direction cs)" using tf by simp
  ultimately show dist: "distinct (map sd_direction cs)" by (metis distinct_map)
  have "set (map sd_direction cs) \<subseteq> {BEARISH, BULLISH}" using good by (auto simp: snd_good_def)
  then have "card (set (map sd_direction cs)) \<le> card {BEARISH, BULLISH}" by (intro card_mono) auto
  then show "length cs \<le> 2" using distinct_card [OF dist] by simp
qed

section \<open>Properties\<close>

text \<open>C17. The selection loop of the supply and demand detector refines its specification: it keeps exactly
  one candidate for each pair of timeframe and direction that occurs, namely the first one in the
  list that is maximal for the confluence count and, among equal counts, for the timestamp.\<close>

theorem select_best_refines:
  "distinct (map best_key (select_best_per_direction cs)) \<and>
   set (map best_key (select_best_per_direction cs)) = set (map best_key cs) \<and>
   (\<forall>c. c \<in> set (select_best_per_direction cs) \<longleftrightarrow>
      max_key (\<lambda>x. (sd_confluences x, sd_timestamp x)) (filter (\<lambda>x. best_key x = best_key c) cs) = Some c)"
  by (rule select_best_spec)

text \<open>C5. Supply and demand detection never raises and emits sound trades: on well-formed markets of a
  normalised symbol of at most twenty characters it returns at most one candidate per direction, and
  each has positive prices, the stop on the losing side at no less than the timeframe's floor in pips,
  and the target on the winning side at exactly the timeframe's reward multiple of the risk. The
  documented failure of the older builders, a target below zero that aborts the analysis, cannot
  happen.\<close>

theorem snd_detect_sound:
  assumes "wf_market htf" and "wf_market ltf" and "clean_symbol (seq_symbol htf)" and "clean_symbol (seq_symbol ltf)"
    and "length (seq_symbol ltf) \<le> 20" and "valid_SnDConfig (sdd_config self)"
    and "0 \<le> sa_equal_tolerance_pips (sdd_swing_analyzer self)" and "1 \<le> sa_left_bars (sdd_swing_analyzer self)"
    and "1 \<le> sa_right_bars (sdd_swing_analyzer self)"
  shows "\<exists>cs. snd_detect_patterns self htf ltf = Inr cs \<and> length cs \<le> 2 \<and> distinct (map sd_direction cs) \<and>
     (\<forall>c \<in> set cs. \<exists>tp. sd_take_profit c = Some tp \<and> 0 < sd_entry_price c \<and> 0 < sd_stop_loss c \<and> 0 < tp \<and>
        timeframe_floor_pips (seq_timeframe ltf) * get_pip_value (seq_symbol ltf) \<le> \<bar>sd_entry_price c - sd_stop_loss c\<bar> \<and>
        (case sd_direction c of
           BULLISH \<Rightarrow> sd_stop_loss c < sd_entry_price c \<and>
             tp - sd_entry_price c = timeframe_min_tp_rr (seq_timeframe ltf) * (sd_entry_price c - sd_stop_loss c)
         | BEARISH \<Rightarrow> sd_entry_price c < sd_stop_loss c \<and>
             sd_entry_price c - tp = timeframe_min_tp_rr (seq_timeframe ltf) * (sd_stop_loss c - sd_entry_price c)
         | NEUTRAL \<Rightarrow> False))"
proof -
  obtain bear bull where run: "snd_detect_patterns self htf ltf = Inr (select_best_per_direction (bear @ bull))"
      "\<forall>c \<in> set bear. snd_good ltf BEARISH c" "\<forall>c \<in> set bull. snd_good ltf BULLISH c"
    by (rule snd_detect_run [OF assms])
  note sel = selected_good [OF run(2,3) refl]
  show ?thesis
    by (intro exI conjI, rule run(1), rule sel(1), rule sel(2))
       (use sel(3) in \<open>fastforce simp: snd_good_def sound_levels_def\<close>)
qed

definition ex_snd :: SnDDetector where
  "ex_snd = \<lparr>sdd_config = default_SnDConfig, sdd_swing_analyzer = \<lparr>sa_left_bars = 1, sa_right_bars = 1,
     sa_equal_tolerance_pips = 0\<rparr>, sdd_marubozu_analyzer = ex_marubozu,
     sdd_compression_analyzer = ex_compression_analyzer\<rparr>"

definition ex_snd_htf :: CandleSequence where
  "ex_snd_htf = \<lparr>seq_symbol = ''EURUSD'', seq_timeframe = H1,
     seq_candles = [ex_candle 0 17 18 16 17, ex_candle 3600 17 20 17 18, ex_candle 7200 17 18 15 17,
       ex_candle 10800 17 22 16 17, ex_candle 14400 17 17 13 14, ex_candle 18000 14 15 12 13,
       ex_candle 21600 13 14 11 12]\<rparr>"

definition ex_snd_ltf :: CandleSequence where
  "ex_snd_ltf = \<lparr>seq_symbol = ''EURUSD'', seq_timeframe = H1,
     seq_candles = [ex_candle 0 12 13 11 12, ex_candle 3600 12 13 10 12, ex_candle 7200 12 13 11 12,
       ex_candle 10800 12 12 8 8, ex_candle 14400 8 11 8 9, ex_candle 18000 9 9 7 7]\<rparr>"

lemma ex_snd_run:
  "case snd_detect_patterns ex_snd ex_snd_htf ex_snd_ltf of
     Inr [c] \<Rightarrow> sd_direction c = BEARISH \<and> sd_pattern c = QML_BASELINE \<and> sd_entry_price c = 20
   | _ \<Rightarrow> False"
  by code_simp

lemma ex_snd_wf: "wf_market ex_snd_htf" "wf_market ex_snd_ltf" "clean_symbol (seq_symbol ex_snd_htf)"
    "clean_symbol (seq_symbol ex_snd_ltf)" "length (seq_symbol ex_snd_ltf) \<le> 20" "valid_SnDConfig (sdd_config ex_snd)"
    "0 \<le> sa_equal_tolerance_pips (sdd_swing_analyzer ex_snd)" "1 \<le> sa_left_bars (sdd_swing_analyzer ex_snd)"
    "1 \<le> sa_right_bars (sdd_swing_analyzer ex_snd)"
  by (simp_all add: ex_snd_htf_def ex_snd_ltf_def wf_market_def wf_seq_def wf_candle_def uniform_def ex_snd_def
      valid_SnDConfig_def default_SnDConfig_def)

theorem snd_detect_sound_witness:
  "\<exists>c tp. snd_detect_patterns ex_snd ex_snd_htf ex_snd_ltf = Inr [c] \<and> sd_take_profit c = Some tp \<and> 0 < tp \<and>
     sd_entry_price c = 20 \<and> 20 < sd_stop_loss c"
proof -
  obtain c where c: "snd_detect_patterns ex_snd ex_snd_htf ex_snd_ltf = Inr [c]" "sd_direction c = BEARISH" "sd_entry_price c = 20"
    using ex_snd_run by (auto split: sum.splits list.splits)
  from snd_detect_sound [OF ex_snd_wf] c show ?thesis by auto
qed


text \<open>The third lower-timeframe confirmation, the decision point, never rejects a candidate: the
  last fakeout test that the detector passes is by construction a candle that reaches the level and
  closes on the inner side, which is what the confirmation asks for. Of the four documented
  confirmations only the compression, the marubozu break and, when required, the Fibonacci alignment
  can fail.\<close>

theorem decision_point_redundant:
  assumes "wf_seq s" and "0 < p" and "\<forall>r \<in> set_option retracement. wf_fr r"
    and "0 < level" and "d = BULLISH \<or> d = BEARISH"
    and "ts = (if d = BEARISH then detect_resistance_fakeouts s level k else detect_support_fakeouts s level k)"
    and "ts \<noteq> []"
  shows "validate_decision_point s ts d = Some (seq_candles s ! ft_candle_index (last ts)) \<and>
     (\<exists>cp al. validate_compression_at_zone config ca s ts = Inr cp \<and> check_fibonacci_alignment config p retracement = Inr al \<and>
        snd_validate_all_ltf_confirmations config ca s ts b d p retracement =
          Inr (cp \<and> b \<noteq> None \<and> (sn_require_fibonacci_confluence config \<longrightarrow> al)))"
proof -
  have on: "tests_on s ts" by (rule fakeout_tests_on [OF assms(4,6,7)])
  let ?t = "last ts" and ?c = "seq_candles s ! ft_candle_index (last ts)"
  have "ft_candle_index ?t \<in> set (map ft_candle_index ts)" using assms(7) by simp
  then have touch: "if d = BEARISH then level \<le> c_high ?c \<and> c_close ?c < level else c_low ?c \<le> level \<and> level < c_close ?c"
    unfolding assms(6) detect_resistance_fakeouts_def detect_support_fakeouts_def
    using assms(5)
    by (auto simp: upward.fakeout_loop_indices downward.fakeout_loop_indices simp del: set_map last_map)
  have "ft_level ?t = level"
  proof -
    have "?t \<in> set ts" using assms(7) by simp
    then show ?thesis
      unfolding assms(6) detect_resistance_fakeouts_def detect_support_fakeouts_def
      using upward.fakeout_loop_fields downward.fakeout_loop_fields by (auto split: if_splits)
  qed
  moreover have "ft_candle_index ?t < length (seq_candles s)" using on by (simp add: tests_on_def)
  ultimately have dp: "validate_decision_point s ts d = Some ?c"
    using touch assms(5,7) by (auto simp: validate_decision_point_def Let_def)
  obtain cp al where "validate_compression_at_zone config ca s ts = Inr cp"
      "check_fibonacci_alignment config p retracement = Inr al"
    using validate_compression_total [OF assms(1) on, of config ca] alignment_total [OF assms(2,3), of config] by (elim exE)
  then show ?thesis
    using dp by (auto simp: snd_validate_all_ltf_confirmations_def validate_fakeout_broken_by_marubozu_def)
qed

theorem decision_point_redundant_witness:
  "validate_decision_point ex_snd_ltf (detect_resistance_fakeouts ex_snd_ltf 10 3) BEARISH = Some (ex_candle 14400 8 11 8 9)"
proof -
  have "detect_resistance_fakeouts ex_snd_ltf 10 3 \<noteq> []"
      "seq_candles ex_snd_ltf ! ft_candle_index (last (detect_resistance_fakeouts ex_snd_ltf 10 3)) = ex_candle 14400 8 11 8 9"
    by code_simp+
  moreover have "wf_seq ex_snd_ltf" using ex_snd_wf(2) by (simp add: wf_market_def)
  ultimately show ?thesis
    using decision_point_redundant [of ex_snd_ltf 1 None 10 BEARISH _ 3] by simp
qed

end
