(* ===== verification/Snapshot.thy ===== *)
theory Snapshot
  imports SmcValidators
begin

text \<open>
  The per-timeframe snapshot (\<^verbatim>\<open>engine/ta/models/snapshot.py\<close>), the builder that resolves its
  trend (\<^verbatim>\<open>engine/ta/common/services/snapshot/builder.py\<close>) and the alignment of two
  snapshots (\<^verbatim>\<open>engine/ta/common/services/alignment/service.py\<close>).

  The optional keyword arguments of \<^verbatim>\<open>build_snapshot\<close> are the record \<open>snapshot_events\<close>;
  an argument that is left out is the empty list. A \<open>TechnicalSnapshot\<close> extends it by what the
  builder computes.
\<close>

section \<open>Texts of the enumerations\<close>

definition Timeframe_value :: "Timeframe \<Rightarrow> string" where
  "Timeframe_value tf = (case tf of M1 \<Rightarrow> ''M1'' | M5 \<Rightarrow> ''M5'' | M15 \<Rightarrow> ''M15'' | M30 \<Rightarrow> ''M30''
     | H1 \<Rightarrow> ''H1'' | H3 \<Rightarrow> ''H3'' | H4 \<Rightarrow> ''H4'' | H6 \<Rightarrow> ''H6'' | H8 \<Rightarrow> ''H8'' | H12 \<Rightarrow> ''H12''
     | D1 \<Rightarrow> ''D1'' | W1 \<Rightarrow> ''W1'' | MN1 \<Rightarrow> ''MN1'')"

definition Direction_value :: "Direction \<Rightarrow> string" where
  "Direction_value d = (case d of BULLISH \<Rightarrow> ''BULLISH'' | BEARISH \<Rightarrow> ''BEARISH'' | NEUTRAL \<Rightarrow> ''NEUTRAL'')"

text \<open>The enumeration constructors applied to a text raise for a text that is no value.\<close>

definition Timeframe_of :: "string \<Rightarrow> Timeframe result" where
  "Timeframe_of s = (case find (\<lambda>tf. Timeframe_value tf = s) HIERARCHY of
       Some tf \<Rightarrow> Inr tf | None \<Rightarrow> Inl (ValueError s))"

definition Direction_of :: "string \<Rightarrow> Direction result" where
  "Direction_of s = (case find (\<lambda>d. Direction_value d = s) [BULLISH, BEARISH, NEUTRAL] of
       Some d \<Rightarrow> Inr d | None \<Rightarrow> Inl (ValueError s))"

section \<open>TechnicalSnapshot\<close>

record snapshot_events =
  ts_bos_events :: "BreakOfStructure list"
  ts_choch_events :: "ChangeOfCharacter list"
  ts_bms_events :: "BreakInMarketStructure list"
  ts_sms_events :: "ShiftInMarketStructure list"
  ts_sr_flips :: "SRFlip list"
  ts_rs_flips :: "RSFlip list"
  ts_liquidity_sweeps :: "LiquiditySweep list"
  ts_liquidity_grabs :: "LiquidityGrab list"
  ts_inducement_events :: "InducementEvent list"
  ts_equal_highs_lows :: "EqualHighsLows list"
  ts_order_blocks :: "OrderBlock list"
  ts_fvgs :: "FairValueGap list"
  ts_breaker_blocks :: "BreakerBlock list"
  ts_supply_zones :: "SupplyZone list"
  ts_demand_zones :: "DemandZone list"
  ts_qml_levels :: "QuasiModoLevel list"
  ts_mpl_levels :: "MiniPriceLevel list"
  ts_fibonacci_retracements :: "FibonacciRetracement list"
  ts_dealing_ranges :: "DealingRange list"
  ts_candidates :: "TechnicalCandidate list"
  ts_metadata :: "(string \<times> json) list"

record TechnicalSnapshot = snapshot_events +
  ts_symbol :: string
  ts_timeframe :: Timeframe
  ts_timestamp :: datetime
  ts_candles :: CandleSequence
  ts_swing_highs :: "SwingHigh list"
  ts_swing_lows :: "SwingLow list"
  ts_session_state :: "SessionState option"
  ts_trend_direction :: Direction

definition no_events :: snapshot_events where
  "no_events = \<lparr>ts_bos_events = [], ts_choch_events = [], ts_bms_events = [], ts_sms_events = [],
     ts_sr_flips = [], ts_rs_flips = [], ts_liquidity_sweeps = [], ts_liquidity_grabs = [],
     ts_inducement_events = [], ts_equal_highs_lows = [], ts_order_blocks = [], ts_fvgs = [],
     ts_breaker_blocks = [], ts_supply_zones = [], ts_demand_zones = [], ts_qml_levels = [],
     ts_mpl_levels = [], ts_fibonacci_retracements = [], ts_dealing_ranges = [], ts_candidates = [],
     ts_metadata = []\<rparr>"

definition mk_TechnicalSnapshot :: "TechnicalSnapshot \<Rightarrow> TechnicalSnapshot result" where
  "mk_TechnicalSnapshot t =
     mk_model ''TechnicalSnapshot'' (ts_symbol t) True (\<lambda>s. t\<lparr>ts_symbol := s\<rparr>)"

definition latest_candle_timestamp :: "TechnicalSnapshot \<Rightarrow> datetime result" where
  "latest_candle_timestamp t = seq_end_time (ts_candles t)"

definition candle_count :: "TechnicalSnapshot \<Rightarrow> nat" where
  "candle_count t = seq_count (ts_candles t)"

definition has_bullish_structure :: "TechnicalSnapshot \<Rightarrow> bool" where
  "has_bullish_structure t \<longleftrightarrow> ts_trend_direction t = BULLISH"

definition has_bearish_structure :: "TechnicalSnapshot \<Rightarrow> bool" where
  "has_bearish_structure t \<longleftrightarrow> ts_trend_direction t = BEARISH"

definition has_neutral_structure :: "TechnicalSnapshot \<Rightarrow> bool" where
  "has_neutral_structure t \<longleftrightarrow> ts_trend_direction t = NEUTRAL"

definition total_swing_points :: "TechnicalSnapshot \<Rightarrow> nat" where
  "total_swing_points t = length (ts_swing_highs t) + length (ts_swing_lows t)"

definition total_structure_events :: "TechnicalSnapshot \<Rightarrow> nat" where
  "total_structure_events t = length (ts_bos_events t) + length (ts_choch_events t) +
     length (ts_bms_events t) + length (ts_sms_events t) + length (ts_sr_flips t) + length (ts_rs_flips t)"

definition total_liquidity_events :: "TechnicalSnapshot \<Rightarrow> nat" where
  "total_liquidity_events t = length (ts_liquidity_sweeps t) + length (ts_liquidity_grabs t) +
     length (ts_inducement_events t) + length (ts_equal_highs_lows t)"

definition total_zones :: "TechnicalSnapshot \<Rightarrow> nat" where
  "total_zones t = length (ts_order_blocks t) + length (ts_fvgs t) + length (ts_breaker_blocks t) +
     length (ts_supply_zones t) + length (ts_demand_zones t)"

definition total_candidates :: "TechnicalSnapshot \<Rightarrow> nat" where
  "total_candidates t = length (ts_candidates t)"

definition has_candidates :: "TechnicalSnapshot \<Rightarrow> bool" where
  "has_candidates t \<longleftrightarrow> 0 < total_candidates t"

definition snapshot_latest_bos :: "TechnicalSnapshot \<Rightarrow> BreakOfStructure option" where
  "snapshot_latest_bos t = max_key bos_timestamp (ts_bos_events t)"

definition snapshot_latest_choch :: "TechnicalSnapshot \<Rightarrow> ChangeOfCharacter option" where
  "snapshot_latest_choch t = max_key coc_timestamp (ts_choch_events t)"

definition snapshot_latest_bms :: "TechnicalSnapshot \<Rightarrow> BreakInMarketStructure option" where
  "snapshot_latest_bms t = max_key bms_timestamp (ts_bms_events t)"

definition snapshot_latest_sms :: "TechnicalSnapshot \<Rightarrow> ShiftInMarketStructure option" where
  "snapshot_latest_sms t = max_key sms_timestamp (ts_sms_events t)"

definition get_unmitigated_order_blocks :: "TechnicalSnapshot \<Rightarrow> OrderBlock list" where
  "get_unmitigated_order_blocks t = filter (\<lambda>ob. \<not> ob_mitigated ob) (ts_order_blocks t)"

definition snapshot_unfilled_fvgs :: "TechnicalSnapshot \<Rightarrow> FairValueGap list" where
  "snapshot_unfilled_fvgs t = filter (\<lambda>fvg. \<not> fvg_filled fvg) (ts_fvgs t)"

definition get_unbroken_supply_zones :: "TechnicalSnapshot \<Rightarrow> SupplyZone list" where
  "get_unbroken_supply_zones t = filter (\<lambda>zone. \<not> sz_broken zone) (ts_supply_zones t)"

definition get_unbroken_demand_zones :: "TechnicalSnapshot \<Rightarrow> DemandZone list" where
  "get_unbroken_demand_zones t = filter (\<lambda>zone. \<not> dz_broken zone) (ts_demand_zones t)"

definition get_bullish_candidates :: "TechnicalSnapshot \<Rightarrow> TechnicalCandidate list" where
  "get_bullish_candidates t = filter tc_is_bullish (ts_candidates t)"

definition get_bearish_candidates :: "TechnicalSnapshot \<Rightarrow> TechnicalCandidate list" where
  "get_bearish_candidates t = filter tc_is_bearish (ts_candidates t)"

definition get_smc_candidates :: "TechnicalSnapshot \<Rightarrow> TechnicalCandidate list" where
  "get_smc_candidates t = filter tc_is_smc (ts_candidates t)"

definition get_snd_candidates :: "TechnicalSnapshot \<Rightarrow> TechnicalCandidate list" where
  "get_snd_candidates t = filter tc_is_snd (ts_candidates t)"

section \<open>MultiTimeframeSnapshot\<close>

record MultiTimeframeSnapshot =
  mts_symbol :: string
  mts_timestamp :: datetime
  mts_htf_snapshot :: TechnicalSnapshot
  mts_ltf_snapshot :: TechnicalSnapshot
  mts_htf_ltf_aligned :: bool
  mts_alignment_metadata :: "(string \<times> json) list"

definition mk_MultiTimeframeSnapshot ::
  "string \<Rightarrow> datetime \<Rightarrow> TechnicalSnapshot \<Rightarrow> TechnicalSnapshot \<Rightarrow> bool \<Rightarrow> (string \<times> json) list \<Rightarrow>
   MultiTimeframeSnapshot result" where
  "mk_MultiTimeframeSnapshot symbol timestamp htf ltf aligned metadata =
     mk_model ''MultiTimeframeSnapshot'' symbol True (\<lambda>s.
       \<lparr>mts_symbol = s, mts_timestamp = timestamp, mts_htf_snapshot = htf, mts_ltf_snapshot = ltf,
        mts_htf_ltf_aligned = aligned, mts_alignment_metadata = metadata\<rparr>)"

definition mts_htf_timeframe :: "MultiTimeframeSnapshot \<Rightarrow> Timeframe" where
  "mts_htf_timeframe m = ts_timeframe (mts_htf_snapshot m)"

definition mts_ltf_timeframe :: "MultiTimeframeSnapshot \<Rightarrow> Timeframe" where
  "mts_ltf_timeframe m = ts_timeframe (mts_ltf_snapshot m)"

definition mts_htf_trend :: "MultiTimeframeSnapshot \<Rightarrow> Direction" where
  "mts_htf_trend m = ts_trend_direction (mts_htf_snapshot m)"

definition mts_ltf_trend :: "MultiTimeframeSnapshot \<Rightarrow> Direction" where
  "mts_ltf_trend m = ts_trend_direction (mts_ltf_snapshot m)"

definition mts_trends_aligned :: "MultiTimeframeSnapshot \<Rightarrow> bool" where
  "mts_trends_aligned m \<longleftrightarrow> mts_htf_trend m = mts_ltf_trend m \<and> mts_htf_trend m \<noteq> NEUTRAL"

definition mts_total_candidates :: "MultiTimeframeSnapshot \<Rightarrow> nat" where
  "mts_total_candidates m = total_candidates (mts_htf_snapshot m) + total_candidates (mts_ltf_snapshot m)"

definition get_all_candidates :: "MultiTimeframeSnapshot \<Rightarrow> TechnicalCandidate list" where
  "get_all_candidates m = ts_candidates (mts_htf_snapshot m) @ ts_candidates (mts_ltf_snapshot m)"

definition get_aligned_candidates :: "MultiTimeframeSnapshot \<Rightarrow> TechnicalCandidate list" where
  "get_aligned_candidates m =
     (if \<not> mts_htf_ltf_aligned m then []
      else filter (\<lambda>c. tc_direction c = mts_htf_trend m) (get_all_candidates m))"

section \<open>Trend of a timeframe\<close>

text \<open>\<^verbatim>\<open>xs[-n:]\<close> for a positive \<open>n\<close>.\<close>

definition last_n :: "nat \<Rightarrow> 'a list \<Rightarrow> 'a list" where
  "last_n n xs = drop (length xs - n) xs"

text \<open>\<^verbatim>\<open>all(xs[i] > xs[i-1] ...)\<close> over the prices of the last three swings, when there are
  at least two.\<close>

definition strictly_moving :: "(price \<Rightarrow> price \<Rightarrow> bool) \<Rightarrow> price list \<Rightarrow> bool" where
  "strictly_moving beyond ps \<longleftrightarrow>
     2 \<le> length ps \<and> list_all (\<lambda>i. beyond (ps ! i) (ps ! (i - 1))) [1..<length ps]"

definition confirmed_trend ::
  "BreakInMarketStructure list \<Rightarrow> ChangeOfCharacter list \<Rightarrow> Direction option" where
  "confirmed_trend bms_events choch_events =
     (let latest_bms = max_key bms_timestamp bms_events;
          major_choch_events = filter (\<lambda>c. \<not> coc_is_minor c) choch_events;
          latest_choch = max_key coc_timestamp major_choch_events
      in case (latest_bms, latest_choch) of
           (Some b, Some c) \<Rightarrow> Some (if coc_timestamp c < bms_timestamp b then bms_direction b else coc_direction c)
         | (Some b, None) \<Rightarrow> Some (bms_direction b)
         | (None, Some c) \<Rightarrow> Some (coc_direction c)
         | (None, None) \<Rightarrow> None)"

definition determine_trend_direction ::
  "CandleSequence \<Rightarrow> SwingHigh list \<Rightarrow> SwingLow list \<Rightarrow> BreakInMarketStructure list \<Rightarrow>
   ChangeOfCharacter list \<Rightarrow> Direction" where
  "determine_trend_direction candles swing_highs swing_lows bms_events choch_events =
     (case (map sh_price swing_highs, map sl_price swing_lows) of
        (h # hs, l # ls) \<Rightarrow>
          (case confirmed_trend bms_events choch_events of
             Some d \<Rightarrow> d
           | None \<Rightarrow>
               let latest_close = (case seq_candles candles of [] \<Rightarrow> None | _ \<Rightarrow> Some (c_close (last (seq_candles candles))));
                   highest_swing_high = foldl max h hs;
                   lowest_swing_low = foldl min l ls;
                   recent_highs = last_n 3 (sort_key sh_timestamp swing_highs);
                   recent_lows = last_n 3 (sort_key sl_timestamp swing_lows)
               in if (case latest_close of None \<Rightarrow> False | Some x \<Rightarrow> highest_swing_high < x) then BULLISH
                  else if (case latest_close of None \<Rightarrow> False | Some x \<Rightarrow> x < lowest_swing_low) then BEARISH
                  else if strictly_moving (\<lambda>x y. y < x) (map sh_price recent_highs) then BULLISH
                  else if strictly_moving (\<lambda>x y. x < y) (map sl_price recent_lows) then BEARISH
                  else case latest_close of
                    None \<Rightarrow> NEUTRAL
                  | Some x \<Rightarrow> if (highest_swing_high + lowest_swing_low) / 2 \<le> x then BULLISH else BEARISH)
      | _ \<Rightarrow> NEUTRAL)"

section \<open>Snapshot builder\<close>

definition build_snapshot ::
  "SwingAnalyzer \<Rightarrow> CandleSequence \<Rightarrow> snapshot_events \<Rightarrow> TechnicalSnapshot result" where
  "build_snapshot swing_analyzer candles events =
     bindR (detect_swing_highs swing_analyzer candles) (\<lambda>swing_highs.
     bindR (detect_swing_lows swing_analyzer candles) (\<lambda>swing_lows.
     bindR (last_candle candles) (\<lambda>latest_candle.
     bindR (identify_session (c_timestamp latest_candle)) (\<lambda>session_state.
     let trend_direction = determine_trend_direction candles swing_highs swing_lows
           (ts_bms_events events) (ts_choch_events events)
     in mk_TechnicalSnapshot (snapshot_events.extend events
          (TechnicalSnapshot.fields (seq_symbol candles) (seq_timeframe candles)
            (c_timestamp latest_candle) candles swing_highs swing_lows (Some session_state)
            trend_direction))))))"

section \<open>Alignment\<close>

record AlignmentService =
  al_require_trend_alignment :: bool
  al_require_zone_nesting :: bool

definition check_trend_alignment :: "AlignmentService \<Rightarrow> Direction \<Rightarrow> Direction \<Rightarrow> bool" where
  "check_trend_alignment self htf_trend ltf_trend =
     (if \<not> al_require_trend_alignment self then True
      else if NEUTRAL \<in> {htf_trend, ltf_trend} then False
      else htf_trend = ltf_trend)"

definition get_all_zones :: "TechnicalSnapshot \<Rightarrow> Zone list result" where
  "get_all_zones snapshot = concatR
     [mapR ob_to_zone (ts_order_blocks snapshot), mapR fvg_to_zone (ts_fvgs snapshot),
      mapR bb_to_zone (ts_breaker_blocks snapshot), mapR sz_to_zone (ts_supply_zones snapshot),
      mapR dz_to_zone (ts_demand_zones snapshot)]"

definition is_zone_nested :: "Zone \<Rightarrow> Zone \<Rightarrow> bool" where
  "is_zone_nested ltf_zone htf_zone =
     (if z_direction ltf_zone \<noteq> z_direction htf_zone then False
      else z_lower_bound htf_zone \<le> z_lower_bound ltf_zone \<and> z_upper_bound ltf_zone \<le> z_upper_bound htf_zone)"

definition check_zone_nesting :: "TechnicalSnapshot \<Rightarrow> TechnicalSnapshot \<Rightarrow> bool result" where
  "check_zone_nesting htf_snapshot ltf_snapshot =
     bindR (get_all_zones htf_snapshot) (\<lambda>htf_zones.
     bindR (get_all_zones ltf_snapshot) (\<lambda>ltf_zones.
       if htf_zones = [] \<or> ltf_zones = [] then Inr False
       else let nested_count = length (filter (\<lambda>ltf_zone. list_ex (is_zone_nested ltf_zone) htf_zones) ltf_zones);
                nesting_percentage = of_nat nested_count / of_nat (length ltf_zones) * (100 :: rat)
            in Inr (50 \<le> nesting_percentage)))"

definition check_alignment ::
  "AlignmentService \<Rightarrow> TechnicalSnapshot \<Rightarrow> TechnicalSnapshot \<Rightarrow> MultiTimeframeSnapshot result" where
  "check_alignment self htf_snapshot ltf_snapshot =
     (if ts_symbol htf_snapshot \<noteq> ts_symbol ltf_snapshot
      then Inl (ValueError (''Symbol mismatch: HTF='' @ ts_symbol htf_snapshot @ '', LTF='' @ ts_symbol ltf_snapshot))
      else
        let trends_aligned = check_trend_alignment self (ts_trend_direction htf_snapshot) (ts_trend_direction ltf_snapshot)
        in bindR (check_zone_nesting htf_snapshot ltf_snapshot) (\<lambda>zones_nested.
             let htf_ltf_aligned = (if al_require_zone_nesting self then trends_aligned \<and> zones_nested else trends_aligned);
                 alignment_metadata =
                   [(''trends_aligned'', JBool trends_aligned), (''zones_nested'', JBool zones_nested),
                    (''htf_trend'', JStr (Direction_value (ts_trend_direction htf_snapshot))),
                    (''ltf_trend'', JStr (Direction_value (ts_trend_direction ltf_snapshot))),
                    (''htf_timeframe'', JStr (Timeframe_value (ts_timeframe htf_snapshot))),
                    (''ltf_timeframe'', JStr (Timeframe_value (ts_timeframe ltf_snapshot)))]
             in mk_MultiTimeframeSnapshot (ts_symbol htf_snapshot) (ts_timestamp ltf_snapshot)
                  htf_snapshot ltf_snapshot htf_ltf_aligned alignment_metadata))"

definition validate_htf_context :: "TechnicalSnapshot \<Rightarrow> Direction \<Rightarrow> bool" where
  "validate_htf_context htf_snapshot required_direction =
     (if ts_trend_direction htf_snapshot = NEUTRAL then False
      else ts_trend_direction htf_snapshot = required_direction)"

definition get_htf_bias :: "TechnicalSnapshot \<Rightarrow> Direction" where
  "get_htf_bias htf_snapshot = ts_trend_direction htf_snapshot"


section \<open>Properties\<close>

lemma foldl_max_less: "foldl max a xs < (x::'a::linorder) \<longleftrightarrow> a < x \<and> (\<forall>y \<in> set xs. y < x)"
  by (induction xs arbitrary: a) auto

lemma foldl_min_greater: "(x::'a::linorder) < foldl min a xs \<longleftrightarrow> x < a \<and> (\<forall>y \<in> set xs. x < y)"
  by (induction xs arbitrary: a) auto

text \<open>The structural events that may decide a trend, with their times and directions.\<close>

definition trend_events ::
  "BreakInMarketStructure list \<Rightarrow> ChangeOfCharacter list \<Rightarrow> (datetime \<times> Direction) list" where
  "trend_events bms chochs = map (\<lambda>b. (bms_timestamp b, bms_direction b)) bms @
     map (\<lambda>c. (coc_timestamp c, coc_direction c)) (filter (\<lambda>c. \<not> coc_is_minor c) chochs)"

lemma confirmed_trend_None: "confirmed_trend bms chochs = None \<longleftrightarrow> trend_events bms chochs = []"
proof -
  let ?major = "filter (\<lambda>c. \<not> coc_is_minor c) chochs"
  have "confirmed_trend bms chochs = None \<longleftrightarrow> max_key bms_timestamp bms = None \<and> max_key coc_timestamp ?major = None"
    unfolding confirmed_trend_def Let_def
    by (cases "max_key bms_timestamp bms"; cases "max_key coc_timestamp ?major") simp_all
  then show ?thesis by (simp add: trend_events_def)
qed

lemma confirmed_trend_Some:
  assumes "confirmed_trend bms chochs = Some d"
  shows "\<exists>t. (t, d) \<in> set (trend_events bms chochs) \<and> (\<forall>(u, e) \<in> set (trend_events bms chochs). u \<le> t)"
proof -
  let ?major = "filter (\<lambda>c. \<not> coc_is_minor c) chochs"
  have b: "max_key bms_timestamp bms = Some x \<Longrightarrow> x \<in> set bms \<and> (\<forall>y \<in> set bms. bms_timestamp y \<le> bms_timestamp x)" for x
    using max_key_Some [of bms_timestamp bms x] by blast
  have c: "max_key coc_timestamp ?major = Some x \<Longrightarrow> x \<in> set ?major \<and>
      (\<forall>y \<in> set ?major. coc_timestamp y \<le> coc_timestamp x)" for x
    using max_key_Some [of coc_timestamp ?major x] by blast
  show ?thesis
    using assms b c unfolding confirmed_trend_def trend_events_def Let_def
    by (cases "max_key bms_timestamp bms"; cases "max_key coc_timestamp ?major")
       (force split: if_splits)+
qed

text \<open>C12. The trend of a timeframe, for a sequence with candles and events that are bullish or bearish.
  It is neutral exactly when the swings of one side are missing. Otherwise, when there is a break or a
  major change of character, the trend is the direction of one with the latest time: a minor change of
  character never decides. Without such an event a close beyond every swing decides.\<close>

theorem trend_of_newest_event:
  assumes "seq_candles s \<noteq> []" and "\<forall>(t, d) \<in> set (trend_events bms chochs). d \<noteq> NEUTRAL"
  shows "(determine_trend_direction s shs sls bms chochs = NEUTRAL \<longleftrightarrow> shs = [] \<or> sls = []) \<and>
     (shs \<noteq> [] \<and> sls \<noteq> [] \<and> trend_events bms chochs \<noteq> [] \<longrightarrow>
        (\<exists>t. (t, determine_trend_direction s shs sls bms chochs) \<in> set (trend_events bms chochs) \<and>
           (\<forall>(u, e) \<in> set (trend_events bms chochs). u \<le> t))) \<and>
     (shs \<noteq> [] \<and> sls \<noteq> [] \<and> trend_events bms chochs = [] \<and>
        (\<forall>h \<in> set shs. sh_price h < c_close (last (seq_candles s))) \<longrightarrow>
        determine_trend_direction s shs sls bms chochs = BULLISH) \<and>
     (shs \<noteq> [] \<and> sls \<noteq> [] \<and> trend_events bms chochs = [] \<and>
        (\<forall>l \<in> set sls. c_close (last (seq_candles s)) < sl_price l) \<and>
        (\<exists>h \<in> set shs. c_close (last (seq_candles s)) \<le> sh_price h) \<longrightarrow>
        determine_trend_direction s shs sls bms chochs = BEARISH)"
proof (cases "shs = [] \<or> sls = []")
  case True
  then show ?thesis by (auto simp: determine_trend_direction_def split: list.splits)
next
  case False
  then obtain h hs l ls where sw: "shs = h # hs" "sls = l # ls" by (meson list.exhaust)
  obtain c cs where cs: "seq_candles s = c # cs" using assms(1) by (meson list.exhaust)
  show ?thesis
  proof (cases "confirmed_trend bms chochs")
    case None
    then show ?thesis
      using sw cs confirmed_trend_None [of bms chochs]
      by (simp add: determine_trend_direction_def Let_def foldl_max_less foldl_min_greater not_less)
         (auto simp: not_le)
  next
    case (Some d)
    then have "determine_trend_direction s shs sls bms chochs = d" using sw by (simp add: determine_trend_direction_def)
    moreover have "trend_events bms chochs \<noteq> []" using Some confirmed_trend_None by force
    ultimately show ?thesis using confirmed_trend_Some [OF Some] assms(2) False by fastforce
  qed
qed

definition ex_trend_bms :: BreakInMarketStructure where
  "ex_trend_bms = (bms_event default_SMCConfig ex_swing_seq BULLISH 1 0 1)\<lparr>bms_timestamp := 60\<rparr>"

definition ex_trend_choch :: ChangeOfCharacter where
  "ex_trend_choch = (choch_event ex_swing_seq BEARISH 2 1 0 2)\<lparr>coc_timestamp := 120\<rparr>"

theorem trend_of_newest_event_witness:
  "coc_timestamp ex_trend_choch > bms_timestamp ex_trend_bms \<and> coc_is_minor ex_trend_choch \<and>
   determine_trend_direction ex_swing_seq [ex_sh 2 0] [ex_idm_sl] [ex_trend_bms] [ex_trend_choch] = BULLISH"
proof -
  have e: "trend_events [ex_trend_bms] [ex_trend_choch] = [(bms_timestamp ex_trend_bms, BULLISH)]"
      "coc_timestamp ex_trend_choch > bms_timestamp ex_trend_bms" "coc_is_minor ex_trend_choch" "seq_candles ex_swing_seq \<noteq> []"
    by (simp_all add: trend_events_def ex_trend_bms_def ex_trend_choch_def bms_event_def choch_event_def ex_swing_seq_def)
  then show ?thesis
    using trend_of_newest_event [of ex_swing_seq "[ex_trend_bms]" "[ex_trend_choch]" "[ex_sh 2 0]" "[ex_idm_sl]"] by simp
qed

end
