(* ===== verification/LtfConfirmation.thy ===== *)
theory LtfConfirmation
  imports Snapshot
begin

text \<open>
  The confirmation service of the execution watchers
  (\<^verbatim>\<open>engine/ta/common/services/ltf_confirmation/service.py\<close>): the invalidation layer on the
  higher timeframe, the seven checks on the lower one, and the pipeline that runs them.

  The broker is an argument, a function from symbol, timeframe, start, end and count to a
  sequence, to nothing, or to an exception. The clock is an argument too: the times of the two
  fetches. The text of an exception is an argument \<open>str_exc\<close>. The measured duration of the answer
  and the log are left out.
\<close>

section \<open>Requests and responses\<close>

type_synonym broker =
  "string \<Rightarrow> Timeframe \<Rightarrow> datetime \<Rightarrow> datetime \<Rightarrow> nat \<Rightarrow> CandleSequence option result"

record LTFConfirmationRequest =
  lq_symbol :: string
  lq_direction :: string
  lq_ltf_timeframe :: string
  lq_ob_upper :: price
  lq_ob_lower :: price
  lq_entry_price :: price
  lq_stop_loss :: "price option"
  lq_htf_timeframe :: "string option"

definition valid_request :: "LTFConfirmationRequest \<Rightarrow> bool" where
  "valid_request r \<longleftrightarrow> 0 < lq_ob_upper r \<and> 0 < lq_ob_lower r \<and> 0 < lq_entry_price r \<and>
     (\<forall>sl \<in> set_option (lq_stop_loss r). 0 < sl)"

record LTFConfirmationResponse =
  lr_confirmed :: bool
  lr_symbol :: string
  lr_direction :: string
  lr_ltf_timeframe :: string
  lr_checks :: "(string \<times> bool) list"
  lr_error :: "string option"
  lr_invalidated :: bool
  lr_invalidation_reason :: "string option"
  lr_invalidation_checks :: "(string \<times> bool) list option"

record LTFConfirmationService =
  lc_config :: SMCConfig
  lc_swing_analyzer :: SwingAnalyzer
  lc_sweep_analyzer :: SweepAnalyzer

definition LTF_LOOKBACK :: nat where
  "LTF_LOOKBACK = 150"

definition HTF_LOOKBACK :: nat where
  "HTF_LOOKBACK = 50"

section \<open>Invalidation on the higher timeframe\<close>

text \<open>An explicit timeframe that is a value of the enumeration, otherwise two steps above the lower
  timeframe, otherwise one.\<close>

definition resolve_htf_timeframe :: "string option \<Rightarrow> Timeframe \<Rightarrow> Timeframe option result" where
  "resolve_htf_timeframe explicit_htf ltf =
     (case (case explicit_htf of None \<Rightarrow> None | Some s \<Rightarrow> if s = [] then None
            else case Timeframe_of s of Inl _ \<Rightarrow> None | Inr tf \<Rightarrow> Some tf) of
        Some tf \<Rightarrow> Inr (Some tf)
      | None \<Rightarrow> bindR (get_parent ltf 2) (\<lambda>p. case p of
            Some tf \<Rightarrow> Inr (Some tf)
          | None \<Rightarrow> get_parent ltf 1))"

definition fetch_candles ::
  "broker \<Rightarrow> datetime \<Rightarrow> string \<Rightarrow> Timeframe \<Rightarrow> nat \<Rightarrow> CandleSequence option" where
  "fetch_candles broker end_time symbol timeframe lookback =
     (let minutes = (case map_of TIMEFRAME_MINUTES timeframe of None \<Rightarrow> 5 | Some n \<Rightarrow> n);
          start_time = end_time - minutes * int lookback * 60
      in case broker symbol timeframe start_time end_time lookback of Inl _ \<Rightarrow> None | Inr r \<Rightarrow> r)"

definition check_ob_still_fresh :: "CandleSequence \<Rightarrow> Direction \<Rightarrow> price \<Rightarrow> price \<Rightarrow> bool" where
  "check_ob_still_fresh sequence direction ob_upper ob_lower =
     (if ob_upper - ob_lower \<le> 0 then True
      else list_all (\<lambda>candle.
        if direction = BULLISH then \<not> c_close candle < ob_lower
        else if direction = BEARISH then \<not> ob_upper < c_close candle
        else True) (seq_candles sequence))"

definition check_no_opposing_bms ::
  "LTFConfirmationService \<Rightarrow> CandleSequence \<Rightarrow> Direction \<Rightarrow> bool result" where
  "check_no_opposing_bms self sequence direction =
     (let recent_candles = last_n (min 20 (length (seq_candles sequence))) (seq_candles sequence);
          recent = (\<lambda>bms. case recent_candles of [] \<Rightarrow> True | c # _ \<Rightarrow> c_timestamp c \<le> bms_timestamp bms)
      in bindR (detect_swing_highs (lc_swing_analyzer self) sequence) (\<lambda>swing_highs.
         bindR (detect_swing_lows (lc_swing_analyzer self) sequence) (\<lambda>swing_lows.
         bindR (if direction = BULLISH then detect_bearish_bms (lc_config self) sequence swing_lows
                else detect_bullish_bms (lc_config self) sequence swing_highs) (\<lambda>opposing_bms.
           Inr (filter recent opposing_bms = [])))))"

definition check_sl_not_blown :: "CandleSequence \<Rightarrow> Direction \<Rightarrow> price option \<Rightarrow> bool" where
  "check_sl_not_blown sequence direction stop_loss =
     (case stop_loss of
        None \<Rightarrow> True
      | Some sl \<Rightarrow>
          if sl \<le> 0 then True
          else let recent = (if 10 < length (seq_candles sequence) then last_n 10 (seq_candles sequence)
                             else seq_candles sequence)
            in list_all (\<lambda>candle.
                 if direction = BULLISH then \<not> c_close candle < sl
                 else \<not> (direction = BEARISH \<and> sl < c_close candle)) recent)"

text \<open>\<^verbatim>\<open>:.5f\<close> of a positive number.\<close>

definition format_5f :: "rat \<Rightarrow> string" where
  "format_5f x =
     (let k = nat (round_even (x * 100000)) in nat_str (k div 100000) @ ''.'' @ zfill 5 (k mod 100000))"

record invalidation =
  iv_invalidated :: bool
  iv_reason :: "string option"
  iv_checks :: "(string \<times> bool) list"

definition invalidation_checks :: "bool \<Rightarrow> bool \<Rightarrow> bool \<Rightarrow> (string \<times> bool) list" where
  "invalidation_checks ob_fresh no_opposing_bms sl_not_blown =
     [(''ob_still_fresh'', ob_fresh), (''no_opposing_bms'', no_opposing_bms), (''sl_not_blown'', sl_not_blown)]"

definition run_invalidation_layer ::
  "LTFConfirmationService \<Rightarrow> broker \<Rightarrow> datetime \<Rightarrow> string \<Rightarrow> Direction \<Rightarrow> Timeframe \<Rightarrow> price \<Rightarrow> price \<Rightarrow>
   price option \<Rightarrow> invalidation result" where
  "run_invalidation_layer self broker now symbol direction htf_tf ob_upper ob_lower stop_loss =
     (case fetch_candles broker now symbol htf_tf HTF_LOOKBACK of
        None \<Rightarrow> Inr \<lparr>iv_invalidated = False, iv_reason = None, iv_checks = invalidation_checks True True True\<rparr>
      | Some sequence \<Rightarrow>
          if seq_count sequence < 5
          then Inr \<lparr>iv_invalidated = False, iv_reason = None, iv_checks = invalidation_checks True True True\<rparr>
          else let ob_fresh = check_ob_still_fresh sequence direction ob_upper ob_lower in
            bindR (check_no_opposing_bms self sequence direction) (\<lambda>no_opposing_bms.
            let sl_not_blown = check_sl_not_blown sequence direction stop_loss;
                checks = invalidation_checks ob_fresh no_opposing_bms sl_not_blown;
                tf = Timeframe_value htf_tf
            in Inr (if \<not> ob_fresh then
                 \<lparr>iv_invalidated = True, iv_reason = Some (''OB zone ('' @ format_5f ob_lower @ ''-'' @
                    format_5f ob_upper @ '') has been body-mitigated on '' @ tf), iv_checks = checks\<rparr>
               else if \<not> no_opposing_bms then
                 \<lparr>iv_invalidated = True, iv_reason = Some (''New '' @
                    (if direction = BULLISH then ''BEARISH'' else ''BULLISH'') @ '' BMS detected on '' @ tf @
                    '', breaking the '' @ Direction_value direction @ '' structure''), iv_checks = checks\<rparr>
               else if \<not> sl_not_blown then
                 \<lparr>iv_invalidated = True, iv_reason = Some (''Price has already closed beyond stop loss ('' @
                    (case stop_loss of None \<Rightarrow> '''' | Some sl \<Rightarrow> format_5f sl) @ '') on '' @ tf),
                  iv_checks = checks\<rparr>
               else \<lparr>iv_invalidated = False, iv_reason = None, iv_checks = checks\<rparr>)))"

section \<open>Checks on the lower timeframe\<close>

definition run_ltf_checks ::
  "LTFConfirmationService \<Rightarrow> CandleSequence \<Rightarrow> Direction \<Rightarrow> price \<Rightarrow> price \<Rightarrow> (string \<times> bool) list result" where
  "run_ltf_checks self sequence direction ob_upper ob_lower =
     (let config = lc_config self in
      bindR (detect_swing_highs (lc_swing_analyzer self) sequence) (\<lambda>swing_highs.
      bindR (detect_swing_lows (lc_swing_analyzer self) sequence) (\<lambda>swing_lows.
      bindR (if direction = BULLISH then detect_bullish_bms config sequence swing_highs
             else detect_bearish_bms config sequence swing_lows) (\<lambda>bms_events.
      bindR (if direction = BULLISH then detect_bullish_choch sequence swing_highs
             else detect_bearish_choch sequence swing_lows) (\<lambda>choch_events.
      bindR (if direction = BULLISH then detect_bullish_inducement config sequence swing_lows
             else detect_bearish_inducement config sequence swing_highs) (\<lambda>inducements.
      bindR (detect_sweeps_in_sequence (lc_sweep_analyzer self) sequence swing_highs swing_lows) (\<lambda>sweeps.
      bindR (detect_fvgs config sequence) (\<lambda>fvgs.
      bindR (last_candle sequence) (\<lambda>latest_candle.
      bindR (identify_session (c_timestamp latest_candle)) (\<lambda>session_state.
      let current_price = c_close latest_candle;
          session_ok = (if \<not> sc_require_session_timing config then True
            else st_active_session session_state \<in> {LONDON, NEW_YORK, OVERLAP_LONDON_NY});
          relevant_inducements = filter (\<lambda>idm. ie_direction idm = direction) inducements;
          inducement_ok = (if relevant_inducements \<noteq> [] then list_all ie_cleared relevant_inducements else True)
      in Inr [(''liquidity_swept'', list_ex ls_closed_back_inside sweeps),
              (''choch_present'', 0 < length choch_events),
              (''bms_confirmed'', 0 < length bms_events),
              (''rto_to_ob'', ob_lower \<le> current_price \<and> current_price \<le> ob_upper),
              (''session_timing'', session_ok),
              (''inducement_cleared'', inducement_ok),
              (''fvg_present'', list_ex (\<lambda>fvg. fvg_direction fvg = direction) fvgs)]))))))))))"

section \<open>The pipeline\<close>

definition answer :: "LTFConfirmationRequest \<Rightarrow> bool \<Rightarrow> (string \<times> bool) list \<Rightarrow> LTFConfirmationResponse" where
  "answer request confirmed checks =
     \<lparr>lr_confirmed = confirmed, lr_symbol = lq_symbol request, lr_direction = lq_direction request,
      lr_ltf_timeframe = lq_ltf_timeframe request, lr_checks = checks, lr_error = None,
      lr_invalidated = False, lr_invalidation_reason = None, lr_invalidation_checks = None\<rparr>"

definition ltf_layer ::
  "LTFConfirmationService \<Rightarrow> broker \<Rightarrow> datetime \<Rightarrow> LTFConfirmationRequest \<Rightarrow> Direction \<Rightarrow> Timeframe \<Rightarrow>
   LTFConfirmationResponse result" where
  "ltf_layer self broker now request direction ltf_tf =
     (case fetch_candles broker now (lq_symbol request) ltf_tf LTF_LOOKBACK of
        None \<Rightarrow> Inr ((answer request False [])\<lparr>lr_error := Some ''Insufficient LTF candle data''\<rparr>)
      | Some sequence \<Rightarrow>
          if seq_count sequence < 10
          then Inr ((answer request False [])\<lparr>lr_error := Some ''Insufficient LTF candle data''\<rparr>)
          else bindR (run_ltf_checks self sequence direction (lq_ob_upper request) (lq_ob_lower request))
            (\<lambda>checks. Inr (answer request (list_all snd checks) checks)))"

definition confirm ::
  "LTFConfirmationService \<Rightarrow> broker \<Rightarrow> (py_error \<Rightarrow> string) \<Rightarrow> datetime \<Rightarrow> datetime \<Rightarrow>
   LTFConfirmationRequest \<Rightarrow> LTFConfirmationResponse result" where
  "confirm self broker str_exc now1 now2 request =
     bindR (Direction_of (lq_direction request)) (\<lambda>direction.
     bindR (Timeframe_of (lq_ltf_timeframe request)) (\<lambda>ltf_tf.
       case bindR (resolve_htf_timeframe (lq_htf_timeframe request) ltf_tf) (\<lambda>htf_tf.
              case htf_tf of
                None \<Rightarrow> ltf_layer self broker now2 request direction ltf_tf
              | Some tf \<Rightarrow>
                  bindR (run_invalidation_layer self broker now1 (lq_symbol request) direction tf
                    (lq_ob_upper request) (lq_ob_lower request) (lq_stop_loss request)) (\<lambda>iv.
                  if iv_invalidated iv
                  then Inr ((answer request False [])\<lparr>lr_invalidated := True,
                    lr_invalidation_reason := iv_reason iv, lr_invalidation_checks := Some (iv_checks iv)\<rparr>)
                  else ltf_layer self broker now2 request direction ltf_tf)) of
         Inr r \<Rightarrow> Inr r
       | Inl e \<Rightarrow> Inr ((answer request False [])\<lparr>lr_error := Some (str_exc e)\<rparr>)))"


section \<open>Markets and settings on which nothing raises\<close>

definition clean_market :: "CandleSequence \<Rightarrow> bool" where
  "clean_market s \<longleftrightarrow> wf_market s \<and> clean_symbol (seq_symbol s)"

definition valid_analyzer :: "SwingAnalyzer \<Rightarrow> bool" where
  "valid_analyzer a \<longleftrightarrow> 0 \<le> sa_equal_tolerance_pips a \<and> 1 \<le> sa_left_bars a \<and> 1 \<le> sa_right_bars a"

definition valid_service :: "LTFConfirmationService \<Rightarrow> bool" where
  "valid_service self \<longleftrightarrow> valid_SMCConfig (lc_config self) \<and> valid_analyzer (lc_swing_analyzer self)"

text \<open>A confirmed break against the trade whose confirmation candle is among the last twenty.\<close>

definition opposing_break ::
  "SMCConfig \<Rightarrow> CandleSequence \<Rightarrow> Direction \<Rightarrow> SwingHigh list \<Rightarrow> SwingLow list \<Rightarrow> bool" where
  "opposing_break config s d shs sls \<longleftrightarrow>
     (let start = c_timestamp (seq_candles s ! (length (seq_candles s) - 20));
          time = (\<lambda>level b. c_timestamp (seq_candles s ! (b + bms_required config s level b - 1)))
      in if d = BULLISH
         then \<exists>l \<in> set sls. \<exists>b. is_bms config s (<) (sl_price l) (sl_index l) b \<and> start \<le> time (sl_price l) b
         else \<exists>h \<in> set shs. \<exists>b. is_bms config s (>) (sh_price h) (sh_index h) b \<and> start \<le> time (sh_price h) b)"

lemma recent_window:
  assumes "xs \<noteq> []"
  shows "\<exists>ys. last_n (min 20 (length xs)) xs = xs ! (length xs - 20) # ys"
proof -
  have k: "length xs - min 20 (length xs) = length xs - 20" "length xs - 20 < length xs" using assms by auto
  show ?thesis unfolding last_n_def k(1) using Cons_nth_drop_Suc [OF k(2)] by metis
qed

lemma opposing_check:
  assumes v: "valid_service self" and s: "clean_market s" "seq_candles s \<noteq> []"
  obtains shs sls where "detect_swing_highs (lc_swing_analyzer self) s = Inr shs"
    "detect_swing_lows (lc_swing_analyzer self) s = Inr sls"
    "check_no_opposing_bms self s d = Inr (\<not> opposing_break (lc_config self) s d shs sls)"
proof -
  have wf: "wf_seq s" "clean_symbol (seq_symbol s)" "wf_market s"
    using s by (simp_all add: clean_market_def wf_market_def)
  have va: "0 \<le> sa_equal_tolerance_pips (lc_swing_analyzer self)" "1 \<le> sa_left_bars (lc_swing_analyzer self)"
      "1 \<le> sa_right_bars (lc_swing_analyzer self)" and cfg: "valid_SMCConfig (lc_config self)"
    using v by (simp_all add: valid_service_def valid_analyzer_def)
  obtain shs sls where sw: "detect_swing_highs (lc_swing_analyzer self) s = Inr shs"
      "detect_swing_lows (lc_swing_analyzer self) s = Inr sls"
      and pos: "\<forall>h \<in> set shs. 0 < sh_price h" "\<forall>l \<in> set sls. 0 < sl_price l"
    by (rule swings_detected [OF wf(3) va])
  obtain es fs where bms: "detect_bullish_bms (lc_config self) s shs = Inr es"
      "detect_bearish_bms (lc_config self) s sls = Inr fs"
      and es: "\<forall>e. e \<in> set es \<longleftrightarrow> (\<exists>h \<in> set shs. \<exists>b. is_bms (lc_config self) s (>) (sh_price h) (sh_index h) b \<and>
        e = bms_event (lc_config self) s BULLISH (sh_price h) (sh_timestamp h) b)"
      and fs: "\<forall>e. e \<in> set fs \<longleftrightarrow> (\<exists>l \<in> set sls. \<exists>b. is_bms (lc_config self) s (<) (sl_price l) (sl_index l) b \<and>
        e = bms_event (lc_config self) s BEARISH (sl_price l) (sl_timestamp l) b)"
    using detect_bms_reports [OF wf(1,2) cfg pos] by (elim exE conjE)
  obtain ys where w: "last_n (min 20 (length (seq_candles s))) (seq_candles s) =
      seq_candles s ! (length (seq_candles s) - 20) # ys"
    using recent_window [OF s(2)] by blast
  have hit: "(\<exists>e \<in> set xs. T \<le> bms_timestamp e) \<longleftrightarrow> (\<exists>w \<in> W. \<exists>b. P w b \<and> T \<le> bms_timestamp (ev w b))"
    if "\<forall>e. e \<in> set xs \<longleftrightarrow> (\<exists>w \<in> W. \<exists>b. P w b \<and> e = ev w b)"
    for xs and W :: "'w set" and P and ev :: "'w \<Rightarrow> nat \<Rightarrow> BreakInMarketStructure" and T
    unfolding Bex_def [of "set xs"] that [rule_format] by blast
  have opp: "opposing_break (lc_config self) s d shs sls \<longleftrightarrow> (\<exists>e \<in> set (if d = BULLISH then fs else es).
      c_timestamp (seq_candles s ! (length (seq_candles s) - 20)) \<le> bms_timestamp e)"
    unfolding opposing_break_def Let_def by (simp add: hit [OF es] hit [OF fs] bms_event_def)
  show thesis
    by (intro that [OF sw])
       (simp add: check_no_opposing_bms_def Let_def sw bms w opp filter_empty_conv split: if_splits)
qed

lemma ltf_layer_invalidated: "ltf_layer self broker now q d tf = Inr r \<Longrightarrow> \<not> lr_invalidated r"
  by (auto simp: ltf_layer_def answer_def split: option.splits if_splits)

lemma invalidation_layer_run:
  assumes v: "valid_service self" and d: "d = BULLISH \<or> d = BEARISH"
    and f: "fetch_candles broker now sy htf HTF_LOOKBACK = Some s" and s: "clean_market s" "5 \<le> seq_count s" and ob: "lo < up"
  obtains shs sls iv where "detect_swing_highs (lc_swing_analyzer self) s = Inr shs"
    "detect_swing_lows (lc_swing_analyzer self) s = Inr sls"
    "run_invalidation_layer self broker now sy d htf up lo sl = Inr iv"
    "iv_invalidated iv \<longleftrightarrow>
       (\<exists>c \<in> set (seq_candles s). if d = BULLISH then c_close c < lo else up < c_close c) \<or>
       opposing_break (lc_config self) s d shs sls \<or>
       (\<exists>x. sl = Some x \<and> 0 < x \<and> (\<exists>c \<in> set (drop (length (seq_candles s) - 10) (seq_candles s)).
          if d = BULLISH then c_close c < x else x < c_close c))"
proof -
  have ne: "seq_candles s \<noteq> []" using s(2) by (auto simp: seq_count_def)
  obtain shs sls where sw: "detect_swing_highs (lc_swing_analyzer self) s = Inr shs"
      "detect_swing_lows (lc_swing_analyzer self) s = Inr sls"
      and opp: "check_no_opposing_bms self s d = Inr (\<not> opposing_break (lc_config self) s d shs sls)"
    by (rule opposing_check [OF v s(1) ne])
  have fresh: "check_ob_still_fresh s d up lo \<longleftrightarrow>
      \<not> (\<exists>c \<in> set (seq_candles s). if d = BULLISH then c_close c < lo else up < c_close c)"
    using d ob by (auto simp: check_ob_still_fresh_def list_all_iff)
  have stop: "check_sl_not_blown s d sl \<longleftrightarrow> \<not> (\<exists>x. sl = Some x \<and> 0 < x \<and>
      (\<exists>c \<in> set (drop (length (seq_candles s) - 10) (seq_candles s)). if d = BULLISH then c_close c < x else x < c_close c))"
    using d by (auto simp: check_sl_not_blown_def list_all_iff last_n_def Let_def split: option.splits)
  have "\<exists>iv. run_invalidation_layer self broker now sy d htf up lo sl = Inr iv \<and>
      (iv_invalidated iv \<longleftrightarrow> \<not> check_ob_still_fresh s d up lo \<or> opposing_break (lc_config self) s d shs sls \<or>
        \<not> check_sl_not_blown s d sl)"
    using s(2) by (simp add: run_invalidation_layer_def f opp Let_def)
  then obtain iv where iv: "run_invalidation_layer self broker now sy d htf up lo sl = Inr iv"
      "iv_invalidated iv \<longleftrightarrow> \<not> check_ob_still_fresh s d up lo \<or> opposing_break (lc_config self) s d shs sls \<or>
        \<not> check_sl_not_blown s d sl" by (elim exE conjE)
  show thesis by (rule that [OF sw iv(1)], unfold iv(2) fresh stop not_not) (rule refl)
qed

section \<open>Properties\<close>

text \<open>C7. The invalidation decision, for a request with a proper block whose higher timeframe has at
  least five well-formed candles. The service never raises, whatever the broker does on the lower
  timeframe. It invalidates the order exactly when some fetched candle, also one from before the block
  existed, closed beyond the far edge of the block, or an opposing break was confirmed within the last
  twenty candles, or one of the last ten candles closed beyond the stop. A stop that lies beyond the
  block adds nothing: the last rule is then implied by the first. An invalidated order is never
  confirmed.\<close>

theorem confirm_decision:
  assumes "valid_service self" and "Direction_of (lq_direction q) = Inr d" and "d = BULLISH \<or> d = BEARISH"
    and "Timeframe_of (lq_ltf_timeframe q) = Inr tf" and "resolve_htf_timeframe (lq_htf_timeframe q) tf = Inr (Some htf)"
    and "fetch_candles broker now1 (lq_symbol q) htf HTF_LOOKBACK = Some s" and "clean_market s" and "5 \<le> seq_count s"
    and "lq_ob_lower q < lq_ob_upper q"
  shows "\<exists>r shs sls. confirm self broker str_exc now1 now2 q = Inr r \<and>
     detect_swing_highs (lc_swing_analyzer self) s = Inr shs \<and> detect_swing_lows (lc_swing_analyzer self) s = Inr sls \<and>
     (lr_invalidated r \<longleftrightarrow>
       (\<exists>c \<in> set (seq_candles s). if d = BULLISH then c_close c < lq_ob_lower q else lq_ob_upper q < c_close c) \<or>
       opposing_break (lc_config self) s d shs sls \<or>
       (\<exists>x. lq_stop_loss q = Some x \<and> 0 < x \<and> (\<exists>c \<in> set (drop (length (seq_candles s) - 10) (seq_candles s)).
          if d = BULLISH then c_close c < x else x < c_close c))) \<and>
     ((\<forall>x. lq_stop_loss q = Some x \<longrightarrow> (if d = BULLISH then x \<le> lq_ob_lower q else lq_ob_upper q \<le> x)) \<longrightarrow>
       (lr_invalidated r \<longleftrightarrow>
         (\<exists>c \<in> set (seq_candles s). if d = BULLISH then c_close c < lq_ob_lower q else lq_ob_upper q < c_close c) \<or>
         opposing_break (lc_config self) s d shs sls)) \<and>
     (lr_confirmed r \<longrightarrow> \<not> lr_invalidated r)"
proof -
  obtain shs sls iv where sw: "detect_swing_highs (lc_swing_analyzer self) s = Inr shs"
      "detect_swing_lows (lc_swing_analyzer self) s = Inr sls"
      and run: "run_invalidation_layer self broker now1 (lq_symbol q) d htf (lq_ob_upper q) (lq_ob_lower q)
        (lq_stop_loss q) = Inr iv"
      and iv: "iv_invalidated iv \<longleftrightarrow>
       (\<exists>c \<in> set (seq_candles s). if d = BULLISH then c_close c < lq_ob_lower q else lq_ob_upper q < c_close c) \<or>
       opposing_break (lc_config self) s d shs sls \<or>
       (\<exists>x. lq_stop_loss q = Some x \<and> 0 < x \<and> (\<exists>c \<in> set (drop (length (seq_candles s) - 10) (seq_candles s)).
          if d = BULLISH then c_close c < x else x < c_close c))" (is "_ \<longleftrightarrow> ?C \<or> ?O \<or> ?S")
    by (rule invalidation_layer_run [OF assms(1,3,6-9)])
  have "\<exists>r. confirm self broker str_exc now1 now2 q = Inr r \<and> (lr_invalidated r \<longleftrightarrow> iv_invalidated iv) \<and>
      (lr_confirmed r \<longrightarrow> \<not> lr_invalidated r)"
  proof (cases "iv_invalidated iv")
    case True
    then show ?thesis using assms(2,4,5) run by (simp add: confirm_def answer_def)
  next
    case False
    then show ?thesis using assms(2,4,5) run ltf_layer_invalidated
      by (cases "ltf_layer self broker now2 q d tf") (auto simp: confirm_def answer_def)
  qed
  then obtain r where r: "confirm self broker str_exc now1 now2 q = Inr r" "lr_invalidated r \<longleftrightarrow> ?C \<or> ?O \<or> ?S"
      "lr_confirmed r \<longrightarrow> \<not> lr_invalidated r"
    unfolding iv by blast
  have "?S \<longrightarrow> ?C"
    if "\<forall>x. lq_stop_loss q = Some x \<longrightarrow> (if d = BULLISH then x \<le> lq_ob_lower q else lq_ob_upper q \<le> x)"
  proof (intro impI, elim exE conjE bexE)
    fix x c assume x: "lq_stop_loss q = Some x"
      and c: "c \<in> set (drop (length (seq_candles s) - 10) (seq_candles s))"
        "if d = BULLISH then c_close c < x else x < c_close c"
    have "if d = BULLISH then c_close c < lq_ob_lower q else lq_ob_upper q < c_close c"
      using that x c(2) by (auto split: if_splits)
    then show ?C using in_set_dropD [OF c(1)] by (rule bexI)
  qed
  with r sw show ?thesis by blast
qed


text \<open>What the seven checks on the lower timeframe establish.\<close>

definition ltf_setup ::
  "LTFConfirmationService \<Rightarrow> CandleSequence \<Rightarrow> Direction \<Rightarrow> price \<Rightarrow> price \<Rightarrow> SwingHigh list \<Rightarrow> SwingLow list \<Rightarrow> bool" where
  "ltf_setup self s d up lo shs sls \<longleftrightarrow> (let config = lc_config self; cs = seq_candles s; n = length cs in
     (\<exists>x. genuine_high (lc_sweep_analyzer self) cs shs x \<or> genuine_low (lc_sweep_analyzer self) cs sls x) \<and>
     (if d = BULLISH
      then (\<exists>h \<in> set shs. \<exists>b. is_bms config s (>) (sh_price h) (sh_index h) b) \<and>
           (\<exists>h \<in> set shs. \<exists>b. is_choch s (>) (sh_strength h) (sh_price h) (sh_index h) b) \<and>
           (\<forall>l \<in> set sls. sl_strength l < 5 \<and> sl_index l + 1 < n \<longrightarrow>
              (\<exists>j. sl_index l < j \<and> j < n \<and> c_low (cs ! j) < sl_price l - idm_min_break config s))
      else (\<exists>l \<in> set sls. \<exists>b. is_bms config s (<) (sl_price l) (sl_index l) b) \<and>
           (\<exists>l \<in> set sls. \<exists>b. is_choch s (<) (sl_strength l) (sl_price l) (sl_index l) b) \<and>
           (\<forall>h \<in> set shs. sh_strength h < 5 \<and> sh_index h + 1 < n \<longrightarrow>
              (\<exists>j. sh_index h < j \<and> j < n \<and> sh_price h + idm_min_break config s < c_high (cs ! j)))) \<and>
     lo \<le> c_close (last cs) \<and> c_close (last cs) \<le> up \<and>
     (sc_require_session_timing config \<longrightarrow> 9 \<le> utc_hour (c_timestamp (last cs)) \<and> utc_hour (c_timestamp (last cs)) < 21) \<and>
     (\<exists>i a b. i + 2 < n \<and> wick_gap s i a b \<and> sc_fvg_min_gap_pips config \<le> (b - a) / get_pip_value (seq_symbol s) \<and>
        fvg_direction (gap_event s i a b) = d))"

lemma inducement_cleared_iff:
  assumes "clean_symbol (seq_symbol s)" and "\<forall>h \<in> set shs. 0 < sh_price h" and "\<forall>l \<in> set sls. 0 < sl_price l"
  shows "\<exists>bi bj. detect_bullish_inducement config s sls = Inr bi \<and> detect_bearish_inducement config s shs = Inr bj \<and>
     ((\<forall>e \<in> set bi. ie_direction e = BULLISH \<longrightarrow> ie_cleared e) \<longleftrightarrow>
        (\<forall>l \<in> set sls. sl_strength l < 5 \<and> sl_index l + 1 < length (seq_candles s) \<longrightarrow>
          (\<exists>j. sl_index l < j \<and> j < length (seq_candles s) \<and>
            c_low (seq_candles s ! j) < sl_price l - idm_min_break config s))) \<and>
     ((\<forall>e \<in> set bj. ie_direction e = BEARISH \<longrightarrow> ie_cleared e) \<longleftrightarrow>
        (\<forall>h \<in> set shs. sh_strength h < 5 \<and> sh_index h + 1 < length (seq_candles s) \<longrightarrow>
          (\<exists>j. sh_index h < j \<and> j < length (seq_candles s) \<and>
            sh_price h + idm_min_break config s < c_high (seq_candles s ! j))))"
proof -
  have cleared: "ie_cleared (idm_event s e p i ts (idm_clear_idx s wick beyond thr i)) \<longleftrightarrow>
        (\<exists>j. i < j \<and> j < length (seq_candles s) \<and> beyond (wick (seq_candles s ! j)) thr)"
      "ie_direction (idm_event s e p i ts c) = e" for e p i ts c wick beyond thr
    by (simp_all add: idm_event_def flip: idm_clear_iff)
  show ?thesis
    unfolding detect_inducement_Inr(1) [OF assms(1,3)] detect_inducement_Inr(2) [OF assms(1,2)]
    by (intro exI conjI, rule refl, rule refl) (auto simp: cleared)
qed

lemma ltf_checks_passed:
  assumes v: "valid_service self" and s: "clean_market s" "seq_candles s \<noteq> []" and d: "d = BULLISH \<or> d = BEARISH"
    and run: "run_ltf_checks self s d up lo = Inr checks" "list_all snd checks"
  obtains shs sls where "detect_swing_highs (lc_swing_analyzer self) s = Inr shs"
    "detect_swing_lows (lc_swing_analyzer self) s = Inr sls" "ltf_setup self s d up lo shs sls"
proof -
  let ?config = "lc_config self" and ?n = "length (seq_candles s)"
  have wf: "wf_seq s" "clean_symbol (seq_symbol s)" "wf_market s"
    using s by (simp_all add: clean_market_def wf_market_def)
  have va: "0 \<le> sa_equal_tolerance_pips (lc_swing_analyzer self)" "1 \<le> sa_left_bars (lc_swing_analyzer self)"
      "1 \<le> sa_right_bars (lc_swing_analyzer self)" and cfg: "valid_SMCConfig ?config"
    using v by (simp_all add: valid_service_def valid_analyzer_def)
  obtain shs sls where sw: "detect_swing_highs (lc_swing_analyzer self) s = Inr shs"
      "detect_swing_lows (lc_swing_analyzer self) s = Inr sls"
      and pos: "\<forall>h \<in> set shs. 0 < sh_price h" "\<forall>l \<in> set sls. 0 < sl_price l"
    by (rule swings_detected [OF wf(3) va])
  obtain st where st: "detect_sweeps_in_sequence (lc_sweep_analyzer self) s shs sls = Inr (ss_sweeps st)"
      "sweeps_ok (lc_sweep_analyzer self) (seq_candles s) shs sls st"
    by (rule detect_sweeps_run [OF wf(3) pos])
  obtain es fs where bms: "detect_bullish_bms ?config s shs = Inr es" "detect_bearish_bms ?config s sls = Inr fs"
      and es: "\<forall>e. e \<in> set es \<longleftrightarrow> (\<exists>h \<in> set shs. \<exists>b. is_bms ?config s (>) (sh_price h) (sh_index h) b \<and>
        e = bms_event ?config s BULLISH (sh_price h) (sh_timestamp h) b)"
      and fs: "\<forall>e. e \<in> set fs \<longleftrightarrow> (\<exists>l \<in> set sls. \<exists>b. is_bms ?config s (<) (sl_price l) (sl_index l) b \<and>
        e = bms_event ?config s BEARISH (sl_price l) (sl_timestamp l) b)"
    using detect_bms_reports [OF wf(1,2) cfg pos] by (elim exE conjE)
  obtain ch where ch: "detect_bullish_choch s shs = Inr ch" "\<forall>e. e \<in> set ch \<longleftrightarrow>
      (\<exists>h \<in> set shs. \<exists>b. is_choch s (>) (sh_strength h) (sh_price h) (sh_index h) b \<and>
        e = choch_event s BULLISH (sh_strength h) (sh_price h) (sh_timestamp h) b)"
    using detect_choch_reports(1) [OF wf(1,2) pos] by (elim exE conjE)
  obtain cl where cl: "detect_bearish_choch s sls = Inr cl" "\<forall>e. e \<in> set cl \<longleftrightarrow>
      (\<exists>l \<in> set sls. \<exists>b. is_choch s (<) (sl_strength l) (sl_price l) (sl_index l) b \<and>
        e = choch_event s BEARISH (sl_strength l) (sl_price l) (sl_timestamp l) b)"
    using detect_choch_reports(2) [OF wf(1,2) pos] by (elim exE conjE)
  obtain gs where gs: "detect_fvgs ?config s = Inr gs" "\<forall>e. e \<in> set gs \<longleftrightarrow>
      (\<exists>i a b. i + 2 < ?n \<and> wick_gap s i a b \<and>
        sc_fvg_min_gap_pips ?config \<le> (b - a) / get_pip_value (seq_symbol s) \<and> e = gap_event s i a b)"
    using detect_fvgs_reports [OF wf(1,2), of ?config] by (elim exE conjE)
  obtain ss where ss: "identify_session (c_timestamp (last (seq_candles s))) = Inr ss"
      "st_active_session ss \<in> {LONDON, NEW_YORK, OVERLAP_LONDON_NY} \<longleftrightarrow>
        9 \<le> utc_hour (c_timestamp (last (seq_candles s))) \<and> utc_hour (c_timestamp (last (seq_candles s))) < 21"
    using identify_session_table [of "c_timestamp (last (seq_candles s))"] by (auto split: if_splits)
  have nonempty: "xs \<noteq> [] \<longleftrightarrow> (\<exists>w \<in> W. \<exists>b. P w b)" if "\<forall>e. e \<in> set xs \<longleftrightarrow> (\<exists>w \<in> W. \<exists>b. P w b \<and> e = ev w b)"
    for xs :: "'e list" and W :: "'w set" and P and ev :: "'w \<Rightarrow> nat \<Rightarrow> 'e"
  proof -
    have "xs \<noteq> [] \<longleftrightarrow> (\<exists>e. e \<in> set xs)" by (cases xs) auto
    then show ?thesis unfolding that [rule_format] by blast
  qed
  note ne = nonempty [OF es] nonempty [OF fs] nonempty [OF ch(2)] nonempty [OF cl(2)]
  obtain bi bj where idm: "detect_bullish_inducement ?config s sls = Inr bi" "detect_bearish_inducement ?config s shs = Inr bj"
      and bi: "(\<forall>e \<in> set bi. ie_direction e = BULLISH \<longrightarrow> ie_cleared e) \<longleftrightarrow>
        (\<forall>l \<in> set sls. sl_strength l < 5 \<and> sl_index l + 1 < ?n \<longrightarrow>
          (\<exists>j. sl_index l < j \<and> j < ?n \<and> c_low (seq_candles s ! j) < sl_price l - idm_min_break ?config s))"
      and bj: "(\<forall>e \<in> set bj. ie_direction e = BEARISH \<longrightarrow> ie_cleared e) \<longleftrightarrow>
        (\<forall>h \<in> set shs. sh_strength h < 5 \<and> sh_index h + 1 < ?n \<longrightarrow>
          (\<exists>j. sh_index h < j \<and> j < ?n \<and> sh_price h + idm_min_break ?config s < c_high (seq_candles s ! j)))"
    using inducement_cleared_iff [OF wf(2) pos, of ?config] by (elim exE conjE)
  have checked: "(\<exists>x \<in> set (ss_sweeps st). ls_closed_back_inside x) \<and>
      (if d = BULLISH then ch \<noteq> [] \<and> es \<noteq> [] \<and> (\<forall>e \<in> set bi. ie_direction e = BULLISH \<longrightarrow> ie_cleared e)
       else cl \<noteq> [] \<and> fs \<noteq> [] \<and> (\<forall>e \<in> set bj. ie_direction e = BEARISH \<longrightarrow> ie_cleared e)) \<and>
      lo \<le> c_close (last (seq_candles s)) \<and> c_close (last (seq_candles s)) \<le> up \<and>
      (sc_require_session_timing ?config \<longrightarrow> st_active_session ss \<in> {LONDON, NEW_YORK, OVERLAP_LONDON_NY}) \<and>
      (\<exists>e \<in> set gs. fvg_direction e = d)"
    using run s(2) d
    by (auto simp: run_ltf_checks_def Let_def sw bms ch(1) cl(1) st(1) gs(1) ss(1) idm last_candle_def
        list_ex_iff list_all_iff filter_empty_conv split: if_splits)
  have "(\<exists>x \<in> set (ss_sweeps st). ls_closed_back_inside x) \<Longrightarrow> \<exists>x. genuine_high (lc_sweep_analyzer self)
      (seq_candles s) shs x \<or> genuine_low (lc_sweep_analyzer self) (seq_candles s) sls x"
    using st(2) unfolding sweeps_ok_def by blast
  moreover have gap: "(\<exists>e \<in> set gs. fvg_direction e = d) \<longleftrightarrow> (\<exists>i a b. i + 2 < ?n \<and> wick_gap s i a b \<and>
        sc_fvg_min_gap_pips ?config \<le> (b - a) / get_pip_value (seq_symbol s) \<and> fvg_direction (gap_event s i a b) = d)"
    unfolding Bex_def [of "set gs"] gs(2) [rule_format] by blast
  ultimately show thesis
    using checked unfolding ne gap bi bj ss(2)
    by (intro that [OF sw]) (auto simp: ltf_setup_def Let_def)
qed


text \<open>C8. What a confirmed order rests on, when the broker delivers well-formed candles. The service
  confirms only with at least ten candles on the lower timeframe, on which there are: a genuine
  liquidity sweep, a confirmed break and a change of character in the direction of the trade, no
  internal swing on the other side that is still uncleared, a fair value gap of the minimum size in
  the direction of the trade, and a last close inside the order block. When the session rule is on, that close
  was made between 9:00 and 21:00 UTC. This is less than the London and New York sessions of the
  configuration, which start at 7:00: at 7:00 and 8:00 the Asian and the London window are both open, the
  analyzer names the first one, and the service does not confirm.\<close>

theorem confirmed_setup:
  assumes "valid_service self" and "Direction_of (lq_direction q) = Inr d" and "d = BULLISH \<or> d = BEARISH"
    and "Timeframe_of (lq_ltf_timeframe q) = Inr tf"
    and "\<forall>s. fetch_candles broker now2 (lq_symbol q) tf LTF_LOOKBACK = Some s \<longrightarrow> clean_market s"
    and "confirm self broker str_exc now1 now2 q = Inr r" and "lr_confirmed r"
  shows "\<exists>s shs sls. fetch_candles broker now2 (lq_symbol q) tf LTF_LOOKBACK = Some s \<and> 10 \<le> seq_count s \<and>
     detect_swing_highs (lc_swing_analyzer self) s = Inr shs \<and> detect_swing_lows (lc_swing_analyzer self) s = Inr sls \<and>
     ltf_setup self s d (lq_ob_upper q) (lq_ob_lower q) shs sls"
proof -
  have layer: "ltf_layer self broker now2 q d tf = Inr r"
    using assms(2,4,6,7)
    by (auto simp: confirm_def answer_def split: sum.splits option.splits if_splits)
  then obtain s checks where s: "fetch_candles broker now2 (lq_symbol q) tf LTF_LOOKBACK = Some s" "10 \<le> seq_count s"
      and run: "run_ltf_checks self s d (lq_ob_upper q) (lq_ob_lower q) = Inr checks" "list_all snd checks"
    using assms(7) by (auto simp: ltf_layer_def answer_def not_less split: option.splits if_splits)
  have "clean_market s" "seq_candles s \<noteq> []" using assms(5) s by (auto simp: seq_count_def)
  from ltf_checks_passed [OF assms(1) this assms(3) run] show ?thesis using s by blast
qed

definition ex_ltf_seq :: CandleSequence where
  "ex_ltf_seq = \<lparr>seq_symbol = ''EURUSD'', seq_timeframe = H1, seq_candles =
     [ex_candle 0 10 11 9 10, ex_candle 3600 10 13 9 11, ex_candle 7200 11 12 8 10, ex_candle 10800 10 12 9 11,
      ex_candle 14400 11 16 11 15, ex_candle 18000 15 18 15 17, ex_candle 21600 17 20 16 19,
      ex_candle 25200 19 21 17 20, ex_candle 28800 20 22 18 21, ex_candle 36000 21 25 2 20]\<rparr>"

definition ex_service :: LTFConfirmationService where
  "ex_service = \<lparr>lc_config = default_SMCConfig, lc_swing_analyzer = ex_swing_analyzer,
     lc_sweep_analyzer = \<lparr>sw_min_sweep_pips = 2, sw_turtle_soup_min_pips = 5\<rparr>\<rparr>"

definition ex_request :: LTFConfirmationRequest where
  "ex_request = \<lparr>lq_symbol = ''EURUSD'', lq_direction = ''BULLISH'', lq_ltf_timeframe = ''H1'',
     lq_ob_upper = 21, lq_ob_lower = 19, lq_entry_price = 20, lq_stop_loss = Some 18, lq_htf_timeframe = None\<rparr>"

text \<open>A broker that has only hourly candles, and one that answers every request with them.\<close>

definition ex_broker :: broker where
  "ex_broker symbol tf a b n = Inr (if tf = H1 then Some ex_ltf_seq else None)"

definition ex_broker_all :: broker where
  "ex_broker_all symbol tf a b n = Inr (Some ex_ltf_seq)"

lemma ex_request_enums: "Direction_of (lq_direction ex_request) = Inr BULLISH" "Timeframe_of (lq_ltf_timeframe ex_request) = Inr H1"
    "resolve_htf_timeframe (lq_htf_timeframe ex_request) H1 = Inr (Some H4)"
  by code_simp+

lemma ex_service_valid: "valid_service ex_service" "clean_market ex_ltf_seq" "seq_count ex_ltf_seq = 10"
  by (simp_all add: valid_service_def ex_service_def valid_default_SMCConfig valid_analyzer_def ex_swing_analyzer_def
      clean_market_def ex_ltf_seq_def wf_market_def wf_seq_def wf_candle_def uniform_def seq_count_def)

lemma ex_confirmed:
  "run_ltf_checks ex_service ex_ltf_seq BULLISH 21 19 = Inr [(''liquidity_swept'', True), (''choch_present'', True),
     (''bms_confirmed'', True), (''rto_to_ob'', True), (''session_timing'', True), (''inducement_cleared'', True),
     (''fvg_present'', True)]"
  by code_simp


theorem confirmed_setup_witness:
  "\<exists>r shs sls. confirm ex_service ex_broker (\<lambda>_. '''') 0 0 ex_request = Inr r \<and> lr_confirmed r \<and>
     detect_swing_highs ex_swing_analyzer ex_ltf_seq = Inr shs \<and> detect_swing_lows ex_swing_analyzer ex_ltf_seq = Inr sls \<and>
     ltf_setup ex_service ex_ltf_seq BULLISH 21 19 shs sls"
proof -
  have f: "fetch_candles ex_broker 0 (lq_symbol ex_request) H4 HTF_LOOKBACK = None"
      "fetch_candles ex_broker 0 (lq_symbol ex_request) H1 LTF_LOOKBACK = Some ex_ltf_seq"
    by (simp_all add: fetch_candles_def ex_broker_def Let_def)
  have "run_invalidation_layer ex_service ex_broker 0 (lq_symbol ex_request) BULLISH H4 up lo sl =
      Inr \<lparr>iv_invalidated = False, iv_reason = None, iv_checks = invalidation_checks True True True\<rparr>" for up lo sl
    by (simp add: run_invalidation_layer_def f)
  moreover obtain r where r: "ltf_layer ex_service ex_broker 0 ex_request BULLISH H1 = Inr r" "lr_confirmed r"
    using ex_confirmed ex_service_valid(3) f(2) by (simp add: ltf_layer_def ex_request_def answer_def)
  ultimately have c: "confirm ex_service ex_broker (\<lambda>_. '''') 0 0 ex_request = Inr r"
    by (simp add: confirm_def ex_request_enums)
  from confirmed_setup [OF ex_service_valid(1) ex_request_enums(1) _ ex_request_enums(2) _ c r(2)] ex_service_valid(2) f(2)
  have "\<exists>shs sls. detect_swing_highs ex_swing_analyzer ex_ltf_seq = Inr shs \<and>
      detect_swing_lows ex_swing_analyzer ex_ltf_seq = Inr sls \<and> ltf_setup ex_service ex_ltf_seq BULLISH 21 19 shs sls"
    by (simp add: ex_request_def ex_service_def)
  with c r(2) show ?thesis by blast
qed

theorem confirm_decision_witness:
  "\<exists>r. confirm ex_service ex_broker_all (\<lambda>_. '''') 0 0 ex_request = Inr r \<and> lr_invalidated r \<and> \<not> lr_confirmed r"
proof -
  have f: "fetch_candles ex_broker_all 0 (lq_symbol ex_request) H4 HTF_LOOKBACK = Some ex_ltf_seq"
    by (simp add: fetch_candles_def ex_broker_all_def Let_def)
  have e: "\<exists>c \<in> set (seq_candles ex_ltf_seq). c_close c < lq_ob_lower ex_request" "lq_ob_lower ex_request < lq_ob_upper ex_request"
      "5 \<le> seq_count ex_ltf_seq" "BULLISH = BULLISH \<or> BULLISH = BEARISH"
    using ex_service_valid(3) by (simp_all add: ex_ltf_seq_def ex_request_def)
  show ?thesis
    using confirm_decision [OF ex_service_valid(1) ex_request_enums(1) e(4) ex_request_enums(2,3) f ex_service_valid(2) e(3,2),
        of "\<lambda>_. ''''" 0] e(1)
    by (elim exE conjE) (simp only: simp_thms if_True, blast)
qed

end
