(* ===== verification/Orchestrator.thy ===== *)
theory Orchestrator
  imports SmcDetector SndDetector LtfConfirmation
begin

text \<open>
  The multi-timeframe orchestration of \<^verbatim>\<open>engine/ta/orchestrator.py\<close>: fetching the candles of
  every configured timeframe, the per-timeframe snapshot with all structural detectors, both
  pattern detectors on adjacent timeframes, alignment, the overall trend, the two deduplications,
  persistence and the result that leaves the engine.

  The candle store and the unit of work are the record \<open>ta_store\<close> of functions on a database state
  \<open>'db\<close>, for the user of the call; the broker and the fallback broker are functions as in
  \<^theory_text>\<open>LtfConfirmation\<close>; \<open>now\<close> gives the clock at each fetch, \<open>str_exc\<close> the text of an exception and
  \<open>dump_smc\<close>, \<open>dump_snd\<close> the dictionary pydantic makes of a candidate. Log entries and progress
  pulses are left out. A dictionary filled in a loop is the list of its items.
\<close>

section \<open>Configuration and collaborators\<close>

record TAConfig =
  tac_htf_timeframes :: "Timeframe list"
  tac_ltf_timeframes :: "Timeframe list"

record TAOrchestrator =
  to_smc_detector :: SMCDetector
  to_snd_detector :: SnDDetector
  to_swing_analyzer :: SwingAnalyzer
  to_liquidity_analyzer :: LiquidityAnalyzer
  to_sweep_analyzer :: SweepAnalyzer
  to_dealing_range_analyzer :: DealingRangeAnalyzer
  to_alignment_service :: AlignmentService
  to_config :: TAConfig

record candle_row =
  cr_symbol :: string
  cr_timeframe :: string
  cr_timestamp :: datetime
  cr_open :: price
  cr_high :: price
  cr_low :: price
  cr_close :: price
  cr_volume :: "rat option"

record 'db ta_store =
  tas_find_by_time_range :: "'db \<Rightarrow> string \<Rightarrow> string \<Rightarrow> datetime \<Rightarrow> datetime \<Rightarrow> candle_row list result"
  tas_create_snapshot :: "string \<Rightarrow> string \<Rightarrow> datetime \<Rightarrow> (string \<times> json) list \<Rightarrow> 'db \<Rightarrow> unit result \<times> 'db"
  tas_bulk_create_smc_candidates :: "SMCCandidate list \<Rightarrow> 'db \<Rightarrow> nat result \<times> 'db"
  tas_bulk_create_snd_candidates :: "SnDCandidate list \<Rightarrow> 'db \<Rightarrow> nat result \<times> 'db"
  tas_commit :: "'db \<Rightarrow> unit result \<times> 'db"

section \<open>Fetching candles\<close>

definition adaptive_lookbacks :: "(Timeframe \<times> nat) list" where
  "adaptive_lookbacks = [(MN1, 72), (W1, 250), (D1, 60), (H12, 80), (H8, 100), (H6, 120), (H4, 150),
     (H3, 200), (H1, 300), (M30, 500), (M15, 750), (M5, 1000), (M1, 1500)]"

definition get_adaptive_lookback :: "Timeframe \<Rightarrow> nat \<Rightarrow> nat" where
  "get_adaptive_lookback timeframe default_lookback = dict_get adaptive_lookbacks timeframe default_lookback"

definition calculate_start_time :: "datetime \<Rightarrow> Timeframe \<Rightarrow> nat \<Rightarrow> datetime result" where
  "calculate_start_time end_time timeframe lookback_periods =
     (case map_of TIMEFRAME_MINUTES timeframe of
        None \<Rightarrow> Inl (ValueError (''Unknown timeframe: '' @ Timeframe_value timeframe))
      | Some minutes \<Rightarrow> Inr (end_time - minutes * int lookback_periods * 60))"

text \<open>A broker answer counts when it is a sequence with at least one candle; an exception does not.\<close>

definition usable :: "CandleSequence option result \<Rightarrow> CandleSequence option" where
  "usable r = (case r of Inr (Some s) \<Rightarrow> if 0 < seq_count s then Some s else None | _ \<Rightarrow> None)"

definition candle_of_row :: "candle_row \<Rightarrow> Candle result" where
  "candle_of_row row =
     bindR (Timeframe_of (cr_timeframe row)) (\<lambda>tf.
       mk_Candle (cr_symbol row) tf (cr_timestamp row) (cr_open row) (cr_high row) (cr_low row) (cr_close row)
         (case cr_volume row of Some v \<Rightarrow> v | None \<Rightarrow> 0))"

definition fetch_timeframe ::
  "'db ta_store \<Rightarrow> 'db \<Rightarrow> broker option \<Rightarrow> broker option \<Rightarrow> datetime \<Rightarrow> string \<Rightarrow> Timeframe \<Rightarrow> nat \<Rightarrow>
   CandleSequence option result" where
  "fetch_timeframe store db fallback_client broker end_time symbol timeframe lookback_periods =
     bindR (calculate_start_time end_time timeframe lookback_periods) (\<lambda>start_time.
     bindR (tas_find_by_time_range store db symbol (Timeframe_value timeframe) start_time end_time) (\<lambda>stored_rows.
     let ask = (\<lambda>client. usable (client symbol timeframe start_time end_time lookback_periods));
         fetched = (if of_nat (length stored_rows) < of_nat lookback_periods * (8 / 10 :: rat)
           then (case broker of
               None \<Rightarrow> None
             | Some client \<Rightarrow> (case ask client of
                   Some s \<Rightarrow> Some s
                 | None \<Rightarrow> (case fallback_client of None \<Rightarrow> None | Some fb \<Rightarrow> ask fb)))
           else None)
     in case fetched of
          Some s \<Rightarrow> Inr (Some s)
        | None \<Rightarrow>
            if stored_rows = [] then Inr None
            else bindR (mapR candle_of_row stored_rows) (\<lambda>candles.
                 bindR (mk_CandleSequence symbol timeframe candles) (\<lambda>s. Inr (Some s)))))"

section \<open>The snapshot of a timeframe\<close>

definition order_blocks_of ::
  "SMCConfig \<Rightarrow> CandleSequence \<Rightarrow> BreakInMarketStructure list \<Rightarrow> OrderBlock list result" where
  "order_blocks_of config sequence all_bms =
     bindR (collectR (\<lambda>bms_event.
         if bms_direction bms_event = BULLISH then detect_bullish_ob config sequence bms_event
         else detect_bearish_ob config sequence bms_event) all_bms) (\<lambda>order_blocks.
       Inr (map (\<lambda>ob. if validate_zone_freshness ob sequence then ob else ob\<lparr>ob_mitigated := True\<rparr>) order_blocks))"

definition zones_of :: "('a \<Rightarrow> 'b \<Rightarrow> 'z result) \<Rightarrow> 'a list \<Rightarrow> 'b list \<Rightarrow> 'z list result" where
  "zones_of create levels flips = concatR (map (\<lambda>level. mapR (create level) flips) levels)"

definition fibonacci_of :: "SwingHigh list \<Rightarrow> SwingLow list \<Rightarrow> FibonacciRetracement list result" where
  "fibonacci_of swing_highs swing_lows =
     (case (get_latest_swing_high swing_highs, get_latest_swing_low swing_lows) of
        (Some latest_high, Some latest_low) \<Rightarrow>
          bindR (create_retracement latest_high latest_low (sh_timestamp latest_high < sl_timestamp latest_low))
            (\<lambda>fib. Inr [fib])
      | _ \<Rightarrow> Inr [])"

definition dealing_ranges_of :: "DealingRangeAnalyzer \<Rightarrow> CandleSequence \<Rightarrow> DealingRange list result" where
  "dealing_ranges_of analyzer sequence =
     collectR (\<lambda>session.
       bindR (extract_session_range sequence session) (\<lambda>session_range.
         case session_range of
           None \<Rightarrow> Inr None
         | Some r \<Rightarrow> create_from_session analyzer r)) [ASIA, LONDON, NEW_YORK]"

definition detect_structure :: "TAOrchestrator \<Rightarrow> CandleSequence \<Rightarrow> TechnicalSnapshot result" where
  "detect_structure self sequence =
     (let config = smc_config (to_smc_detector self); marubozu = sdd_marubozu_analyzer (to_snd_detector self) in
      bindR (detect_swing_highs (to_swing_analyzer self) sequence) (\<lambda>swing_highs.
      bindR (detect_swing_lows (to_swing_analyzer self) sequence) (\<lambda>swing_lows.
      bindR (detect_bullish_bms config sequence swing_highs) (\<lambda>bms_bullish.
      bindR (detect_bearish_bms config sequence swing_lows) (\<lambda>bms_bearish.
      bindR (detect_bullish_choch sequence swing_highs) (\<lambda>choch_bullish.
      bindR (detect_bearish_choch sequence swing_lows) (\<lambda>choch_bearish.
      bindR (detect_bullish_sms sequence swing_lows) (\<lambda>sms_bullish.
      bindR (detect_bearish_sms sequence swing_highs) (\<lambda>sms_bearish.
      bindR (detect_fvgs config sequence) (\<lambda>fvgs.
      bindR (order_blocks_of config sequence (bms_bullish @ bms_bearish)) (\<lambda>order_blocks.
      bindR (collectR (detect_breaker_from_ob sequence) order_blocks) (\<lambda>breaker_blocks.
      bindR (detect_bullish_inducement config sequence swing_lows) (\<lambda>inducement_bullish.
      bindR (detect_bearish_inducement config sequence swing_highs) (\<lambda>inducement_bearish.
      bindR (detect_sweeps_in_sequence (to_sweep_analyzer self) sequence swing_highs swing_lows) (\<lambda>liquidity_sweeps.
      bindR (detect_equal_highs (to_liquidity_analyzer self) swing_highs) (\<lambda>equal_highs.
      bindR (detect_equal_lows (to_liquidity_analyzer self) swing_lows) (\<lambda>equal_lows.
      bindR (detect_sr_flips marubozu sequence swing_lows) (\<lambda>sr_flips.
      bindR (detect_rs_flips marubozu sequence swing_highs) (\<lambda>rs_flips.
      bindR (detect_qml sequence swing_highs swing_lows) (\<lambda>qml_levels.
      bindR (detect_qmh sequence swing_lows swing_highs) (\<lambda>qmh_levels.
      bindR (zones_of (\<lambda>qml sr_flip. create_supply_zone sequence (qm_level qml) (qm_timestamp qml)
          (srf_new_resistance_level sr_flip) (srf_timestamp sr_flip)) qml_levels sr_flips) (\<lambda>supply_zones.
      bindR (zones_of (\<lambda>qmh rs_flip. create_demand_zone sequence (qm_level qmh) (qm_timestamp qmh)
          (rsf_new_support_level rs_flip) (rsf_timestamp rs_flip)) qmh_levels rs_flips) (\<lambda>demand_zones.
      bindR (fibonacci_of swing_highs swing_lows) (\<lambda>fibonacci_retracements.
      bindR (dealing_ranges_of (to_dealing_range_analyzer self) sequence) (\<lambda>dealing_ranges.
        build_snapshot (to_swing_analyzer self) sequence (no_events\<lparr>
          ts_bms_events := bms_bullish @ bms_bearish, ts_choch_events := choch_bullish @ choch_bearish,
          ts_sms_events := sms_bullish @ sms_bearish, ts_sr_flips := sr_flips, ts_rs_flips := rs_flips,
          ts_liquidity_sweeps := liquidity_sweeps,
          ts_inducement_events := inducement_bullish @ inducement_bearish,
          ts_equal_highs_lows := equal_highs @ equal_lows, ts_order_blocks := order_blocks, ts_fvgs := fvgs,
          ts_breaker_blocks := breaker_blocks, ts_supply_zones := supply_zones,
          ts_demand_zones := demand_zones, ts_qml_levels := qml_levels @ qmh_levels,
          ts_fibonacci_retracements := fibonacci_retracements,
          ts_dealing_ranges := dealing_ranges\<rparr>))))))))))))))))))))))))))"

text \<open>\<^verbatim>\<open>_build_enriched_snapshot\<close>: any exception is logged and the timeframe has no snapshot.\<close>

definition build_enriched_snapshot :: "TAOrchestrator \<Rightarrow> CandleSequence \<Rightarrow> TechnicalSnapshot option" where
  "build_enriched_snapshot self sequence =
     (case detect_structure self sequence of Inl _ \<Rightarrow> None | Inr snapshot \<Rightarrow> Some snapshot)"

section \<open>Deduplication across timeframe pairs\<close>

definition deduplicate_smc_candidates :: "SMCCandidate list \<Rightarrow> SMCCandidate list" where
  "deduplicate_smc_candidates =
     first_per_key (\<lambda>c. (cd_symbol c, cd_pattern c, cd_direction c, round4 (cd_entry_price c))) {}"

definition deduplicate_snd_candidates :: "SnDCandidate list \<Rightarrow> SnDCandidate list" where
  "deduplicate_snd_candidates =
     first_per_key (\<lambda>c. (sd_symbol c, sd_pattern c, sd_direction c, round4 (sd_entry_price c))) {}"

section \<open>Deduplication by zone\<close>

definition ZONE_PIP_TOLERANCE :: "(Timeframe \<times> rat) list" where
  "ZONE_PIP_TOLERANCE = [(M1, 5), (M5, 5), (M15, 15), (M30, 15), (H1, 30), (H3, 30), (H4, 30), (H6, 30),
     (H8, 30), (H12, 30), (D1, 30), (W1, 30), (MN1, 30)]"

text \<open>\<^verbatim>\<open>int(metadata.get("confluences", 0) or 0)\<close>; the builders store a number.\<close>

definition confluences_of :: "(string \<times> json) list \<Rightarrow> int" where
  "confluences_of metadata =
     (case map_of metadata ''confluences'' of
        Some (JNum x) \<Rightarrow> if 0 \<le> x then \<lfloor>x\<rfloor> else - \<lfloor>- x\<rfloor>
      | Some (JBool b) \<Rightarrow> if b then 1 else 0
      | _ \<Rightarrow> 0)"

definition count_true :: "bool list \<Rightarrow> nat" where
  "count_true flags = length (filter (\<lambda>b. b) flags)"

text \<open>A flag that a candidate does not have counts as false; neither class has an attribute
  \<^verbatim>\<open>sr_rs_flip_detected\<close>.\<close>

definition smc_rank_key :: "SMCCandidate \<Rightarrow> int \<times> nat \<times> price" where
  "smc_rank_key c = (confluences_of (cd_metadata c),
     count_true [cd_bms_detected c, cd_choch_detected c, cd_sms_detected c, cd_liquidity_swept c,
       cd_inducement_cleared c, cd_ltf_confirmation c], cd_entry_price c)"

definition snd_rank_key :: "SnDCandidate \<Rightarrow> int \<times> nat \<times> price" where
  "snd_rank_key c = (confluences_of (sd_metadata c),
     count_true [sd_qml_detected c, sd_mpl_detected c, sd_fakeout_detected c, sd_marubozu_detected c,
       sd_compression_detected c, sd_ltf_confirmation c], sd_entry_price c)"

definition zone_bucket :: "price option \<Rightarrow> price option \<Rightarrow> Timeframe \<Rightarrow> string \<Rightarrow> int option" where
  "zone_bucket lower upper timeframe symbol =
     (case (lower, upper) of
        (Some lo, Some up) \<Rightarrow>
          if lo \<le> 0 \<or> up \<le> 0 then None
          else let midpoint = (lo + up) / 2 in
            if midpoint \<le> 0 then None
            else let pip_value = get_pip_value symbol in
              if pip_value \<le> 0 then None
              else let bucket_width = 2 * dict_get ZONE_PIP_TOLERANCE timeframe 30 * pip_value in
                if bucket_width \<le> 0 then None else Some \<lfloor>midpoint / bucket_width\<rfloor>
      | _ \<Rightarrow> None)"

text \<open>One pass over the candidates: the best one of each bucket, and those without a bucket.\<close>

definition dedupe_by_zone ::
  "('a \<Rightarrow> 'k) \<Rightarrow> ('a \<Rightarrow> int option) \<Rightarrow> ('a \<Rightarrow> 'a \<Rightarrow> bool) \<Rightarrow> 'a list \<Rightarrow> 'a list" where
  "dedupe_by_zone key bucket wins candidates =
     (let (best_in_bucket, bypass) = foldl (\<lambda>(best_in_bucket, bypass) c.
            case bucket c of
              None \<Rightarrow> (best_in_bucket, bypass @ [c])
            | Some b \<Rightarrow> (keep_best (\<lambda>x. (key x, bucket x)) wins best_in_bucket c, bypass))
          ([], []) candidates
      in map snd best_in_bucket @ bypass)"

definition smc_bucket :: "string \<Rightarrow> SMCCandidate \<Rightarrow> int option" where
  "smc_bucket symbol c =
     (let (lower, upper) = (if cd_order_block_lower c = None \<or> cd_order_block_upper c = None
            then (cd_fvg_lower c, cd_fvg_upper c) else (cd_order_block_lower c, cd_order_block_upper c))
      in zone_bucket lower upper (cd_timeframe c) symbol)"

definition snd_bucket :: "string \<Rightarrow> SnDCandidate \<Rightarrow> int option" where
  "snd_bucket symbol c =
     zone_bucket (or_opt (sd_supply_zone_lower c) (sd_demand_zone_lower c))
       (or_opt (sd_supply_zone_upper c) (sd_demand_zone_upper c)) (sd_timeframe c) symbol"

definition dedupe_smc_candidates_by_zone :: "string \<Rightarrow> SMCCandidate list \<Rightarrow> SMCCandidate list" where
  "dedupe_smc_candidates_by_zone symbol =
     dedupe_by_zone (\<lambda>c. (cd_timeframe c, cd_direction c)) (smc_bucket symbol)
       (\<lambda>c existing. smc_rank_key existing < smc_rank_key c)"

definition dedupe_snd_candidates_by_zone :: "string \<Rightarrow> SnDCandidate list \<Rightarrow> SnDCandidate list" where
  "dedupe_snd_candidates_by_zone symbol =
     dedupe_by_zone (\<lambda>c. (sd_timeframe c, sd_direction c)) (snd_bucket symbol)
       (\<lambda>c existing. snd_rank_key existing < snd_rank_key c)"

section \<open>Serializers\<close>

abbreviation jnat :: "nat \<Rightarrow> json" where
  "jnat n \<equiv> JNum (of_nat n)"

abbreviation jtime :: "datetime \<Rightarrow> json" where
  "jtime t \<equiv> JStr (isoformat t)"

abbreviation jdir :: "Direction \<Rightarrow> json" where
  "jdir d \<equiv> JStr (Direction_value d)"

definition serialize_swing_highs :: "SwingHigh list \<Rightarrow> json" where
  "serialize_swing_highs swing_highs = JList (map (\<lambda>sh. JObj [(''price'', JNum (sh_price sh)),
     (''timestamp'', jtime (sh_timestamp sh)), (''strength'', jnat (sh_strength sh))]) swing_highs)"

definition serialize_swing_lows :: "SwingLow list \<Rightarrow> json" where
  "serialize_swing_lows swing_lows = JList (map (\<lambda>sl. JObj [(''price'', JNum (sl_price sl)),
     (''timestamp'', jtime (sl_timestamp sl)), (''strength'', jnat (sl_strength sl))]) swing_lows)"

definition serialize_bms_events :: "BreakInMarketStructure list \<Rightarrow> json" where
  "serialize_bms_events bms_events = JList (map (\<lambda>bms. JObj
     [(''breakout_price'', JNum (bms_breakout_price bms)), (''broken_level'', JNum (bms_broken_level bms)),
      (''timestamp'', jtime (bms_timestamp bms)), (''direction'', jdir (bms_direction bms)),
      (''displacement_pips'', JNum (bms_displacement_pips bms)), (''confirmed'', JBool (bms_confirmed bms))]) bms_events)"

definition serialize_choch_events :: "ChangeOfCharacter list \<Rightarrow> json" where
  "serialize_choch_events choch_events = JList (map (\<lambda>choch. JObj
     [(''breakout_price'', JNum (coc_breakout_price choch)), (''broken_level'', JNum (coc_broken_level choch)),
      (''timestamp'', jtime (coc_timestamp choch)), (''direction'', jdir (coc_direction choch)),
      (''is_minor'', JBool (coc_is_minor choch))]) choch_events)"

definition serialize_sms_events :: "ShiftInMarketStructure list \<Rightarrow> json" where
  "serialize_sms_events sms_events = JList (map (\<lambda>sms. JObj
     [(''failed_level'', JNum (sms_failed_level sms)), (''reversal_price'', JNum (sms_reversal_price sms)),
      (''timestamp'', jtime (sms_timestamp sms)), (''direction'', jdir (sms_direction sms)),
      (''is_failure_swing'', JBool (sms_is_failure_swing sms))]) sms_events)"

definition serialize_order_blocks :: "OrderBlock list \<Rightarrow> json" where
  "serialize_order_blocks order_blocks = JList (map (\<lambda>ob. JObj
     [(''upper_bound'', JNum (ob_upper_bound ob)), (''lower_bound'', JNum (ob_lower_bound ob)),
      (''timestamp'', jtime (ob_timestamp ob)), (''direction'', jdir (ob_direction ob)),
      (''displacement_pips'', JNum (ob_displacement_pips ob)), (''is_breaker'', JBool (ob_is_breaker ob)),
      (''mitigated'', JBool (ob_mitigated ob))]) order_blocks)"

definition serialize_fvgs :: "FairValueGap list \<Rightarrow> json" where
  "serialize_fvgs fvgs = JList (map (\<lambda>fvg. JObj
     [(''upper_bound'', JNum (fvg_upper_bound fvg)), (''lower_bound'', JNum (fvg_lower_bound fvg)),
      (''timestamp'', jtime (fvg_timestamp fvg)), (''direction'', jdir (fvg_direction fvg)),
      (''filled'', JBool (fvg_filled fvg))]) fvgs)"

definition serialize_breaker_blocks :: "BreakerBlock list \<Rightarrow> json" where
  "serialize_breaker_blocks breaker_blocks = JList (map (\<lambda>bb. JObj
     [(''upper_bound'', JNum (bb_upper_bound bb)), (''lower_bound'', JNum (bb_lower_bound bb)),
      (''timestamp'', jtime (bb_timestamp bb)), (''direction'', jdir (bb_direction bb)),
      (''original_ob_timestamp'', jtime (bb_original_ob_timestamp bb)),
      (''broken_timestamp'', jtime (bb_broken_timestamp bb)), (''mitigated'', JBool (bb_mitigated bb))]) breaker_blocks)"

definition serialize_sweeps :: "LiquiditySweep list \<Rightarrow> json" where
  "serialize_sweeps sweeps = JList (map (\<lambda>sweep. JObj
     [(''swept_level'', JNum (ls_swept_level sweep)), (''timestamp'', jtime (ls_timestamp sweep)),
      (''liquidity_type'', JStr (LiquidityType_value (ls_liquidity_type sweep))),
      (''sweep_pips'', JNum (ls_sweep_pips sweep)), (''closed_back_inside'', JBool (ls_closed_back_inside sweep))]) sweeps)"

definition serialize_inducements :: "InducementEvent list \<Rightarrow> json" where
  "serialize_inducements inducements = JList (map (\<lambda>ind. JObj
     [(''inducement_level'', JNum (ie_inducement_level ind)), (''timestamp'', jtime (ie_timestamp ind)),
      (''direction'', jdir (ie_direction ind)), (''cleared'', JBool (ie_cleared ind)),
      (''cleared_timestamp'', json_time (ie_cleared_timestamp ind)),
      (''is_internal'', JBool (ie_is_internal ind))]) inducements)"

definition serialize_equal_highs_lows :: "EqualHighsLows list \<Rightarrow> json" where
  "serialize_equal_highs_lows equal_highs_lows = JList (map (\<lambda>ehl. JObj
     [(''price_level'', JNum (eq_price_level ehl)),
      (''liquidity_type'', JStr (LiquidityType_value (eq_liquidity_type ehl))),
      (''touch_count'', jnat (eq_touch_count ehl)), (''timestamps'', JList (map jtime (eq_timestamps ehl))),
      (''tolerance_pips'', JNum (eq_tolerance_pips ehl)), (''swept'', JBool (eq_swept ehl))]) equal_highs_lows)"

definition serialize_liquidity_grabs :: "LiquidityGrab list \<Rightarrow> json" where
  "serialize_liquidity_grabs liquidity_grabs = JList (map (\<lambda>grab. JObj
     [(''grab_price'', JNum (lg_grab_price grab)), (''grabbed_level'', JNum (lg_grabbed_level grab)),
      (''timestamp'', jtime (lg_timestamp grab)), (''direction'', jdir (lg_direction grab)),
      (''reversal_price'', json_price (lg_reversal_price grab)), (''confirmed'', JBool (lg_confirmed grab))]) liquidity_grabs)"

text \<open>A level without the times of its two swings has no \<^verbatim>\<open>isoformat\<close>.\<close>

definition serialize_qm_levels :: "QuasiModoLevel list \<Rightarrow> json result" where
  "serialize_qm_levels qm_levels =
     bindR (mapR (\<lambda>qm. case (qm_h_timestamp qm, qm_hh_timestamp qm) of
         (Some h, Some hh) \<Rightarrow> Inr (JObj
           [(''qml_price'', JNum (qm_qml_price qm)), (''timestamp'', jtime (qm_timestamp qm)),
            (''direction'', jdir (qm_direction qm)), (''h_price'', json_price (qm_h_price qm)),
            (''hh_price'', json_price (qm_hh_price qm)), (''h_timestamp'', jtime h), (''hh_timestamp'', jtime hh),
            (''tested'', JBool (qm_tested qm))])
       | _ \<Rightarrow> Inl AttributeError) qm_levels) (\<lambda>items. Inr (JList items))"

definition serialize_sr_flips :: "SRFlip list \<Rightarrow> json" where
  "serialize_sr_flips sr_flips = JList (map (\<lambda>sr. JObj
     [(''flip_level'', JNum (srf_original_support_level sr)), (''breakout_price'', JNum (srf_breakout_price sr)),
      (''timestamp'', jtime (srf_timestamp sr)), (''previous_role'', JStr ''SUPPORT''),
      (''new_role'', JStr ''RESISTANCE'')]) sr_flips)"

definition serialize_rs_flips :: "RSFlip list \<Rightarrow> json" where
  "serialize_rs_flips rs_flips = JList (map (\<lambda>rs. JObj
     [(''flip_level'', JNum (rsf_original_resistance_level rs)), (''breakout_price'', JNum (rsf_breakout_price rs)),
      (''timestamp'', jtime (rsf_timestamp rs)), (''previous_role'', JStr ''RESISTANCE''),
      (''new_role'', JStr ''SUPPORT'')]) rs_flips)"

definition serialize_mpl_levels :: "MiniPriceLevel list \<Rightarrow> json" where
  "serialize_mpl_levels mpl_levels = JList (map (\<lambda>m. JObj
     [(''mpl_price'', JNum (mpl_price m)), (''timestamp'', jtime (mpl_timestamp m)),
      (''direction'', jdir (mpl_direction m)), (''has_internal_structure'', JBool (mpl_has_internal_structure m)),
      (''tested'', JBool (mpl_tested m))]) mpl_levels)"

definition serialize_supply_zones :: "SupplyZone list \<Rightarrow> json" where
  "serialize_supply_zones supply_zones = JList (map (\<lambda>sz. JObj
     [(''upper_bound'', JNum (sz_upper_bound sz)), (''lower_bound'', JNum (sz_lower_bound sz)),
      (''timestamp'', jtime (sz_timestamp sz)), (''strength'', jnat (sz_strength sz)), (''tested'', JBool (sz_tested sz)),
      (''test_count'', jnat (sz_test_count sz)), (''broken'', JBool (sz_broken sz))]) supply_zones)"

definition serialize_demand_zones :: "DemandZone list \<Rightarrow> json" where
  "serialize_demand_zones demand_zones = JList (map (\<lambda>dz. JObj
     [(''upper_bound'', JNum (dz_upper_bound dz)), (''lower_bound'', JNum (dz_lower_bound dz)),
      (''timestamp'', jtime (dz_timestamp dz)), (''strength'', jnat (dz_strength dz)), (''tested'', JBool (dz_tested dz)),
      (''test_count'', jnat (dz_test_count dz)), (''broken'', JBool (dz_broken dz))]) demand_zones)"

definition serialize_fibonacci :: "FibonacciRetracement list \<Rightarrow> json" where
  "serialize_fibonacci fibonacci_retracements = JList (map (\<lambda>fib. JObj
     [(''swing_high'', JNum (fr_swing_high fib)), (''swing_low'', JNum (fr_swing_low fib)),
      (''swing_high_timestamp'', jtime (fr_swing_high_timestamp fib)),
      (''swing_low_timestamp'', jtime (fr_swing_low_timestamp fib)), (''is_bullish'', JBool (fr_is_bullish fib)),
      (''range_size'', JNum (fr_range_size fib))]) fibonacci_retracements)"

definition serialize_dealing_ranges :: "DealingRange list \<Rightarrow> json" where
  "serialize_dealing_ranges dealing_ranges = JList (map (\<lambda>dr. JObj
     [(''high'', JNum (dr_high dr)), (''low'', JNum (dr_low dr)), (''equilibrium'', JNum (dr_equilibrium dr)),
      (''start_time'', jtime (dr_start_time dr)), (''end_time'', json_time (dr_end_time dr)),
      (''range_size'', JNum (dr_range_size dr))]) dealing_ranges)"

section \<open>Snapshots for the prompt and the database\<close>

definition LTF_TIMEFRAMES :: "Timeframe set" where
  "LTF_TIMEFRAMES = {M30, M15, M5, M1}"

definition LTF_NOISE_TIMEFRAMES :: "Timeframe set" where
  "LTF_NOISE_TIMEFRAMES = {M1, M5}"

definition swing_cap_for :: "Timeframe \<Rightarrow> nat" where
  "swing_cap_for tf = (if tf \<in> LTF_TIMEFRAMES then 5 else 8)"

definition array_cap_for :: "Timeframe \<Rightarrow> nat" where
  "array_cap_for tf = (if tf \<in> LTF_NOISE_TIMEFRAMES then 3 else 5)"

definition serialize_snapshot :: "TechnicalSnapshot \<Rightarrow> (string \<times> json) list result" where
  "serialize_snapshot snapshot =
     (let tf = ts_timeframe snapshot; swing_cap = swing_cap_for tf; arr_cap = array_cap_for tf;
          live_obs = filter (\<lambda>ob. \<not> ob_mitigated ob) (ts_order_blocks snapshot);
          live_breakers = filter (\<lambda>bb. \<not> bb_mitigated bb) (ts_breaker_blocks snapshot);
          live_fvgs = filter (\<lambda>fvg. \<not> fvg_filled fvg) (ts_fvgs snapshot);
          live_qms = filter (\<lambda>qm. \<not> qm_tested qm) (ts_qml_levels snapshot);
          live_mpls = filter (\<lambda>mpl. \<not> mpl_tested mpl) (ts_mpl_levels snapshot);
          live_supply = filter (\<lambda>sz. \<not> sz_broken sz) (ts_supply_zones snapshot);
          live_demand = filter (\<lambda>dz. \<not> dz_broken dz) (ts_demand_zones snapshot)
      in bindR (serialize_qm_levels (last_n arr_cap live_qms)) (\<lambda>qm_levels. Inr (
        [(''timestamp'', jtime (ts_timestamp snapshot)), (''trend_direction'', jdir (ts_trend_direction snapshot)),
         (''swing_highs'', serialize_swing_highs (last_n swing_cap (ts_swing_highs snapshot))),
         (''swing_lows'', serialize_swing_lows (last_n swing_cap (ts_swing_lows snapshot))),
         (''bms_events'', serialize_bms_events (last_n arr_cap (ts_bms_events snapshot))),
         (''choch_events'', serialize_choch_events (last_n arr_cap (ts_choch_events snapshot))),
         (''sms_events'', serialize_sms_events (last_n arr_cap (ts_sms_events snapshot))),
         (''order_blocks'', serialize_order_blocks (last_n arr_cap live_obs)),
         (''fair_value_gaps'', serialize_fvgs (last_n arr_cap live_fvgs)),
         (''breaker_blocks'', serialize_breaker_blocks (last_n arr_cap live_breakers)),
         (''liquidity_sweeps'', serialize_sweeps (last_n arr_cap (ts_liquidity_sweeps snapshot))),
         (''inducement_events'', serialize_inducements (last_n arr_cap (ts_inducement_events snapshot))),
         (''qm_levels'', qm_levels),
         (''sr_flips'', serialize_sr_flips (last_n arr_cap (ts_sr_flips snapshot))),
         (''rs_flips'', serialize_rs_flips (last_n arr_cap (ts_rs_flips snapshot))),
         (''mpl_levels'', serialize_mpl_levels (last_n arr_cap live_mpls)),
         (''supply_zones'', serialize_supply_zones (last_n arr_cap live_supply)),
         (''demand_zones'', serialize_demand_zones (last_n arr_cap live_demand))] @
        (if tf \<in> LTF_NOISE_TIMEFRAMES then []
         else [(''equal_highs_lows'', serialize_equal_highs_lows (last_n arr_cap (ts_equal_highs_lows snapshot))),
               (''liquidity_grabs'', serialize_liquidity_grabs (last_n arr_cap (ts_liquidity_grabs snapshot))),
               (''fibonacci_retracements'', serialize_fibonacci (last_n 1 (ts_fibonacci_retracements snapshot))),
               (''dealing_ranges'', serialize_dealing_ranges (last_n 1 (ts_dealing_ranges snapshot)))]))))"

text \<open>\<^verbatim>\<open>_build_snapshot_metadata\<close>. A \<^verbatim>\<open>DealingRange\<close> has no attributes \<^verbatim>\<open>premium\<close> and
  \<^verbatim>\<open>discount\<close>, so \<^verbatim>\<open>getattr\<close> gives \<^verbatim>\<open>None\<close> for both and the key
  \<^verbatim>\<open>dealing_range\<close> is never set.\<close>

definition build_snapshot_metadata :: "TechnicalSnapshot \<Rightarrow> (string \<times> json) list" where
  "build_snapshot_metadata snapshot =
     [(''trend_direction'', jdir (ts_trend_direction snapshot)),
      (''live_order_block_count'', jnat (length (filter (\<lambda>ob. \<not> ob_mitigated ob) (ts_order_blocks snapshot)))),
      (''live_breaker_block_count'', jnat (length (filter (\<lambda>bb. \<not> bb_mitigated bb) (ts_breaker_blocks snapshot)))),
      (''live_fvg_count'', jnat (length (filter (\<lambda>fvg. \<not> fvg_filled fvg) (ts_fvgs snapshot)))),
      (''live_qm_count'', jnat (length (filter (\<lambda>qm. \<not> qm_tested qm) (ts_qml_levels snapshot)))),
      (''live_mpl_count'', jnat (length (filter (\<lambda>mpl. \<not> mpl_tested mpl) (ts_mpl_levels snapshot)))),
      (''swing_high_count'', jnat (length (ts_swing_highs snapshot))),
      (''swing_low_count'', jnat (length (ts_swing_lows snapshot)))]"

definition snapshot_columns :: "TechnicalSnapshot \<Rightarrow> (string \<times> json) list result" where
  "snapshot_columns snapshot =
     bindR (serialize_qm_levels (ts_qml_levels snapshot)) (\<lambda>qm_levels. Inr
       [(''swing_highs'', serialize_swing_highs (ts_swing_highs snapshot)),
        (''swing_lows'', serialize_swing_lows (ts_swing_lows snapshot)),
        (''bms_events'', serialize_bms_events (ts_bms_events snapshot)),
        (''choch_events'', serialize_choch_events (ts_choch_events snapshot)),
        (''sms_events'', serialize_sms_events (ts_sms_events snapshot)),
        (''order_blocks'', serialize_order_blocks (ts_order_blocks snapshot)),
        (''fair_value_gaps'', serialize_fvgs (ts_fvgs snapshot)),
        (''liquidity_sweeps'', serialize_sweeps (ts_liquidity_sweeps snapshot)),
        (''inducement_events'', serialize_inducements (ts_inducement_events snapshot)),
        (''qm_levels'', qm_levels),
        (''sr_flips'', serialize_sr_flips (ts_sr_flips snapshot)),
        (''rs_flips'', serialize_rs_flips (ts_rs_flips snapshot)),
        (''previous_levels'', serialize_equal_highs_lows (ts_equal_highs_lows snapshot)),
        (''mpl_levels'', serialize_mpl_levels (ts_mpl_levels snapshot)),
        (''fakeout_tests'', serialize_liquidity_grabs (ts_liquidity_grabs snapshot)),
        (''supply_zones'', serialize_supply_zones (ts_supply_zones snapshot)),
        (''demand_zones'', serialize_demand_zones (ts_demand_zones snapshot)),
        (''fibonacci_retracements'', serialize_fibonacci (ts_fibonacci_retracements snapshot)),
        (''breaker_blocks'', serialize_breaker_blocks (ts_breaker_blocks snapshot)),
        (''dealing_ranges'', serialize_dealing_ranges (ts_dealing_ranges snapshot)),
        (''metadata'', JObj (build_snapshot_metadata snapshot))])"

text \<open>Persistence: a snapshot or a bulk insert that fails is logged and skipped; leaving the unit of
  work commits and may raise.\<close>

definition persist_snapshot :: "'db ta_store \<Rightarrow> TechnicalSnapshot \<Rightarrow> 'db \<Rightarrow> 'db" where
  "persist_snapshot store snapshot db =
     (case snapshot_columns snapshot of
        Inl _ \<Rightarrow> db
      | Inr columns \<Rightarrow> snd (tas_create_snapshot store (ts_symbol snapshot)
          (Timeframe_value (ts_timeframe snapshot)) (ts_timestamp snapshot) columns db))"

definition persist_all_results ::
  "'db ta_store \<Rightarrow> TechnicalSnapshot list \<Rightarrow> SMCCandidate list \<Rightarrow> SnDCandidate list \<Rightarrow> 'db \<Rightarrow> unit result \<times> 'db" where
  "persist_all_results store snapshots smc_candidates snd_candidates db =
     (let db1 = foldl (\<lambda>d s. persist_snapshot store s d) db snapshots;
          db2 = snd (tas_bulk_create_smc_candidates store smc_candidates db1);
          db3 = snd (tas_bulk_create_snd_candidates store snd_candidates db2)
      in tas_commit store db3)"

section \<open>The result\<close>

definition dead_order_blocks :: "TechnicalSnapshot list \<Rightarrow> (Timeframe \<times> datetime) set" where
  "dead_order_blocks snapshots = set (concat (map (\<lambda>snap.
     map (\<lambda>ob. (ts_timeframe snap, ob_timestamp ob)) (filter ob_mitigated (ts_order_blocks snap))) snapshots))"

definition dead_fvgs :: "TechnicalSnapshot list \<Rightarrow> (Timeframe \<times> datetime) set" where
  "dead_fvgs snapshots = set (concat (map (\<lambda>snap.
     map (\<lambda>fvg. (ts_timeframe snap, fvg_timestamp fvg)) (filter fvg_filled (ts_fvgs snap))) snapshots))"

definition dead_qms :: "TechnicalSnapshot list \<Rightarrow> (Timeframe \<times> datetime) set" where
  "dead_qms snapshots = set (concat (map (\<lambda>snap.
     map (\<lambda>qm. (ts_timeframe snap, qm_timestamp qm)) (filter qm_tested (ts_qml_levels snap))) snapshots))"

definition smc_is_live :: "TechnicalSnapshot list \<Rightarrow> SMCCandidate \<Rightarrow> bool" where
  "smc_is_live snapshots c =
     (if (case cd_order_block_timestamp c of None \<Rightarrow> False
          | Some t \<Rightarrow> (cd_ltf_timeframe c, t) \<in> dead_order_blocks snapshots) then False
      else if (case cd_fvg_timestamp c of None \<Rightarrow> False
          | Some t \<Rightarrow> (cd_ltf_timeframe c, t) \<in> dead_fvgs snapshots) then False
      else True)"

definition snd_is_live :: "TechnicalSnapshot list \<Rightarrow> SnDCandidate \<Rightarrow> bool" where
  "snd_is_live snapshots c =
     (if (case sd_qml_timestamp c of None \<Rightarrow> False
          | Some t \<Rightarrow> (sd_htf_timeframe c, t) \<in> dead_qms snapshots) then False else True)"

definition flatten_alignment :: "(string \<times> json) list \<Rightarrow> (string \<times> json) list" where
  "flatten_alignment pair_data =
     (let metadata = (case map_of pair_data ''alignment_metadata'' of Some (JObj kvs) \<Rightarrow> kvs | _ \<Rightarrow> []);
          flat_entry = filter (\<lambda>(k, v). k \<noteq> ''alignment_metadata'') pair_data
      in case map_of metadata ''zones_nested'' of
           None \<Rightarrow> flat_entry
         | Some JNull \<Rightarrow> flat_entry
         | Some z \<Rightarrow> AList.update ''zones_nested'' z flat_entry)"

record ta_result =
  ar_status :: string
  ar_symbol :: string
  ar_htf_timeframes :: "string list"
  ar_ltf_timeframes :: "string list"
  ar_snapshots :: "(string \<times> (string \<times> json) list) list"
  ar_smc_candidates :: "(string \<times> json) list list"
  ar_snd_candidates :: "(string \<times> json) list list"
  ar_smc_candidates_count :: nat
  ar_snd_candidates_count :: nat
  ar_alignment :: "(string \<times> (string \<times> json) list) list"
  ar_overall_trend :: string
  ar_error :: "string option"

text \<open>What \<^verbatim>\<open>analyze\<close> passes on: the snapshots, both candidate lists, the alignments and the
  trend.\<close>

record findings =
  fi_snapshots :: "(Timeframe \<times> TechnicalSnapshot) list"
  fi_smc_candidates :: "SMCCandidate list"
  fi_snd_candidates :: "SnDCandidate list"
  fi_alignments :: "(string \<times> (string \<times> json) list) list"
  fi_overall_trend :: string

definition no_findings :: findings where
  "no_findings = \<lparr>fi_snapshots = [], fi_smc_candidates = [], fi_snd_candidates = [], fi_alignments = [],
     fi_overall_trend = ''NEUTRAL''\<rparr>"

definition reported_smc :: "string \<Rightarrow> findings \<Rightarrow> SMCCandidate list" where
  "reported_smc symbol f = dedupe_smc_candidates_by_zone symbol
     (filter (smc_is_live (map snd (fi_snapshots f))) (fi_smc_candidates f))"

definition reported_snd :: "string \<Rightarrow> findings \<Rightarrow> SnDCandidate list" where
  "reported_snd symbol f = dedupe_snd_candidates_by_zone symbol
     (filter (snd_is_live (map snd (fi_snapshots f))) (fi_snd_candidates f))"

definition dump_without_symbol :: "(string \<times> json) list \<Rightarrow> (string \<times> json) list" where
  "dump_without_symbol d = filter (\<lambda>(k, v). k \<noteq> ''symbol'') d"

record dumps =
  dump_smc :: "SMCCandidate \<Rightarrow> (string \<times> json) list"
  dump_snd :: "SnDCandidate \<Rightarrow> (string \<times> json) list"

definition build_result ::
  "dumps \<Rightarrow> string \<Rightarrow> string \<Rightarrow> Timeframe list \<Rightarrow> Timeframe list \<Rightarrow> findings \<Rightarrow> string option \<Rightarrow> ta_result result" where
  "build_result dumps symbol status htf_timeframes ltf_timeframes f error =
     (let ordered_for_prompt = sort_key (\<lambda>kv. tf_minutes (fst kv)) (fi_snapshots f);
          deduped_smc = reported_smc symbol f;
          deduped_snd = reported_snd symbol f
      in bindR (mapR (\<lambda>(tf, snap). bindR (serialize_snapshot snap) (\<lambda>j. Inr (Timeframe_value tf, j)))
           ordered_for_prompt) (\<lambda>serialized_snapshots. Inr
         \<lparr>ar_status = status, ar_symbol = symbol, ar_htf_timeframes = map Timeframe_value htf_timeframes,
          ar_ltf_timeframes = map Timeframe_value ltf_timeframes, ar_snapshots = serialized_snapshots,
          ar_smc_candidates = map (\<lambda>c. dump_without_symbol (dump_smc dumps c)) deduped_smc,
          ar_snd_candidates = map (\<lambda>c. dump_without_symbol (dump_snd dumps c)) deduped_snd,
          ar_smc_candidates_count = length deduped_smc, ar_snd_candidates_count = length deduped_snd,
          ar_alignment = map (\<lambda>(k, d). (k, flatten_alignment d)) (fi_alignments f),
          ar_overall_trend = fi_overall_trend f, ar_error = error\<rparr>))"

section \<open>The analysis\<close>

definition run_smc_detection :: "TAOrchestrator \<Rightarrow> CandleSequence \<Rightarrow> CandleSequence \<Rightarrow> SMCCandidate list result" where
  "run_smc_detection self htf_sequence ltf_sequence =
     smc_detect_patterns (to_smc_detector self) htf_sequence ltf_sequence"

definition run_snd_detection :: "TAOrchestrator \<Rightarrow> CandleSequence \<Rightarrow> CandleSequence \<Rightarrow> SnDCandidate list result" where
  "run_snd_detection self htf_sequence ltf_sequence =
     snd_detect_patterns (to_snd_detector self) htf_sequence ltf_sequence"

text \<open>The adjacent pairs of a list, and those on which the detectors run: within the higher
  timeframes, within the lower ones, and across the boundary.\<close>

definition adjacent :: "'a list \<Rightarrow> ('a \<times> 'a) list" where
  "adjacent xs = zip xs (tl xs)"

definition detection_pairs :: "Timeframe list \<Rightarrow> Timeframe list \<Rightarrow> (Timeframe \<times> Timeframe) list" where
  "detection_pairs available_htfs available_ltfs =
     adjacent available_htfs @ adjacent available_ltfs @
     (if available_htfs \<noteq> [] \<and> available_ltfs \<noteq> [] \<and> is_htf_of (last available_htfs) (hd available_ltfs)
      then [(last available_htfs, hd available_ltfs)] else [])"

definition detect_pair ::
  "TAOrchestrator \<Rightarrow> (Timeframe \<times> CandleSequence) list \<Rightarrow> Timeframe \<times> Timeframe \<Rightarrow>
   SMCCandidate list \<times> SnDCandidate list \<Rightarrow> (SMCCandidate list \<times> SnDCandidate list) result" where
  "detect_pair self sequences pair acc =
     (case (map_of sequences (fst pair), map_of sequences (snd pair)) of
        (Some higher, Some lower) \<Rightarrow>
          bindR (run_smc_detection self higher lower) (\<lambda>smc.
          bindR (run_snd_detection self higher lower) (\<lambda>snd_list.
            Inr (fst acc @ smc, snd acc @ snd_list)))
      | _ \<Rightarrow> Inl KeyError)"

definition alignment_entry :: "Timeframe \<Rightarrow> Timeframe \<Rightarrow> MultiTimeframeSnapshot \<Rightarrow> (string \<times> json) list" where
  "alignment_entry higher_tf lower_tf m =
     [(''htf_timeframe'', JStr (Timeframe_value higher_tf)), (''ltf_timeframe'', JStr (Timeframe_value lower_tf)),
      (''trends_aligned'', JBool (mts_trends_aligned m)), (''htf_ltf_aligned'', JBool (mts_htf_ltf_aligned m)),
      (''htf_trend'', jdir (mts_htf_trend m)), (''ltf_trend'', jdir (mts_ltf_trend m)),
      (''alignment_metadata'', JObj (mts_alignment_metadata m))]"

definition align_pair ::
  "TAOrchestrator \<Rightarrow> (Timeframe \<times> TechnicalSnapshot) list \<Rightarrow> Timeframe \<times> Timeframe \<Rightarrow>
   (string \<times> (string \<times> json) list) list \<Rightarrow> (string \<times> (string \<times> json) list) list result" where
  "align_pair self snapshots pair alignments =
     (case (map_of snapshots (fst pair), map_of snapshots (snd pair)) of
        (Some higher, Some lower) \<Rightarrow>
          bindR (check_alignment (to_alignment_service self) higher lower) (\<lambda>m.
            Inr (AList.update (Timeframe_value (fst pair) @ ''_'' @ Timeframe_value (snd pair))
              (alignment_entry (fst pair) (snd pair) m) alignments))
      | _ \<Rightarrow> Inl KeyError)"

definition determine_overall_trend :: "(Timeframe \<times> TechnicalSnapshot) list \<Rightarrow> Timeframe list \<Rightarrow> string" where
  "determine_overall_trend snapshots ordered_tfs =
     (case find (\<lambda>d. d \<noteq> NEUTRAL)
        (List.map_filter (\<lambda>tf. map_option ts_trend_direction (map_of snapshots tf)) ordered_tfs) of
        Some d \<Rightarrow> Direction_value d | None \<Rightarrow> Direction_value NEUTRAL)"

definition fetch_all ::
  "'db ta_store \<Rightarrow> 'db \<Rightarrow> broker option \<Rightarrow> broker \<Rightarrow> (Timeframe \<Rightarrow> datetime) \<Rightarrow> string \<Rightarrow> nat \<Rightarrow> Timeframe list \<Rightarrow>
   (Timeframe \<times> CandleSequence) list result" where
  "fetch_all store db fallback_client broker now symbol lookback_periods all_timeframes =
     foldR (\<lambda>tf sequences.
       bindR (fetch_timeframe store db fallback_client (Some broker) (now tf) symbol tf
           (get_adaptive_lookback tf lookback_periods)) (\<lambda>fetched.
         Inr (case fetched of None \<Rightarrow> sequences | Some s \<Rightarrow> AList.update tf s sequences))) all_timeframes []"

definition snapshots_of ::
  "TAOrchestrator \<Rightarrow> (Timeframe \<times> CandleSequence) list \<Rightarrow> (Timeframe \<times> TechnicalSnapshot) list" where
  "snapshots_of self sequences =
     List.map_filter (\<lambda>(tf, s). map_option (Pair tf) (build_enriched_snapshot self s)) sequences"

text \<open>Phases 3 to 8.\<close>

definition collect_findings ::
  "TAOrchestrator \<Rightarrow> Timeframe list \<Rightarrow> Timeframe list \<Rightarrow> (Timeframe \<times> CandleSequence) list \<Rightarrow>
   (Timeframe \<times> TechnicalSnapshot) list \<Rightarrow> findings result" where
  "collect_findings self htf_timeframes ltf_timeframes sequences snapshots =
     (let available_htfs = filter (\<lambda>tf. tf \<in> fst ` set sequences) htf_timeframes;
          available_ltfs = filter (\<lambda>tf. tf \<in> fst ` set sequences) ltf_timeframes;
          ordered_tfs = filter (\<lambda>tf. tf \<in> fst ` set snapshots) (htf_timeframes @ ltf_timeframes)
      in bindR (foldR (detect_pair self sequences) (detection_pairs available_htfs available_ltfs) ([], []))
           (\<lambda>(all_smc, all_snd).
         bindR (foldR (align_pair self snapshots) (adjacent ordered_tfs) []) (\<lambda>alignments. Inr
           \<lparr>fi_snapshots = snapshots, fi_smc_candidates = deduplicate_smc_candidates all_smc,
            fi_snd_candidates = deduplicate_snd_candidates all_snd, fi_alignments = alignments,
            fi_overall_trend = determine_overall_trend snapshots ordered_tfs\<rparr>)))"

text \<open>The body of the \<^verbatim>\<open>try\<close> statement.\<close>

definition analyze_body ::
  "TAOrchestrator \<Rightarrow> 'db ta_store \<Rightarrow> broker option \<Rightarrow> broker \<Rightarrow> (Timeframe \<Rightarrow> datetime) \<Rightarrow> dumps \<Rightarrow> string \<Rightarrow> nat \<Rightarrow>
   Timeframe list \<Rightarrow> Timeframe list \<Rightarrow> 'db \<Rightarrow> ta_result result \<times> 'db" where
  "analyze_body self store fallback_client broker now dumps symbol lookback_periods htf_timeframes ltf_timeframes db =
     (let all_timeframes = htf_timeframes @ ltf_timeframes in
      case fetch_all store db fallback_client broker now symbol lookback_periods all_timeframes of
        Inl e \<Rightarrow> (Inl e, db)
      | Inr sequences \<Rightarrow>
          if sequences = []
          then (build_result dumps symbol ''insufficient_data'' htf_timeframes ltf_timeframes no_findings None, db)
          else let snapshots = snapshots_of self sequences in
          if snapshots = []
          then (build_result dumps symbol ''insufficient_data'' htf_timeframes ltf_timeframes no_findings None, db)
          else case collect_findings self htf_timeframes ltf_timeframes sequences snapshots of
            Inl e \<Rightarrow> (Inl e, db)
          | Inr f \<Rightarrow>
              (case persist_all_results store (map snd snapshots) (fi_smc_candidates f) (fi_snd_candidates f) db of
                 (Inl e, db') \<Rightarrow> (Inl e, db')
               | (Inr _, db') \<Rightarrow>
                   (build_result dumps symbol ''success'' htf_timeframes ltf_timeframes f None, db')))"

definition analyze ::
  "TAOrchestrator \<Rightarrow> 'db ta_store \<Rightarrow> broker option \<Rightarrow> broker option \<Rightarrow> (Timeframe \<Rightarrow> datetime) \<Rightarrow> dumps \<Rightarrow>
   (py_error \<Rightarrow> string) \<Rightarrow> string \<Rightarrow> nat \<Rightarrow> 'db \<Rightarrow> ta_result result \<times> 'db" where
  "analyze self store fallback_client broker_client now dumps str_exc symbol lookback_periods db =
     (case broker_client of
        None \<Rightarrow>
          (build_result dumps symbol ''error'' (tac_htf_timeframes (to_config self)) (tac_ltf_timeframes (to_config self))
             no_findings (Some ''No broker connection configured. Please set up a broker connection via the dashboard.''), db)
      | Some broker \<Rightarrow>
          let htf_timeframes = sort_key (\<lambda>tf. - tf_minutes tf) (tac_htf_timeframes (to_config self));
              ltf_timeframes = sort_key (\<lambda>tf. - tf_minutes tf) (tac_ltf_timeframes (to_config self))
          in case analyze_body self store fallback_client broker now dumps symbol lookback_periods
                    htf_timeframes ltf_timeframes db of
               (Inr r, db') \<Rightarrow> (Inr r, db')
             | (Inl e, db') \<Rightarrow>
                 (build_result dumps symbol ''error'' htf_timeframes ltf_timeframes no_findings (Some (str_exc e)), db'))"


section \<open>Deduplication by zone keeps the best candidate of a zone\<close>

lemma dedupe_by_zone_split:
  "dedupe_by_zone key bucket wins cs =
     map snd (foldl (keep_best (\<lambda>x. (key x, bucket x)) wins) [] (filter (\<lambda>c. bucket c \<noteq> None) cs)) @
     filter (\<lambda>c. bucket c = None) cs"
proof -
  have "foldl (\<lambda>(best_in_bucket, bypass) c.
            case bucket c of
              None \<Rightarrow> (best_in_bucket, bypass @ [c])
            | Some b \<Rightarrow> (keep_best (\<lambda>x. (key x, bucket x)) wins best_in_bucket c, bypass)) ([], []) cs =
      (foldl (keep_best (\<lambda>x. (key x, bucket x)) wins) [] (filter (\<lambda>c. bucket c \<noteq> None) cs),
       filter (\<lambda>c. bucket c = None) cs)"
    by (induction cs rule: rev_induct) (auto split: option.splits)
  then show ?thesis by (simp add: dedupe_by_zone_def)
qed

text \<open>The contract: every candidate without a zone stays, and of the candidates with the same key and
  zone exactly one stays, the first of those with the highest rank.\<close>

locale zone_dedupe = first_best "\<lambda>c. (key c, bucket c)" rank_of wins
  for key :: "'a \<Rightarrow> 'k" and bucket :: "'a \<Rightarrow> int option" and rank_of :: "'a \<Rightarrow> 'r::linorder" and wins
begin

lemma same_zone_filter:
  "bucket c \<noteq> None \<Longrightarrow> filter (\<lambda>y. (key y, bucket y) = (key c, bucket c)) (filter (\<lambda>c. bucket c \<noteq> None) cs) =
     filter (\<lambda>y. (key y, bucket y) = (key c, bucket c)) cs"
  by (auto intro!: filter_cong)

lemma kept:
  "c \<in> set (dedupe_by_zone key bucket wins cs) \<longleftrightarrow>
     (if bucket c = None then c \<in> set cs
      else max_key rank_of (filter (\<lambda>y. (key y, bucket y) = (key c, bucket c)) cs) = Some c)"
proof -
  let ?B = "filter (\<lambda>c. bucket c \<noteq> None) cs"
  have sel: "c \<in> set (map snd (foldl (keep_best (\<lambda>x. (key x, bucket x)) wins) [] ?B)) \<longleftrightarrow>
      max_key rank_of (filter (\<lambda>y. (key y, bucket y) = (key c, bucket c)) ?B) = Some c"
    using selection [of ?B] by blast
  show ?thesis
  proof (cases "bucket c = None")
    case True
    then have "c \<notin> set (filter (\<lambda>y. (key y, bucket y) = (key c, bucket c)) ?B)" by simp
    then have "max_key rank_of (filter (\<lambda>y. (key y, bucket y) = (key c, bucket c)) ?B) \<noteq> Some c"
      by (rule contrapos_nn) (erule max_key_Some [THEN conjunct1])
    then show ?thesis
      using True sel unfolding dedupe_by_zone_split set_append Un_iff set_filter [of _ cs] mem_Collect_eq
      by (simp only: simp_thms if_True)
  next
    case False
    then show ?thesis
      using sel unfolding same_zone_filter [OF False] dedupe_by_zone_split set_append Un_iff set_filter [of _ cs] mem_Collect_eq
      by (simp only: simp_thms if_False)
  qed
qed

lemma kept_subset: "set (dedupe_by_zone key bucket wins cs) \<subseteq> set cs"
proof
  fix c assume "c \<in> set (dedupe_by_zone key bucket wins cs)"
  then show "c \<in> set cs"
    using max_key_Some [of rank_of "filter (\<lambda>y. (key y, bucket y) = (key c, bucket c)) cs" c]
    unfolding kept by (cases "bucket c = None") simp_all
qed

lemma best_bucketed:
  assumes "c \<in> set (map snd (foldl (keep_best (\<lambda>x. (key x, bucket x)) wins) [] (filter (\<lambda>c. bucket c \<noteq> None) cs)))"
  shows "bucket c \<noteq> None"
proof -
  have "(key c, bucket c) \<in> set (map (\<lambda>c. (key c, bucket c)) (filter (\<lambda>c. bucket c \<noteq> None) cs))"
    using selection [of "filter (\<lambda>c. bucket c \<noteq> None) cs"] imageI [OF assms, of "\<lambda>c. (key c, bucket c)"]
    unfolding set_map [symmetric] by blast
  then show ?thesis by auto
qed

lemma kept_distinct_zones:
  "distinct (map (\<lambda>c. (key c, bucket c)) (filter (\<lambda>c. bucket c \<noteq> None) (dedupe_by_zone key bucket wins cs)))"
proof -
  let ?best = "map snd (foldl (keep_best (\<lambda>x. (key x, bucket x)) wins) [] (filter (\<lambda>c. bucket c \<noteq> None) cs))"
  have "filter (\<lambda>c. bucket c \<noteq> None) ?best = ?best" unfolding filter_id_conv using best_bucketed by blast
  moreover have "filter (\<lambda>c. bucket c \<noteq> None) (filter (\<lambda>c. bucket c = None) cs) = []"
    unfolding filter_empty_conv by simp
  ultimately have "filter (\<lambda>c. bucket c \<noteq> None) (dedupe_by_zone key bucket wins cs) = ?best"
    unfolding dedupe_by_zone_split filter_append by (simp only: append_Nil2)
  with conjunct1 [OF selection [of "filter (\<lambda>c. bucket c \<noteq> None) cs"]] show ?thesis by (simp only:)
qed

lemma represented:
  assumes "c \<in> set cs" and "bucket c \<noteq> None"
  shows "\<exists>e \<in> set (dedupe_by_zone key bucket wins cs). (key e, bucket e) = (key c, bucket c) \<and> rank_of c \<le> rank_of e"
proof -
  let ?Z = "filter (\<lambda>y. (key y, bucket y) = (key c, bucket c)) cs"
  have "?Z \<noteq> []" using assms(1) by (auto simp: filter_empty_conv)
  then obtain e where e: "max_key rank_of ?Z = Some e" by (cases "max_key rank_of ?Z") auto
  have eZ: "e \<in> set ?Z" "\<forall>y \<in> set ?Z. rank_of y \<le> rank_of e"
    using max_key_Some [OF e] by blast+
  then have same: "key e = key c" "bucket e = bucket c" by auto
  have "e \<in> set (dedupe_by_zone key bucket wins cs)"
    unfolding kept same using e by (simp only: assms(2) if_False)
  moreover have "rank_of c \<le> rank_of e" using eZ(2) assms(1) by simp
  ultimately show ?thesis using same by blast
qed

lemma kept_distinct:
  assumes "distinct cs" shows "distinct (dedupe_by_zone key bucket wins cs)"
proof -
  let ?D = "dedupe_by_zone key bucket wins cs"
  let ?B = "filter (\<lambda>c. bucket c \<noteq> None) cs"
  let ?best = "map snd (foldl (keep_best (\<lambda>x. (key x, bucket x)) wins) [] ?B)"
  have "distinct ?best" by (rule conjunct1 [OF conjunct1 [OF selection [of ?B], unfolded distinct_map [of _ ?best]]])
  moreover have "set ?best \<inter> set (filter (\<lambda>c. bucket c = None) cs) = {}"
    using best_bucketed by (intro equals0I) (elim IntE, auto simp only: set_filter mem_Collect_eq)
  ultimately show ?thesis
    using assms unfolding dedupe_by_zone_split distinct_append by (intro conjI) (assumption, simp, assumption)
qed

end

interpretation smc_zones: zone_dedupe "\<lambda>c. (cd_timeframe c, cd_direction c)" "smc_bucket symbol" smc_rank_key
    "\<lambda>c existing. smc_rank_key existing < smc_rank_key c" for symbol
  by unfold_locales (rule refl)

interpretation snd_zones: zone_dedupe "\<lambda>c. (sd_timeframe c, sd_direction c)" "snd_bucket symbol" snd_rank_key
    "\<lambda>c existing. snd_rank_key existing < snd_rank_key c" for symbol
  by unfold_locales (rule refl)


lemma tolerance_pos: "0 < dict_get ZONE_PIP_TOLERANCE tf 30"
  by (cases tf) (simp_all add: dict_get_def ZONE_PIP_TOLERANCE_def)

lemma zone_bucket_Some:
  "zone_bucket (Some lo) (Some up) tf sy = Some b \<longleftrightarrow> 0 < lo \<and> 0 < up \<and>
     b = \<lfloor>(lo + up) / 2 / (2 * dict_get ZONE_PIP_TOLERANCE tf 30 * get_pip_value sy)\<rfloor>"
proof -
  have "0 < 2 * dict_get ZONE_PIP_TOLERANCE tf 30 * get_pip_value sy" using tolerance_pos by simp
  moreover note not_le [THEN iffD2, OF get_pip_value_pos [of sy]]
  ultimately show ?thesis by (auto simp: zone_bucket_def Let_def simp del: get_pip_value_pos)
qed

section \<open>Fetched sequences\<close>

text \<open>What the analysis relies on: the brokers deliver constructed sequences with clean symbols, and
  the candle table answers a query for a symbol with rows of that symbol.\<close>

definition fit_market :: "CandleSequence \<Rightarrow> bool" where
  "fit_market s \<longleftrightarrow> clean_market s \<and> length (seq_symbol s) \<le> 20"

definition fit_broker :: "broker \<Rightarrow> bool" where
  "fit_broker b \<longleftrightarrow> (\<forall>sy tf t u n s. b sy tf t u n = Inr (Some s) \<longrightarrow> fit_market s)"

definition fit_store :: "'db ta_store \<Rightarrow> bool" where
  "fit_store store \<longleftrightarrow> (\<forall>db sy tf t u rows. tas_find_by_time_range store db sy tf t u = Inr rows \<longrightarrow>
     (\<forall>row \<in> set rows. cr_symbol row = sy))"

lemma clean_symbol_field: "clean_symbol s \<Longrightarrow> length s \<le> 20 \<Longrightarrow> symbol_field 2 20 s = Some s"
  by (auto simp: clean_symbol_def symbol_field_def Let_def)

lemma candle_of_row_fit:
  assumes "candle_of_row row = Inr c" and "clean_symbol (cr_symbol row)" and "length (cr_symbol row) \<le> 20"
  shows "wf_candle c \<and> c_symbol c = cr_symbol row"
proof -
  obtain tf v where c: "mk_Candle (cr_symbol row) tf (cr_timestamp row) (cr_open row) (cr_high row) (cr_low row)
      (cr_close row) v = Inr c"
    using assms(1) by (auto simp: candle_of_row_def)
  then have "c_symbol c = cr_symbol row"
    using clean_symbol_field [OF assms(2,3)] by (auto simp: mk_Candle_def split: if_splits)
  then show ?thesis using mk_Candle_wf [OF c] by blast
qed

lemma stored_sequence_fit:
  assumes "mapR candle_of_row rows = Inr cs" and "mk_CandleSequence sy tf cs = Inr s"
    and "\<forall>row \<in> set rows. cr_symbol row = sy" and "clean_symbol sy" and "length sy \<le> 20"
  shows "fit_market s"
proof -
  have "\<forall>c \<in> set cs. \<exists>row \<in> set rows. candle_of_row row = Inr c"
    using mapR_set [OF assms(1)] by blast
  then have c: "\<forall>c \<in> set cs. wf_candle c \<and> c_symbol c = sy" using assms(3-5) candle_of_row_fit by metis
  have s: "seq_symbol s = sy" "set (seq_candles s) = set cs"
    using assms(2) clean_symbol_field [OF assms(4,5)]
    by (auto simp: mk_CandleSequence_def validate_candles_ok)
  have "wf_seq s" using mk_CandleSequence_wf [OF assms(2)] c by blast
  then show ?thesis using s c assms(4,5) by (simp add: fit_market_def clean_market_def wf_market_def)
qed

lemma fetch_fit:
  assumes "fetch_timeframe store db fallback broker t sy tf n = Inr (Some s)" and "fit_store store"
    and "\<forall>b \<in> set_option broker \<union> set_option fallback. fit_broker b" and "clean_symbol sy" and "length sy \<le> 20"
  shows "fit_market s"
proof -
  have used: "fit_market x" if "fit_broker b" "usable (b sy tf u t n) = Some x" for b u x
    using that by (auto simp: usable_def fit_broker_def split: sum.splits option.splits if_splits)
  obtain u rows where u: "calculate_start_time t tf n = Inr u"
      and rows: "tas_find_by_time_range store db sy (Timeframe_value tf) u t = Inr rows"
    using assms(1) by (auto simp: fetch_timeframe_def)
  define fetched where "fetched = (if of_nat (length rows) < of_nat n * (8 / 10 :: rat)
      then (case broker of
          None \<Rightarrow> None
        | Some client \<Rightarrow> (case usable (client sy tf u t n) of
              Some s \<Rightarrow> Some s
            | None \<Rightarrow> (case fallback of None \<Rightarrow> None | Some fb \<Rightarrow> usable (fb sy tf u t n))))
      else None)"
  have run: "(case fetched of
          Some s \<Rightarrow> Inr (Some s)
        | None \<Rightarrow>
            if rows = [] then Inr None
            else bindR (mapR candle_of_row rows) (\<lambda>candles.
                 bindR (mk_CandleSequence sy tf candles) (\<lambda>s. Inr (Some s)))) = Inr (Some s)"
    using assms(1) unfolding fetch_timeframe_def u rows bindR.simps Let_def fetched_def by simp
  show ?thesis
  proof (cases fetched)
    case None
    have "\<forall>row \<in> set rows. cr_symbol row = sy" using assms(2) rows by (auto simp: fit_store_def)
    moreover obtain cs where "mapR candle_of_row rows = Inr cs" "mk_CandleSequence sy tf cs = Inr s"
      using run by (auto simp: None split: if_splits)
    ultimately show ?thesis using stored_sequence_fit [OF _ _ _ assms(4,5)] by blast
  next
    case (Some x)
    then have "\<exists>b \<in> set_option broker \<union> set_option fallback. usable (b sy tf u t n) = Some x"
      by (auto simp: fetched_def split: if_splits option.splits)
    then show ?thesis using used assms(3) run Some by auto
  qed
qed


section \<open>The candidates of an analysis\<close>

definition valid_orchestrator :: "TAOrchestrator \<Rightarrow> bool" where
  "valid_orchestrator self \<longleftrightarrow> valid_SMCConfig (smc_config (to_smc_detector self)) \<and>
     valid_SnDConfig (sdd_config (to_snd_detector self)) \<and> valid_analyzer (sdd_swing_analyzer (to_snd_detector self)) \<and>
     valid_analyzer (to_swing_analyzer self) \<and> 0 \<le> la_equal_tolerance_pips (to_liquidity_analyzer self) \<and>
     2 \<le> la_min_touches (to_liquidity_analyzer self) \<and> 0 < da_min_range_pips (to_dealing_range_analyzer self)"

definition good_snd :: "SnDCandidate \<Rightarrow> bool" where
  "good_snd c \<longleftrightarrow> (\<exists>tp. sd_take_profit c = Some tp \<and>
     sound_levels (sd_direction c) (sd_timeframe c) (sd_entry_price c) (sd_stop_loss c) tp)"

definition good_pair :: "SMCCandidate list \<times> SnDCandidate list \<Rightarrow> bool" where
  "good_pair acc \<longleftrightarrow> (\<forall>c \<in> set (fst acc). good_candidate c) \<and> (\<forall>c \<in> set (snd acc). good_snd c)"

lemma fetch_all_fit:
  assumes "fetch_all store db fallback broker now sy n tfs = Inr sequences" and "fit_store store"
    and "fit_broker broker" and "\<forall>b \<in> set_option fallback. fit_broker b" and "clean_symbol sy" and "length sy \<le> 20"
  shows "\<forall>p \<in> set sequences. fit_market (snd p)"
proof (rule foldR_invariant [OF assms(1) [unfolded fetch_all_def]])
  fix tf u v
  assume u: "\<forall>p \<in> set u. fit_market (snd p)"
    and step: "bindR (fetch_timeframe store db fallback (Some broker) (now tf) sy tf (get_adaptive_lookback tf n))
      (\<lambda>fetched. Inr (case fetched of None \<Rightarrow> u | Some s \<Rightarrow> AList.update tf s u)) = Inr v"
  have new: "fit_market s"
    if "fetch_timeframe store db fallback (Some broker) (now tf) sy tf (get_adaptive_lookback tf n) = Inr (Some s)" for s
    using fetch_fit [OF that assms(2) _ assms(5,6)] assms(3,4) by auto
  have "set (AList.update tf s u) \<subseteq> insert (tf, s) (set u)" for s
    by (induction u) auto
  then show "\<forall>p \<in> set v. fit_market (snd p)"
    using step u new by (fastforce split: option.splits)
qed simp

lemma detect_pair_good:
  assumes v: "valid_orchestrator self" and fit: "\<forall>p \<in> set sequences. fit_market (snd p)"
    and acc: "good_pair acc" and run: "detect_pair self sequences pair acc = Inr acc'"
  shows "good_pair acc'"
proof -
  obtain hi lo smc snds where seqs: "map_of sequences (fst pair) = Some hi" "map_of sequences (snd pair) = Some lo"
      and r: "smc_detect_patterns (to_smc_detector self) hi lo = Inr smc"
        "snd_detect_patterns (to_snd_detector self) hi lo = Inr snds" "acc' = (fst acc @ smc, snd acc @ snds)"
    using run by (auto simp: detect_pair_def run_smc_detection_def run_snd_detection_def split: option.splits)
  have "fit_market hi" "fit_market lo" using fit seqs map_of_SomeD by fastforce+
  then have wf: "wf_market hi" "wf_market lo" "clean_symbol (seq_symbol hi)" "clean_symbol (seq_symbol lo)"
      "length (seq_symbol lo) \<le> 20" "wf_seq hi" "wf_seq lo"
    by (simp_all add: fit_market_def clean_market_def wf_market_def)
  have "\<forall>c \<in> set smc. good_candidate c"
    using detect_patterns_good [OF r(1) _ wf(6,7,3,4)] v by (simp add: valid_orchestrator_def)
  moreover have "\<forall>c \<in> set snds. good_snd c"
  proof -
    have sa: "valid_SnDConfig (sdd_config (to_snd_detector self))"
        "0 \<le> sa_equal_tolerance_pips (sdd_swing_analyzer (to_snd_detector self))"
        "1 \<le> sa_left_bars (sdd_swing_analyzer (to_snd_detector self))"
        "1 \<le> sa_right_bars (sdd_swing_analyzer (to_snd_detector self))"
      using v by (simp_all add: valid_orchestrator_def valid_analyzer_def)
    obtain bear bull where b: "snd_detect_patterns (to_snd_detector self) hi lo = Inr (select_best_per_direction (bear @ bull))"
        "\<forall>c \<in> set bear. snd_good lo BEARISH c" "\<forall>c \<in> set bull. snd_good lo BULLISH c"
      by (rule snd_detect_run [OF wf(1-5) sa])
    then have "snds = select_best_per_direction (bear @ bull)" using r(2) by simp
    from selected_good(3) [OF b(2,3) this] show ?thesis by (fastforce simp: good_snd_def snd_good_def)
  qed
  ultimately show ?thesis using acc r(3) by (auto simp: good_pair_def)
qed

lemma findings_good:
  assumes "collect_findings self htfs ltfs sequences snapshots = Inr f" and "valid_orchestrator self"
    and "\<forall>p \<in> set sequences. fit_market (snd p)"
  shows "good_pair (fi_smc_candidates f, fi_snd_candidates f) \<and>
     distinct (map (\<lambda>c. (cd_symbol c, cd_pattern c, cd_direction c, round4 (cd_entry_price c))) (fi_smc_candidates f)) \<and>
     distinct (map (\<lambda>c. (sd_symbol c, sd_pattern c, sd_direction c, round4 (sd_entry_price c))) (fi_snd_candidates f))"
proof -
  define pairs where "pairs = detection_pairs (filter (\<lambda>tf. tf \<in> fst ` set sequences) htfs)
      (filter (\<lambda>tf. tf \<in> fst ` set sequences) ltfs)"
  obtain acc where p: "foldR (detect_pair self sequences) pairs ([], []) = Inr acc"
    using assms(1) unfolding collect_findings_def Let_def pairs_def [symmetric]
    by (cases "foldR (detect_pair self sequences) pairs ([], [])") simp_all
  have f: "fi_smc_candidates f = deduplicate_smc_candidates (fst acc)"
      "fi_snd_candidates f = deduplicate_snd_candidates (snd acc)"
    using assms(1) unfolding collect_findings_def Let_def pairs_def [symmetric] p
    by (auto simp: case_prod_unfold)
  have "good_pair acc"
    by (rule foldR_invariant [OF p]) (simp add: good_pair_def, erule (1) detect_pair_good [OF assms(2,3)])
  then show ?thesis
    unfolding f deduplicate_smc_candidates_def deduplicate_snd_candidates_def good_pair_def fst_conv snd_conv
    by (meson first_per_key_spec subsetD)
qed


text \<open>What a result says about its candidates: they are the dictionaries of sound trades, no two
  with the same symbol, pattern, direction and rounded entry, and no two with the same timeframe,
  direction and zone.\<close>

definition sound_result :: "dumps \<Rightarrow> string \<Rightarrow> ta_result \<Rightarrow> bool" where
  "sound_result dumps sy r \<longleftrightarrow> (\<exists>smc snds.
     ar_smc_candidates r = map (\<lambda>c. dump_without_symbol (dump_smc dumps c)) smc \<and>
     ar_snd_candidates r = map (\<lambda>c. dump_without_symbol (dump_snd dumps c)) snds \<and>
     ar_smc_candidates_count r = length smc \<and> ar_snd_candidates_count r = length snds \<and>
     (\<forall>c \<in> set smc. 0 < cd_entry_price c \<and> 0 < cd_stop_loss c \<and>
        sound_trade (cd_direction c) 2 (cd_entry_price c) (cd_stop_loss c) (cd_take_profit c)) \<and>
     (\<forall>c \<in> set snds. \<exists>tp. sd_take_profit c = Some tp \<and>
        sound_levels (sd_direction c) (sd_timeframe c) (sd_entry_price c) (sd_stop_loss c) tp) \<and>
     inj_on (\<lambda>c. (cd_symbol c, cd_pattern c, cd_direction c, round4 (cd_entry_price c))) (set smc) \<and>
     inj_on (\<lambda>c. (sd_symbol c, sd_pattern c, sd_direction c, round4 (sd_entry_price c))) (set snds) \<and>
     distinct (map (\<lambda>c. ((cd_timeframe c, cd_direction c), smc_bucket sy c)) (filter (\<lambda>c. smc_bucket sy c \<noteq> None) smc)) \<and>
     distinct smc \<and> distinct snds)"

definition empty_result :: "ta_result \<Rightarrow> bool" where
  "empty_result r \<longleftrightarrow> ar_smc_candidates r = [] \<and> ar_snd_candidates r = [] \<and> ar_smc_candidates_count r = 0 \<and>
     ar_snd_candidates_count r = 0 \<and> ar_snapshots r = [] \<and> ar_alignment r = [] \<and> ar_overall_trend r = ''NEUTRAL''"

lemma reported_sound:
  assumes "build_result dumps sy status htfs ltfs f err = Inr r" and "good_pair (fi_smc_candidates f, fi_snd_candidates f)"
    and d: "distinct (map (\<lambda>c. (cd_symbol c, cd_pattern c, cd_direction c, round4 (cd_entry_price c))) (fi_smc_candidates f))"
      "distinct (map (\<lambda>c. (sd_symbol c, sd_pattern c, sd_direction c, round4 (sd_entry_price c))) (fi_snd_candidates f))"
  shows "ar_status r = status \<and> ar_error r = err \<and> sound_result dumps sy r"
proof -
  let ?live = "filter (smc_is_live (map snd (fi_snapshots f))) (fi_smc_candidates f)"
  let ?livd = "filter (snd_is_live (map snd (fi_snapshots f))) (fi_snd_candidates f)"
  have r: "ar_status r = status" "ar_error r = err"
      "ar_smc_candidates r = map (\<lambda>c. dump_without_symbol (dump_smc dumps c)) (reported_smc sy f)"
      "ar_snd_candidates r = map (\<lambda>c. dump_without_symbol (dump_snd dumps c)) (reported_snd sy f)"
      "ar_smc_candidates_count r = length (reported_smc sy f)" "ar_snd_candidates_count r = length (reported_snd sy f)"
    using assms(1) by (auto simp: build_result_def Let_def)
  have sub: "set (reported_smc sy f) \<subseteq> set (fi_smc_candidates f)" "set (reported_snd sy f) \<subseteq> set (fi_snd_candidates f)"
    using smc_zones.kept_subset [of sy ?live] snd_zones.kept_subset [of sy ?livd]
    by (auto simp: reported_smc_def reported_snd_def dedupe_smc_candidates_by_zone_def dedupe_snd_candidates_by_zone_def)
  have dist: "distinct ?live" "distinct ?livd" using d by (auto dest: distinct_map [THEN iffD1])
  have "distinct (reported_smc sy f)" "distinct (reported_snd sy f)"
    using smc_zones.kept_distinct [OF dist(1)] snd_zones.kept_distinct [OF dist(2)]
    by (simp_all add: reported_smc_def reported_snd_def dedupe_smc_candidates_by_zone_def dedupe_snd_candidates_by_zone_def)
  moreover have "distinct (map (\<lambda>c. ((cd_timeframe c, cd_direction c), smc_bucket sy c))
      (filter (\<lambda>c. smc_bucket sy c \<noteq> None) (reported_smc sy f)))"
    using smc_zones.kept_distinct_zones unfolding reported_smc_def dedupe_smc_candidates_by_zone_def .
  moreover have "inj_on (\<lambda>c. (cd_symbol c, cd_pattern c, cd_direction c, round4 (cd_entry_price c))) (set (reported_smc sy f))"
      "inj_on (\<lambda>c. (sd_symbol c, sd_pattern c, sd_direction c, round4 (sd_entry_price c))) (set (reported_snd sy f))"
    using d sub by (auto simp only: distinct_map intro: inj_on_subset)
  moreover have "\<forall>c \<in> set (reported_smc sy f). 0 < cd_entry_price c \<and> 0 < cd_stop_loss c \<and>
      sound_trade (cd_direction c) 2 (cd_entry_price c) (cd_stop_loss c) (cd_take_profit c)"
    using assms(2) sub(1) by (auto simp: good_pair_def good_candidate_def smc_fields_ok_def)
  moreover have "\<forall>c \<in> set (reported_snd sy f). \<exists>tp. sd_take_profit c = Some tp \<and>
      sound_levels (sd_direction c) (sd_timeframe c) (sd_entry_price c) (sd_stop_loss c) tp"
    using assms(2) sub(2) by (auto simp: good_pair_def good_snd_def)
  ultimately have "sound_result dumps sy r"
    unfolding sound_result_def r by (intro exI [of _ "reported_smc sy f"] exI [of _ "reported_snd sy f"] conjI) (rule refl | assumption)+
  then show ?thesis using r by blast
qed

lemma no_findings_result:
  obtains r where "build_result dumps sy status htfs ltfs no_findings err = Inr r" "ar_status r = status" "ar_error r = err"
    "empty_result r" "sound_result dumps sy r"
proof -
  have "reported_smc sy no_findings = []" "reported_snd sy no_findings = []"
    by (simp_all add: reported_smc_def reported_snd_def no_findings_def dedupe_smc_candidates_by_zone_def
        dedupe_snd_candidates_by_zone_def dedupe_by_zone_def)
  then have "\<exists>r. build_result dumps sy status htfs ltfs no_findings err = Inr r \<and> empty_result r"
    by (simp add: build_result_def Let_def no_findings_def empty_result_def)
  then obtain r where r: "build_result dumps sy status htfs ltfs no_findings err = Inr r" "empty_result r" by blast
  have "ar_status r = status \<and> ar_error r = err \<and> sound_result dumps sy r"
    by (rule reported_sound [OF r(1)]) (simp_all add: no_findings_def good_pair_def)
  with r show thesis using that by blast
qed

text \<open>Every way through the body of the analysis that does not raise.\<close>

lemma analyze_body_sound:
  assumes run: "analyze_body self store fallback broker now dumps sy n htfs ltfs db = (Inr r, db')"
    and v: "valid_orchestrator self" and io: "fit_store store" "fit_broker broker" "\<forall>b \<in> set_option fallback. fit_broker b"
      "clean_symbol sy" "length sy \<le> 20"
  shows "(ar_status r = ''success'' \<or> ar_status r = ''insufficient_data'' \<and> empty_result r \<and> db' = db) \<and>
     sound_result dumps sy r"
proof -
  obtain sequences where seqs: "fetch_all store db fallback broker now sy n (htfs @ ltfs) = Inr sequences"
    using run by (auto simp: analyze_body_def Let_def split: sum.splits)
  note fit = fetch_all_fit [OF seqs io]
  show ?thesis
  proof (cases "sequences = [] \<or> snapshots_of self sequences = []")
    case True
    then have "build_result dumps sy ''insufficient_data'' htfs ltfs no_findings None = Inr r" "db' = db"
      using run by (auto simp: analyze_body_def Let_def seqs split: if_splits)
    then show ?thesis using no_findings_result [of dumps sy "''insufficient_data''" htfs ltfs None] by auto
  next
    case False
    then obtain f where f: "collect_findings self htfs ltfs sequences (snapshots_of self sequences) = Inr f"
      using run by (auto simp: analyze_body_def Let_def seqs split: if_splits sum.splits)
    have "build_result dumps sy ''success'' htfs ltfs f None = Inr r"
      using run False by (auto simp: analyze_body_def Let_def seqs f split: if_splits prod.splits sum.splits)
    from reported_sound [OF this] findings_good [OF f v fit] show ?thesis by blast
  qed
qed


lemma build_result_error: "build_result dumps sy status htfs ltfs f err = Inr r \<Longrightarrow> ar_error r = err"
  by (auto simp: build_result_def Let_def)

lemma analyze_body_error:
  "analyze_body self store fallback broker now dumps sy n htfs ltfs db = (Inr r, db') \<Longrightarrow> ar_error r = None"
  by (auto simp: analyze_body_def Let_def dest: build_result_error split: sum.splits prod.splits if_splits)

section \<open>Properties\<close>

text \<open>C1. The analysis of a symbol, when the brokers deliver well-formed candles. Whatever the database,
  the serializers and the commit do, \<^verbatim>\<open>analyze\<close> returns a result and never raises. Its status is
  success, insufficient data or error; without success the result has no candidate, no snapshot and a
  neutral trend, and insufficient data leaves the database unchanged. Every reported candidate is a
  sound trade, and the two deduplications hold of the reported lists: no two candidates agree in
  symbol, pattern, direction and rounded entry, and no two SMC candidates share timeframe, direction
  and zone.\<close>

theorem analyze_sound:
  assumes "valid_orchestrator self" and "fit_store store" and "\<forall>b \<in> set_option broker. fit_broker b"
    and "\<forall>b \<in> set_option fallback. fit_broker b" and "clean_symbol sy" and "length sy \<le> 20"
  shows "\<exists>r db'. analyze self store fallback broker now dumps str_exc sy n db = (Inr r, db') \<and>
     ar_status r \<in> {''success'', ''insufficient_data'', ''error''} \<and>
     (ar_status r \<noteq> ''success'' \<longrightarrow> empty_result r) \<and> (ar_status r = ''insufficient_data'' \<longrightarrow> db' = db) \<and>
     (ar_error r = None \<longleftrightarrow> ar_status r \<noteq> ''error'') \<and> sound_result dumps sy r"
proof (cases broker)
  case None
  show ?thesis
    by (rule no_findings_result [of dumps sy "''error''" "tac_htf_timeframes (to_config self)" "tac_ltf_timeframes (to_config self)"
          "Some ''No broker connection configured. Please set up a broker connection via the dashboard.''"])
       (simp add: analyze_def None)
next
  case (Some b)
  let ?h = "sort_key (\<lambda>tf. - tf_minutes tf) (tac_htf_timeframes (to_config self))"
  let ?l = "sort_key (\<lambda>tf. - tf_minutes tf) (tac_ltf_timeframes (to_config self))"
  obtain x db' where run: "analyze_body self store fallback b now dumps sy n ?h ?l db = (x, db')"
    by (cases "analyze_body self store fallback b now dumps sy n ?h ?l db")
  show ?thesis
  proof (cases x)
    case (Inl e)
    show ?thesis
      by (rule no_findings_result [of dumps sy "''error''" ?h ?l "Some (str_exc e)"])
         (simp add: analyze_def Some Let_def run Inl)
  next
    case (Inr r)
    have "fit_broker b" using assms(3) Some by simp
    note s = analyze_body_sound [OF run [unfolded Inr] assms(1,2) this assms(4-6)]
    have "ar_error r = None" using analyze_body_error [OF run [unfolded Inr]] .
    with s show ?thesis by (intro exI [of _ r] exI [of _ db']) (auto simp: analyze_def Some Let_def run Inr)
  qed
qed


definition ex_orchestrator :: TAOrchestrator where
  "ex_orchestrator = \<lparr>to_smc_detector = ex_smc, to_snd_detector = ex_snd, to_swing_analyzer = ex_swing_analyzer,
     to_liquidity_analyzer = ex_liquidity_analyzer,
     to_sweep_analyzer = \<lparr>sw_min_sweep_pips = 2, sw_turtle_soup_min_pips = 5\<rparr>,
     to_dealing_range_analyzer = \<lparr>da_min_range_pips = 10\<rparr>,
     to_alignment_service = \<lparr>al_require_trend_alignment = True, al_require_zone_nesting = False\<rparr>,
     to_config = \<lparr>tac_htf_timeframes = [H4], tac_ltf_timeframes = [H1]\<rparr>\<rparr>"

text \<open>A database that counts its commits and stores nothing else.\<close>

definition ex_store :: "nat ta_store" where
  "ex_store = \<lparr>tas_find_by_time_range = (\<lambda>_ _ _ _ _. Inr []), tas_create_snapshot = (\<lambda>_ _ _ _ db. (Inr (), db)),
     tas_bulk_create_smc_candidates = (\<lambda>cs db. (Inr (length cs), db)),
     tas_bulk_create_snd_candidates = (\<lambda>cs db. (Inr (length cs), db)), tas_commit = (\<lambda>db. (Inr (), db + 1))\<rparr>"

definition ex_two_timeframes :: broker where
  "ex_two_timeframes symbol tf a b n = Inr (if tf = H4 then Some ex_htf else if tf = H1 then Some ex_ltf else None)"

definition ex_dumps :: dumps where
  "ex_dumps = \<lparr>dump_smc = (\<lambda>c. [(''symbol'', JStr (cd_symbol c)), (''entry_price'', JNum (cd_entry_price c))]),
     dump_snd = (\<lambda>c. [(''entry_price'', JNum (sd_entry_price c))])\<rparr>"

text \<open>The steps of its analysis, each evaluated once.\<close>

lemma ex_fetched:
  "fetch_all ex_store 0 None ex_two_timeframes (\<lambda>_. 0) ''EURUSD'' 100 [H4, H1] = Inr [(H4, ex_htf), (H1, ex_ltf)]"
  by code_simp

lemma ex_snapshots:
  "case build_enriched_snapshot ex_orchestrator ex_htf of
     Some higher \<Rightarrow>
       (case build_enriched_snapshot ex_orchestrator ex_ltf of
          Some lower \<Rightarrow>
            (case check_alignment (to_alignment_service ex_orchestrator) higher lower of Inl _ \<Rightarrow> False | Inr _ \<Rightarrow> True) \<and>
            ts_qml_levels higher = [] \<and> ts_qml_levels lower = [] \<and>
            dead_order_blocks [higher, lower] = {} \<and> dead_fvgs [higher, lower] = {}
        | None \<Rightarrow> False)
   | None \<Rightarrow> False"
  by code_simp

lemma ex_no_snd: "snd_detect_patterns ex_snd ex_htf ex_ltf = Inr []"
  by code_simp

lemma ex_orchestrator_valid: "valid_orchestrator ex_orchestrator"
  using ex_smc_wf(5) ex_snd_wf
  by (simp add: valid_orchestrator_def ex_orchestrator_def valid_analyzer_def ex_snd_def ex_swing_analyzer_def
      ex_liquidity_analyzer_def)

lemma ex_io_fit: "fit_store ex_store" "fit_broker ex_two_timeframes"
proof -
  have "fit_market ex_htf" "fit_market ex_ltf"
    using ex_smc_wf(1,2)
    by (simp_all add: fit_market_def clean_market_def wf_market_def ex_htf_def ex_ltf_def)
  then show "fit_broker ex_two_timeframes" by (simp add: fit_broker_def ex_two_timeframes_def)
  show "fit_store ex_store" by (simp add: fit_store_def ex_store_def)
qed

lemma ex_persisted: "persist_all_results ex_store snaps smc snds db = (Inr (), db + 1)"
proof -
  have "persist_snapshot ex_store s d = d" for s d
    by (simp add: persist_snapshot_def ex_store_def split: sum.splits)
  then have "foldl (\<lambda>d s. persist_snapshot ex_store s d) d snaps = d" for d by (induction snaps) simp_all
  then show ?thesis by (simp add: persist_all_results_def ex_store_def)
qed

lemma dedupe_singleton: "dedupe_by_zone key bucket wins [c] = [c]"
  by (cases "bucket c") (simp_all add: dedupe_by_zone_def keep_best_def)

lemma ex_analysis:
  obtains r where "analyze ex_orchestrator ex_store None (Some ex_two_timeframes) (\<lambda>_. 0) ex_dumps (\<lambda>_. '''') ''EURUSD'' 100 0 =
    (Inr r, 1)" "ar_status r = ''success''" "ar_smc_candidates r = [[(''entry_price'', JNum 8)]]"
proof -
  obtain hi lo m where s: "build_enriched_snapshot ex_orchestrator ex_htf = Some hi"
      "build_enriched_snapshot ex_orchestrator ex_ltf = Some lo"
      "check_alignment (to_alignment_service ex_orchestrator) hi lo = Inr m"
      "ts_qml_levels hi = []" "ts_qml_levels lo = []" "dead_order_blocks [hi, lo] = {}" "dead_fvgs [hi, lo] = {}"
    using ex_snapshots by (auto split: option.splits sum.splits)
  obtain c where c: "smc_detect_patterns ex_smc ex_htf ex_ltf = Inr [c]" "cd_entry_price c = 8"
    by (rule ex_smc_candidate)
  have ser: "\<exists>j. serialize_snapshot x = Inr j" if "ts_qml_levels x = []" for x
    using that by (simp add: serialize_snapshot_def Let_def last_n_def serialize_qm_levels_def)
  obtain jh jl where j: "serialize_snapshot hi = Inr jh" "serialize_snapshot lo = Inr jl"
    using ser [OF s(4)] ser [OF s(5)] by blast
  have tfs: "sort_key (\<lambda>tf. - tf_minutes tf) (tac_htf_timeframes (to_config ex_orchestrator)) = [H4]"
      "sort_key (\<lambda>tf. - tf_minutes tf) (tac_ltf_timeframes (to_config ex_orchestrator)) = [H1]"
    by (simp_all add: ex_orchestrator_def)
  have snaps: "snapshots_of ex_orchestrator [(H4, ex_htf), (H1, ex_ltf)] = [(H4, hi), (H1, lo)]"
    using s by (simp add: snapshots_of_def List.map_filter_def)
  have pairs: "detection_pairs [H4] [H1] = [(H4, H1)]" by code_simp
  have "\<exists>al tr. collect_findings ex_orchestrator [H4] [H1] [(H4, ex_htf), (H1, ex_ltf)] [(H4, hi), (H1, lo)] = Inr
      \<lparr>fi_snapshots = [(H4, hi), (H1, lo)], fi_smc_candidates = [c], fi_snd_candidates = [], fi_alignments = al,
       fi_overall_trend = tr\<rparr>"
    using s(3) c ex_no_snd
    by (simp add: collect_findings_def Let_def pairs detect_pair_def run_smc_detection_def run_snd_detection_def
        align_pair_def adjacent_def deduplicate_smc_candidates_def deduplicate_snd_candidates_def)
       (simp add: ex_orchestrator_def)
  then obtain al tr where f: "collect_findings ex_orchestrator [H4] [H1] [(H4, ex_htf), (H1, ex_ltf)] [(H4, hi), (H1, lo)] = Inr
      \<lparr>fi_snapshots = [(H4, hi), (H1, lo)], fi_smc_candidates = [c], fi_snd_candidates = [], fi_alignments = al,
       fi_overall_trend = tr\<rparr>" (is "_ = Inr ?f") by (elim exE)
  have rep: "reported_smc ''EURUSD'' ?f = [c]"
    using s(6,7) by (simp add: reported_smc_def smc_is_live_def dedupe_smc_candidates_by_zone_def dedupe_singleton
        split: option.splits)
  have "\<exists>r. build_result ex_dumps ''EURUSD'' ''success'' [H4] [H1] ?f None = Inr r \<and> ar_status r = ''success'' \<and>
      ar_smc_candidates r = [[(''entry_price'', JNum 8)]]"
    using j c(2) by (simp add: build_result_def Let_def rep ex_dumps_def dump_without_symbol_def)
  then obtain r where r: "build_result ex_dumps ''EURUSD'' ''success'' [H4] [H1] ?f None = Inr r" "ar_status r = ''success''"
      "ar_smc_candidates r = [[(''entry_price'', JNum 8)]]" by blast
  show thesis
    by (rule that [OF _ r(2,3)])
       (simp add: analyze_def analyze_body_def Let_def tfs ex_fetched snaps f ex_persisted r(1))
qed

theorem analyze_sound_witness:
  "\<exists>r. analyze ex_orchestrator ex_store None (Some ex_two_timeframes) (\<lambda>_. 0) ex_dumps (\<lambda>_. '''') ''EURUSD'' 100 0 =
       (Inr r, 1) \<and> ar_status r = ''success'' \<and> length (ar_smc_candidates r) = 1 \<and> sound_result ex_dumps ''EURUSD'' r"
proof -
  obtain r where r: "analyze ex_orchestrator ex_store None (Some ex_two_timeframes) (\<lambda>_. 0) ex_dumps (\<lambda>_. '''') ''EURUSD'' 100 0 =
      (Inr r, 1)" "ar_status r = ''success''" "ar_smc_candidates r = [[(''entry_price'', JNum 8)]]"
    by (rule ex_analysis)
  have s: "clean_symbol ''EURUSD''" "length ''EURUSD'' \<le> 20" by (simp_all add: clean_symbol_def)
  have b: "\<forall>b \<in> set_option (Some ex_two_timeframes). fit_broker b" "\<forall>b \<in> set_option None. fit_broker b"
    using ex_io_fit by simp_all
  show ?thesis
    using analyze_sound [OF ex_orchestrator_valid ex_io_fit(1) b s, of "\<lambda>_. 0" ex_dumps "\<lambda>_. ''''" 100 0] r by auto
qed


section \<open>When a timeframe has a snapshot\<close>

lemma zones_of_total:
  "(\<exists>zs. zones_of create levels flips = Inr zs) \<longleftrightarrow> (\<forall>l \<in> set levels. \<forall>f \<in> set flips. \<exists>z. create l f = Inr z)"
  unfolding zones_of_def concatR_total by (simp add: mapR_total)

lemma fibonacci_of_total:
  assumes "\<forall>h \<in> set shs. 0 < sh_price h \<and> clean_symbol (sh_symbol h)" and "\<forall>l \<in> set sls. 0 < sl_price l"
  shows "(\<exists>fs. fibonacci_of shs sls = Inr fs) \<longleftrightarrow> (\<forall>h l. get_latest_swing_high shs = Some h \<and>
     get_latest_swing_low sls = Some l \<longrightarrow> sl_price l < sh_price h)"
proof -
  have "h \<in> set shs" if "get_latest_swing_high shs = Some h" for h
    using max_key_Some that by (fastforce simp: get_latest_swing_high_def split: if_splits)
  moreover have "l \<in> set sls" if "get_latest_swing_low sls = Some l" for l
    using max_key_Some that by (fastforce simp: get_latest_swing_low_def split: if_splits)
  ultimately show ?thesis
    using assms by (auto simp: fibonacci_of_def create_retracement_def mk_FibonacciRetracement_def mk_model_clean
        not_le split: option.splits)
qed

lemma order_blocks_total:
  assumes "wf_seq s" and "clean_symbol (seq_symbol s)"
    and "\<forall>e \<in> set es. bms_on s BULLISH e \<or> bms_on s BEARISH e" and "\<forall>e \<in> set es. 0 < bms_breakout_price e"
  obtains obs where "order_blocks_of config s es = Inr obs"
    "\<forall>ob \<in> set obs. ob_symbol ob = seq_symbol s \<and> 0 < ob_lower_bound ob \<and> ob_lower_bound ob < ob_upper_bound ob"
proof -
  let ?f = "\<lambda>e. if bms_direction e = BULLISH then detect_bullish_ob config s e else detect_bearish_ob config s e"
  have ob: "\<exists>r. ?f e = Inr r \<and> (\<forall>ob \<in> set_option r. ob_symbol ob = seq_symbol s \<and>
      0 < ob_lower_bound ob \<and> ob_lower_bound ob < ob_upper_bound ob)" if e: "e \<in> set es" for e
  proof -
    have on: "bms_candle_index e \<le> length (seq_candles s)" "0 < bms_breakout_price e"
        "bms_direction e = BULLISH \<or> bms_direction e = BEARISH"
      using assms(3,4) e by (auto simp: bms_on_def)
    have "\<exists>r. ?f e = Inr r \<and> (\<forall>ob. r = Some ob \<longrightarrow> (\<exists>move d i. ob = ob_event s move d i))"
      using on(3)
    proof
      assume d: "bms_direction e = BULLISH"
      from bullish_ob_scan [OF assms(1,2) on(1) d on(2), of config] show ?thesis unfolding d if_P [OF refl] by metis
    next
      assume d: "bms_direction e = BEARISH"
      from bearish_ob_scan [OF assms(1,2) on(1) d on(2), of config] show ?thesis by (simp add: d) metis
    qed
    then obtain r where r: "?f e = Inr r" "\<forall>ob. r = Some ob \<longrightarrow> (\<exists>move d i. ob = ob_event s move d i)"
      by (elim exE conjE)
    have "detect_ob config (bms_direction e) s e = Inr r" using r(1) on(3) by (auto simp: detect_ob_def)
    then have "wf_zone_bounds (ob_lower_bound ob) (ob_upper_bound ob)" if "r = Some ob" for ob
      using that detect_ob_bounds by blast
    moreover have "ob_symbol ob = seq_symbol s" if "r = Some ob" for ob
      using r(2) that by (auto simp: ob_event_def Let_def)
    ultimately show ?thesis using r(1) by (auto simp: wf_zone_bounds_def)
  qed
  then obtain obs where obs: "collectR ?f es = Inr obs" using collectR_raises [of ?f es] by blast
  have "ob_symbol x = seq_symbol s \<and> 0 < ob_lower_bound x \<and> ob_lower_bound x < ob_upper_bound x" if "x \<in> set obs" for x
    using collectR_set [OF obs, of x] that ob by fastforce
  then show thesis using obs by (intro that) (auto simp: order_blocks_of_def)
qed

lemma session_range_total:
  assumes "wf_seq s" and "clean_symbol (seq_symbol s)"
  shows "\<exists>r. extract_session_range s session = Inr r \<and> (\<forall>x \<in> set_option r. sr_symbol x = seq_symbol s \<and>
     0 < sr_low x \<and> sr_low x \<le> sr_high x \<and> sr_start_time x \<le> sr_end_time x)"
proof -
  let ?b = "filter (\<lambda>c. in_session session (c_timestamp c)) (seq_candles s)"
  have wf: "\<forall>c \<in> set ?b. wf_candle c" using assms(1) by (auto simp: wf_seq_def)
  have srt: "sorted_wrt (<) (map c_timestamp ?b)"
    using assms(1) by (auto simp: wf_seq_def sorted_wrt_map intro: sorted_wrt_filter)
  show ?thesis
  proof (cases "?b = []")
    case False
    note py = py_extremes [OF False wf]
    have e: "wf_candle (hd ?b)" "wf_candle (last ?b)" using bspec [OF wf hd_in_set [OF False]] bspec [OF wf last_in_set [OF False]] .
    have "c_timestamp (hd ?b) \<le> c_timestamp (last ?b)"
      using srt last_in_set [OF False] False by (cases ?b) (auto simp: less_imp_le simp del: filter_eq_Cons_iff)
    then show ?thesis
      using False assms(2) py wf_candleD [OF e(1)] wf_candleD [OF e(2)]
      by (simp add: extract_session_range_def get_session_candles_Inr block_range_def mk_SessionRange_def mk_model_clean not_less)
  qed (simp add: extract_session_range_def get_session_candles_Inr)
qed

lemma dealing_ranges_total:
  assumes "wf_seq s" and "clean_symbol (seq_symbol s)" and "0 < da_min_range_pips da"
  shows "\<exists>rs. dealing_ranges_of da s = Inr rs"
proof -
  have built: "\<exists>r. create_from_session da x = Inr r"
    if x: "sr_symbol x = seq_symbol s" "0 < sr_low x" "sr_low x \<le> sr_high x" "sr_start_time x \<le> sr_end_time x" for x
  proof (cases "sr_low x = sr_high x")
    case True
    then show ?thesis using x assms(3) by (simp add: create_from_session_def calculate_pips_Inr)
  next
    case False
    then show ?thesis
      using x assms(2) by (auto simp: create_from_session_def calculate_pips_Inr mk_DealingRange_def mk_model_clean)
  qed
  have "\<exists>y. bindR (extract_session_range s session) (\<lambda>session_range.
      case session_range of None \<Rightarrow> Inr None | Some r \<Rightarrow> create_from_session da r) = Inr y" for session
  proof -
    obtain r where r: "extract_session_range s session = Inr r" "\<forall>x \<in> set_option r. sr_symbol x = seq_symbol s \<and>
        0 < sr_low x \<and> sr_low x \<le> sr_high x \<and> sr_start_time x \<le> sr_end_time x"
      using session_range_total [OF assms(1,2), of session] by (elim exE conjE)
    then show ?thesis using built by (cases r) (simp_all del: bindR_eq_Inr)
  qed
  then show ?thesis unfolding dealing_ranges_of_def collectR_raises by blast
qed

lemma build_snapshot_total:
  assumes "wf_seq s" and "clean_symbol (seq_symbol s)" and "detect_swing_highs a s = Inr shs" and "detect_swing_lows a s = Inr sls"
  shows "\<exists>t. build_snapshot a s events = Inr t"
proof -
  obtain st where "identify_session (c_timestamp (last (seq_candles s))) = Inr st"
    using identify_session_table [of "c_timestamp (last (seq_candles s))"] by blast
  moreover have "seq_candles s \<noteq> []" using assms(1) by (simp add: wf_seq_def)
  ultimately show ?thesis
    using assms(2-4) by (simp add: build_snapshot_def last_candle_def mk_TechnicalSnapshot_def mk_model_clean Let_def
        snapshot_events.defs TechnicalSnapshot.defs)
qed

lemma sms_total:
  assumes "wf_seq s" and "clean_symbol (seq_symbol s)"
    and "\<forall>h \<in> set shs. 0 < sh_price h" and "\<forall>l \<in> set sls. 0 < sl_price l"
  shows "\<exists>es. detect_bullish_sms s sls = Inr es" and "\<exists>fs. detect_bearish_sms s shs = Inr fs"
proof -
  have "\<forall>x \<in> set (map (\<lambda>l. (sl_price l, sl_index l, sl_timestamp l)) (sort_key sl_timestamp sls)). 0 < fst x"
      "\<forall>x \<in> set (map (\<lambda>h. (sh_price h, sh_index h, sh_timestamp h)) (sort_key sh_timestamp shs)). 0 < fst x"
    using assms(3,4) by auto
  from sms_collect [OF assms(1,2) this(1), of "(<)" BULLISH] sms_collect [OF assms(1,2) this(2), of "(>)" BEARISH]
  show "\<exists>es. detect_bullish_sms s sls = Inr es" "\<exists>fs. detect_bearish_sms s shs = Inr fs"
    unfolding detect_sms_collect Let_def by (metis length_map)+
qed

lemma broken_price:
  assumes "wf_seq s" and "is_bms config s beyond level i b" and "3 \<le> sc_bms_weak_confirm_candles config"
  shows "0 < c_close (seq_candles s ! b)"
proof -
  have "b < length (seq_candles s)"
    using assms(2) bms_required_ge [OF assms(3), of s level b] by (simp add: is_bms_def confirmed_break_def)
  from wf_candleD(3) [OF wf_seq_nth [OF assms(1) this]] show ?thesis .
qed

text \<open>The breaks with their blocks, and the levels with their zones.\<close>

lemma blocks_run:
  assumes wf: "wf_seq s" "clean_symbol (seq_symbol s)" and cfg: "valid_SMCConfig c"
    and pos: "\<forall>h \<in> set shs. 0 < sh_price h" "\<forall>l \<in> set sls. 0 < sl_price l"
  obtains es fs obs bb where "detect_bullish_bms c s shs = Inr es" "detect_bearish_bms c s sls = Inr fs"
    "order_blocks_of c s (es @ fs) = Inr obs" "collectR (detect_breaker_from_ob s) obs = Inr bb"
proof -
  have weak: "3 \<le> sc_bms_weak_confirm_candles c" using cfg by (simp add: valid_SMCConfig_def)
  obtain es fs where bms: "detect_bullish_bms c s shs = Inr es" "detect_bearish_bms c s sls = Inr fs"
      and es: "\<forall>e. e \<in> set es \<longleftrightarrow> (\<exists>h \<in> set shs. \<exists>b. is_bms c s (>) (sh_price h) (sh_index h) b \<and>
        e = bms_event c s BULLISH (sh_price h) (sh_timestamp h) b)"
      and fs: "\<forall>e. e \<in> set fs \<longleftrightarrow> (\<exists>l \<in> set sls. \<exists>b. is_bms c s (<) (sl_price l) (sl_index l) b \<and>
        e = bms_event c s BEARISH (sl_price l) (sl_timestamp l) b)"
    using detect_bms_reports [OF wf cfg pos] by (elim exE conjE)
  have on: "\<forall>e \<in> set (es @ fs). bms_on s BULLISH e \<or> bms_on s BEARISH e"
    using detected_bms_on(1) [OF wf cfg pos(1) bms(1)] detected_bms_on(2) [OF wf cfg pos(2) bms(2)] by auto
  have "0 < bms_breakout_price e" if "e \<in> set es" for e
    using that [unfolded es [rule_format]] broken_price [OF wf(1) _ weak] by (fastforce simp: bms_event_def)
  moreover have "0 < bms_breakout_price e" if "e \<in> set fs" for e
    using that [unfolded fs [rule_format]] broken_price [OF wf(1) _ weak] by (fastforce simp: bms_event_def)
  ultimately have bp: "\<forall>e \<in> set (es @ fs). 0 < bms_breakout_price e" by auto
  obtain obs where obs: "order_blocks_of c s (es @ fs) = Inr obs" "\<forall>ob \<in> set obs. ob_symbol ob = seq_symbol s \<and>
      0 < ob_lower_bound ob \<and> ob_lower_bound ob < ob_upper_bound ob"
    by (rule order_blocks_total [OF wf on bp])
  have "\<exists>r. detect_breaker_from_ob s ob = Inr r" if "ob \<in> set obs" for ob
    using detect_breaker_reports [of ob s] obs(2) that wf(2) by (metis (no_types, lifting))
  then obtain bb where "collectR (detect_breaker_from_ob s) obs = Inr bb"
    using collectR_raises [of "detect_breaker_from_ob s" obs] by blast
  with bms obs(1) show thesis by (rule that)
qed

abbreviation supply_zones_of :: "CandleSequence \<Rightarrow> QuasiModoLevel list \<Rightarrow> SRFlip list \<Rightarrow> SupplyZone list result" where
  "supply_zones_of s \<equiv> zones_of (\<lambda>q f.
     create_supply_zone s (qm_level q) (qm_timestamp q) (srf_new_resistance_level f) (srf_timestamp f))"

abbreviation demand_zones_of :: "CandleSequence \<Rightarrow> QuasiModoLevel list \<Rightarrow> RSFlip list \<Rightarrow> DemandZone list result" where
  "demand_zones_of s \<equiv> zones_of (\<lambda>q f.
     create_demand_zone s (qm_level q) (qm_timestamp q) (rsf_new_support_level f) (rsf_timestamp f))"

lemma levels_run:
  assumes wf: "wf_seq s" "clean_symbol (seq_symbol s)"
    and pos: "\<forall>h \<in> set shs. 0 < sh_price h" "\<forall>l \<in> set sls. 0 < sl_price l"
  obtains qml qmh sr rs where "detect_qml s shs sls = Inr qml" "detect_qmh s sls shs = Inr qmh"
    "detect_sr_flips m s sls = Inr sr" "detect_rs_flips m s shs = Inr rs"
    "(\<exists>zs. supply_zones_of s qml sr = Inr zs) \<longleftrightarrow> (\<forall>q \<in> set qml. \<forall>f \<in> set sr. qm_level q \<noteq> srf_new_resistance_level f)"
    "(\<exists>zs. demand_zones_of s qmh rs = Inr zs) \<longleftrightarrow> (\<forall>q \<in> set qmh. \<forall>f \<in> set rs. qm_level q \<noteq> rsf_new_support_level f)"
proof -
  obtain sr where sr: "detect_sr_flips m s sls = Inr sr" "\<forall>f \<in> set sr. 0 < srf_new_resistance_level f"
    using flips_positive(1) [OF wf pos(2), of m] by (elim exE conjE)
  obtain rs where rs: "detect_rs_flips m s shs = Inr rs" "\<forall>f \<in> set rs. 0 < rsf_new_support_level f"
    using flips_positive(2) [OF wf pos(1), of m] by (elim exE conjE)
  obtain qml where qml: "detect_qml s shs sls = Inr qml" "\<forall>e \<in> set qml. qm_ok BEARISH e"
    using qm_events_ok(1) [OF wf pos] by (elim exE conjE)
  obtain qmh where qmh: "detect_qmh s sls shs = Inr qmh" "\<forall>e \<in> set qmh. qm_ok BULLISH e"
    using qm_events_ok(2) [OF wf pos] by (elim exE conjE)
  have lv: "\<forall>q \<in> set qml. 0 < qm_level q" "\<forall>q \<in> set qmh. 0 < qm_level q"
    using qml(2) qmh(2) by (simp_all add: qm_ok_def)
  have zone: "(\<exists>z. create_supply_zone s x ta y tb = Inr z) \<longleftrightarrow> x \<noteq> y" "(\<exists>z. create_demand_zone s x ta y tb = Inr z) \<longleftrightarrow> x \<noteq> y"
    if "0 < x" "0 < y" for x y ta tb
    using supply_demand_zone_error [OF wf(2) that, of ta tb] by auto
  have "(\<exists>zs. supply_zones_of s qml sr = Inr zs) \<longleftrightarrow> (\<forall>q \<in> set qml. \<forall>f \<in> set sr. qm_level q \<noteq> srf_new_resistance_level f)"
    unfolding zones_of_total using zone(1) lv(1) sr(2) by blast
  moreover have "(\<exists>zs. demand_zones_of s qmh rs = Inr zs) \<longleftrightarrow> (\<forall>q \<in> set qmh. \<forall>f \<in> set rs. qm_level q \<noteq> rsf_new_support_level f)"
    unfolding zones_of_total using zone(2) lv(2) rs(2) by blast
  ultimately show thesis by (rule that [OF qml(1) qmh(1) sr(1) rs(1)])
qed

section \<open>When a timeframe is lost\<close>

text \<open>C6. When a timeframe has a snapshot. On a well-formed market no detector raises; the snapshot is
  nevertheless missing, with all its structure, in exactly two situations. Either the latest swing high
  does not lie above the latest swing low, which the Fibonacci model refuses, or a quasimodo level
  coincides with a flip level, which makes an empty supply or demand zone.\<close>

theorem enriched_snapshot_exact:
  assumes v: "valid_orchestrator self" and s: "clean_market s"
  shows "\<exists>shs sls qml qmh sr rs. detect_swing_highs (to_swing_analyzer self) s = Inr shs \<and>
     detect_swing_lows (to_swing_analyzer self) s = Inr sls \<and> detect_qml s shs sls = Inr qml \<and> detect_qmh s sls shs = Inr qmh \<and>
     detect_sr_flips (sdd_marubozu_analyzer (to_snd_detector self)) s sls = Inr sr \<and>
     detect_rs_flips (sdd_marubozu_analyzer (to_snd_detector self)) s shs = Inr rs \<and>
     (build_enriched_snapshot self s \<noteq> None \<longleftrightarrow>
       (\<forall>q \<in> set qml. \<forall>f \<in> set sr. qm_level q \<noteq> srf_new_resistance_level f) \<and>
       (\<forall>q \<in> set qmh. \<forall>f \<in> set rs. qm_level q \<noteq> rsf_new_support_level f) \<and>
       (\<forall>h l. get_latest_swing_high shs = Some h \<and> get_latest_swing_low sls = Some l \<longrightarrow> sl_price l < sh_price h))"
proof -
  let ?a = "to_swing_analyzer self" and ?c = "smc_config (to_smc_detector self)"
  let ?m = "sdd_marubozu_analyzer (to_snd_detector self)" and ?q = "to_liquidity_analyzer self"
  have wf: "wf_market s" "clean_symbol (seq_symbol s)" "wf_seq s" using s by (simp_all add: clean_market_def wf_market_def)
  have va: "0 \<le> sa_equal_tolerance_pips ?a" "1 \<le> sa_left_bars ?a" "1 \<le> sa_right_bars ?a"
      and cfg: "valid_SMCConfig ?c" and eq: "0 \<le> la_equal_tolerance_pips ?q" "2 \<le> la_min_touches ?q"
      and da: "0 < da_min_range_pips (to_dealing_range_analyzer self)"
    using v by (simp_all add: valid_orchestrator_def valid_analyzer_def)
  obtain shs sls where sw: "detect_swing_highs ?a s = Inr shs" "detect_swing_lows ?a s = Inr sls"
      and src: "\<forall>h \<in> set shs. sh_from (seq_candles s) h" "\<forall>l \<in> set sls. sl_from (seq_candles s) l"
      and pos: "\<forall>h \<in> set shs. 0 < sh_price h" "\<forall>l \<in> set sls. 0 < sl_price l"
    by (rule swings_detected [OF wf(1) va])
  have cl: "\<forall>h \<in> set shs. 0 < sh_price h \<and> clean_symbol (sh_symbol h)" "\<forall>l \<in> set sls. 0 < sl_price l \<and> clean_symbol (sl_symbol l)"
    using src wf(1) by (auto simp: sh_from_def sl_from_def wf_market_def clean_symbol_def)
  obtain es fs obs bb where bl: "detect_bullish_bms ?c s shs = Inr es" "detect_bearish_bms ?c s sls = Inr fs"
      "order_blocks_of ?c s (es @ fs) = Inr obs" "collectR (detect_breaker_from_ob s) obs = Inr bb"
    by (rule blocks_run [OF wf(3,2) cfg pos])
  obtain qml qmh sr rs where lv: "detect_qml s shs sls = Inr qml" "detect_qmh s sls shs = Inr qmh"
      "detect_sr_flips ?m s sls = Inr sr" "detect_rs_flips ?m s shs = Inr rs"
      "(\<exists>zs. supply_zones_of s qml sr = Inr zs) \<longleftrightarrow> (\<forall>q \<in> set qml. \<forall>f \<in> set sr. qm_level q \<noteq> srf_new_resistance_level f)"
      "(\<exists>zs. demand_zones_of s qmh rs = Inr zs) \<longleftrightarrow> (\<forall>q \<in> set qmh. \<forall>f \<in> set rs. qm_level q \<noteq> rsf_new_support_level f)"
    by (rule levels_run [OF wf(3,2) pos])
  obtain ch ci sm sn gs st eh el dr where ev: "detect_bullish_choch s shs = Inr ch" "detect_bearish_choch s sls = Inr ci"
      "detect_bullish_sms s sls = Inr sm" "detect_bearish_sms s shs = Inr sn" "detect_fvgs ?c s = Inr gs"
      "detect_sweeps_in_sequence (to_sweep_analyzer self) s shs sls = Inr st"
      "detect_equal_highs ?q shs = Inr eh" "detect_equal_lows ?q sls = Inr el"
      "dealing_ranges_of (to_dealing_range_analyzer self) s = Inr dr"
    using detect_choch_reports [OF wf(3,2) pos] sms_total [OF wf(3,2) pos] detect_fvgs_reports [OF wf(3,2), of ?c]
      detect_sweeps_run [OF wf(1) pos, of "to_sweep_analyzer self"] detect_equal_total(1) [OF eq cl(1)]
      detect_equal_total(2) [OF eq cl(2)] dealing_ranges_total [OF wf(3,2) da]
    by (metis (no_types, lifting))
  have "build_enriched_snapshot self s \<noteq> None \<longleftrightarrow> (\<exists>t. detect_structure self s = Inr t)"
    by (simp add: build_enriched_snapshot_def split: sum.splits)
  also have "\<dots> \<longleftrightarrow> (\<exists>zs. supply_zones_of s qml sr = Inr zs) \<and> (\<exists>zs. demand_zones_of s qmh rs = Inr zs) \<and>
      (\<exists>fs. fibonacci_of shs sls = Inr fs)"
    using build_snapshot_total [OF wf(3,2) sw]
    by (simp add: detect_structure_def Let_def sw bl lv(1-4) ev detect_inducement_Inr(1) [OF wf(2) pos(2)]
        detect_inducement_Inr(2) [OF wf(2) pos(1)]) blast
  finally show ?thesis
    unfolding lv(5,6) fibonacci_of_total [OF cl(1) pos(2)]
    using sw lv(1-4) by (intro exI conjI)
qed


text \<open>A market that leaves its last swing high behind: the next swing low is above it.\<close>

definition ex_runaway :: CandleSequence where
  "ex_runaway = \<lparr>seq_symbol = ''EURUSD'', seq_timeframe = H1, seq_candles = [ex_candle 0 8 9 8 9,
     ex_candle 3600 9 10 8 9, ex_candle 7200 9 9 8 9, ex_candle 10800 30 31 30 31, ex_candle 14400 31 32 25 31,
     ex_candle 18000 31 33 30 32]\<rparr>"

lemma ex_runaway_swings:
  "case (detect_swing_highs ex_swing_analyzer ex_runaway, detect_swing_lows ex_swing_analyzer ex_runaway) of
     (Inr shs, Inr sls) \<Rightarrow> (case (get_latest_swing_high shs, get_latest_swing_low sls) of
        (Some h, Some l) \<Rightarrow> sh_price h = 10 \<and> sl_price l = 25 | _ \<Rightarrow> False)
   | _ \<Rightarrow> False"
  by code_simp

theorem enriched_snapshot_exact_witness:
  "build_enriched_snapshot ex_orchestrator ex_runaway = None \<and> build_enriched_snapshot ex_orchestrator ex_ltf \<noteq> None"
proof -
  have a: "to_swing_analyzer ex_orchestrator = ex_swing_analyzer" by (simp add: ex_orchestrator_def)
  have wf: "clean_market ex_runaway"
    by (simp add: clean_market_def ex_runaway_def wf_market_def wf_seq_def wf_candle_def uniform_def)
  obtain shs sls h l where sw: "detect_swing_highs ex_swing_analyzer ex_runaway = Inr shs"
      "detect_swing_lows ex_swing_analyzer ex_runaway = Inr sls" "get_latest_swing_high shs = Some h"
      "get_latest_swing_low sls = Some l" "\<not> sl_price l < sh_price h"
    using ex_runaway_swings by (auto split: sum.splits option.splits)
  have "build_enriched_snapshot ex_orchestrator ex_runaway = None"
    using enriched_snapshot_exact [OF ex_orchestrator_valid wf] sw unfolding a by auto
  moreover have "build_enriched_snapshot ex_orchestrator ex_ltf \<noteq> None" using ex_snapshots by (auto split: option.splits)
  ultimately show ?thesis by blast
qed

lemma same_bucket_close:
  assumes "zone_bucket (Some lo) (Some up) tf sy = Some b" and "zone_bucket (Some lo') (Some up') tf sy = Some b"
  shows "\<bar>(lo + up) / 2 - (lo' + up') / 2\<bar> < 2 * dict_get ZONE_PIP_TOLERANCE tf 30 * get_pip_value sy"
proof -
  define w where "w = 2 * dict_get ZONE_PIP_TOLERANCE tf 30 * get_pip_value sy"
  have w: "0 < w" unfolding w_def using tolerance_pos by simp
  define x where "x = (lo + up) / 2 / w"
  define y where "y = (lo' + up') / 2 / w"
  have "\<lfloor>x\<rfloor> = \<lfloor>y\<rfloor>" using assms unfolding zone_bucket_Some w_def [symmetric] x_def y_def by metis
  then have "\<bar>x - y\<bar> < 1" by linarith
  then have "\<bar>x - y\<bar> * w < 1 * w" using w by (rule mult_strict_right_mono)
  moreover have "\<bar>x - y\<bar> * w = \<bar>(lo + up) / 2 - (lo' + up') / 2\<bar>"
  proof -
    have "\<bar>x - y\<bar> * w = \<bar>(x - y) * w\<bar>" using w by (simp add: abs_mult)
    also have "(x - y) * w = (lo + up) / 2 - (lo' + up') / 2"
      unfolding x_def y_def using w by (simp add: left_diff_distrib)
    finally show ?thesis .
  qed
  ultimately show ?thesis by (simp add: w_def)
qed

text \<open>C18. The deduplication by zone refines its specification. A candidate without a zone stays. Of the
  candidates with one timeframe, direction and zone exactly one stays, the first among those with the
  highest rank, and it ranks at least as high as every candidate it replaces. Two candidates of one
  zone have midpoints less than twice the tolerance of the timeframe apart.\<close>

theorem zone_dedupe_refines:
  "(\<forall>c. c \<in> set (dedupe_smc_candidates_by_zone sy cs) \<longleftrightarrow>
     (if smc_bucket sy c = None then c \<in> set cs
      else max_key smc_rank_key (filter (\<lambda>y. ((cd_timeframe y, cd_direction y), smc_bucket sy y) =
        ((cd_timeframe c, cd_direction c), smc_bucket sy c)) cs) = Some c)) \<and>
   (\<forall>c \<in> set cs. smc_bucket sy c \<noteq> None \<longrightarrow> (\<exists>e \<in> set (dedupe_smc_candidates_by_zone sy cs).
      ((cd_timeframe e, cd_direction e), smc_bucket sy e) = ((cd_timeframe c, cd_direction c), smc_bucket sy c) \<and>
      smc_rank_key c \<le> smc_rank_key e)) \<and>
   distinct (map (\<lambda>c. ((cd_timeframe c, cd_direction c), smc_bucket sy c))
     (filter (\<lambda>c. smc_bucket sy c \<noteq> None) (dedupe_smc_candidates_by_zone sy cs))) \<and>
   (\<forall>tf lo up lo' up' b. zone_bucket (Some lo) (Some up) tf sy = Some b \<and> zone_bucket (Some lo') (Some up') tf sy = Some b \<longrightarrow>
      \<bar>(lo + up) / 2 - (lo' + up') / 2\<bar> < 2 * dict_get ZONE_PIP_TOLERANCE tf 30 * get_pip_value sy)"
  unfolding dedupe_smc_candidates_by_zone_def
  by (intro conjI allI ballI impI, rule smc_zones.kept, erule (1) smc_zones.represented,
      rule smc_zones.kept_distinct_zones, erule conjE, erule (1) same_bucket_close)

text \<open>Two candidates of the same block with different ranks: the first is dropped.\<close>

definition ex_zone :: "SMCCandidate \<Rightarrow> rat \<Rightarrow> SMCCandidate" where
  "ex_zone c n = c\<lparr>cd_order_block_lower := Some 8, cd_order_block_upper := Some 9,
     cd_metadata := [(''confluences'', JNum n)]\<rparr>"

lemma ex_zone_sel: "cd_timeframe (ex_zone c n) = cd_timeframe c" "cd_direction (ex_zone c n) = cd_direction c"
    "smc_bucket sy (ex_zone c n) = smc_bucket sy (ex_zone c 0)" "smc_bucket sy (ex_zone c 0) \<noteq> None"
    "smc_rank_key (ex_zone c 1) < smc_rank_key (ex_zone c 2)"
  using zone_bucket_Some [of 8 9 "cd_timeframe c" sy]
  by (simp_all add: ex_zone_def smc_bucket_def smc_rank_key_def confluences_of_def)

theorem zone_dedupe_refines_witness:
  "\<exists>c. smc_detect_patterns ex_smc ex_htf ex_ltf = Inr [c] \<and>
     (let d = set (dedupe_smc_candidates_by_zone ''EURUSD'' [ex_zone c 1, ex_zone c 2]) in ex_zone c 1 \<notin> d \<and> ex_zone c 2 \<in> d)"
proof -
  obtain c where c: "smc_detect_patterns ex_smc ex_htf ex_ltf = Inr [c]" by (rule ex_smc_candidate)
  have ne: "ex_zone c 2 \<noteq> ex_zone c 1" using ex_zone_sel(5) [of c] by (rule contrapos_pn) simp
  have "smc_bucket ''EURUSD'' (ex_zone c n) \<noteq> None" for n unfolding ex_zone_sel(3) [of _ c n] by (rule ex_zone_sel(4))
  then have "ex_zone c 1 \<notin> set (dedupe_smc_candidates_by_zone ''EURUSD'' [ex_zone c 1, ex_zone c 2]) \<and>
      ex_zone c 2 \<in> set (dedupe_smc_candidates_by_zone ''EURUSD'' [ex_zone c 1, ex_zone c 2])"
    using conjunct1 [OF zone_dedupe_refines [of "''EURUSD''" "[ex_zone c 1, ex_zone c 2]"]] ne ex_zone_sel(5) [of c]
    by (simp add: ex_zone_sel(1-2) ex_zone_sel(3) [of _ c 1] ex_zone_sel(3) [of _ c 2] Let_def)
  with c show ?thesis by (simp add: Let_def)
qed

end
