(* ===== verification/Gate.thy ===== *)
theory Gate
  imports StopLoss "HOL-Library.AList"
begin

text \<open>
  The gate between the language model and trade execution:
  \<^verbatim>\<open>engine/processor/parsing/validators.py\<close> (the rules an analysis must meet) and
  \<^verbatim>\<open>engine/processor/parsing/response_parser.py\<close> (extraction of the JSON object, the repair
  of null lists, and the split of rule violations into fatal errors and warnings), with the models of
  \<^verbatim>\<open>engine/processor/models/analysis.py\<close>.

  Violations are the message strings of the source, because the split is made by searching those
  strings. How Python prints a number or a set inside a message is the argument \<open>fm\<close>; the JSON
  decoder (\<^verbatim>\<open>orjson.loads\<close>) and pydantic's \<^verbatim>\<open>model_validate\<close> are the arguments
  \<open>loads\<close> and \<open>model_validate\<close> of \<open>parse_llm_response\<close>.
\<close>

section \<open>The analysis\<close>

record EvidenceItem =
  ev_doc_id :: "string option"
  ev_chunk_id :: "string option"
  ev_section :: "string option"
  ev_rule_id :: "string option"
  ev_content_preview :: "string option"

record CurrencyBias =
  cb_bias :: string
  cb_evidence :: "EvidenceItem list"

record MacroBiasOutput =
  mb_base_currency :: CurrencyBias
  mb_quote_currency :: CurrencyBias

record DXYBiasOutput =
  dx_direction :: string
  dx_evidence :: "EvidenceItem list"

record COTSignalOutput =
  co_summary :: string
  co_week_over_week :: "string option"
  co_extreme_flag :: bool
  co_evidence :: "EvidenceItem list"

record EventRiskItem =
  er_event :: string
  er_time :: "string option"
  er_impact :: string
  er_currency :: "string option"

record TimeframeBias =
  tb_structure :: string
  tb_key_levels :: "rat list"
  tb_notes :: string

record SetupZone =
  su_type :: "string option"
  su_zone_id :: "string option"
  su_quality :: "string option"
  su_bounds :: "rat list"
  su_evidence :: "EvidenceItem list"

record WyckoffPhaseOutput =
  wy_phase :: string
  wy_evidence :: "EvidenceItem list"

record ConfluenceFactor =
  cf_name :: string
  cf_present :: bool
  cf_value :: rat
  cf_notes :: string

record ConfluenceScoreOutput =
  cs_score :: rat
  cs_factors :: "ConfluenceFactor list"

record EntryZone =
  ez_low :: "rat option"
  ez_high :: "rat option"

record StopLossOutput =
  slo_price :: "rat option"
  slo_reason :: string
  slo_evidence :: "EvidenceItem list"

record TakeProfitLevel =
  tp_level :: "rat option"
  tp_size_pct :: int
  tp_basis :: string

record RAGSourceCitation =
  rc_doc_id :: "string option"
  rc_chunk_id :: "string option"
  rc_section :: "string option"
  rc_relevance_score :: "rat option"

record RetrievalAudit =
  ra_query_summary :: string
  ra_strategy_used :: "string option"
  ra_top_k :: int
  ra_chunks_returned :: "RAGSourceCitation list"

record AnalysisAudit =
  aa_retrieval :: RetrievalAudit
  aa_citations :: "RAGSourceCitation list"

record AnalysisOutput =
  ao_analysis_id :: string
  ao_pair :: string
  ao_timestamp :: int
  ao_trading_style :: string
  ao_session :: string
  ao_macro_bias :: MacroBiasOutput
  ao_dxy_bias :: DXYBiasOutput
  ao_cot_signal :: COTSignalOutput
  ao_event_risk :: "EventRiskItem list"
  ao_htf_bias :: TimeframeBias
  ao_mtf_bias :: TimeframeBias
  ao_entry_setup :: SetupZone
  ao_wyckoff_phase :: WyckoffPhaseOutput
  ao_confluence_score :: ConfluenceScoreOutput
  ao_setup_grade :: string
  ao_direction :: string
  ao_entry_zone :: EntryZone
  ao_stop_loss :: StopLossOutput
  ao_take_profits :: "TakeProfitLevel list"
  ao_rr_ratio :: "rat option"
  ao_confidence :: string
  ao_proceed_to_module_b :: string
  ao_execution_mode :: "string option"
  ao_ltf_confirmed :: bool
  ao_explainable_reasoning :: string
  ao_rag_sources :: "RAGSourceCitation list"
  ao_audit :: AnalysisAudit

definition CONFLUENCE_SCORE_MIN :: rat where "CONFLUENCE_SCORE_MIN = 0"

definition CONFLUENCE_SCORE_MAX :: rat where "CONFLUENCE_SCORE_MAX = 10"

definition CONFLUENCE_REJECT_THRESHOLD :: rat where "CONFLUENCE_REJECT_THRESHOLD = 5"

definition MAX_LLM_RESPONSE_LENGTH :: nat where "MAX_LLM_RESPONSE_LENGTH = 65536"

definition MAX_REASONING_LENGTH :: nat where "MAX_REASONING_LENGTH = 8192"

definition MAX_CITATIONS :: nat where "MAX_CITATIONS = 30"

definition MAX_TAKE_PROFIT_LEVELS :: nat where "MAX_TAKE_PROFIT_LEVELS = 3"

section \<open>Messages\<close>

text \<open>How Python formats a float, an integer and the two sets of admissible values.\<close>

record formatter =
  fm_float :: "rat \<Rightarrow> string"
  fm_int :: "int \<Rightarrow> string"
  fm_directions :: string
  fm_grades :: string

definition quoted :: "string \<Rightarrow> string" where
  "quoted s = [CHR 0x27] @ s @ [CHR 0x27]"

section \<open>Rules\<close>

definition validate_identity :: "AnalysisOutput \<Rightarrow> string list" where
  "validate_identity self =
     (if ao_analysis_id self = '''' then [''analysis_id is empty''] else []) @
     (if ao_pair self = '''' then [''pair is empty''] else []) @
     (if ao_trading_style self = '''' then [''trading_style is empty''] else [])"

definition validate_direction_consistency :: "formatter \<Rightarrow> AnalysisOutput \<Rightarrow> string list" where
  "validate_direction_consistency fm self =
     (if ao_direction self \<notin> {''LONG'', ''SHORT'', ''NO SETUP''}
      then [''direction '' @ quoted (ao_direction self) @ '' not in '' @ fm_directions fm] else []) @
     (if ao_direction self = ''NO SETUP''
      then (if ao_setup_grade self \<noteq> ''REJECT''
            then [''direction is NO SETUP but setup_grade is '' @ quoted (ao_setup_grade self) @
                  '' (expected REJECT)''] else []) @
           (if ao_proceed_to_module_b self = ''YES''
            then [''direction is NO SETUP but proceed_to_module_b is YES''] else [])
      else [])"

definition validate_confluence_score :: "formatter \<Rightarrow> AnalysisOutput \<Rightarrow> string list" where
  "validate_confluence_score fm self =
     (let score = cs_score (ao_confluence_score self) in
      if score < CONFLUENCE_SCORE_MIN \<or> CONFLUENCE_SCORE_MAX < score
      then [''confluence_score '' @ fm_float fm score @ '' outside bounds ['' @
            fm_float fm CONFLUENCE_SCORE_MIN @ '', '' @ fm_float fm CONFLUENCE_SCORE_MAX @ '']'']
      else [])"

definition validate_grade_consistency :: "formatter \<Rightarrow> AnalysisOutput \<Rightarrow> string list" where
  "validate_grade_consistency fm self =
     (if ao_setup_grade self \<notin> {''A+'', ''A'', ''B'', ''REJECT''}
      then [''setup_grade '' @ quoted (ao_setup_grade self) @ '' not in '' @ fm_grades fm] else []) @
     (let score = cs_score (ao_confluence_score self) in
      if score < CONFLUENCE_REJECT_THRESHOLD \<and> ao_setup_grade self \<noteq> ''REJECT''
      then [''confluence_score '' @ fm_float fm score @ '' < '' @
            fm_float fm CONFLUENCE_REJECT_THRESHOLD @ '' but grade is '' @
            quoted (ao_setup_grade self) @ '' (expected REJECT)'']
      else [])"

definition validate_trade_construction :: "formatter \<Rightarrow> AnalysisOutput \<Rightarrow> string list" where
  "validate_trade_construction fm self =
     (if ao_direction self \<in> {''LONG'', ''SHORT''}
      then let low = ez_low (ao_entry_zone self); high = ez_high (ao_entry_zone self);
               sl = slo_price (ao_stop_loss self) in
        (if low = None \<or> high = None then [''trade approved but entry_zone has null bounds''] else []) @
        (if sl = None then [''trade approved but stop_loss.price is null''] else []) @
        (if ao_take_profits self = [] then [''trade approved but take_profits is empty''] else []) @
        (case (low, high) of (Some lo, Some hi) \<Rightarrow>
             (if hi < lo
              then [''entry_zone.low ('' @ fm_float fm lo @ '') > entry_zone.high ('' @ fm_float fm hi @ '')'']
              else []) @
             (if lo \<le> 0 then [''entry_zone.low ('' @ fm_float fm lo @ '') must be positive''] else [])
         | _ \<Rightarrow> []) @
        (case sl of Some p \<Rightarrow>
             if p \<le> 0 then [''stop_loss.price ('' @ fm_float fm p @ '') must be positive''] else []
         | None \<Rightarrow> [])
      else [])"

definition style_floor :: "AnalysisOutput \<Rightarrow> rat" where
  "style_floor self =
     (case style_min_tp_rr (Some (str_upper (ao_trading_style self))) of
        Some v \<Rightarrow> v | None \<Rightarrow> MIN_RR_INTRADAY)"

definition validate_rr_ratio :: "formatter \<Rightarrow> AnalysisOutput \<Rightarrow> string list" where
  "validate_rr_ratio fm self =
     (if ao_direction self \<notin> {''LONG'', ''SHORT''} then []
      else case ao_rr_ratio self of
        None \<Rightarrow> [''trade approved but rr_ratio is null'']
      | Some rr \<Rightarrow>
          if rr \<le> 0 then [''rr_ratio ('' @ fm_float fm rr @ '') must be positive'']
          else if rr < style_floor self
          then [''rr_ratio '' @ fm_float fm rr @ '' below minimum '' @ fm_float fm (style_floor self) @
                '' for style '' @ str_upper (ao_trading_style self)]
          else [])"

definition validate_proceed_consistency :: "AnalysisOutput \<Rightarrow> string list" where
  "validate_proceed_consistency self =
     (if ao_proceed_to_module_b self = ''YES''
      then (if ao_setup_grade self \<notin> {''A+'', ''A'', ''B''}
            then [''proceed_to_module_b is YES but grade is '' @ quoted (ao_setup_grade self) @
                  '' (requires A+, A, or B)''] else []) @
           (if ao_direction self = ''NO SETUP''
            then [''proceed_to_module_b is YES but direction is NO SETUP''] else [])
      else [])"

definition validate_reasoning :: "formatter \<Rightarrow> AnalysisOutput \<Rightarrow> string list" where
  "validate_reasoning fm self =
     (if ao_explainable_reasoning self = '''' then [''explainable_reasoning is empty'']
      else if MAX_REASONING_LENGTH < length (ao_explainable_reasoning self)
      then [''explainable_reasoning exceeds '' @ fm_int fm (int MAX_REASONING_LENGTH) @ '' chars'']
      else [])"

definition tp_errors :: "formatter \<Rightarrow> TakeProfitLevel list \<Rightarrow> string list" where
  "tp_errors fm tps = concat (map (\<lambda>(i, tp). case tp_level tp of
       Some l \<Rightarrow> if l \<le> 0 then [''take_profits['' @ fm_int fm (int i) @ ''].level ('' @ fm_float fm l @
                    '') must be positive''] else []
     | None \<Rightarrow> []) (enumerate 0 tps))"

definition validate_tp_structure :: "formatter \<Rightarrow> AnalysisOutput \<Rightarrow> string list" where
  "validate_tp_structure fm self =
     (if ao_direction self \<notin> {''LONG'', ''SHORT''} then []
      else let tps = ao_take_profits self; total_pct = sum_list (map tp_size_pct tps) in
        (if MAX_TAKE_PROFIT_LEVELS < length tps
         then [''take_profits has '' @ fm_int fm (int (length tps)) @ '' levels (max '' @
               fm_int fm (int MAX_TAKE_PROFIT_LEVELS) @ '')''] else []) @
        (if tps \<noteq> [] \<and> total_pct \<noteq> 100
         then [''take_profits size_pct sum is '' @ fm_int fm total_pct @ '' (expected 100)''] else []) @
        tp_errors fm tps)"

definition validate_citations :: "formatter \<Rightarrow> AnalysisOutput \<Rightarrow> string list" where
  "validate_citations fm self =
     (if ao_rag_sources self = [] then [''rag_sources is empty (citations required)''] else []) @
     (if MAX_CITATIONS < length (ao_rag_sources self)
      then [''rag_sources has '' @ fm_int fm (int (length (ao_rag_sources self))) @ '' items (max '' @
            fm_int fm (int MAX_CITATIONS) @ '')''] else [])"

definition validate_analysis_output :: "formatter \<Rightarrow> AnalysisOutput \<Rightarrow> bool \<Rightarrow> string list" where
  "validate_analysis_output fm out require_citations =
     validate_identity out @ validate_direction_consistency fm out @ validate_confluence_score fm out @
     validate_grade_consistency fm out @ validate_trade_construction fm out @ validate_rr_ratio fm out @
     validate_proceed_consistency out @ validate_reasoning fm out @ validate_tp_structure fm out @
     (if require_citations then validate_citations fm out else [])"

section \<open>Parsing\<close>

definition NULLABLE_LIST_PATHS :: "string list list" where
  "NULLABLE_LIST_PATHS = [[''event_risk''], [''take_profits''], [''rag_sources''],
     [''audit'', ''citations''], [''audit'', ''retrieval'', ''chunks_returned''],
     [''htf_bias'', ''key_levels''], [''mtf_bias'', ''key_levels''], [''entry_setup'', ''bounds''],
     [''entry_setup'', ''evidence''], [''stop_loss'', ''evidence''], [''wyckoff_phase'', ''evidence''],
     [''dxy_bias'', ''evidence''], [''cot_signal'', ''evidence''],
     [''macro_bias'', ''base_currency'', ''evidence''],
     [''macro_bias'', ''quote_currency'', ''evidence''], [''confluence_score'', ''factors'']]"

fun coerce_path :: "string list \<Rightarrow> json \<Rightarrow> json" where
  "coerce_path [leaf] (JObj kvs) =
     (if map_of kvs leaf = Some JNull then JObj (AList.update leaf (JList []) kvs) else JObj kvs)"
| "coerce_path (p # q # ps) (JObj kvs) =
     (case map_of kvs p of None \<Rightarrow> JObj kvs
      | Some node \<Rightarrow> JObj (AList.update p (coerce_path (q # ps) node) kvs))"
| "coerce_path _ j = j"

definition coerce_null_collections :: "json \<Rightarrow> json" where
  "coerce_null_collections raw = foldl (\<lambda>j path. coerce_path path j) raw NULLABLE_LIST_PATHS"

text \<open>The regular expression for a fenced block: three back quotes, an optional \<^verbatim>\<open>json\<close>, white
  space, then from an opening brace to the first closing brace that is followed by white space and
  three back quotes.\<close>

definition fence :: string where
  "fence = replicate 3 (CHR 0x60)"

fun block_body :: "string \<Rightarrow> string \<Rightarrow> string option" where
  "block_body acc [] = None"
| "block_body acc (c # cs) =
     (if c = CHR ''}'' \<and> startswith (dropWhile is_space cs) fence then Some (acc @ [c])
      else block_body (acc @ [c]) cs)"

definition block_at :: "string \<Rightarrow> string option" where
  "block_at s =
     (if startswith s fence
      then let r = drop 3 s; body = (\<lambda>t. case dropWhile is_space t of
                 c # cs \<Rightarrow> if c = CHR ''{'' then block_body [c] cs else None | [] \<Rightarrow> None)
           in case (if startswith r ''json'' then body (drop 4 r) else None) of
                Some b \<Rightarrow> Some b | None \<Rightarrow> body r
      else None)"

fun json_block :: "string \<Rightarrow> string option" where
  "json_block [] = None"
| "json_block (c # cs) = (case block_at (c # cs) of Some b \<Rightarrow> Some b | None \<Rightarrow> json_block cs)"

text \<open>From the first opening to the last closing brace.\<close>

definition json_object :: "string \<Rightarrow> string option" where
  "json_object s =
     (let r = dropWhile (\<lambda>c. c \<noteq> CHR ''{'') s;
          t = rev (dropWhile (\<lambda>c. c \<noteq> CHR ''}'') (rev r))
      in if r = [] \<or> t = [] then None else Some t)"

definition extract_json :: "string \<Rightarrow> string" where
  "extract_json raw_text =
     (let stripped = str_strip raw_text in
      if startswith stripped ''{'' \<and> endswith stripped ''}'' then stripped
      else case json_block stripped of
        Some b \<Rightarrow> str_strip b
      | None \<Rightarrow> (case json_object stripped of Some b \<Rightarrow> str_strip b | None \<Rightarrow> stripped))"

definition is_non_fatal_warning :: "string \<Rightarrow> bool" where
  "is_non_fatal_warning error =
     (let error_lower = str_lower error in
      str_in ''explainable_reasoning'' error_lower \<or> str_in ''rag_sources'' error_lower \<or>
      str_in ''take_profits size_pct sum'' error_lower)"

definition error_to_rule :: "string \<Rightarrow> string" where
  "error_to_rule error =
     (if str_in ''confluence_score'' error then ''confluence_score_bounds''
      else if str_in ''rr_ratio'' error then ''rr_ratio_minimum''
      else if str_in ''entry_zone'' error then ''entry_zone_invalid''
      else if str_in ''stop_loss'' error then ''stop_loss_invalid''
      else if str_in ''take_profits'' error then ''take_profits_invalid''
      else if str_in ''direction'' error then ''direction_consistency''
      else if str_in ''grade'' error \<or> str_in ''setup_grade'' error then ''grade_consistency''
      else if str_in ''proceed'' error then ''proceed_consistency''
      else if str_in ''rag_sources'' error \<or> str_in ''citation'' error then ''citations_missing''
      else if str_in ''reasoning'' error then ''reasoning_invalid''
      else ''other'')"

datatype gate_error =
    EmptyResponse
  | ResponseTooLong nat
  | JSONDecodeError
  | NotAnObject
  | LLMSchemaViolationError "string list"
  | FailedValidation "string list" "string list"   \<comment> \<open>fatal errors and warnings\<close>

definition parse_llm_response ::
  "formatter \<Rightarrow> (string \<Rightarrow> json option) \<Rightarrow> (json \<Rightarrow> string list + AnalysisOutput) \<Rightarrow> bool \<Rightarrow> string \<Rightarrow>
   gate_error + AnalysisOutput \<times> string list" where
  "parse_llm_response fm loads model_validate require_citations raw_text =
     (if str_strip raw_text = '''' then Inl EmptyResponse
      else if MAX_LLM_RESPONSE_LENGTH < length raw_text then Inl (ResponseTooLong (length raw_text))
      else case loads (extract_json raw_text) of
        None \<Rightarrow> Inl JSONDecodeError
      | Some (JObj kvs) \<Rightarrow>
          (case model_validate (coerce_null_collections (JObj kvs)) of
             Inl error_details \<Rightarrow> Inl (LLMSchemaViolationError error_details)
           | Inr out \<Rightarrow>
               let validation_errors = validate_analysis_output fm out require_citations;
                   warnings = filter is_non_fatal_warning validation_errors;
                   fatal_errors = filter (\<lambda>e. \<not> is_non_fatal_warning e) validation_errors
               in if fatal_errors \<noteq> [] then Inl (FailedValidation fatal_errors warnings)
                  else Inr (out, warnings))
      | Some _ \<Rightarrow> Inl NotAnObject)"

section \<open>What an accepted analysis satisfies\<close>

text \<open>The trade-critical rules: everything the docstring of \<^verbatim>\<open>_is_non_fatal_warning\<close> calls
  fatal, apart from the sum of the partial closes.\<close>

definition constructed :: "AnalysisOutput \<Rightarrow> bool" where
  "constructed self =
     (case (ez_low (ao_entry_zone self), ez_high (ao_entry_zone self), slo_price (ao_stop_loss self),
            ao_rr_ratio self) of
        (Some lo, Some hi, Some sl, Some rr) \<Rightarrow> 0 < lo \<and> lo \<le> hi \<and> 0 < sl \<and> 0 < rr \<and> style_floor self \<le> rr
      | _ \<Rightarrow> False)"

definition tps_ok :: "AnalysisOutput \<Rightarrow> bool" where
  "tps_ok self =
     (ao_take_profits self \<noteq> [] \<and> length (ao_take_profits self) \<le> MAX_TAKE_PROFIT_LEVELS \<and>
      list_all (\<lambda>tp. case tp_level tp of Some l \<Rightarrow> 0 < l | None \<Rightarrow> True) (ao_take_profits self))"

definition trade_rules :: "AnalysisOutput \<Rightarrow> bool" where
  "trade_rules self =
     (ao_analysis_id self \<noteq> '''' \<and> ao_pair self \<noteq> '''' \<and> ao_trading_style self \<noteq> '''' \<and>
      ao_direction self \<in> {''LONG'', ''SHORT'', ''NO SETUP''} \<and>
      ao_setup_grade self \<in> {''A+'', ''A'', ''B'', ''REJECT''} \<and>
      CONFLUENCE_SCORE_MIN \<le> cs_score (ao_confluence_score self) \<and>
      cs_score (ao_confluence_score self) \<le> CONFLUENCE_SCORE_MAX \<and>
      (CONFLUENCE_REJECT_THRESHOLD \<le> cs_score (ao_confluence_score self) \<or> ao_setup_grade self = ''REJECT'') \<and>
      (if ao_direction self = ''NO SETUP''
       then ao_setup_grade self = ''REJECT'' \<and> ao_proceed_to_module_b self \<noteq> ''YES''
       else constructed self \<and> tps_ok self) \<and>
      (ao_proceed_to_module_b self = ''YES'' \<longrightarrow> ao_setup_grade self \<in> {''A+'', ''A'', ''B''}))"

text \<open>No underscore in what Python prints for a number or for one of the two sets, and none in the
  three strings of the analysis that reach a message.\<close>

abbreviation plain :: "string \<Rightarrow> bool" where
  "plain s \<equiv> CHR ''_'' \<notin> set s"

definition fm_plain :: "formatter \<Rightarrow> bool" where
  "fm_plain fm = ((\<forall>x. plain (fm_float fm x)) \<and> (\<forall>i. plain (fm_int fm i)) \<and>
     plain (fm_directions fm) \<and> plain (fm_grades fm))"

definition ao_plain :: "AnalysisOutput \<Rightarrow> bool" where
  "ao_plain out = (plain (ao_direction out) \<and> plain (ao_setup_grade out) \<and> plain (ao_trading_style out))"

section \<open>Occurrences of a keyword in a message\<close>

text \<open>Every keyword contains one of three four-letter windows around an underscore; a window is
  never created by inserting text without underscores.\<close>

definition window :: "char \<Rightarrow> char \<Rightarrow> char \<Rightarrow> string" where
  "window a b c = [a, b, CHR ''_'', c]"

lemma str_in_window:
  "str_in (window a b c) s \<longleftrightarrow>
     (\<exists>n. n + 3 < length s \<and> s ! n = a \<and> s ! (n + 1) = b \<and> s ! (n + 2) = CHR ''_'' \<and> s ! (n + 3) = c)"
  (is "?l \<longleftrightarrow> (\<exists>n. ?r n)")
proof
  assume ?l
  then obtain u v where "s = u @ window a b c @ v" by (auto simp: str_in_iff)
  then have "?r (length u)" by (auto simp: window_def nth_append)
  then show "\<exists>n. ?r n" ..
next
  assume "\<exists>n. ?r n"
  then obtain n where n: "?r n" ..
  then have "drop n s = window a b c @ drop (n + 4) s"
    by (simp add: window_def Cons_nth_drop_Suc [symmetric] numeral_eq_Suc)
  then have "s = take n s @ window a b c @ drop (n + 4) s" by (metis append_take_drop_id)
  then show ?l unfolding str_in_iff by blast
qed

lemma window_insert:
  assumes "plain d" and q: "plain (take 2 q)" and p: "p = [] \<or> last p \<noteq> CHR ''_''"
    and np: "\<not> str_in (window a b c) p" and nq: "\<not> str_in (window a b c) q"
  shows "\<not> str_in (window a b c) (p @ d @ q)"
proof
  let ?s = "p @ d @ q"
  assume "str_in (window a b c) ?s"
  then obtain n where n: "n + 3 < length ?s" "?s ! n = a" "?s ! (n + 1) = b" "?s ! (n + 2) = CHR ''_''"
    "?s ! (n + 3) = c" unfolding str_in_window by blast
  consider "n + 2 < length p" | "length p \<le> n + 2" "n + 2 < length p + length d"
    | "length p + length d \<le> n + 2" by linarith
  then show False
  proof cases
    case 1
    have "p \<noteq> []" "p ! (n + 2) = CHR ''_''" using 1 n(4) by (auto simp: nth_append)
    then have "n + 2 \<noteq> length p - 1" using p by (auto simp: last_conv_nth)
    then have "n + 3 < length p" using 1 by linarith
    then show False using n np unfolding str_in_window by (auto simp: nth_append)
  next
    case 2
    then have "d ! (n + 2 - length p) \<in> set d" by (intro nth_mem) linarith
    moreover have "?s ! (n + 2) = d ! (n + 2 - length p)" using 2 by (auto simp: nth_append)
    ultimately show False using \<open>plain d\<close> n(4) by simp
  next
    case 3
    define m where "m = n + 2 - length p - length d"
    have "\<not> n + 2 < length p" "\<not> n + 2 - length p < length d" using 3 by linarith+
    then have qm: "q ! m = CHR ''_''" using n(4) unfolding nth_append m_def by simp
    have "m < length q" using 3 n(1) by (auto simp: m_def)
    have "2 \<le> m"
    proof (rule ccontr)
      assume "\<not> 2 \<le> m"
      then have "take 2 q ! m = CHR ''_''" "m < length (take 2 q)" using qm \<open>m < length q\<close> by auto
      then show False using q by (metis nth_mem)
    qed
    then have "length p + length d \<le> n" using 3 unfolding m_def by linarith
    then obtain k where k: "n = length p + length d + k" using le_Suc_ex by blast
    then have "k + 3 < length q" "q ! k = a" "q ! (k + 1) = b" "q ! (k + 2) = CHR ''_''" "q ! (k + 3) = c"
      using n by (auto simp: nth_append)
    then show False using nq unfolding str_in_window by blast
  qed
qed

definition clear :: "string \<Rightarrow> bool" where
  "clear m = (\<not> str_in (window CHR ''l'' CHR ''e'' CHR ''r'') (str_lower m) \<and>
     \<not> str_in (window CHR ''a'' CHR ''g'' CHR ''s'') (str_lower m) \<and>
     \<not> str_in (window CHR ''z'' CHR ''e'' CHR ''p'') (str_lower m))"

lemma str_in_part: "str_in (u @ w @ v) s \<Longrightarrow> str_in w s"
  unfolding str_in_iff by (metis append.assoc)

lemma clear_fatal: "clear m \<Longrightarrow> \<not> is_non_fatal_warning m"
  using str_in_part [of "''explainab''" "window CHR ''l'' CHR ''e'' CHR ''r''" "''easoning''" "str_lower m"]
    str_in_part [of "''r''" "window CHR ''a'' CHR ''g'' CHR ''s''" "''ources''" "str_lower m"]
    str_in_part [of "''take_profits si''" "window CHR ''z'' CHR ''e'' CHR ''p''" "''ct sum''" "str_lower m"]
  by (auto simp: clear_def is_non_fatal_warning_def window_def Let_def)

lemma of_char_underscore: "of_char x = (95 :: nat) \<longleftrightarrow> x = CHR ''_''"
proof -
  have "of_char (CHR ''_'') = (95 :: nat)" by simp
  then show ?thesis by (metis char_of_char)
qed

lemma lower_char_underscore: "lower_char c = CHR ''_'' \<longleftrightarrow> c = CHR ''_''"
proof -
  have "of_char (char_of (n + 32) :: char) = n + 32" if "n \<le> 90" for n :: nat
    using that by (simp add: of_char_of)
  then have "of_char (lower_char c) = (95 :: nat) \<longleftrightarrow> of_char c = (95 :: nat)"
    by (auto simp: lower_char_def Let_def)
  then show ?thesis by (simp add: of_char_underscore)
qed

lemma upper_char_underscore: "upper_char c = CHR ''_'' \<longleftrightarrow> c = CHR ''_''"
proof -
  have "of_char (char_of (n - 32) :: char) = n - 32" if "n \<le> 122" for n :: nat
    using that by (simp add: of_char_of)
  then have "of_char (upper_char c) = (95 :: nat) \<longleftrightarrow> of_char c = (95 :: nat)"
    by (auto simp: upper_char_def Let_def)
  then show ?thesis by (simp add: of_char_underscore)
qed

lemma plain_lower [simp]: "plain (str_lower s) \<longleftrightarrow> plain s"
  by (auto simp: str_lower_def image_iff) (metis lower_char_underscore)+

lemma plain_upper [simp]: "plain (str_upper s) \<longleftrightarrow> plain s"
  by (auto simp: str_upper_def image_iff) (metis upper_char_underscore)+

lemma plain_quoted [simp]: "plain (quoted s) \<longleftrightarrow> plain s"
  by (auto simp: quoted_def)

lemma clear_insert:
  assumes "clear p" "p = [] \<or> last p \<noteq> CHR ''_''" "plain d" "plain (take 2 q)" "clear q"
  shows "clear (p @ d @ q)"
proof -
  have "plain (take 2 (str_lower q))" using assms(4) plain_lower [of "take 2 q"]
    by (simp add: str_lower_def take_map)
  moreover have "str_lower p = [] \<or> last (str_lower p) \<noteq> CHR ''_''" using assms(2)
    by (cases p rule: rev_cases) (auto simp: str_lower_def lower_char_underscore)
  moreover have "str_lower (p @ d @ q) = str_lower p @ str_lower d @ str_lower q"
    by (simp add: str_lower_def)
  ultimately show ?thesis using assms window_insert unfolding clear_def by (metis plain_lower)
qed

lemma clear_end:
  assumes "clear p" "p = [] \<or> last p \<noteq> CHR ''_''" "plain d"
  shows "clear (p @ d)"
proof -
  have "clear []" by (simp add: clear_def str_lower_def window_def)
  then show ?thesis using clear_insert [OF assms, of "[]"] by simp
qed

lemma fm_plainD [simp]:
  "fm_plain fm \<Longrightarrow> plain (fm_float fm x)" "fm_plain fm \<Longrightarrow> plain (fm_int fm i)"
  "fm_plain fm \<Longrightarrow> plain (fm_directions fm)" "fm_plain fm \<Longrightarrow> plain (fm_grades fm)"
  by (auto simp: fm_plain_def)

lemma ao_plainD [simp]:
  "ao_plain out \<Longrightarrow> plain (ao_direction out)" "ao_plain out \<Longrightarrow> plain (ao_setup_grade out)"
  "ao_plain out \<Longrightarrow> plain (ao_trading_style out)"
  by (auto simp: ao_plain_def)

text \<open>Literals of the messages.\<close>

lemma clear_eval:
  "clear m \<longleftrightarrow> \<not> str_in ''le_r'' (str_lower m) \<and> \<not> str_in ''ag_s'' (str_lower m) \<and>
     \<not> str_in ''ze_p'' (str_lower m)"
  by (simp add: clear_def window_def)

lemmas clear_lit = clear_eval str_lower_def lower_char_def startswith_def Let_def char_of_eq_iff

lemma clear_identity: "list_all clear (validate_identity self)"
  unfolding validate_identity_def by (simp add: clear_lit)

lemma clear_direction:
  assumes "fm_plain fm" "ao_plain self"
  shows "list_all clear (validate_direction_consistency fm self)"
  unfolding validate_direction_consistency_def using assms
  by (simp del: append_Cons append.simps, intro conjI impI clear_end) (simp_all add: clear_lit)

lemma clear_confluence_score:
  assumes "fm_plain fm"
  shows "list_all clear (validate_confluence_score fm self)"
  unfolding validate_confluence_score_def Let_def using assms
  by (simp del: append_Cons append.simps, intro conjI impI clear_end) (simp_all add: clear_lit)

lemma clear_grade:
  assumes "fm_plain fm" "ao_plain self"
  shows "list_all clear (validate_grade_consistency fm self)"
  unfolding validate_grade_consistency_def Let_def using assms
  by (simp del: append_Cons append.simps, intro conjI impI clear_end) (simp_all add: clear_lit)

lemma clear_inverted_zone:
  assumes "plain a" "plain b"
  shows "clear (''entry_zone.low ('' @ a @ '') > entry_zone.high ('' @ b @ '')'')"
  using assms by (intro clear_insert clear_end) (simp_all add: clear_lit)

lemma clear_trade_construction:
  assumes "fm_plain fm"
  shows "list_all clear (validate_trade_construction fm self)"
proof -
  have "clear (''entry_zone.low ('' @ fm_float fm x @ '') must be positive'')"
    "clear (''stop_loss.price ('' @ fm_float fm x @ '') must be positive'')" for x
    using assms by (intro clear_end; simp add: clear_lit)+
  moreover have "clear ''trade approved but entry_zone has null bounds''"
    "clear ''trade approved but stop_loss.price is null''"
    "clear ''trade approved but take_profits is empty''" by (simp_all add: clear_lit)
  ultimately show ?thesis using clear_inverted_zone assms
    unfolding validate_trade_construction_def Let_def
    by (simp del: append_Cons append.simps split: option.splits)
qed

lemma clear_rr_ratio:
  assumes "fm_plain fm" "ao_plain self"
  shows "list_all clear (validate_rr_ratio fm self)"
proof -
  have "clear ''trade approved but rr_ratio is null''" by (simp add: clear_lit)
  moreover have "clear (''rr_ratio ('' @ fm_float fm x @ '') must be positive'')"
    "clear (''rr_ratio '' @ fm_float fm x @ '' below minimum '' @ fm_float fm y @ '' for style '' @
       str_upper (ao_trading_style self))" for x y
    using assms by (intro clear_end; simp add: clear_lit)+
  ultimately show ?thesis unfolding validate_rr_ratio_def
    by (simp del: append_Cons append.simps split: option.splits)
qed

lemma clear_proceed:
  assumes "ao_plain self"
  shows "list_all clear (validate_proceed_consistency self)"
  unfolding validate_proceed_consistency_def using assms
  by (simp del: append_Cons append.simps, intro conjI impI clear_end) (simp_all add: clear_lit)

lemma clear_tp:
  assumes "fm_plain fm"
  shows "list_all clear (tp_errors fm tps)"
    and "clear (''take_profits has '' @ fm_int fm i @ '' levels (max '' @ fm_int fm j @ '')'')"
proof -
  have "clear (''take_profits['' @ fm_int fm i @ ''].level ('' @ fm_float fm l @ '') must be positive'')" for i l
    using assms by (intro clear_end; simp add: clear_lit)
  then show "list_all clear (tp_errors fm tps)" unfolding tp_errors_def
    by (auto simp: list_all_iff simp del: append_Cons append.simps split: option.splits if_splits)
  show "clear (''take_profits has '' @ fm_int fm i @ '' levels (max '' @ fm_int fm j @ '')'')"
    using assms by (intro clear_end; simp add: clear_lit)
qed

section \<open>Acceptance\<close>

lemma str_in_append:
  assumes "str_in k s"
  shows "str_in k (s @ x)"
proof -
  obtain a b where "s = a @ k @ b" using assms unfolding str_in_iff by blast
  then have "s @ x = a @ k @ (b @ x)" by simp
  then show ?thesis unfolding str_in_iff by blast
qed

lemma warn_append: "is_non_fatal_warning p \<Longrightarrow> is_non_fatal_warning (p @ x)"
  unfolding is_non_fatal_warning_def Let_def str_lower_def map_append using str_in_append by auto

lemma warn_lits:
  "is_non_fatal_warning ''explainable_reasoning is empty''"
  "is_non_fatal_warning ''explainable_reasoning exceeds ''"
  "is_non_fatal_warning ''take_profits size_pct sum is ''"
  "is_non_fatal_warning ''rag_sources is empty (citations required)''"
  "is_non_fatal_warning ''rag_sources has ''"
  by (simp_all add: is_non_fatal_warning_def str_lower_def lower_char_def startswith_def Let_def char_of_eq_iff)

lemma warn_reasoning: "list_all is_non_fatal_warning (validate_reasoning fm self)"
  unfolding validate_reasoning_def using warn_lits
  by (simp del: append_Cons append.simps add: warn_append)

lemma warn_citations: "list_all is_non_fatal_warning (validate_citations fm self)"
  unfolding validate_citations_def using warn_lits
  by (simp del: append_Cons append.simps add: warn_append)

lemma warn_clear: "list_all clear xs \<Longrightarrow> list_all is_non_fatal_warning xs \<longleftrightarrow> xs = []"
  by (cases xs) (auto simp: clear_fatal)

lemma warn_tp_structure:
  assumes "fm_plain fm"
  shows "list_all is_non_fatal_warning (validate_tp_structure fm self) \<longleftrightarrow>
     (ao_direction self \<in> {''LONG'', ''SHORT''} \<longrightarrow>
        length (ao_take_profits self) \<le> MAX_TAKE_PROFIT_LEVELS \<and> tp_errors fm (ao_take_profits self) = [])"
  unfolding validate_tp_structure_def Let_def
  using warn_lits(3) clear_tp(2) [OF assms, THEN clear_fatal] warn_clear [OF clear_tp(1) [OF assms]]
  by (simp del: append_Cons append.simps add: warn_append not_less)

lemma tp_errors_Nil:
  "tp_errors fm tps = [] \<longleftrightarrow> list_all (\<lambda>tp. case tp_level tp of Some l \<Rightarrow> 0 < l | None \<Rightarrow> True) tps"
proof -
  have "tp_errors fm tps = [] \<longleftrightarrow>
      (\<forall>(i, tp) \<in> set (enumerate 0 tps). case tp_level tp of Some l \<Rightarrow> 0 < l | None \<Rightarrow> True)"
    unfolding tp_errors_def by (auto split: option.splits if_splits simp: not_le)
  also have "\<dots> \<longleftrightarrow> (\<forall>tp \<in> snd ` set (enumerate 0 tps). case tp_level tp of Some l \<Rightarrow> 0 < l | None \<Rightarrow> True)"
    by auto
  also have "snd ` set (enumerate 0 tps) = set tps" by (metis map_snd_enumerate set_map)
  finally show ?thesis by (simp add: list_all_iff)
qed

text \<open>When a validator reports nothing.\<close>

lemma silent:
  "validate_identity self = [] \<longleftrightarrow>
     ao_analysis_id self \<noteq> '''' \<and> ao_pair self \<noteq> '''' \<and> ao_trading_style self \<noteq> ''''"
  "validate_direction_consistency fm self = [] \<longleftrightarrow>
     ao_direction self \<in> {''LONG'', ''SHORT'', ''NO SETUP''} \<and>
     (ao_direction self = ''NO SETUP'' \<longrightarrow>
        ao_setup_grade self = ''REJECT'' \<and> ao_proceed_to_module_b self \<noteq> ''YES'')"
  "validate_confluence_score fm self = [] \<longleftrightarrow>
     CONFLUENCE_SCORE_MIN \<le> cs_score (ao_confluence_score self) \<and>
     cs_score (ao_confluence_score self) \<le> CONFLUENCE_SCORE_MAX"
  "validate_grade_consistency fm self = [] \<longleftrightarrow>
     ao_setup_grade self \<in> {''A+'', ''A'', ''B'', ''REJECT''} \<and>
     (CONFLUENCE_REJECT_THRESHOLD \<le> cs_score (ao_confluence_score self) \<or> ao_setup_grade self = ''REJECT'')"
  "validate_proceed_consistency self = [] \<longleftrightarrow>
     (ao_proceed_to_module_b self = ''YES'' \<longrightarrow>
        ao_setup_grade self \<in> {''A+'', ''A'', ''B''} \<and> ao_direction self \<noteq> ''NO SETUP'')"
  unfolding validate_identity_def validate_direction_consistency_def validate_confluence_score_def
    validate_grade_consistency_def validate_proceed_consistency_def Let_def
  by (auto simp: not_less)

lemma silent_trade:
  "validate_trade_construction fm self = [] \<and> validate_rr_ratio fm self = [] \<longleftrightarrow>
     (ao_direction self \<in> {''LONG'', ''SHORT''} \<longrightarrow> constructed self \<and> ao_take_profits self \<noteq> [])"
  unfolding validate_trade_construction_def validate_rr_ratio_def constructed_def Let_def
  by (cases "ao_direction self \<in> {''LONG'', ''SHORT''}"; cases "ez_low (ao_entry_zone self)";
      cases "ez_high (ao_entry_zone self)"; cases "slo_price (ao_stop_loss self)"; cases "ao_rr_ratio self")
    (auto simp: not_less not_le)

lemma warnings_only:
  assumes "fm_plain fm" "ao_plain out"
  shows "list_all is_non_fatal_warning (validate_analysis_output fm out req) \<longleftrightarrow> trade_rules out"
proof -
  have "list_all is_non_fatal_warning (validate_analysis_output fm out req) \<longleftrightarrow>
      validate_identity out = [] \<and> validate_direction_consistency fm out = [] \<and>
      validate_confluence_score fm out = [] \<and> validate_grade_consistency fm out = [] \<and>
      (validate_trade_construction fm out = [] \<and> validate_rr_ratio fm out = []) \<and>
      validate_proceed_consistency out = [] \<and>
      list_all is_non_fatal_warning (validate_tp_structure fm out)"
    using warn_reasoning warn_citations assms
    by (simp add: validate_analysis_output_def warn_clear clear_identity clear_direction
        clear_confluence_score clear_grade clear_trade_construction clear_rr_ratio clear_proceed)
  also have "\<dots> \<longleftrightarrow> trade_rules out"
    unfolding silent silent_trade warn_tp_structure [OF assms(1)] tp_errors_Nil trade_rules_def tps_ok_def
    by auto
  finally show ?thesis .
qed

section \<open>Null lists\<close>

fun json_at :: "string list \<Rightarrow> json \<Rightarrow> json option" where
  "json_at [] j = Some j"
| "json_at (p # ps) (JObj kvs) = (case map_of kvs p of None \<Rightarrow> None | Some node \<Rightarrow> json_at ps node)"
| "json_at (p # ps) _ = None"

lemma coerce_path_keeps_JNull: "coerce_path p j = JNull \<longleftrightarrow> j = JNull"
  by (induction p j rule: coerce_path.induct) (auto split: option.splits)

lemma coerce_path_introduces_no_null:
  "json_at q (coerce_path p j) = Some JNull \<Longrightarrow> json_at q j = Some JNull"
proof (induction p j arbitrary: q rule: coerce_path.induct)
  case (1 leaf kvs)
  then show ?case
    by (cases q) (auto simp: update_conv' split: if_splits option.splits elim: json_at.elims)
next
  case (2 p p' ps kvs)
  then show ?case
    by (cases q) (auto simp: update_conv' split: if_splits option.splits)
qed auto

lemma coerce_path_no_null: "p \<noteq> [] \<Longrightarrow> json_at p (coerce_path p j) \<noteq> Some JNull"
  by (induction p j rule: coerce_path.induct) (auto simp: update_conv' neq_Nil_conv split: option.splits)

lemma coerce_fold_keeps:
  "json_at q j \<noteq> Some JNull \<Longrightarrow> json_at q (foldl (\<lambda>j path. coerce_path path j) j ps) \<noteq> Some JNull"
  by (induction ps arbitrary: j) (auto dest: coerce_path_introduces_no_null)

lemma coerce_fold_no_null:
  assumes "[] \<notin> set ps" "q \<in> set ps"
  shows "json_at q (foldl (\<lambda>j path. coerce_path path j) j ps) \<noteq> Some JNull"
  using assms
proof (induction ps arbitrary: j)
  case (Cons p ps)
  have "p \<noteq> []" using Cons.prems(1) by auto
  then have "json_at p (foldl (\<lambda>j path. coerce_path path j) (coerce_path p j) ps) \<noteq> Some JNull"
    by (intro coerce_fold_keeps coerce_path_no_null)
  then show ?case using Cons by (cases "q = p") auto
qed simp

lemma coerce_null_collections_no_null:
  "list_all (\<lambda>p. json_at p (coerce_null_collections raw) \<noteq> Some JNull) NULLABLE_LIST_PATHS"
  unfolding coerce_null_collections_def list_all_iff
  by (intro ballI coerce_fold_no_null) (simp_all add: NULLABLE_LIST_PATHS_def)

section \<open>Extraction\<close>

lemma strip_around:
  assumes "\<not> is_space (hd b)" "\<not> is_space (last b)" "b \<noteq> []"
  shows "str_strip (pre @ b @ post) =
     dropWhile is_space pre @ b @ rev (dropWhile is_space (rev post))" (is "_ = ?u @ b @ ?v")
proof -
  have hd: "dropWhile is_space (b @ x) = b @ x" for x using assms by (cases b) auto
  have tl: "dropWhile is_space (rev b @ x) = rev b @ x" for x
    using assms by (cases b rule: rev_cases) auto
  have "dropWhile is_space (xs @ y) = dropWhile is_space xs @ y" if "dropWhile is_space y = y" for xs y
    using that by (induction xs) auto
  then show ?thesis by (simp add: str_strip_def hd tl)
qed

lemma json_block_None: "CHR 0x60 \<notin> set s \<Longrightarrow> json_block s = None"
  by (induction s) (auto simp: block_at_def fence_def startswith_def numeral_eq_Suc)

lemma json_block_skip: "CHR 0x60 \<notin> set pre \<Longrightarrow> json_block (pre @ s) = json_block s"
  by (induction pre) (auto simp: block_at_def fence_def startswith_def numeral_eq_Suc)

lemma block_body_upto:
  assumes "CHR 0x60 \<notin> set m" "startswith (dropWhile is_space rest) fence"
  shows "block_body acc (m @ CHR ''}'' # rest) = Some (acc @ m @ [CHR ''}''])"
  using assms(1)
proof (induction m arbitrary: acc)
  case Nil
  then show ?case using assms(2) by simp
next
  case (Cons c m)
  let ?r = "m @ CHR ''}'' # rest"
  have "hd (dropWhile is_space ?r) \<noteq> CHR 0x60" "dropWhile is_space ?r \<noteq> []"
    using Cons.prems by (induction m) (auto simp: is_space_def)
  then have "\<not> startswith (dropWhile is_space ?r) fence"
    by (cases "dropWhile is_space ?r") (auto simp: startswith_def fence_def numeral_eq_Suc)
  then show ?case using Cons by simp
qed

lemma json_object_between:
  assumes "CHR ''{'' \<notin> set pre" "CHR ''}'' \<notin> set post" "b = CHR ''{'' # m @ [CHR ''}'']"
  shows "json_object (pre @ b @ post) = Some b"
proof -
  have "dropWhile (\<lambda>c. c \<noteq> CHR ''{'') (pre @ b @ post) = b @ post"
    using assms(1,3) by (subst dropWhile_append2) auto
  moreover have "dropWhile (\<lambda>c. c \<noteq> CHR ''}'') (rev post @ rev b) = rev b"
    using assms(2,3) by (subst dropWhile_append2) auto
  ultimately show ?thesis using assms(3) by (simp add: json_object_def)
qed

lemma drop_space_set: "set (dropWhile is_space s) \<subseteq> set s"
  by (auto dest: set_dropWhileD)

lemma braces_not_space: "\<not> is_space (CHR ''{'')" "\<not> is_space (CHR ''}'')" "\<not> is_space (CHR 0x60)"
  by (simp_all add: is_space_def)

lemma extract_plain:
  assumes b: "b = CHR ''{'' # m @ [CHR ''}'']" and q: "CHR 0x60 \<notin> set (pre @ b @ post)"
    and pre: "CHR ''{'' \<notin> set pre" and post: "CHR ''}'' \<notin> set post"
  shows "extract_json (pre @ b @ post) = b"
proof -
  define u v where "u = dropWhile is_space pre" and "v = rev (dropWhile is_space (rev post))"
  have sub: "set u \<subseteq> set pre" "set v \<subseteq> set post"
    using drop_space_set [of pre] drop_space_set [of "rev post"] by (auto simp: u_def v_def)
  have s: "str_strip (pre @ b @ post) = u @ b @ v"
    unfolding u_def v_def using b by (intro strip_around) (auto simp: braces_not_space)
  have bb: "str_strip b = b" using strip_around [of b "[]" "[]"] b by (simp add: braces_not_space)
  have "startswith (u @ b @ v) ''{'' \<and> endswith (u @ b @ v) ''}'' \<Longrightarrow> u = [] \<and> v = []"
    using sub pre post by (cases u; cases v rule: rev_cases) (auto simp: startswith_def endswith_def)
  moreover have "json_block (u @ b @ v) = None" using sub q by (intro json_block_None) auto
  moreover have "json_object (u @ b @ v) = Some b" using sub pre post b by (intro json_object_between) auto
  ultimately show ?thesis using s bb by (auto simp: extract_json_def Let_def)
qed

definition fenced :: "string \<Rightarrow> string" where
  "fenced b = fence @ ''json'' @ [CHR 0x0A] @ b @ [CHR 0x0A] @ fence"

lemma block_at_fenced:
  assumes "b = CHR ''{'' # m @ [CHR ''}'']" "CHR 0x60 \<notin> set m"
  shows "block_at (fenced b @ post) = Some b"
proof -
  have nl: "is_space (CHR 0x0A)" by (simp add: is_space_def)
  have "startswith (dropWhile is_space ([CHR 0x0A] @ fence @ post)) fence"
    using nl braces_not_space by (simp add: fence_def numeral_eq_Suc startswith_def)
  then have "block_body [CHR ''{''] (m @ CHR ''}'' # [CHR 0x0A] @ fence @ post) = Some b"
    using block_body_upto [OF assms(2)] assms(1) by simp
  then show ?thesis using assms(1) nl braces_not_space
    by (simp add: fenced_def block_at_def Let_def startswith_def fence_def numeral_eq_Suc)
qed

lemma extract_fenced:
  assumes b: "b = CHR ''{'' # m @ [CHR ''}'']" and q: "CHR 0x60 \<notin> set (pre @ b)"
    and pre: "CHR ''{'' \<notin> set pre"
  shows "extract_json (pre @ fenced b @ post) = b"
proof -
  define u v where "u = dropWhile is_space pre" and "v = rev (dropWhile is_space (rev post))"
  have sub: "set u \<subseteq> set pre" using drop_space_set [of pre] by (auto simp: u_def)
  have ends: "fenced b \<noteq> []" "hd (fenced b) = CHR 0x60" "last (fenced b) = CHR 0x60"
    by (simp_all add: fenced_def fence_def numeral_eq_Suc)
  then have s: "str_strip (pre @ fenced b @ post) = u @ fenced b @ v"
    unfolding u_def v_def by (intro strip_around) (simp_all add: braces_not_space)
  have bb: "str_strip b = b" using strip_around [of b "[]" "[]"] b by (simp add: braces_not_space)
  have "\<not> startswith (u @ fenced b @ v) ''{''"
    using sub pre ends by (cases u; cases "fenced b") (auto simp: startswith_def)
  moreover have "json_block (u @ fenced b @ v) = Some b"
  proof -
    have "json_block (u @ fenced b @ v) = json_block (fenced b @ v)"
      using sub q by (intro json_block_skip) auto
    also have "\<dots> = Some b"
      using block_at_fenced [OF b, of v] q b ends(1) by (cases "fenced b") auto
    finally show ?thesis .
  qed
  ultimately show ?thesis using s bb by (simp add: extract_json_def Let_def)
qed

section \<open>Properties\<close>

definition ex_fm :: formatter where
  "ex_fm = \<lparr>fm_float = (\<lambda>_. ''1.0''), fm_int = (\<lambda>_. ''1''), fm_directions = ''{}'', fm_grades = ''{}''\<rparr>"

definition ex_bias :: CurrencyBias where "ex_bias = \<lparr>cb_bias = ''NEUTRAL'', cb_evidence = []\<rparr>"

definition ex_tf_bias :: TimeframeBias where
  "ex_tf_bias = \<lparr>tb_structure = ''bullish'', tb_key_levels = [], tb_notes = []\<rparr>"

definition ex_output :: AnalysisOutput where
  "ex_output = \<lparr>ao_analysis_id = ''a1'', ao_pair = ''EURUSD'', ao_timestamp = 0,
     ao_trading_style = ''INTRADAY'', ao_session = ''LONDON'',
     ao_macro_bias = \<lparr>mb_base_currency = ex_bias, mb_quote_currency = ex_bias\<rparr>,
     ao_dxy_bias = \<lparr>dx_direction = ''NEUTRAL'', dx_evidence = []\<rparr>,
     ao_cot_signal = \<lparr>co_summary = [], co_week_over_week = None, co_extreme_flag = False, co_evidence = []\<rparr>,
     ao_event_risk = [], ao_htf_bias = ex_tf_bias, ao_mtf_bias = ex_tf_bias,
     ao_entry_setup = \<lparr>su_type = None, su_zone_id = None, su_quality = None, su_bounds = [], su_evidence = []\<rparr>,
     ao_wyckoff_phase = \<lparr>wy_phase = ''markup'', wy_evidence = []\<rparr>,
     ao_confluence_score = \<lparr>cs_score = 8, cs_factors = []\<rparr>, ao_setup_grade = ''A'', ao_direction = ''LONG'',
     ao_entry_zone = \<lparr>ez_low = Some 1, ez_high = Some 2\<rparr>,
     ao_stop_loss = \<lparr>slo_price = Some (1/2), slo_reason = [], slo_evidence = []\<rparr>,
     ao_take_profits = [\<lparr>tp_level = Some 9, tp_size_pct = 90, tp_basis = []\<rparr>], ao_rr_ratio = Some 3,
     ao_confidence = ''HIGH'', ao_proceed_to_module_b = ''YES'', ao_execution_mode = None,
     ao_ltf_confirmed = True, ao_explainable_reasoning = [], ao_rag_sources = [],
     ao_audit = \<lparr>aa_retrieval = \<lparr>ra_query_summary = [], ra_strategy_used = None, ra_top_k = 0,
       ra_chunks_returned = []\<rparr>, aa_citations = []\<rparr>\<rparr>"

lemma ex_plain: "fm_plain ex_fm" "ao_plain ex_output"
  by (simp_all add: fm_plain_def ao_plain_def ex_fm_def ex_output_def)

lemma ex_output_rules: "trade_rules ex_output"
  by (simp add: trade_rules_def constructed_def tps_ok_def ex_output_def style_floor_def style_min_tp_rr_def
      CONFLUENCE_SCORE_MIN_def CONFLUENCE_SCORE_MAX_def CONFLUENCE_REJECT_THRESHOLD_def
      MAX_TAKE_PROFIT_LEVELS_def STYLE_MIN_TP_RR_def MIN_RR_INTRADAY_def str_upper_def upper_char_def
      str_strip_def is_space_def Let_def char_of_eq_iff)

lemma ex_raw: "str_strip ''{}'' = ''{}''" "extract_json ''{}'' = ''{}''"
  by (simp_all add: str_strip_def is_space_def extract_json_def startswith_def endswith_def)

lemma parse_decoded:
  assumes "str_strip raw_text \<noteq> ''''" "length raw_text \<le> MAX_LLM_RESPONSE_LENGTH"
    and "loads (extract_json raw_text) = Some (JObj kvs)"
    and "model_validate (coerce_null_collections (JObj kvs)) = Inr out"
  shows "(\<exists>warnings. parse_llm_response fm loads model_validate req raw_text = Inr (out, warnings)) \<longleftrightarrow>
     list_all is_non_fatal_warning (validate_analysis_output fm out req)"
  using assms by (auto simp: parse_llm_response_def Let_def list_all_iff filter_empty_conv)



lemma rr_message_is_warning:
  "is_non_fatal_warning (p @ str_upper ''rag_sources'')"
proof -
  have "str_lower (str_upper ''rag_sources'') = ''rag_sources''"
    by (simp add: str_lower_def str_upper_def lower_char_def upper_char_def Let_def char_of_eq_iff of_char_of)
  then have "str_lower (p @ str_upper ''rag_sources'') = str_lower p @ ''rag_sources'' @ []"
    by (simp add: str_lower_def)
  then have "str_in ''rag_sources'' (str_lower (p @ str_upper ''rag_sources''))"
    unfolding str_in_iff by blast
  then show ?thesis by (simp add: is_non_fatal_warning_def Let_def)
qed

lemma bypass_warnings:
  assumes fm: "fm_plain fm" and out: "ao_plain out" "trade_rules out" and "0 < rr"
  shows "list_all is_non_fatal_warning (validate_analysis_output fm
     (out\<lparr>ao_trading_style := ''rag_sources'', ao_rr_ratio := Some rr\<rparr>) req)"
proof -
  let ?o = "out\<lparr>ao_trading_style := ''rag_sources'', ao_rr_ratio := Some rr\<rparr>"
  have old: "list_all is_non_fatal_warning (validate_analysis_output fm out req)"
    using warnings_only [OF fm out(1)] out(2) by simp
  have "list_all is_non_fatal_warning (validate_rr_ratio fm ?o)"
    using \<open>0 < rr\<close> rr_message_is_warning
      [of "''rr_ratio '' @ fm_float fm rr @ '' below minimum '' @ fm_float fm (style_floor ?o) @ '' for style ''"]
    by (simp add: validate_rr_ratio_def del: append_Cons append.simps)
  moreover have "validate_identity ?o = []"
    using out(2) by (simp add: trade_rules_def validate_identity_def)
  moreover have "validate_direction_consistency fm ?o = validate_direction_consistency fm out"
    "validate_confluence_score fm ?o = validate_confluence_score fm out"
    "validate_grade_consistency fm ?o = validate_grade_consistency fm out"
    "validate_trade_construction fm ?o = validate_trade_construction fm out"
    "validate_proceed_consistency ?o = validate_proceed_consistency out"
    "validate_tp_structure fm ?o = validate_tp_structure fm out"
    by (simp_all add: validate_direction_consistency_def validate_confluence_score_def Let_def
        validate_grade_consistency_def validate_trade_construction_def validate_proceed_consistency_def
        validate_tp_structure_def)
  ultimately show ?thesis using old warn_reasoning warn_citations
    by (simp add: validate_analysis_output_def)
qed

text \<open>C39. Fatal errors and warnings are told apart by searching the message for a keyword, and the
  message of the reward-to-risk rule contains the style the language model wrote. With the style
  \<^verbatim>\<open>rag_sources\<close> an otherwise sound trade is accepted with any positive ratio, although
  an unknown style should fall back to the intraday minimum.\<close>

theorem gate_bypassed_by_style:
  assumes "fm_plain fm" "ao_plain out" "trade_rules out" "0 < rr" "str_strip raw_text \<noteq> ''''"
    and "length raw_text \<le> MAX_LLM_RESPONSE_LENGTH"
    and "loads (extract_json raw_text) = Some (JObj kvs)"
    and "model_validate (coerce_null_collections (JObj kvs)) =
      Inr (out\<lparr>ao_trading_style := ''rag_sources'', ao_rr_ratio := Some rr\<rparr>)"
  shows "\<exists>warnings. parse_llm_response fm loads model_validate req raw_text =
    Inr (out\<lparr>ao_trading_style := ''rag_sources'', ao_rr_ratio := Some rr\<rparr>, warnings)"
  using parse_decoded [of raw_text loads kvs model_validate _ fm req, OF assms(5-8)]
    bypass_warnings [OF assms(1-4)] by blast

theorem gate_bypassed_by_style_witness:
  "\<exists>warnings. parse_llm_response ex_fm (\<lambda>_. Some (JObj []))
     (\<lambda>_. Inr (ex_output\<lparr>ao_trading_style := ''rag_sources'', ao_rr_ratio := Some (1/100)\<rparr>)) True ''{}'' =
     Inr (ex_output\<lparr>ao_trading_style := ''rag_sources'', ao_rr_ratio := Some (1/100)\<rparr>, warnings)"
  by (rule gate_bypassed_by_style [where kvs = "[]"])
    (simp_all add: ex_plain ex_raw ex_output_rules MAX_LLM_RESPONSE_LENGTH_def)

text \<open>C24. Extraction recovers the object a noisy answer contains. If the object starts and ends with its
  braces and contains no back quote, and the text before it has no opening brace and no back quote,
  then \<^verbatim>\<open>_extract_json\<close> returns exactly the object: with any text after it when it stands
  in a fenced \<^verbatim>\<open>json\<close> block, and with text free of closing braces and back quotes after it
  when it stands in plain prose.\<close>

theorem extract_json_recovers:
  assumes "b = CHR ''{'' # m @ [CHR ''}'']" "CHR 0x60 \<notin> set b" "CHR 0x60 \<notin> set pre" "CHR ''{'' \<notin> set pre"
    and "CHR ''}'' \<notin> set tail" "CHR 0x60 \<notin> set tail"
  shows "extract_json (pre @ fenced b @ post) = b \<and> extract_json (pre @ b @ tail) = b"
  using extract_fenced [OF assms(1), of pre post] extract_plain [OF assms(1), of pre tail] assms(2-)
  by auto

theorem extract_json_recovers_witness:
  "extract_json (''Here: '' @ fenced (CHR ''{'' # ''a{}b'' @ [CHR ''}'']) @ '' bye }'') = ''{a{}b}'' \<and>
   extract_json (''Here: '' @ (CHR ''{'' # ''a{}b'' @ [CHR ''}'']) @ '' bye'') = ''{a{}b}''"
  using extract_json_recovers [OF refl, of "''a{}b''" "''Here: ''" "'' bye''" "'' bye }''"] by simp

end
