(* ===== verification/Backoff.thy ===== *)
theory Backoff
  imports Prelude
begin

text \<open>
  The contract every retry schedule of the engine promises: with a jitter fraction between 0 and 1, no
  delay is negative and none exceeds a ceiling that depends only on the configuration. The total
  time a bounded number of retries may sleep follows from it.
\<close>

locale backoff =
  fixes delay :: "'c \<Rightarrow> (nat \<Rightarrow> rat) \<Rightarrow> nat \<Rightarrow> rat" and ceiling :: "'c \<Rightarrow> rat" and configured :: "'c \<Rightarrow> bool"
  assumes delay_nonneg: "configured c \<Longrightarrow> 0 \<le> jit n \<Longrightarrow> jit n \<le> 1 \<Longrightarrow> 0 \<le> delay c jit n"
    and delay_le: "configured c \<Longrightarrow> 0 \<le> jit n \<Longrightarrow> jit n \<le> 1 \<Longrightarrow> delay c jit n \<le> ceiling c"
begin

lemma total_le:
  assumes "configured c" "\<And>n. n \<in> set ns \<Longrightarrow> 0 \<le> jit n \<and> jit n \<le> 1"
  shows "sum_list (map (delay c jit) ns) \<le> of_nat (length ns) * ceiling c"
  using assms(2)
proof (induction ns)
  case (Cons n ns)
  then have "delay c jit n \<le> ceiling c" using delay_le [OF assms(1)] by simp
  then show ?case using Cons by (simp add: algebra_simps)
qed simp

lemma total_nonneg:
  assumes "configured c" "\<And>n. n \<in> set ns \<Longrightarrow> 0 \<le> jit n \<and> jit n \<le> 1"
  shows "0 \<le> sum_list (map (delay c jit) ns)"
  using assms(2) delay_nonneg [OF assms(1)] by (induction ns) auto

end

end
