(* ===== verification/HttpClient.thy ===== *)
theory HttpClient
  imports Backoff
begin

text \<open>
  The resilient HTTP client of \<^verbatim>\<open>engine/shared/http/client.py\<close>: the circuit breaker and the
  retry loop around one request.

  The network is the argument \<open>send\<close>: for a method, a URL and an attempt number it gives the
  monotonic time at which the attempt ends and what aiohttp delivers (a response or an exception).
  A response carries what reading its body as JSON or as text would give. The jitter drawn by
  \<^verbatim>\<open>random.uniform\<close> is the argument \<open>jit\<close>, a fraction for each attempt. Metrics and logging
  are left out; the delays passed to \<^verbatim>\<open>asyncio.sleep\<close> are part of the result. Every breaker
  operation runs under the breaker's lock, hence is one step.
\<close>

section \<open>Circuit breaker\<close>

datatype CircuitState = CLOSED | OPEN | HALF_OPEN

record CircuitBreaker =
  cb_failure_threshold :: int
  cb_recovery_timeout :: rat
  cb_half_open_max :: int
  cb_state :: CircuitState
  cb_failure_count :: int
  cb_half_open_successes :: int
  cb_last_failure_time :: rat

definition mk_CircuitBreaker :: "int \<Rightarrow> rat \<Rightarrow> int \<Rightarrow> CircuitBreaker" where
  "mk_CircuitBreaker failure_threshold recovery_timeout half_open_max_calls =
     \<lparr>cb_failure_threshold = failure_threshold, cb_recovery_timeout = recovery_timeout,
      cb_half_open_max = half_open_max_calls, cb_state = CLOSED, cb_failure_count = 0,
      cb_half_open_successes = 0, cb_last_failure_time = 0\<rparr>"

text \<open>The property \<^verbatim>\<open>state\<close>, read at the monotonic time \<open>now\<close>; reading it may move the
  breaker to half-open.\<close>

definition circuit_state :: "rat \<Rightarrow> CircuitBreaker \<Rightarrow> CircuitState \<times> CircuitBreaker" where
  "circuit_state now cb =
     (if cb_state cb = OPEN \<and> cb_recovery_timeout cb \<le> now - cb_last_failure_time cb
      then (HALF_OPEN, cb\<lparr>cb_state := HALF_OPEN, cb_half_open_successes := 0\<rparr>)
      else (cb_state cb, cb))"

definition record_success :: "CircuitBreaker \<Rightarrow> CircuitBreaker" where
  "record_success cb =
     (if cb_state cb = HALF_OPEN
      then let cb1 = cb\<lparr>cb_half_open_successes := cb_half_open_successes cb + 1\<rparr> in
           if cb_half_open_max cb \<le> cb_half_open_successes cb1
           then cb1\<lparr>cb_state := CLOSED, cb_failure_count := 0\<rparr> else cb1
      else cb\<lparr>cb_failure_count := 0\<rparr>)"

definition record_failure :: "rat \<Rightarrow> CircuitBreaker \<Rightarrow> CircuitBreaker" where
  "record_failure now cb =
     (let cb1 = cb\<lparr>cb_failure_count := cb_failure_count cb + 1, cb_last_failure_time := now\<rparr> in
      if cb_failure_threshold cb \<le> cb_failure_count cb1 then cb1\<lparr>cb_state := OPEN\<rparr> else cb1)"

section \<open>Client\<close>

record HttpClient =
  hc_max_retries :: nat
  hc_backoff_base :: rat
  hc_backoff_max :: rat
  hc_max_response_size :: int
  hc_circuit_kwargs :: "int \<times> rat \<times> int"
  hc_circuits :: "string \<rightharpoonup> CircuitBreaker"

definition MAX_RESPONSE_SIZE :: int where "MAX_RESPONSE_SIZE = 50 * 1024 * 1024"

definition NON_RETRYABLE_STATUS :: "int list" where
  "NON_RETRYABLE_STATUS = [400, 401, 403, 404, 405, 422]"

definition SENSITIVE_HEADERS :: "string list" where
  "SENSITIVE_HEADERS = [''authorization'', ''api-key'', ''x-api-key'', ''cookie'', ''set-cookie'',
     ''proxy-authorization'']"

definition mk_HttpClient :: "nat \<Rightarrow> rat \<Rightarrow> rat \<Rightarrow> int \<Rightarrow> rat \<Rightarrow> int \<Rightarrow> int \<Rightarrow> HttpClient" where
  "mk_HttpClient max_retries backoff_base backoff_max failure_threshold recovery_timeout
       half_open_max max_response_size =
     \<lparr>hc_max_retries = max_retries, hc_backoff_base = backoff_base, hc_backoff_max = backoff_max,
      hc_max_response_size = max_response_size,
      hc_circuit_kwargs = (failure_threshold, recovery_timeout, half_open_max),
      hc_circuits = Map.empty\<rparr>"

definition get_circuit :: "HttpClient \<Rightarrow> string \<Rightarrow> CircuitBreaker \<times> HttpClient" where
  "get_circuit hc provider_name =
     (case hc_circuits hc provider_name of
        Some cb \<Rightarrow> (cb, hc)
      | None \<Rightarrow> let (ft, rt, hm) = hc_circuit_kwargs hc; cb = mk_CircuitBreaker ft rt hm in
                (cb, hc\<lparr>hc_circuits := (hc_circuits hc)(provider_name \<mapsto> cb)\<rparr>))"

definition put_circuit :: "string \<Rightarrow> CircuitBreaker \<Rightarrow> HttpClient \<Rightarrow> HttpClient" where
  "put_circuit provider_name cb hc = hc\<lparr>hc_circuits := (hc_circuits hc)(provider_name \<mapsto> cb)\<rparr>"

definition get_circuit_state :: "HttpClient \<Rightarrow> string \<Rightarrow> rat \<Rightarrow> CircuitState \<times> HttpClient" where
  "get_circuit_state hc provider_name now =
     (let (cb, hc1) = get_circuit hc provider_name; (st, cb1) = circuit_state now cb in
      (st, put_circuit provider_name cb1 hc1))"

definition sanitize_headers :: "(string \<times> string) list option \<Rightarrow> (string \<times> string) list" where
  "sanitize_headers headers =
     (case headers of None \<Rightarrow> []
      | Some hs \<Rightarrow> map (\<lambda>(k, v). (k, if str_lower k \<in> set SENSITIVE_HEADERS then ''***REDACTED***'' else v)) hs)"

text \<open>The parts of \<^verbatim>\<open>urllib.parse.urlparse\<close> the check reads: the lower-cased scheme, when the
  text before the first colon is a scheme, and the authority after two slashes. An unbalanced bracket
  in the authority makes it raise.\<close>

definition is_alpha :: "char \<Rightarrow> bool" where
  "is_alpha c = (let n = of_char c :: nat in (65 \<le> n \<and> n \<le> 90) \<or> (97 \<le> n \<and> n \<le> 122))"

definition is_scheme_char :: "char \<Rightarrow> bool" where
  "is_scheme_char c = (is_alpha c \<or> (let n = of_char c :: nat in 48 \<le> n \<and> n \<le> 57) \<or> c \<in> set ''+-.'')"

definition urlparse :: "string \<Rightarrow> string \<times> string" where
  "urlparse url =
     (let u = filter (\<lambda>c. c \<notin> {CHR 0x09, CHR 0x0A, CHR 0x0D}) (dropWhile (\<lambda>c. (of_char c :: nat) \<le> 32) url);
          s = takeWhile (\<lambda>c. c \<noteq> CHR '':'') u;
          scheme_ok = (length s < length u \<and> s \<noteq> [] \<and> is_alpha (hd s) \<and> list_all is_scheme_char s);
          scheme = (if scheme_ok then str_lower s else '''');
          rest = (if scheme_ok then drop (length s + 1) u else u);
          netloc = (if startswith rest ''//'' then takeWhile (\<lambda>c. c \<notin> set ''/?#'') (drop 2 rest) else '''')
      in (scheme, netloc))"

definition validate_url :: "string \<Rightarrow> bool" where
  "validate_url url =
     (let (scheme, netloc) = urlparse url in
      (CHR ''['' \<in> set netloc) = (CHR '']'' \<in> set netloc) \<and> scheme \<noteq> '''' \<and> scheme \<in> {''http'', ''https''} \<and> netloc \<noteq> '''')"

definition backoff_delay :: "HttpClient \<Rightarrow> (nat \<Rightarrow> rat) \<Rightarrow> nat \<Rightarrow> rat" where
  "backoff_delay hc jit attempt =
     (let delay = min (hc_backoff_base hc * 2 ^ attempt) (hc_backoff_max hc); jitter = jit attempt * (delay * (1 / 2))
      in delay + jitter)"

section \<open>Responses and errors\<close>

datatype 'd read = Read 'd int | ReadTimeout | ReadClientError | ReadOther

datatype retry_after = NoRetryAfter | RetrySeconds rat | RetryDate rat | RetryGarbage

datatype content_length = NoLength | Length int | BadLength

record 'd response =
  rs_status :: int
  rs_retry_after :: retry_after   \<comment> \<open>a date as its distance from now\<close>
  rs_content_length :: content_length
  rs_content_type :: string
  rs_json :: "'d read"
  rs_text :: "'d read"

datatype 'd net = NetTimeout | NetClientError | NetOther | NetResponse "'d response"

datatype unavailable = CircuitOpen | Returned int | ServerError int | ConnectionError | Exhausted

datatype http_error =
    ProviderUnavailableError unavailable
  | ProviderTimeoutError
  | ProviderValidationError
  | HttpClientError

text \<open>What the body of the \<^verbatim>\<open>try\<close> statement may raise.\<close>

datatype exn = ETimeout | EClientError | EProvider http_error | EOther

fun read_exn :: "'d read \<Rightarrow> exn + 'd \<times> int" where
  "read_exn (Read d n) = Inr (d, n)"
| "read_exn ReadTimeout = Inl ETimeout"
| "read_exn ReadClientError = Inl EClientError"
| "read_exn ReadOther = Inl EOther"

fun net_exn :: "'d net \<Rightarrow> exn + 'd response" where
  "net_exn NetTimeout = Inl ETimeout"
| "net_exn NetClientError = Inl EClientError"
| "net_exn NetOther = Inl EOther"
| "net_exn (NetResponse r) = Inr r"

section \<open>One request\<close>

definition handle_rate_limit :: "HttpClient \<Rightarrow> (nat \<Rightarrow> rat) \<Rightarrow> nat \<Rightarrow> 'd response \<Rightarrow> rat" where
  "handle_rate_limit hc jit attempt resp =
     (case rs_retry_after resp of
        NoRetryAfter \<Rightarrow> backoff_delay hc jit attempt
      | RetrySeconds s \<Rightarrow> s
      | RetryDate delta \<Rightarrow> max delta 1
      | RetryGarbage \<Rightarrow> backoff_delay hc jit attempt)"

definition handle_non_retryable_error :: "'d response \<Rightarrow> exn" where
  "handle_non_retryable_error resp =
     (case read_exn (rs_text resp) of
        Inl e \<Rightarrow> e
      | Inr _ \<Rightarrow> EProvider (ProviderUnavailableError (Returned (rs_status resp))))"

definition handle_server_error :: "rat \<Rightarrow> 'd response \<Rightarrow> CircuitBreaker \<Rightarrow> exn option \<times> CircuitBreaker" where
  "handle_server_error now resp cb =
     (case read_exn (rs_text resp) of Inl e \<Rightarrow> Some e | Inr _ \<Rightarrow> None, record_failure now cb)"

definition parse_response :: "HttpClient \<Rightarrow> 'd response \<Rightarrow> exn + 'd" where
  "parse_response hc resp =
     (let body = (if str_in ''json'' (rs_content_type resp) \<or> str_in ''javascript'' (rs_content_type resp)
                  then rs_json resp else rs_text resp);
          checked = (case read_exn body of
            Inl e \<Rightarrow> Inl e
          | Inr (d, response_size) \<Rightarrow>
              if hc_max_response_size hc < response_size then Inl (EProvider ProviderValidationError) else Inr d)
      in case rs_content_length resp of
           BadLength \<Rightarrow> Inl EOther
         | Length n \<Rightarrow> if hc_max_response_size hc < n then Inl (EProvider ProviderValidationError) else checked
         | NoLength \<Rightarrow> checked)"

datatype 'd step =
    Return 'd
  | Raise http_error
  | Continue "http_error option"   \<comment> \<open>go to the next attempt; the new value of \<open>last_exc\<close>, if set\<close>

text \<open>The retry delay at the end of the loop body.\<close>

definition retry_sleep :: "HttpClient \<Rightarrow> (nat \<Rightarrow> rat) \<Rightarrow> nat \<Rightarrow> rat list" where
  "retry_sleep hc jit attempt = (if attempt < hc_max_retries hc then [backoff_delay hc jit attempt] else [])"

fun except :: "HttpClient \<Rightarrow> (nat \<Rightarrow> rat) \<Rightarrow> nat \<Rightarrow> rat \<Rightarrow> exn \<Rightarrow> CircuitBreaker \<Rightarrow>
    'd step \<times> CircuitBreaker \<times> rat list" where
  "except hc jit attempt now ETimeout cb =
     (Continue (Some ProviderTimeoutError), record_failure now cb, retry_sleep hc jit attempt)"
| "except hc jit attempt now EClientError cb =
     (Continue (Some (ProviderUnavailableError ConnectionError)), record_failure now cb, retry_sleep hc jit attempt)"
| "except hc jit attempt now (EProvider e) cb = (Raise e, cb, [])"
| "except hc jit attempt now EOther cb = (Raise HttpClientError, record_failure now cb, [])"

definition attempt_step :: "HttpClient \<Rightarrow> (nat \<Rightarrow> rat) \<Rightarrow> nat \<Rightarrow> rat \<times> 'd net \<Rightarrow> CircuitBreaker \<Rightarrow>
    'd step \<times> CircuitBreaker \<times> rat list" where
  "attempt_step hc jit attempt = (\<lambda>(now, net) cb.
     case net_exn net of
       Inl e \<Rightarrow> except hc jit attempt now e cb
     | Inr resp \<Rightarrow>
         if rs_status resp = 429 then (Continue None, cb, [handle_rate_limit hc jit attempt resp])
         else if rs_status resp \<in> set NON_RETRYABLE_STATUS
         then except hc jit attempt now (handle_non_retryable_error resp) cb
         else if 500 \<le> rs_status resp
         then (case handle_server_error now resp cb of
             (Some e, cb1) \<Rightarrow> except hc jit attempt now e cb1
           | (None, cb1) \<Rightarrow>
               let last_exc = ProviderUnavailableError (ServerError (rs_status resp)) in
               if attempt < hc_max_retries hc
               then (Continue (Some last_exc), cb1, [backoff_delay hc jit attempt])
               else except hc jit attempt now (EProvider last_exc) cb1)
         else (case parse_response hc resp of
             Inl e \<Rightarrow> except hc jit attempt now e cb
           | Inr data \<Rightarrow> (Return data, record_success cb, [])))"

fun request_loop :: "HttpClient \<Rightarrow> (nat \<Rightarrow> rat) \<Rightarrow> (nat \<Rightarrow> rat \<times> 'd net) \<Rightarrow> nat list \<Rightarrow> http_error option \<Rightarrow>
    CircuitBreaker \<Rightarrow> (http_error + 'd) \<times> CircuitBreaker \<times> rat list" where
  "request_loop hc jit send [] last_exc cb =
     (Inl (case last_exc of Some e \<Rightarrow> e | None \<Rightarrow> ProviderUnavailableError Exhausted), cb, [])"
| "request_loop hc jit send (attempt # attempts) last_exc cb =
     (case attempt_step hc jit attempt (send attempt) cb of
        (Return data, cb1, sl) \<Rightarrow> (Inr data, cb1, sl)
      | (Raise e, cb1, sl) \<Rightarrow> (Inl e, cb1, sl)
      | (Continue exc, cb1, sl) \<Rightarrow>
          (case request_loop hc jit send attempts (case exc of Some e \<Rightarrow> Some e | None \<Rightarrow> last_exc) cb1 of
             (r, cb2, sl2) \<Rightarrow> (r, cb2, sl @ sl2)))"

definition request :: "HttpClient \<Rightarrow> (nat \<Rightarrow> rat) \<Rightarrow> (string \<Rightarrow> string \<Rightarrow> nat \<Rightarrow> rat \<times> 'd net) \<Rightarrow> rat \<Rightarrow>
    string \<Rightarrow> string \<Rightarrow> string \<Rightarrow> (http_error + 'd) \<times> HttpClient \<times> rat list" where
  "request hc jit send now verb url provider_name =
     (if \<not> validate_url url then (Inl ProviderValidationError, hc, [])
      else let (cb, hc1) = get_circuit hc provider_name; (st, cb1) = circuit_state now cb in
        if st = OPEN then (Inl (ProviderUnavailableError CircuitOpen), put_circuit provider_name cb1 hc1, [])
        else case request_loop hc jit (send verb url) [0..<hc_max_retries hc + 1] None cb1 of
          (r, cb2, sl) \<Rightarrow> (r, put_circuit provider_name cb2 hc1, sl))"

definition http_get :: "HttpClient \<Rightarrow> (nat \<Rightarrow> rat) \<Rightarrow> (string \<Rightarrow> string \<Rightarrow> nat \<Rightarrow> rat \<times> 'd net) \<Rightarrow> rat \<Rightarrow>
    string \<Rightarrow> string \<Rightarrow> (http_error + 'd) \<times> HttpClient \<times> rat list" where
  "http_get hc jit send now = request hc jit send now ''GET''"

definition http_post :: "HttpClient \<Rightarrow> (nat \<Rightarrow> rat) \<Rightarrow> (string \<Rightarrow> string \<Rightarrow> nat \<Rightarrow> rat \<times> 'd net) \<Rightarrow> rat \<Rightarrow>
    string \<Rightarrow> string \<Rightarrow> (http_error + 'd) \<times> HttpClient \<times> rat list" where
  "http_post hc jit send now = request hc jit send now ''POST''"

definition http_delete :: "HttpClient \<Rightarrow> (nat \<Rightarrow> rat) \<Rightarrow> (string \<Rightarrow> string \<Rightarrow> nat \<Rightarrow> rat \<times> 'd net) \<Rightarrow> rat \<Rightarrow>
    string \<Rightarrow> string \<Rightarrow> (http_error + 'd) \<times> HttpClient \<times> rat list" where
  "http_delete hc jit send now = request hc jit send now ''DELETE''"

text \<open>A HEAD request is sent once; exceptions other than timeouts and aiohttp's own propagate.\<close>

definition head_request :: "HttpClient \<Rightarrow> (string \<Rightarrow> rat \<times> 'd net) \<Rightarrow> rat \<Rightarrow> string \<Rightarrow> string \<Rightarrow>
    (exn + int) \<times> HttpClient" where
  "head_request hc send now url provider_name =
     (if \<not> validate_url url then (Inl (EProvider ProviderValidationError), hc)
      else let (cb, hc1) = get_circuit hc provider_name; (st, cb1) = circuit_state now cb in
        if st = OPEN then (Inl (EProvider (ProviderUnavailableError CircuitOpen)), put_circuit provider_name cb1 hc1)
        else let (t, net) = send url in
          case net_exn net of
            Inr resp \<Rightarrow> (Inr (rs_status resp), put_circuit provider_name (record_success cb1) hc1)
          | Inl ETimeout \<Rightarrow>
              (Inl (EProvider ProviderTimeoutError), put_circuit provider_name (record_failure t cb1) hc1)
          | Inl EClientError \<Rightarrow>
              (Inl (EProvider (ProviderUnavailableError ConnectionError)),
               put_circuit provider_name (record_failure t cb1) hc1)
          | Inl e \<Rightarrow> (Inl e, put_circuit provider_name cb1 hc1))"

section \<open>Runs of the breaker\<close>

datatype cb_op = Query rat | Success | Failure rat

fun cb_do :: "cb_op \<Rightarrow> CircuitBreaker \<Rightarrow> CircuitBreaker" where
  "cb_do (Query now) cb = snd (circuit_state now cb)"
| "cb_do Success cb = record_success cb"
| "cb_do (Failure now) cb = record_failure now cb"

fun op_within :: "rat \<Rightarrow> rat \<Rightarrow> cb_op \<Rightarrow> bool" where
  "op_within lo hi (Query now) = (lo \<le> now \<and> now < hi)"
| "op_within lo hi Success = True"
| "op_within lo hi (Failure now) = (lo \<le> now \<and> now < hi)"

text \<open>The breakers that occur: operations of any number of requests, interleaved in any order, at
  times that never decrease.\<close>

inductive breaker :: "int \<Rightarrow> rat \<Rightarrow> int \<Rightarrow> rat \<Rightarrow> CircuitBreaker \<Rightarrow> bool" for ft rt hm where
  init: "0 \<le> t \<Longrightarrow> breaker ft rt hm t (mk_CircuitBreaker ft rt hm)"
| query: "breaker ft rt hm t cb \<Longrightarrow> t \<le> now \<Longrightarrow> breaker ft rt hm now (snd (circuit_state now cb))"
| success: "breaker ft rt hm t cb \<Longrightarrow> t \<le> now \<Longrightarrow> breaker ft rt hm now (record_success cb)"
| failure: "breaker ft rt hm t cb \<Longrightarrow> t \<le> now \<Longrightarrow> breaker ft rt hm now (record_failure now cb)"

definition wf_breaker :: "rat \<Rightarrow> CircuitBreaker \<Rightarrow> bool" where
  "wf_breaker now cb =
     (0 \<le> cb_failure_count cb \<and> cb_last_failure_time cb \<le> now \<and>
      (case cb_state cb of
         CLOSED \<Rightarrow> cb_failure_count cb < cb_failure_threshold cb
       | OPEN \<Rightarrow> True
       | HALF_OPEN \<Rightarrow> 0 \<le> cb_half_open_successes cb \<and> cb_half_open_successes cb < cb_half_open_max cb))"

named_theorems cb_defs
lemmas [cb_defs] = circuit_state_def record_success_def record_failure_def mk_CircuitBreaker_def

lemma cb_config [simp]:
  "cb_failure_threshold (snd (circuit_state now cb)) = cb_failure_threshold cb"
  "cb_recovery_timeout (snd (circuit_state now cb)) = cb_recovery_timeout cb"
  "cb_half_open_max (snd (circuit_state now cb)) = cb_half_open_max cb"
  "cb_failure_threshold (record_success cb) = cb_failure_threshold cb"
  "cb_recovery_timeout (record_success cb) = cb_recovery_timeout cb"
  "cb_half_open_max (record_success cb) = cb_half_open_max cb"
  "cb_failure_threshold (record_failure now cb) = cb_failure_threshold cb"
  "cb_recovery_timeout (record_failure now cb) = cb_recovery_timeout cb"
  "cb_half_open_max (record_failure now cb) = cb_half_open_max cb"
  by (simp_all add: cb_defs Let_def)

lemma breaker_config:
  "breaker ft rt hm t cb \<Longrightarrow>
     cb_failure_threshold cb = ft \<and> cb_recovery_timeout cb = rt \<and> cb_half_open_max cb = hm"
  by (induction rule: breaker.induct) (simp_all, simp add: mk_CircuitBreaker_def)

lemma breaker_wf:
  assumes "breaker ft rt hm t cb" "0 < ft" "0 < hm"
  shows "wf_breaker t cb"
  using assms(1)
proof (induction rule: breaker.induct)
  case (init t)
  then show ?case using assms by (simp add: wf_breaker_def mk_CircuitBreaker_def)
next
  case (query t cb now)
  then show ?case using assms breaker_config [OF query(1)]
    by (auto simp: wf_breaker_def circuit_state_def split: CircuitState.splits)
next
  case (success t cb now)
  then show ?case using assms breaker_config [OF success(1)]
    by (auto simp: wf_breaker_def record_success_def Let_def split: CircuitState.splits)
next
  case (failure t cb now)
  then show ?case using assms breaker_config [OF failure(1)]
    by (auto simp: wf_breaker_def record_failure_def Let_def split: CircuitState.splits)
qed

lemma stays_open:
  assumes "cb_state cb = OPEN" "t0 \<le> cb_last_failure_time cb"
    and "list_all (op_within t0 (t0 + cb_recovery_timeout cb)) ops"
  shows "cb_state (fold cb_do ops cb) = OPEN \<and> t0 \<le> cb_last_failure_time (fold cb_do ops cb) \<and>
    cb_recovery_timeout (fold cb_do ops cb) = cb_recovery_timeout cb"
  using assms
proof (induction ops arbitrary: cb)
  case (Cons op ops)
  have "cb_state (cb_do op cb) = OPEN \<and> t0 \<le> cb_last_failure_time (cb_do op cb) \<and>
      cb_recovery_timeout (cb_do op cb) = cb_recovery_timeout cb"
    using Cons.prems by (cases op) (auto simp: cb_defs Let_def)
  then show ?case using Cons by simp
qed auto

lemma half_open_run:
  assumes "cb_state cb = HALF_OPEN" "cb_half_open_successes cb = 0" "int k < cb_half_open_max cb"
  shows "(record_success ^^ k) cb = cb\<lparr>cb_half_open_successes := int k\<rparr>"
  using assms(3)
proof (induction k)
  case 0
  then show ?case using assms by simp
next
  case (Suc k)
  then have "(record_success ^^ Suc k) cb = record_success (cb\<lparr>cb_half_open_successes := int k\<rparr>)" by simp
  also have "\<dots> = cb\<lparr>cb_half_open_successes := int (Suc k)\<rparr>"
    using assms Suc.prems by (simp add: record_success_def Let_def)
  finally show ?case .
qed

lemma failures_below_threshold:
  assumes "cb_state cb = HALF_OPEN" "cb_failure_count cb + int (length ts) < cb_failure_threshold cb"
  shows "cb_state (fold record_failure ts cb) = HALF_OPEN"
  using assms
proof (induction ts arbitrary: cb)
  case (Cons t ts)
  have "cb_state (record_failure t cb) = HALF_OPEN" "cb_failure_count (record_failure t cb) = cb_failure_count cb + 1"
    using Cons.prems by (simp_all add: record_failure_def Let_def)
  then show ?case using Cons by simp
qed simp

section \<open>Delays\<close>

interpretation http: backoff backoff_delay "\<lambda>hc. 3 / 2 * hc_backoff_max hc"
  "\<lambda>hc. 0 \<le> hc_backoff_base hc \<and> 0 \<le> hc_backoff_max hc"
proof
  fix hc :: HttpClient and jit :: "nat \<Rightarrow> rat" and n :: nat
  assume hc: "0 \<le> hc_backoff_base hc \<and> 0 \<le> hc_backoff_max hc" and j: "0 \<le> jit n" "jit n \<le> 1"
  let ?d = "min (hc_backoff_base hc * 2 ^ n) (hc_backoff_max hc)"
  have d: "0 \<le> ?d" "?d \<le> hc_backoff_max hc" using hc by auto
  then show "0 \<le> backoff_delay hc jit n" using j by (simp add: backoff_delay_def Let_def)
  have "jit n * (?d * (1 / 2)) \<le> 1 * (?d * (1 / 2))" using j(2) d(1) by (intro mult_right_mono) auto
  then show "backoff_delay hc jit n \<le> 3 / 2 * hc_backoff_max hc"
    using d unfolding backoff_delay_def Let_def by linarith
qed

section \<open>Outcome of a request\<close>

abbreviation network_exn :: "exn \<Rightarrow> bool" where
  "network_exn e \<equiv> e = ETimeout \<or> e = EClientError"

text \<open>Outcomes after which the loop goes on, and the data a response delivers.\<close>

definition transient :: "HttpClient \<Rightarrow> 'd net \<Rightarrow> bool" where
  "transient hc net =
     (case net_exn net of
        Inl e \<Rightarrow> network_exn e
      | Inr r \<Rightarrow>
          if rs_status r = 429 then True
          else if rs_status r \<in> set NON_RETRYABLE_STATUS then network_exn (handle_non_retryable_error r)
          else if 500 \<le> rs_status r then (case read_exn (rs_text r) of Inl e \<Rightarrow> network_exn e | Inr _ \<Rightarrow> True)
          else (case parse_response hc r of Inl e \<Rightarrow> network_exn e | Inr _ \<Rightarrow> False))"

definition delivers :: "HttpClient \<Rightarrow> 'd net \<Rightarrow> 'd option" where
  "delivers hc net =
     (case net_exn net of
        Inl e \<Rightarrow> None
      | Inr r \<Rightarrow>
          if rs_status r = 429 \<or> rs_status r \<in> set NON_RETRYABLE_STATUS \<or> 500 \<le> rs_status r then None
          else (case parse_response hc r of Inl e \<Rightarrow> None | Inr d \<Rightarrow> Some d))"

lemma except_step:
  "fst (except hc jit a now e cb) \<noteq> Return d"
  "(\<exists>x. fst (except hc jit a now e cb) = Continue x) \<longleftrightarrow> network_exn e"
  by (cases e; simp)+

lemma attempt_returns:
  "fst (attempt_step hc jit a (now, net) cb) = Return d \<longleftrightarrow> delivers hc net = Some d"
  by (auto simp: attempt_step_def delivers_def handle_server_error_def except_step Let_def
      split: sum.splits option.splits)

lemma attempt_continues:
  assumes "a < hc_max_retries hc"
  shows "(\<exists>x. fst (attempt_step hc jit a (now, net) cb) = Continue x) \<longleftrightarrow> transient hc net"
  using assms by (auto simp: attempt_step_def transient_def handle_server_error_def except_step Let_def
      split: sum.splits option.splits)

lemma delivers_not_transient: "delivers hc net = Some d \<Longrightarrow> \<not> transient hc net"
  by (auto simp: delivers_def transient_def split: sum.splits if_splits)

lemma attempt_cases:
  obtains (ret) d cb1 sl where "attempt_step hc jit a (send a) cb = (Return d, cb1, sl)"
    "delivers hc (snd (send a)) = Some d"
  | (exc) e cb1 sl where "attempt_step hc jit a (send a) cb = (Raise e, cb1, sl)"
    "delivers hc (snd (send a)) = None" "a < hc_max_retries hc \<Longrightarrow> \<not> transient hc (snd (send a))"
  | (cont) x cb1 sl where "attempt_step hc jit a (send a) cb = (Continue x, cb1, sl)"
    "delivers hc (snd (send a)) = None" "a < hc_max_retries hc \<Longrightarrow> transient hc (snd (send a))"
proof -
  obtain now net where s: "send a = (now, net)" by (cases "send a")
  obtain st cb1 sl where st: "attempt_step hc jit a (send a) cb = (st, cb1, sl)"
    by (cases "attempt_step hc jit a (send a) cb") auto
  have f: "fst (attempt_step hc jit a (now, net) cb) = st" using st s by simp
  have d: "delivers hc net = Some d \<longleftrightarrow> st = Return d" for d
    using attempt_returns [of hc jit a now net cb] f by blast
  have c: "a < hc_max_retries hc \<Longrightarrow> transient hc net \<longleftrightarrow> (\<exists>x. st = Continue x)"
    using attempt_continues [of a hc jit now net cb] f by blast
  show thesis
  proof (cases st)
    case (Return d)
    then show thesis using ret st d s by simp
  next
    case (Raise e)
    then have "delivers hc net = None" using d by (cases "delivers hc net") auto
    then show thesis using exc st c s Raise by simp
  next
    case (Continue x)
    then have "delivers hc net = None" using d by (cases "delivers hc net") auto
    then show thesis using cont st c s Continue by simp
  qed
qed

lemma request_loop_returns:
  "fst (request_loop hc jit send [a..<hc_max_retries hc + 1] last_exc cb) = Inr d \<longleftrightarrow>
     (\<exists>k. a \<le> k \<and> k \<le> hc_max_retries hc \<and> delivers hc (snd (send k)) = Some d \<and>
       (\<forall>j. a \<le> j \<and> j < k \<longrightarrow> transient hc (snd (send j))))"
proof (induction "hc_max_retries hc + 1 - a" arbitrary: a last_exc cb)
  case 0
  then show ?case by auto
next
  case (Suc n)
  then have a: "a \<le> hc_max_retries hc" by linarith
  then have l: "[a..<hc_max_retries hc + 1] = a # [Suc a..<hc_max_retries hc + 1]" by (simp add: upt_conv_Cons)
  let ?P = "\<lambda>b k. b \<le> k \<and> k \<le> hc_max_retries hc \<and> delivers hc (snd (send k)) = Some d \<and>
       (\<forall>j. b \<le> j \<and> j < k \<longrightarrow> transient hc (snd (send j)))"
  have split: "(\<exists>k. ?P a k) \<longleftrightarrow> delivers hc (snd (send a)) = Some d \<or>
      (a < hc_max_retries hc \<and> transient hc (snd (send a)) \<and> (\<exists>k. ?P (Suc a) k))" (is "?l \<longleftrightarrow> ?r")
  proof
    assume ?l
    then obtain k where k: "?P a k" ..
    show ?r
    proof (cases "k = a")
      case False
      then have "a < hc_max_retries hc" "transient hc (snd (send a))" "?P (Suc a) k" using k by auto
      then show ?r by blast
    qed (use k in simp)
  next
    assume ?r
    then show ?l
    proof
      assume "delivers hc (snd (send a)) = Some d"
      then have "?P a a" using a by auto
      then show ?l by blast
    next
      assume h: "a < hc_max_retries hc \<and> transient hc (snd (send a)) \<and> (\<exists>k. ?P (Suc a) k)"
      then obtain k where "?P (Suc a) k" by blast
      then have "?P a k" using h by (metis Suc_leD le_eq_less_or_eq less_eq_Suc_le)
      then show ?l by blast
    qed
  qed
  have IH: "fst (request_loop hc jit send [Suc a..<hc_max_retries hc + 1] x cb1) = Inr d \<longleftrightarrow> (\<exists>k. ?P (Suc a) k)"
    for x cb1 using Suc.hyps(1) [of "Suc a"] Suc.hyps(2) by simp
  have last: "a = hc_max_retries hc \<Longrightarrow> \<not> (\<exists>k. ?P (Suc a) k)" by auto
  show ?case
  proof (cases rule: attempt_cases [of hc jit a send cb])
    case (ret d' cb1 sl)
    then show ?thesis unfolding l split using delivers_not_transient [OF ret(2)] by auto
  next
    case (exc e cb1 sl)
    then show ?thesis unfolding l split by auto
  next
    case (cont x cb1 sl)
    have "fst (request_loop hc jit send (a # [Suc a..<hc_max_retries hc + 1]) last_exc cb) =
        fst (request_loop hc jit send [Suc a..<hc_max_retries hc + 1]
          (case x of Some e \<Rightarrow> Some e | None \<Rightarrow> last_exc) cb1)"
      by (simp add: cont(1) split: prod.splits del: upt_Suc)
    then have "fst (request_loop hc jit send (a # [Suc a..<hc_max_retries hc + 1]) last_exc cb) = Inr d \<longleftrightarrow>
        (\<exists>k. ?P (Suc a) k)" using IH by simp
    moreover have "(\<exists>k. ?P (Suc a) k) \<longleftrightarrow>
        a < hc_max_retries hc \<and> transient hc (snd (send a)) \<and> (\<exists>k. ?P (Suc a) k)"
      using last cont(3) a by (cases "a = hc_max_retries hc") auto
    ultimately show ?thesis unfolding l split using cont(2) by simp
  qed
qed

section \<open>Properties\<close>

lemma request_closed:
  assumes "validate_url url" "hc_circuits hc p = Some cb" "circuit_state now cb = (st, cb1)" "st \<noteq> OPEN"
  shows "request hc jit send now verb url p =
    (case request_loop hc jit (send verb url) [0..<hc_max_retries hc + 1] None cb1 of
       (r, cb2, sl) \<Rightarrow> (r, put_circuit p cb2 hc, sl))"
  using assms by (simp add: request_def get_circuit_def del: upt_Suc)

text \<open>C15. A request whose circuit is not open returns data exactly when, within one attempt more than
  the configured retries, some attempt delivers it (a response other than 429, the listed 4xx and the
  5xx, that parses within the size limit) and every earlier attempt ended in a transient way: a timeout, a
  connection error, a 429 or a 5xx.\<close>

theorem request_returns_iff:
  assumes "validate_url url" "hc_circuits hc p = Some cb" "fst (circuit_state now cb) \<noteq> OPEN"
  shows "fst (request hc jit send now verb url p) = Inr d \<longleftrightarrow>
     (\<exists>k \<le> hc_max_retries hc. delivers hc (snd (send verb url k)) = Some d \<and>
        (\<forall>j < k. transient hc (snd (send verb url j))))"
proof -
  obtain st cb1 where "circuit_state now cb = (st, cb1)" by (cases "circuit_state now cb")
  then have "fst (request hc jit send now verb url p) =
      fst (request_loop hc jit (send verb url) [0..<hc_max_retries hc + 1] None cb1)"
    using request_closed [OF assms(1,2), of now st cb1 jit send verb] assms(3)
    by (simp split: prod.splits del: upt_Suc)
  then show ?thesis using request_loop_returns [of hc jit "send verb url" 0] by (simp del: upt_Suc)
qed

definition ex_cb :: CircuitBreaker where "ex_cb = mk_CircuitBreaker 1 60 3"

definition ex_hc :: HttpClient where
  "ex_hc = (mk_HttpClient 3 1 60 1 60 3 MAX_RESPONSE_SIZE)\<lparr>hc_circuits := [''cot'' \<mapsto> ex_cb]\<rparr>"

definition ex_resp :: "int \<Rightarrow> string response" where
  "ex_resp s = \<lparr>rs_status = s, rs_retry_after = NoRetryAfter, rs_content_length = NoLength,
     rs_content_type = ''text/html'', rs_json = ReadOther, rs_text = Read ''ok'' 2\<rparr>"

definition ex_send :: "string \<Rightarrow> string \<Rightarrow> nat \<Rightarrow> rat \<times> string net" where
  "ex_send verb url k = (1, if k = 0 then NetTimeout else NetResponse (ex_resp 200))"

lemma ex_valid: "validate_url ''https://a/b''" by code_simp

lemma ex_hc_simps: "hc_circuits ex_hc ''cot'' = Some ex_cb" "hc_max_retries ex_hc = 3"
  "hc_max_response_size ex_hc = MAX_RESPONSE_SIZE"
  by (simp_all add: ex_hc_def mk_HttpClient_def)

lemma ex_outcomes: "transient ex_hc (snd (ex_send v u 0))" "delivers ex_hc (snd (ex_send v u 1)) = Some ''ok''"
  by (simp_all add: ex_send_def transient_def delivers_def ex_resp_def NON_RETRYABLE_STATUS_def
      parse_response_def ex_hc_simps MAX_RESPONSE_SIZE_def Let_def startswith_def)

theorem request_returns_iff_witness:
  "fst (request ex_hc (\<lambda>_. 0) ex_send 0 ''GET'' ''https://a/b'' ''cot'') = Inr ''ok''"
proof -
  have a: "fst (circuit_state 0 ex_cb) \<noteq> OPEN" by (simp add: circuit_state_def ex_cb_def mk_CircuitBreaker_def)
  have b: "\<exists>k \<le> hc_max_retries ex_hc. delivers ex_hc (snd (ex_send ''GET'' ''https://a/b'' k)) = Some ''ok'' \<and>
        (\<forall>j < k. transient ex_hc (snd (ex_send ''GET'' ''https://a/b'' j)))"
    using ex_outcomes ex_hc_simps by (intro exI [of _ 1]) simp
  show ?thesis unfolding request_returns_iff [OF ex_valid ex_hc_simps(1) a] by (rule b)
qed

text \<open>C26. An open circuit stays open for the whole recovery time. After any interleaving of state
  reads, successes and failures that all fall before the recovery time has passed since the failure
  that opened it, a request is refused at once: the network is not consulted and nothing is slept.\<close>

theorem open_circuit_blocks:
  assumes "cb_state cb = OPEN" "t0 = cb_last_failure_time cb"
    and "list_all (op_within t0 (t0 + cb_recovery_timeout cb)) ops"
    and "t0 \<le> now" "now < t0 + cb_recovery_timeout cb"
    and "hc_circuits hc p = Some (fold cb_do ops cb)" "validate_url url"
  shows "\<exists>hc'. request hc jit send now verb url p = (Inl (ProviderUnavailableError CircuitOpen), hc', [])"
proof -
  let ?c = "fold cb_do ops cb"
  have "cb_state ?c = OPEN" "t0 \<le> cb_last_failure_time ?c" "cb_recovery_timeout ?c = cb_recovery_timeout cb"
    using stays_open [of cb t0 ops] assms(1-3) by auto
  then have "circuit_state now ?c = (OPEN, ?c)" using assms(5) by (auto simp: circuit_state_def)
  then show ?thesis using assms(6,7) by (simp add: request_def get_circuit_def)
qed

theorem open_circuit_blocks_witness:
  "\<exists>hc'. request (ex_hc\<lparr>hc_circuits := [''cot'' \<mapsto> fold cb_do [Success, Query 12, Failure 15] (record_failure 10 ex_cb)]\<rparr>)
     (\<lambda>_. 0) ex_send 69 ''GET'' ''https://a/b'' ''cot'' = (Inl (ProviderUnavailableError CircuitOpen), hc', [])"
  by (rule open_circuit_blocks [of "record_failure 10 ex_cb" 10 "[Success, Query 12, Failure 15]"])
    (simp_all add: ex_valid ex_cb_def cb_defs Let_def)

text \<open>C28. An open circuit recovers. Once the recovery time has passed, reading its state makes it
  half-open; it then stays half-open through fewer successes than configured and
  closes, with its failure count reset, at exactly that many.\<close>

theorem circuit_recovers:
  assumes "cb_state cb = OPEN" "cb_recovery_timeout cb \<le> now - cb_last_failure_time cb" "0 < cb_half_open_max cb"
  shows "cb_state ((record_success ^^ nat (cb_half_open_max cb)) (snd (circuit_state now cb))) = CLOSED \<and>
    cb_failure_count ((record_success ^^ nat (cb_half_open_max cb)) (snd (circuit_state now cb))) = 0 \<and>
    (\<forall>k < nat (cb_half_open_max cb). cb_state ((record_success ^^ k) (snd (circuit_state now cb))) = HALF_OPEN)"
proof -
  let ?c = "snd (circuit_state now cb)"
  have c: "cb_state ?c = HALF_OPEN" "cb_half_open_successes ?c = 0" "cb_half_open_max ?c = cb_half_open_max cb"
    using assms by (simp_all add: circuit_state_def)
  have run: "(record_success ^^ k) ?c = ?c\<lparr>cb_half_open_successes := int k\<rparr>" if "int k < cb_half_open_max cb" for k
    using half_open_run [OF c(1,2)] that c(3) by simp
  obtain k where k: "nat (cb_half_open_max cb) = Suc k" using assms(3) by (cases "nat (cb_half_open_max cb)") auto
  then have "int k < cb_half_open_max cb" "cb_half_open_max cb \<le> int k + 1" by linarith+
  then have "(record_success ^^ Suc k) ?c =
      ?c\<lparr>cb_half_open_successes := int k + 1, cb_state := CLOSED, cb_failure_count := 0\<rparr>"
    using run [of k] c by (simp add: record_success_def Let_def)
  moreover have "cb_state ((record_success ^^ j) ?c) = HALF_OPEN" if "j < nat (cb_half_open_max cb)" for j
    using run [of j] that c by (simp add: zless_nat_eq_int_zless)
  ultimately show ?thesis unfolding k by simp
qed

theorem circuit_recovers_witness:
  "cb_state ((record_success ^^ 3) (snd (circuit_state 70 (record_failure 10 ex_cb)))) = CLOSED"
  using circuit_recovers [of "record_failure 10 ex_cb" 70]
  by (simp add: ex_cb_def mk_CircuitBreaker_def record_failure_def Let_def eval_nat_numeral)

lemma attempt_success:
  "delivers hc (snd x) = Some d \<Longrightarrow> attempt_step hc jit a x cb = (Return d, record_success cb, [])"
  by (cases x) (auto simp: attempt_step_def delivers_def split: sum.splits if_splits)

lemma request_two_attempts:
  assumes "0 < hc_max_retries hc" "send 0 = (t, NetTimeout)" "delivers hc (snd (send 1)) = Some d"
  shows "\<exists>sl. request_loop hc jit send [0..<hc_max_retries hc + 1] None cb =
    (Inr d, record_success (record_failure t cb), sl)"
proof -
  obtain n where n: "hc_max_retries hc = Suc n" using assms(1) by (cases "hc_max_retries hc") auto
  then have "[0..<hc_max_retries hc + 1] = 0 # 1 # [2..<hc_max_retries hc + 1]"
    by (simp add: upt_conv_Cons numeral_2_eq_2 del: upt_Suc)
  then show ?thesis
    using assms(2) attempt_success [OF assms(3), of jit 1 "record_failure t cb"]
    by (simp add: attempt_step_def del: upt_Suc)
qed

text \<open>C40. A success that arrives while the circuit is open resets the failure count without closing
  the circuit. When the first attempt of a request is the timeout that opens the circuit and its
  retry delivers data, the request succeeds and leaves the circuit open with a count of zero; after
  the recovery time the half-open circuit then tolerates any number of failed probes below the
  threshold without opening again.\<close>

theorem success_leaves_circuit_open:
  assumes "validate_url url" "hc_circuits hc p = Some cb" "cb_state cb = CLOSED"
    and "cb_failure_threshold cb \<le> cb_failure_count cb + 1" "0 < hc_max_retries hc"
    and "send verb url 0 = (t, NetTimeout)" "delivers hc (snd (send verb url 1)) = Some d"
  shows "\<exists>hc' cb' sl. request hc jit send now verb url p = (Inr d, hc', sl) \<and>
     hc_circuits hc' p = Some cb' \<and> cb_state cb' = OPEN \<and> cb_failure_count cb' = 0 \<and>
     (\<forall>now' ts. t + cb_recovery_timeout cb \<le> now' \<and> int (length ts) < cb_failure_threshold cb \<longrightarrow>
        cb_state (fold record_failure ts (snd (circuit_state now' cb'))) = HALF_OPEN)"
proof -
  define cb' where "cb' = record_success (record_failure t cb)"
  obtain sl where sl: "request_loop hc jit (send verb url) [0..<hc_max_retries hc + 1] None cb = (Inr d, cb', sl)"
    using request_two_attempts [OF assms(5), of "send verb url" t d] assms(6,7) unfolding cb'_def by blast
  have "circuit_state now cb = (CLOSED, cb)" using assms(3) by (simp add: circuit_state_def)
  then have req: "request hc jit send now verb url p = (Inr d, put_circuit p cb' hc, sl)"
    using request_closed [OF assms(1,2), of now CLOSED cb jit send verb] sl by (simp del: upt_Suc)
  have cb': "cb_state cb' = OPEN" "cb_failure_count cb' = 0" "cb_last_failure_time cb' = t"
    using assms(3,4) by (simp_all add: cb'_def record_success_def record_failure_def Let_def)
  have "cb_state (fold record_failure ts (snd (circuit_state now' cb'))) = HALF_OPEN"
    if "t + cb_recovery_timeout cb \<le> now'" "int (length ts) < cb_failure_threshold cb" for now' ts
  proof (rule failures_below_threshold)
    have "cb_recovery_timeout cb' = cb_recovery_timeout cb" by (simp add: cb'_def)
    then show "cb_state (snd (circuit_state now' cb')) = HALF_OPEN"
      using that(1) cb' by (simp add: circuit_state_def)
    have "cb_failure_count (snd (circuit_state now' cb')) = 0" using cb'(2) by (simp add: circuit_state_def)
    then show "cb_failure_count (snd (circuit_state now' cb')) + int (length ts) <
        cb_failure_threshold (snd (circuit_state now' cb'))" using that(2) by (simp add: cb'_def)
  qed
  then show ?thesis using req cb' by (auto simp: put_circuit_def)
qed

theorem success_leaves_circuit_open_witness:
  "\<exists>hc' cb' sl. request ex_hc (\<lambda>_. 0) ex_send 0 ''GET'' ''https://a/b'' ''cot'' = (Inr ''ok'', hc', sl) \<and>
     hc_circuits hc' ''cot'' = Some cb' \<and> cb_state cb' = OPEN \<and> cb_failure_count cb' = 0 \<and>
     (\<forall>now' ts. 1 + cb_recovery_timeout ex_cb \<le> now' \<and> int (length ts) < cb_failure_threshold ex_cb \<longrightarrow>
        cb_state (fold record_failure ts (snd (circuit_state now' cb'))) = HALF_OPEN)"
  by (rule success_leaves_circuit_open [OF ex_valid ex_hc_simps(1)], simp_all add: ex_hc_simps ex_cb_def mk_CircuitBreaker_def ex_outcomes(2) [simplified])
    (simp add: ex_send_def)

end
