(* ===== verification/Cache.thy ===== *)
theory Cache
  imports Prelude
begin

text \<open>
  The Redis cache client of \<^verbatim>\<open>engine/shared/cache/redis_cache.py\<close>.

  The Redis server is the argument \<open>exec\<close>: it answers a command in a state of the world \<open>'s\<close> with a
  reply or a failure and the next state. The JSON codec (\<^verbatim>\<open>orjson\<close>) is the pair of arguments
  \<open>dumps\<close> and \<open>loads\<close>; the wall clock is an argument where it is read. Metrics, logging and the pauses
  between retries are left out.
\<close>

section \<open>Commands and replies\<close>

datatype command =
    GET string
  | SETEX string string int     \<comment> \<open>\<open>SET key value EX ttl\<close>\<close>
  | SETNX string string int     \<comment> \<open>\<open>SET key value NX EX ttl\<close>\<close>
  | DEL string
  | CAD string string           \<comment> \<open>the compare-and-delete script\<close>
  | INCR string
  | EXPIRE string int
  | PUBLISH string string
  | PING

datatype reply =
    RNil
  | RValue string
  | RInt int
  | ROk
  | RTimeout                    \<comment> \<open>the operation timeout elapsed\<close>
  | RConnection                 \<comment> \<open>connection lost, or the driver's own timeout\<close>
  | RRedisError                 \<comment> \<open>any other error of the driver\<close>
  | RUnexpected                 \<comment> \<open>any other exception\<close>

type_synonym 's redis = "command \<Rightarrow> 's \<Rightarrow> reply \<times> 's"

datatype cache_error =
    CacheValidationError
  | CacheTimeoutError
  | CacheConnectionError
  | CacheError
  | RedisError
  | OtherError

record RedisCache =
  ca_key_prefix :: string
  ca_max_retries :: nat

definition MAX_CACHE_VALUE_SIZE :: nat where "MAX_CACHE_VALUE_SIZE = 10 * 1024 * 1024"

definition MAX_KEY_LENGTH :: nat where "MAX_KEY_LENGTH = 256"

definition MAX_NAMESPACE_LENGTH :: nat where "MAX_NAMESPACE_LENGTH = 64"

section \<open>Keys\<close>

definition is_digit :: "char \<Rightarrow> bool" where
  "is_digit c = (let n = of_char c :: nat in 48 \<le> n \<and> n \<le> 57)"

definition is_alnum :: "char \<Rightarrow> bool" where
  "is_alnum c = (is_digit c \<or> (let n = of_char c :: nat in (65 \<le> n \<and> n \<le> 90) \<or> (97 \<le> n \<and> n \<le> 122)))"

definition validate_namespace :: "string \<Rightarrow> bool" where
  "validate_namespace namespace =
     (namespace \<noteq> '''' \<and> length namespace \<le> MAX_NAMESPACE_LENGTH \<and>
      (let t = remove_char (CHR ''-'') (remove_char (CHR ''_'') namespace) in t \<noteq> '''' \<and> list_all is_alnum t))"

definition validate_key :: "string \<Rightarrow> bool" where
  "validate_key key =
     (key \<noteq> '''' \<and> length key \<le> MAX_KEY_LENGTH \<and> \<not> list_ex (\<lambda>c. c \<in> set key) [CHR 0x0A, CHR 0x0D, CHR '' ''])"

definition make_key :: "RedisCache \<Rightarrow> string \<Rightarrow> string \<Rightarrow> cache_error + string" where
  "make_key ca namespace key =
     (if \<not> validate_namespace namespace then Inl CacheValidationError
      else if \<not> validate_key key then Inl CacheValidationError
      else Inr (ca_key_prefix ca @ '':'' @ namespace @ '':'' @ key))"

section \<open>Retries\<close>

fun retry_loop :: "'s redis \<Rightarrow> command \<Rightarrow> nat \<Rightarrow> cache_error option \<Rightarrow> 's \<Rightarrow> (cache_error + reply) \<times> 's" where
  "retry_loop exec c 0 last_error s = (Inl (case last_error of Some e \<Rightarrow> e | None \<Rightarrow> CacheError), s)"
| "retry_loop exec c (Suc n) last_error s =
     (case exec c s of
        (RTimeout, s1) \<Rightarrow> retry_loop exec c n (Some CacheTimeoutError) s1
      | (RConnection, s1) \<Rightarrow> retry_loop exec c n (Some CacheConnectionError) s1
      | (RRedisError, s1) \<Rightarrow> (Inl RedisError, s1)
      | (RUnexpected, s1) \<Rightarrow> (Inl OtherError, s1)
      | (r, s1) \<Rightarrow> (Inr r, s1))"

definition execute_with_retry :: "RedisCache \<Rightarrow> 's redis \<Rightarrow> command \<Rightarrow> 's \<Rightarrow> (cache_error + reply) \<times> 's" where
  "execute_with_retry ca exec c s = retry_loop exec c (ca_max_retries ca) None s"

section \<open>Operations\<close>

text \<open>\<open>None\<close> is a miss. The handler re-raises three errors as they are and wraps every other one.\<close>

definition cache_get :: "RedisCache \<Rightarrow> 's redis \<Rightarrow> (string \<Rightarrow> json option) \<Rightarrow> string \<Rightarrow> string \<Rightarrow> 's \<Rightarrow>
    (cache_error + json option) \<times> 's" where
  "cache_get ca exec loads namespace key s =
     (case make_key ca namespace key of
        Inl e \<Rightarrow> (Inl e, s)
      | Inr full_key \<Rightarrow>
          (case execute_with_retry ca exec (GET full_key) s of
             (Inl e, s1) \<Rightarrow>
               (Inl (if e \<in> {CacheValidationError, CacheTimeoutError, CacheConnectionError} then e else CacheError), s1)
           | (Inr RNil, s1) \<Rightarrow> (Inr None, s1)
           | (Inr (RValue raw), s1) \<Rightarrow>
               (case loads raw of None \<Rightarrow> Inl CacheError | Some v \<Rightarrow> Inr (Some v), s1)
           | (Inr _, s1) \<Rightarrow> (Inl CacheError, s1)))"

definition cache_set :: "RedisCache \<Rightarrow> 's redis \<Rightarrow> (json \<Rightarrow> string option) \<Rightarrow> string \<Rightarrow> string \<Rightarrow> json \<Rightarrow> int \<Rightarrow> 's \<Rightarrow>
    (cache_error + bool) \<times> 's" where
  "cache_set ca exec dumps namespace key val ttl_seconds s =
     (case make_key ca namespace key of
        Inl e \<Rightarrow> (Inl e, s)
      | Inr full_key \<Rightarrow>
          if ttl_seconds \<le> 0 then (Inl CacheValidationError, s)
          else case dumps val of
            None \<Rightarrow> (Inr False, s)
          | Some raw \<Rightarrow>
              if MAX_CACHE_VALUE_SIZE < length raw then (Inl CacheValidationError, s)
              else case execute_with_retry ca exec (SETEX full_key raw ttl_seconds) s of
                (Inl e, s1) \<Rightarrow>
                  (if e \<in> {CacheValidationError, CacheTimeoutError, CacheConnectionError} then Inl e else Inr False, s1)
              | (Inr _, s1) \<Rightarrow> (Inr True, s1))"

definition cache_delete :: "RedisCache \<Rightarrow> 's redis \<Rightarrow> string \<Rightarrow> string \<Rightarrow> 's \<Rightarrow> (cache_error + bool) \<times> 's" where
  "cache_delete ca exec namespace key s =
     (case make_key ca namespace key of
        Inl e \<Rightarrow> (Inl e, s)
      | Inr full_key \<Rightarrow>
          (case execute_with_retry ca exec (DEL full_key) s of
             (Inl e, s1) \<Rightarrow>
               (if e \<in> {CacheValidationError, CacheTimeoutError, CacheConnectionError} then Inl e else Inr False, s1)
           | (Inr _, s1) \<Rightarrow> (Inr True, s1)))"

text \<open>\<^verbatim>\<open>bool(result)\<close> and \<^verbatim>\<open>int(result)\<close> of a reply.\<close>

fun truthy :: "reply \<Rightarrow> bool" where
  "truthy RNil = False"
| "truthy (RInt n) = (n \<noteq> 0)"
| "truthy (RValue v) = (v \<noteq> [])"
| "truthy _ = True"

definition health_check :: "RedisCache \<Rightarrow> 's redis \<Rightarrow> 's \<Rightarrow> bool \<times> 's" where
  "health_check ca exec s =
     (case execute_with_retry ca exec PING s of (Inl _, s1) \<Rightarrow> (False, s1) | (Inr r, s1) \<Rightarrow> (truthy r, s1))"

definition increment :: "RedisCache \<Rightarrow> 's redis \<Rightarrow> string \<Rightarrow> 's \<Rightarrow> (cache_error + int) \<times> 's" where
  "increment ca exec raw_key s =
     (case execute_with_retry ca exec (INCR raw_key) s of
        (Inl e, s1) \<Rightarrow> (Inl e, s1)
      | (Inr (RInt n), s1) \<Rightarrow> (Inr n, s1)
      | (Inr _, s1) \<Rightarrow> (Inl OtherError, s1))"

definition expire :: "RedisCache \<Rightarrow> 's redis \<Rightarrow> string \<Rightarrow> int \<Rightarrow> 's \<Rightarrow> (cache_error + unit) \<times> 's" where
  "expire ca exec raw_key seconds s =
     (case execute_with_retry ca exec (EXPIRE raw_key seconds) s of
        (Inl e, s1) \<Rightarrow> (Inl e, s1) | (Inr _, s1) \<Rightarrow> (Inr (), s1))"

definition publish :: "RedisCache \<Rightarrow> 's redis \<Rightarrow> (json \<Rightarrow> string option) \<Rightarrow> string \<Rightarrow> json \<Rightarrow> 's \<Rightarrow> int \<times> 's" where
  "publish ca exec dumps channel msg s =
     (case dumps msg of
        None \<Rightarrow> (0, s)
      | Some raw \<Rightarrow>
          (case execute_with_retry ca exec (PUBLISH channel raw) s of
             (Inr (RInt n), s1) \<Rightarrow> (n, s1) | (_, s1) \<Rightarrow> (0, s1)))"

section \<open>Entries with their age\<close>

definition set_with_meta :: "RedisCache \<Rightarrow> 's redis \<Rightarrow> (json \<Rightarrow> string option) \<Rightarrow> int \<Rightarrow> string \<Rightarrow> string \<Rightarrow> json \<Rightarrow>
    int \<Rightarrow> 's \<Rightarrow> (cache_error + bool) \<times> 's" where
  "set_with_meta ca exec dumps time namespace key val ttl_seconds s =
     cache_set ca exec dumps namespace key (JObj [(''v'', val), (''t'', JNum (of_int time))]) ttl_seconds s"

text \<open>\<^verbatim>\<open>int(x)\<close> of a decoded value: numbers are truncated, texts must be decimal digits with an
  optional sign and single underscores between digits.\<close>

fun digits_value :: "nat \<Rightarrow> string \<Rightarrow> nat" where
  "digits_value acc [] = acc"
| "digits_value acc (c # cs) = digits_value (acc * 10 + (of_char c - 48)) cs"

fun decimal :: "bool \<Rightarrow> string \<Rightarrow> bool" where
  "decimal seen [] = seen"
| "decimal seen (c # cs) = (if is_digit c then decimal True cs else c = CHR ''_'' \<and> seen \<and> decimal False cs)"

definition int_of_str :: "string \<Rightarrow> int option" where
  "int_of_str s =
     (let t = str_strip s; neg = startswith t ''-''; u = (if neg \<or> startswith t ''+'' then drop 1 t else t);
          n = int (digits_value 0 (remove_char (CHR ''_'') u))
      in if decimal False u then Some (if neg then - n else n) else None)"

fun json_int :: "json \<Rightarrow> int option" where
  "json_int (JNum r) = Some (if 0 \<le> r then \<lfloor>r\<rfloor> else \<lceil>r\<rceil>)"
| "json_int (JBool b) = Some (if b then 1 else 0)"
| "json_int (JStr s) = int_of_str s"
| "json_int _ = None"

definition age_of :: "int \<Rightarrow> json \<Rightarrow> int option" where
  "age_of time t = map_option (\<lambda>stored. max 0 (time - stored)) (json_int t)"

definition get_with_meta :: "RedisCache \<Rightarrow> 's redis \<Rightarrow> (string \<Rightarrow> json option) \<Rightarrow> int \<Rightarrow> string \<Rightarrow> string \<Rightarrow> 's \<Rightarrow>
    (cache_error + json option \<times> int option) \<times> 's" where
  "get_with_meta ca exec loads time namespace key s =
     (case cache_get ca exec loads namespace key s of
        (Inl e, s1) \<Rightarrow> (Inl e, s1)
      | (Inr None, s1) \<Rightarrow> (Inr (None, None), s1)
      | (Inr (Some raw), s1) \<Rightarrow>
          (Inr (case raw of
             JNull \<Rightarrow> (None, None)
           | JObj kvs \<Rightarrow> (case (map_of kvs ''v'', map_of kvs ''t'') of
                (Some v, Some t) \<Rightarrow> (Some v, age_of time t) | _ \<Rightarrow> (Some raw, None))
           | _ \<Rightarrow> (Some raw, None)), s1))"

definition get_meta_only :: "RedisCache \<Rightarrow> 's redis \<Rightarrow> (string \<Rightarrow> json option) \<Rightarrow> int \<Rightarrow> string \<Rightarrow> string \<Rightarrow> 's \<Rightarrow>
    (cache_error + bool \<times> int option) \<times> 's" where
  "get_meta_only ca exec loads time namespace key s =
     (case make_key ca namespace key of
        Inl e \<Rightarrow> (Inl e, s)
      | Inr full_key \<Rightarrow>
          (case execute_with_retry ca exec (GET full_key) s of
             (Inl e, s1) \<Rightarrow>
               (if e \<in> {RedisError, OtherError} then Inl e else Inr (False, None), s1)
           | (Inr RNil, s1) \<Rightarrow> (Inr (False, None), s1)
           | (Inr (RValue raw), s1) \<Rightarrow>
               (Inr (case loads raw of
                  Some (JObj kvs) \<Rightarrow> (case (map_of kvs ''t'', map_of kvs ''v'') of
                     (Some t, Some v) \<Rightarrow> (True, age_of time t) | _ \<Rightarrow> (True, None))
                | _ \<Rightarrow> (True, None)), s1)
           | (Inr _, s1) \<Rightarrow> (Inr (True, None), s1)))"

section \<open>Locks\<close>

definition try_acquire_lock :: "RedisCache \<Rightarrow> 's redis \<Rightarrow> string \<Rightarrow> string \<Rightarrow> string \<Rightarrow> int \<Rightarrow> 's \<Rightarrow>
    (cache_error + bool) \<times> 's" where
  "try_acquire_lock ca exec namespace key token ttl_seconds s =
     (case make_key ca namespace key of
        Inl e \<Rightarrow> (Inl e, s)
      | Inr full_key \<Rightarrow>
          if token = '''' then (Inl CacheValidationError, s)
          else if ttl_seconds \<le> 0 then (Inl CacheValidationError, s)
          else case execute_with_retry ca exec (SETNX full_key token ttl_seconds) s of
            (Inl e, s1) \<Rightarrow> (if e \<in> {RedisError, OtherError} then Inl e else Inr False, s1)
          | (Inr r, s1) \<Rightarrow> (Inr (truthy r), s1))"

definition release_lock :: "RedisCache \<Rightarrow> 's redis \<Rightarrow> string \<Rightarrow> string \<Rightarrow> string \<Rightarrow> 's \<Rightarrow> (cache_error + bool) \<times> 's" where
  "release_lock ca exec namespace key token s =
     (case make_key ca namespace key of
        Inl e \<Rightarrow> (Inl e, s)
      | Inr full_key \<Rightarrow>
          if token = '''' then (Inr False, s)
          else case execute_with_retry ca exec (CAD full_key token) s of
            (Inl e, s1) \<Rightarrow> (if e \<in> {RedisError, OtherError} then Inl e else Inr False, s1)
          | (Inr r, s1) \<Rightarrow> (Inr (truthy r), s1))"

end
