(* ===== verification/Idempotency.thy ===== *)
theory Idempotency
  imports Cache
begin

text \<open>
  The idempotency guard of the analysis call: \<^verbatim>\<open>engine/processor/idempotency.py\<close> and its only
  client, \<^verbatim>\<open>AnalysisProcessor._execute_guarded\<close> in \<^verbatim>\<open>engine/processor/service.py\<close>.

  The world is a state \<open>'s\<close> with the Redis server, the monotonic clock and \<^verbatim>\<open>asyncio.sleep\<close>
  acting on it. Arguments stand for SHA-256, the fresh lock token, the JSON codec, the conversion of a
  \<^verbatim>\<open>ProcessorOutput\<close> to and from a dict, and the pipeline \<^verbatim>\<open>_execute\<close>, which calls the
  language model.
\<close>

section \<open>Guard\<close>

record 's world =
  wd_exec :: "command \<Rightarrow> 's \<Rightarrow> reply \<times> 's"
  wd_clock :: "'s \<Rightarrow> rat"
  wd_sleep :: "rat \<Rightarrow> 's \<Rightarrow> 's"

record 'o codec =
  cd_loads :: "string \<Rightarrow> json option"
  cd_dumps :: "json \<Rightarrow> string option"
  cd_encode :: "'o \<Rightarrow> json"           \<comment> \<open>\<open>model_dump(mode="json")\<close>\<close>
  cd_decode :: "json \<Rightarrow> 'o option"    \<comment> \<open>\<open>ProcessorOutput(**raw)\<close>\<close>

definition NAMESPACE :: string where "NAMESPACE = ''proc_idem''"

definition LOCK_TTL_SECONDS :: int where "LOCK_TTL_SECONDS = 600"

definition RESULT_TTL_SECONDS :: int where "RESULT_TTL_SECONDS = 120"

definition AWAIT_TIMEOUT_SECONDS :: rat where "AWAIT_TIMEOUT_SECONDS = 5"

definition AWAIT_POLL_INTERVAL_SECONDS :: rat where "AWAIT_POLL_INTERVAL_SECONDS = 1 / 4"

definition compute_digest :: "(string \<Rightarrow> string) \<Rightarrow> string \<Rightarrow> string \<Rightarrow> string \<Rightarrow> string" where
  "compute_digest sha256 user_id symbol prompt_hash = sha256 (user_id @ '':'' @ symbol @ '':'' @ prompt_hash)"

definition lock_key :: "string \<Rightarrow> string" where "lock_key digest = ''lock:'' @ digest"

definition result_key :: "string \<Rightarrow> string" where "result_key digest = ''result:'' @ digest"

record LockHandle =
  lh_digest :: string
  lh_token :: string

definition check_cached :: "RedisCache \<Rightarrow> 's world \<Rightarrow> 'o codec \<Rightarrow> string \<Rightarrow> 's \<Rightarrow> 'o option \<times> 's" where
  "check_cached ca w cd digest s =
     (case cache_get ca (wd_exec w) (cd_loads cd) NAMESPACE (result_key digest) s of
        (Inr (Some (JObj kvs)), s1) \<Rightarrow> (cd_decode cd (JObj kvs), s1)
      | (_, s1) \<Rightarrow> (None, s1))"

definition acquire :: "RedisCache \<Rightarrow> 's world \<Rightarrow> string \<Rightarrow> string \<Rightarrow> 's \<Rightarrow> LockHandle option \<times> 's" where
  "acquire ca w token digest s =
     (case try_acquire_lock ca (wd_exec w) NAMESPACE (lock_key digest) token LOCK_TTL_SECONDS s of
        (Inl _, s1) \<Rightarrow> (Some \<lparr>lh_digest = digest, lh_token = token\<rparr>, s1)
      | (Inr acquired, s1) \<Rightarrow> (if acquired then Some \<lparr>lh_digest = digest, lh_token = token\<rparr> else None, s1))"

text \<open>The polling loop; the outer \<open>None\<close> is running out of fuel.\<close>

fun await_loop :: "nat \<Rightarrow> RedisCache \<Rightarrow> 's world \<Rightarrow> 'o codec \<Rightarrow> string \<Rightarrow> rat \<Rightarrow> 's \<Rightarrow> ('o option \<times> 's) option" where
  "await_loop 0 ca w cd digest deadline s = None"
| "await_loop (Suc fuel) ca w cd digest deadline s =
     (if wd_clock w s < deadline
      then case check_cached ca w cd digest s of
        (Some cached, s1) \<Rightarrow> Some (Some cached, s1)
      | (None, s1) \<Rightarrow> await_loop fuel ca w cd digest deadline (wd_sleep w AWAIT_POLL_INTERVAL_SECONDS s1)
      else Some (None, s))"

definition await_result :: "nat \<Rightarrow> RedisCache \<Rightarrow> 's world \<Rightarrow> 'o codec \<Rightarrow> string \<Rightarrow> 's \<Rightarrow> ('o option \<times> 's) option" where
  "await_result fuel ca w cd digest s =
     await_loop fuel ca w cd digest (wd_clock w s + AWAIT_TIMEOUT_SECONDS) s"

definition store_result :: "RedisCache \<Rightarrow> 's world \<Rightarrow> 'o codec \<Rightarrow> string \<Rightarrow> 'o \<Rightarrow> 's \<Rightarrow> 's" where
  "store_result ca w cd digest out s =
     snd (cache_set ca (wd_exec w) (cd_dumps cd) NAMESPACE (result_key digest) (cd_encode cd out)
            RESULT_TTL_SECONDS s)"

definition release :: "RedisCache \<Rightarrow> 's world \<Rightarrow> LockHandle \<Rightarrow> 's \<Rightarrow> 's" where
  "release ca w handle s =
     snd (release_lock ca (wd_exec w) NAMESPACE (lock_key (lh_digest handle)) (lh_token handle) s)"

section \<open>Guarded execution\<close>

datatype proc_error = LLMDuplicateSuppressedError | ExecutionError string

text \<open>The last component counts the runs of the pipeline.\<close>

definition execute_guarded :: "nat \<Rightarrow> RedisCache option \<Rightarrow> 's world \<Rightarrow> 'o codec \<Rightarrow> ('s \<Rightarrow> (proc_error + 'o) \<times> 's) \<Rightarrow>
    string \<Rightarrow> string \<Rightarrow> string \<Rightarrow> 's \<Rightarrow> ((proc_error + 'o) \<times> 's \<times> nat) option" where
  "execute_guarded fuel cache w cd execute token user_id digest s =
     (case cache of
        None \<Rightarrow> Some (case execute s of (r, s1) \<Rightarrow> (r, s1, 1))
      | Some ca \<Rightarrow>
          if user_id = '''' then Some (case execute s of (r, s1) \<Rightarrow> (r, s1, 1))
          else case check_cached ca w cd digest s of
            (Some cached, s1) \<Rightarrow> Some (Inr cached, s1, 0)
          | (None, s1) \<Rightarrow>
              (case acquire ca w token digest s1 of
                 (None, s2) \<Rightarrow>
                   (case await_result fuel ca w cd digest s2 of
                      None \<Rightarrow> None
                    | Some (Some owner_result, s3) \<Rightarrow> Some (Inr owner_result, s3, 0)
                    | Some (None, s3) \<Rightarrow> Some (Inl LLMDuplicateSuppressedError, s3, 0))
               | (Some handle, s2) \<Rightarrow>
                   (case execute s2 of
                      (Inr result, s3) \<Rightarrow>
                        Some (Inr result, release ca w handle (store_result ca w cd digest result s3), 1)
                    | (Inl e, s3) \<Rightarrow> Some (Inl e, release ca w handle s3, 1))))"

section \<open>What the world does\<close>

text \<open>Time does not go backwards, and a sleep lasts at least as long as asked.\<close>

definition clock_laws :: "'s world \<Rightarrow> bool" where
  "clock_laws w = ((\<forall>c s. wd_clock w s \<le> wd_clock w (snd (wd_exec w c s))) \<and>
     (\<forall>d s. 0 \<le> d \<longrightarrow> wd_clock w s + d \<le> wd_clock w (wd_sleep w d s)))"

text \<open>Redis cannot be reached: every command times out or loses its connection.\<close>

definition outage :: "'s world \<Rightarrow> bool" where
  "outage w = (\<forall>c s. fst (wd_exec w c s) \<in> {RTimeout, RConnection})"

text \<open>The documented behaviour of the four commands the guard uses, on the keys \<open>vl s\<close> that are live in a
  state: \<^verbatim>\<open>GET\<close>, \<^verbatim>\<open>SET EX\<close>, \<^verbatim>\<open>SET NX EX\<close> and the atomic compare-and-delete script.\<close>

definition redis_laws :: "('s \<Rightarrow> string \<rightharpoonup> string) \<Rightarrow> 's redis \<Rightarrow> bool" where
  "redis_laws vl exec =
     ((\<forall>s k. fst (exec (GET k) s) = (case vl s k of None \<Rightarrow> RNil | Some v \<Rightarrow> RValue v) \<and>
             vl (snd (exec (GET k) s)) = vl s) \<and>
      (\<forall>s k v t. fst (exec (SETEX k v t) s) = ROk \<and> vl (snd (exec (SETEX k v t) s)) = (vl s)(k \<mapsto> v)) \<and>
      (\<forall>s k v t. vl s k = None \<longrightarrow>
         fst (exec (SETNX k v t) s) = ROk \<and> vl (snd (exec (SETNX k v t) s)) = (vl s)(k \<mapsto> v)) \<and>
      (\<forall>s k v t. vl s k \<noteq> None \<longrightarrow>
         fst (exec (SETNX k v t) s) = RNil \<and> vl (snd (exec (SETNX k v t) s)) = vl s) \<and>
      (\<forall>s k v. vl s k = Some v \<longrightarrow>
         fst (exec (CAD k v) s) = RInt 1 \<and> vl (snd (exec (CAD k v) s)) = (vl s)(k := None)))"

definition full_key :: "RedisCache \<Rightarrow> string \<Rightarrow> string" where
  "full_key ca key = ca_key_prefix ca @ '':'' @ NAMESPACE @ '':'' @ key"

definition digest_ok :: "string \<Rightarrow> bool" where
  "digest_ok digest = (validate_key (lock_key digest) \<and> validate_key (result_key digest))"

text \<open>An output survives its way through the cache.\<close>

definition codec_ok :: "'o codec \<Rightarrow> 'o \<Rightarrow> bool" where
  "codec_ok cd out =
     (case cd_dumps cd (cd_encode cd out) of
        None \<Rightarrow> False
      | Some raw \<Rightarrow> length raw \<le> MAX_CACHE_VALUE_SIZE \<and>
          (case cd_loads cd raw of Some (JObj kvs) \<Rightarrow> cd_decode cd (JObj kvs) = Some out | _ \<Rightarrow> False))"

section \<open>Lemmas\<close>

lemma retry_clock:
  assumes "clock_laws w"
  shows "wd_clock w s \<le> wd_clock w (snd (retry_loop (wd_exec w) c n le s))"
proof (induction n arbitrary: le s)
  case (Suc n)
  obtain r s1 where e: "wd_exec w c s = (r, s1)" by (cases "wd_exec w c s")
  then have "wd_clock w s \<le> wd_clock w s1" using assms unfolding clock_laws_def by (metis snd_conv)
  then show ?case using Suc e by (cases r) (auto intro: order_trans)
qed simp

lemma check_cached_clock:
  assumes "clock_laws w"
  shows "wd_clock w s \<le> wd_clock w (snd (check_cached ca w cd digest s))"
proof -
  have "snd (check_cached ca w cd digest s) = s \<or>
      (\<exists>c. snd (check_cached ca w cd digest s) = snd (execute_with_retry ca (wd_exec w) c s))"
    by (auto simp: check_cached_def cache_get_def split: sum.splits prod.splits reply.splits option.splits json.splits)
      (metis snd_conv)+
  then show ?thesis using retry_clock [OF assms] by (auto simp: execute_with_retry_def)
qed

lemma await_loop_terminates:
  assumes "clock_laws w" "deadline - wd_clock w s \<le> of_nat n * AWAIT_POLL_INTERVAL_SECONDS" "n < fuel"
  shows "\<exists>r. await_loop fuel ca w cd digest deadline s = Some r"
  using assms(2,3)
proof (induction fuel arbitrary: s n)
  case (Suc fuel)
  obtain r s1 where c: "check_cached ca w cd digest s = (r, s1)" by (cases "check_cached ca w cd digest s")
  let ?s2 = "wd_sleep w AWAIT_POLL_INTERVAL_SECONDS s1"
  have "wd_clock w s \<le> wd_clock w s1" using check_cached_clock [OF assms(1), of s ca cd digest] c by simp
  moreover have "wd_clock w s1 + AWAIT_POLL_INTERVAL_SECONDS \<le> wd_clock w ?s2"
    using assms(1) by (simp add: clock_laws_def AWAIT_POLL_INTERVAL_SECONDS_def)
  ultimately have adv: "wd_clock w s + AWAIT_POLL_INTERVAL_SECONDS \<le> wd_clock w ?s2" by linarith
  show ?case
  proof (cases "wd_clock w s < deadline \<and> r = None")
    case True
    have "0 < n" using True Suc.prems(1) by (cases n) auto
    then have "deadline - wd_clock w ?s2 \<le> of_nat (n - 1) * AWAIT_POLL_INTERVAL_SECONDS"
      using adv Suc.prems(1) by (cases n) (auto simp: algebra_simps)
    then show ?thesis using Suc.IH [of ?s2 "n - 1"] Suc.prems(2) True c \<open>0 < n\<close> by simp
  qed (use c in auto)
qed simp

lemma await_result_terminates:
  assumes "clock_laws w" "21 \<le> fuel"
  shows "\<exists>r. await_result fuel ca w cd digest s = Some r"
  unfolding await_result_def
  by (rule await_loop_terminates [OF assms(1), of _ _ 20])
    (use assms(2) in \<open>simp_all add: AWAIT_TIMEOUT_SECONDS_def AWAIT_POLL_INTERVAL_SECONDS_def\<close>)

lemma namespace_ok: "validate_namespace NAMESPACE"
  by code_simp

lemma make_key_ok: "validate_key key \<Longrightarrow> make_key ca NAMESPACE key = Inr (full_key ca key)"
  by (simp add: make_key_def namespace_ok full_key_def)

subsection \<open>Outage\<close>

lemma retry_outage:
  assumes "outage w" "0 < n \<or> le \<in> {Some CacheTimeoutError, Some CacheConnectionError}"
  shows "\<exists>e s'. retry_loop (wd_exec w) c n le s = (Inl e, s') \<and> e \<in> {CacheTimeoutError, CacheConnectionError}"
  using assms(2)
proof (induction n arbitrary: le s)
  case (Suc n)
  obtain r s1 where e: "wd_exec w c s = (r, s1)" by (cases "wd_exec w c s")
  then have "r = RTimeout \<or> r = RConnection" using assms(1) unfolding outage_def by (metis fst_conv empty_iff insert_iff)
  then show ?case using Suc.IH [of "Some CacheTimeoutError" s1] Suc.IH [of "Some CacheConnectionError" s1] e
    by auto
qed auto

lemma check_cached_outage:
  assumes "outage w" "0 < ca_max_retries ca" "digest_ok digest"
  shows "\<exists>s'. check_cached ca w cd digest s = (None, s')"
proof -
  obtain e s' where "execute_with_retry ca (wd_exec w) (GET (full_key ca (result_key digest))) s = (Inl e, s')"
    using retry_outage [OF assms(1), of "ca_max_retries ca"] assms(2) unfolding execute_with_retry_def by blast
  then show ?thesis using assms(3) make_key_ok [of "result_key digest" ca]
    by (simp add: check_cached_def cache_get_def digest_ok_def)
qed

lemma acquire_outage:
  assumes "outage w" "0 < ca_max_retries ca" "digest_ok digest" "token \<noteq> ''''"
  shows "\<exists>s'. acquire ca w token digest s = (None, s')"
proof -
  obtain e s' where "execute_with_retry ca (wd_exec w) (SETNX (full_key ca (lock_key digest)) token LOCK_TTL_SECONDS) s =
      (Inl e, s')" "e \<in> {CacheTimeoutError, CacheConnectionError}"
    using retry_outage [OF assms(1), of "ca_max_retries ca"] assms(2) unfolding execute_with_retry_def by blast
  then show ?thesis using assms(3,4) make_key_ok [of "lock_key digest" ca]
    by (auto simp: acquire_def try_acquire_lock_def digest_ok_def LOCK_TTL_SECONDS_def)
qed

lemma await_loop_outage:
  assumes "outage w" "0 < ca_max_retries ca" "digest_ok digest"
    and "await_loop fuel ca w cd digest deadline s = Some (r, s')"
  shows "r = None"
  using assms(4)
proof (induction fuel arbitrary: s)
  case (Suc fuel)
  obtain s1 where "check_cached ca w cd digest s = (None, s1)" using check_cached_outage [OF assms(1-3)] by blast
  then show ?case using Suc by (auto split: if_splits)
qed simp

subsection \<open>A server that answers\<close>

lemma retry_answer:
  assumes "exec c s = (r, s1)" "r \<notin> {RTimeout, RConnection, RRedisError, RUnexpected}" "0 < ca_max_retries ca"
  shows "execute_with_retry ca exec c s = (Inr r, s1)"
  using assms by (cases "ca_max_retries ca") (auto simp: execute_with_retry_def split: reply.splits)

lemma answer_get:
  assumes "redis_laws vl exec" "0 < ca_max_retries ca"
  shows "\<exists>s1. execute_with_retry ca exec (GET k) s = (Inr (case vl s k of None \<Rightarrow> RNil | Some v \<Rightarrow> RValue v), s1) \<and>
    vl s1 = vl s"
proof -
  obtain r s1 where e: "exec (GET k) s = (r, s1)" by (cases "exec (GET k) s")
  then have "r = (case vl s k of None \<Rightarrow> RNil | Some v \<Rightarrow> RValue v)" "vl s1 = vl s"
    using assms(1) unfolding redis_laws_def by (metis fst_conv, metis snd_conv)
  then show ?thesis using e retry_answer [of exec "GET k" s r s1 ca] assms(2) by (auto split: option.splits)
qed

lemma answer_setex:
  assumes "redis_laws vl exec" "0 < ca_max_retries ca"
  shows "\<exists>s1. execute_with_retry ca exec (SETEX k v t) s = (Inr ROk, s1) \<and> vl s1 = (vl s)(k \<mapsto> v)"
proof -
  obtain r s1 where e: "exec (SETEX k v t) s = (r, s1)" by (cases "exec (SETEX k v t) s")
  then have "r = ROk" "vl s1 = (vl s)(k \<mapsto> v)"
    using assms(1) unfolding redis_laws_def by (metis fst_conv, metis snd_conv)
  then show ?thesis using e retry_answer [of exec "SETEX k v t" s r s1 ca] assms(2) by auto
qed

lemma answer_setnx:
  assumes "redis_laws vl exec" "0 < ca_max_retries ca"
  shows "\<exists>s1. execute_with_retry ca exec (SETNX k v t) s = (Inr (if vl s k = None then ROk else RNil), s1) \<and>
    vl s1 = (if vl s k = None then (vl s)(k \<mapsto> v) else vl s)"
proof -
  obtain r s1 where e: "exec (SETNX k v t) s = (r, s1)" by (cases "exec (SETNX k v t) s")
  then have "r = (if vl s k = None then ROk else RNil)" "vl s1 = (if vl s k = None then (vl s)(k \<mapsto> v) else vl s)"
    using assms(1) unfolding redis_laws_def by (metis fst_conv, metis snd_conv)
  then show ?thesis using e retry_answer [of exec "SETNX k v t" s r s1 ca] assms(2) by (auto split: if_splits)
qed

lemma answer_cad:
  assumes "redis_laws vl exec" "0 < ca_max_retries ca" "vl s k = Some v"
  shows "\<exists>s1. execute_with_retry ca exec (CAD k v) s = (Inr (RInt 1), s1) \<and> vl s1 = (vl s)(k := None)"
proof -
  obtain r s1 where e: "exec (CAD k v) s = (r, s1)" by (cases "exec (CAD k v) s")
  then have "r = RInt 1" "vl s1 = (vl s)(k := None)"
    using assms(1,3) unfolding redis_laws_def by (metis fst_conv, metis snd_conv)
  then show ?thesis using e retry_answer [of exec "CAD k v" s r s1 ca] assms(2) by auto
qed

lemma keys_differ: "full_key ca (lock_key d) \<noteq> full_key ca (result_key d)"
  by (simp add: full_key_def lock_key_def result_key_def)

lemma check_cached_miss:
  assumes "redis_laws vl (wd_exec w)" "0 < ca_max_retries ca" "digest_ok digest"
    and "vl s (full_key ca (result_key digest)) = None"
  shows "\<exists>s1. check_cached ca w cd digest s = (None, s1) \<and> vl s1 = vl s"
  using answer_get [OF assms(1,2), of "full_key ca (result_key digest)" s] assms(3,4)
    make_key_ok [of "result_key digest" ca]
  by (auto simp: check_cached_def cache_get_def digest_ok_def)

lemma check_cached_hit:
  assumes "redis_laws vl (wd_exec w)" "0 < ca_max_retries ca" "digest_ok digest" "codec_ok cd out"
    and "vl s (full_key ca (result_key digest)) = cd_dumps cd (cd_encode cd out)"
  shows "\<exists>s1. check_cached ca w cd digest s = (Some out, s1) \<and> vl s1 = vl s"
proof -
  obtain raw kvs where raw: "cd_dumps cd (cd_encode cd out) = Some raw" "cd_loads cd raw = Some (JObj kvs)"
    "cd_decode cd (JObj kvs) = Some out"
    using assms(4) by (auto simp: codec_ok_def split: option.splits json.splits)
  then show ?thesis using answer_get [OF assms(1,2), of "full_key ca (result_key digest)" s] assms(3,5)
      make_key_ok [of "result_key digest" ca]
    by (auto simp: check_cached_def cache_get_def digest_ok_def)
qed

lemma acquire_answer:
  assumes "redis_laws vl (wd_exec w)" "0 < ca_max_retries ca" "digest_ok digest" "token \<noteq> ''''"
  shows "\<exists>s1. acquire ca w token digest s =
      (if vl s (full_key ca (lock_key digest)) = None
       then Some \<lparr>lh_digest = digest, lh_token = token\<rparr> else None, s1) \<and>
    vl s1 = (if vl s (full_key ca (lock_key digest)) = None
       then (vl s)(full_key ca (lock_key digest) \<mapsto> token) else vl s)"
proof -
  let ?k = "full_key ca (lock_key digest)"
  obtain s1 where e: "execute_with_retry ca (wd_exec w) (SETNX ?k token LOCK_TTL_SECONDS) s =
      (Inr (if vl s ?k = None then ROk else RNil), s1)" "vl s1 = (if vl s ?k = None then (vl s)(?k \<mapsto> token) else vl s)"
    using answer_setnx [OF assms(1,2)] by blast
  have "try_acquire_lock ca (wd_exec w) NAMESPACE (lock_key digest) token LOCK_TTL_SECONDS s =
      (Inr (vl s ?k = None), s1)"
    using e(1) assms(3,4) make_key_ok [of "lock_key digest" ca]
    by (simp add: try_acquire_lock_def digest_ok_def LOCK_TTL_SECONDS_def)
  then show ?thesis using e(2) by (auto simp: acquire_def)
qed

lemma store_answer:
  assumes "redis_laws vl (wd_exec w)" "0 < ca_max_retries ca" "digest_ok digest" "codec_ok cd out"
  shows "vl (store_result ca w cd digest out s) =
    (vl s)(full_key ca (result_key digest) := cd_dumps cd (cd_encode cd out))"
proof -
  obtain raw where raw: "cd_dumps cd (cd_encode cd out) = Some raw" "length raw \<le> MAX_CACHE_VALUE_SIZE"
    using assms(4) by (auto simp: codec_ok_def split: option.splits)
  obtain s1 where "execute_with_retry ca (wd_exec w) (SETEX (full_key ca (result_key digest)) raw RESULT_TTL_SECONDS) s =
      (Inr ROk, s1)" "vl s1 = (vl s)(full_key ca (result_key digest) \<mapsto> raw)"
    using answer_setex [OF assms(1,2)] by blast
  then show ?thesis using raw assms(3) make_key_ok [of "result_key digest" ca]
    by (simp add: store_result_def cache_set_def digest_ok_def RESULT_TTL_SECONDS_def)
qed

lemma release_answer:
  assumes "redis_laws vl (wd_exec w)" "0 < ca_max_retries ca" "digest_ok digest" "token \<noteq> ''''"
    and "vl s (full_key ca (lock_key digest)) = Some token"
  shows "vl (release ca w \<lparr>lh_digest = digest, lh_token = token\<rparr> s) = (vl s)(full_key ca (lock_key digest) := None)"
proof -
  obtain s1 where "execute_with_retry ca (wd_exec w) (CAD (full_key ca (lock_key digest)) token) s = (Inr (RInt 1), s1)"
    "vl s1 = (vl s)(full_key ca (lock_key digest) := None)"
    using answer_cad [OF assms(1,2,5)] by blast
  then show ?thesis using assms(3,4) make_key_ok [of "lock_key digest" ca]
    by (simp add: release_def release_lock_def digest_ok_def)
qed

section \<open>Properties\<close>

text \<open>A small server, codec and analysis.\<close>

type_synonym ex_state = "(string \<Rightarrow> string option) \<times> rat"

fun ex_exec :: "command \<Rightarrow> ex_state \<Rightarrow> reply \<times> ex_state" where
  "ex_exec (GET k) (m, t) = (case m k of None \<Rightarrow> RNil | Some v \<Rightarrow> RValue v, (m, t))"
| "ex_exec (SETEX k v ttl) (m, t) = (ROk, (m(k \<mapsto> v), t))"
| "ex_exec (SETNX k v ttl) (m, t) = (if m k = None then (ROk, (m(k \<mapsto> v), t)) else (RNil, (m, t)))"
| "ex_exec (CAD k v) (m, t) = (if m k = Some v then (RInt 1, (m(k := None), t)) else (RInt 0, (m, t)))"
| "ex_exec _ s = (ROk, s)"

definition ex_world :: "ex_state world" where
  "ex_world = \<lparr>wd_exec = ex_exec, wd_clock = snd, wd_sleep = (\<lambda>d (m, t). (m, t + d))\<rparr>"

definition ex_down :: "ex_state world" where
  "ex_down = ex_world\<lparr>wd_exec := (\<lambda>_ s. (RConnection, s))\<rparr>"

definition ex_ca :: RedisCache where "ex_ca = \<lparr>ca_key_prefix = ''etradie'', ca_max_retries = 3\<rparr>"

definition ex_codec :: "string codec" where
  "ex_codec = \<lparr>cd_loads = (\<lambda>s. Some (JObj [(''o'', JStr s)])),
     cd_dumps = (\<lambda>j. case j of JObj [(_, JStr s)] \<Rightarrow> Some s | _ \<Rightarrow> None),
     cd_encode = (\<lambda>s. JObj [(''o'', JStr s)]),
     cd_decode = (\<lambda>j. case j of JObj [(_, JStr s)] \<Rightarrow> Some s | _ \<Rightarrow> None)\<rparr>"

lemma ex_world_laws: "redis_laws fst (wd_exec ex_world)" "clock_laws ex_world" "outage ex_down" "clock_laws ex_down"
proof -
  show "redis_laws fst (wd_exec ex_world)" by (auto simp: redis_laws_def ex_world_def)
  have "snd s \<le> snd (snd (ex_exec c s))" for c s by (cases "(c, s)" rule: ex_exec.cases) auto
  then show "clock_laws ex_world" by (auto simp: clock_laws_def ex_world_def)
  show "outage ex_down" "clock_laws ex_down" by (auto simp: outage_def clock_laws_def ex_down_def ex_world_def)
qed

lemma ex_digest: "digest_ok ''d''" "codec_ok ex_codec ''buy''" "0 < ca_max_retries ex_ca"
  by (simp_all add: digest_ok_def validate_key_def lock_key_def result_key_def MAX_KEY_LENGTH_def codec_ok_def
      ex_codec_def MAX_CACHE_VALUE_SIZE_def ex_ca_def)

lemma guarded_hit:
  assumes "redis_laws vl (wd_exec w)" "0 < ca_max_retries ca" "digest_ok digest" "codec_ok cd out" "user_id \<noteq> ''''"
    and "vl s (full_key ca (result_key digest)) = cd_dumps cd (cd_encode cd out)"
  shows "\<exists>s'. execute_guarded fuel (Some ca) w cd execute token user_id digest s = Some (Inr out, s', 0) \<and> vl s' = vl s"
  using check_cached_hit [OF assms(1-4,6)] assms(5) by (auto simp: execute_guarded_def)

text \<open>C3. Duplicates collapse. With a server that keeps the documented behaviour of its commands, a free
  lock, no cached result, and an analysis that succeeds and leaves the two keys of the guard as they
  are, the guarded call runs the pipeline once, returns its result, caches it and frees the lock. In
  every later state, whatever happened in between, in which the result key still holds that value, a
  call with the same digest returns the result without running the pipeline and changes no key of
  the server, so the result stays cached for the next call.\<close>

theorem guarded_call_runs_once:
  assumes "redis_laws vl (wd_exec w)" "0 < ca_max_retries ca" "digest_ok digest" "token \<noteq> ''''" "user_id \<noteq> ''''"
    and "codec_ok cd out"
    and "\<forall>s. fst (execute s) = Inr out \<and>
       vl (snd (execute s)) (full_key ca (lock_key digest)) = vl s (full_key ca (lock_key digest)) \<and>
       vl (snd (execute s)) (full_key ca (result_key digest)) = vl s (full_key ca (result_key digest))"
    and "vl s (full_key ca (result_key digest)) = None" "vl s (full_key ca (lock_key digest)) = None"
  shows "\<exists>s'. execute_guarded fuel (Some ca) w cd execute token user_id digest s = Some (Inr out, s', 1) \<and>
     vl s' (full_key ca (lock_key digest)) = None \<and>
     vl s' (full_key ca (result_key digest)) = cd_dumps cd (cd_encode cd out) \<and>
     (\<forall>t fuel2 execute2 token2 user2.
        vl t (full_key ca (result_key digest)) = vl s' (full_key ca (result_key digest)) \<and> user2 \<noteq> '''' \<longrightarrow>
        (\<exists>t'. execute_guarded fuel2 (Some ca) w cd execute2 token2 user2 digest t = Some (Inr out, t', 0) \<and>
           vl t' = vl t))"
proof -
  let ?l = "full_key ca (lock_key digest)" and ?r = "full_key ca (result_key digest)"
  obtain s1 where s1: "check_cached ca w cd digest s = (None, s1)" "vl s1 = vl s"
    using check_cached_miss [OF assms(1-3,8)] by blast
  obtain s2 where s2: "acquire ca w token digest s1 = (Some \<lparr>lh_digest = digest, lh_token = token\<rparr>, s2)"
    "vl s2 = (vl s)(?l \<mapsto> token)" using acquire_answer [OF assms(1-4), of s1] s1(2) assms(9) by auto
  obtain s3 where s3: "execute s2 = (Inr out, s3)" "vl s3 ?l = vl s2 ?l"
    using assms(7) by (metis prod.collapse)
  define s4 where "s4 = store_result ca w cd digest out s3"
  have s4: "vl s4 = (vl s3)(?r := cd_dumps cd (cd_encode cd out))"
    unfolding s4_def by (rule store_answer [OF assms(1-3,6)])
  define s' where "s' = release ca w \<lparr>lh_digest = digest, lh_token = token\<rparr> s4"
  have "vl s4 ?l = Some token" using s4 s3 s2 keys_differ [of ca digest] by simp
  then have s': "vl s' = (vl s4)(?l := None)" unfolding s'_def by (rule release_answer [OF assms(1-4)])
  have "execute_guarded fuel (Some ca) w cd execute token user_id digest s = Some (Inr out, s', 1)"
    using s1 s2 s3 assms(5) by (simp add: execute_guarded_def s'_def s4_def)
  moreover have r: "vl s' ?r = cd_dumps cd (cd_encode cd out)" using s' s4 keys_differ [of ca digest] by simp
  ultimately show ?thesis using s' guarded_hit [OF assms(1-3,6)] by auto
qed

text \<open>An analysis that writes a key of its own; two duplicates follow, the second in the state the
  first one leaves.\<close>

definition ex_execute :: "ex_state \<Rightarrow> (proc_error + string) \<times> ex_state" where
  "ex_execute s = (Inr ''buy'', ((fst s)(''usage'' \<mapsto> ''1''), snd s + 30))"

theorem guarded_call_runs_once_witness:
  "\<exists>s1 s2 s3. execute_guarded 0 (Some ex_ca) ex_world ex_codec ex_execute ''t'' ''u'' ''d'' (Map.empty, 0) =
       Some (Inr ''buy'', s1, 1) \<and>
     execute_guarded 0 (Some ex_ca) ex_world ex_codec ex_execute ''t2'' ''u'' ''d'' s1 = Some (Inr ''buy'', s2, 0) \<and>
     execute_guarded 0 (Some ex_ca) ex_world ex_codec ex_execute ''t3'' ''u'' ''d'' s2 = Some (Inr ''buy'', s3, 0)"
proof -
  let ?g = "execute_guarded 0 (Some ex_ca) ex_world ex_codec ex_execute" and ?r = "full_key ex_ca (result_key ''d'')"
  have keys: "full_key ex_ca (lock_key ''d'') \<noteq> ''usage''" "?r \<noteq> ''usage''" by (simp_all add: full_key_def ex_ca_def)
  obtain s1 where s1: "?g ''t'' ''u'' ''d'' (Map.empty, 0) = Some (Inr ''buy'', s1, 1)"
      "\<And>t token. fst t ?r = fst s1 ?r \<Longrightarrow> \<exists>t'. ?g token ''u'' ''d'' t = Some (Inr ''buy'', t', 0) \<and> fst t' = fst t"
    using guarded_call_runs_once [OF ex_world_laws(1) ex_digest(3,1), of "''t''" "''u''" ex_codec "''buy''"
        ex_execute "(Map.empty, 0)" 0] ex_digest(2) keys by (auto simp: ex_execute_def)
  obtain s2 where s2: "?g ''t2'' ''u'' ''d'' s1 = Some (Inr ''buy'', s2, 0)" "fst s2 = fst s1" using s1(2) by blast
  obtain s3 where "?g ''t3'' ''u'' ''d'' s2 = Some (Inr ''buy'', s3, 0)" using s1(2) [of s2 "''t3''"] s2(2) by auto
  then show ?thesis using s1(1) s2(1) by blast
qed

text \<open>C29. A duplicate never runs the pipeline and never waits for ever. If the lock is held and no result
  is cached, the guarded call ends, within 21 rounds of polling, without a run: with the owner's result or with
  the duplicate error.\<close>

theorem held_lock_suppresses:
  assumes "redis_laws vl (wd_exec w)" "clock_laws w" "0 < ca_max_retries ca" "digest_ok digest" "token \<noteq> ''''"
    and "user_id \<noteq> ''''" "vl s (full_key ca (result_key digest)) = None"
    and "vl s (full_key ca (lock_key digest)) \<noteq> None" "21 \<le> fuel"
  shows "\<exists>r s'. execute_guarded fuel (Some ca) w cd execute token user_id digest s = Some (r, s', 0) \<and>
     ((\<exists>out. r = Inr out) \<or> r = Inl LLMDuplicateSuppressedError)"
proof -
  obtain s1 where s1: "check_cached ca w cd digest s = (None, s1)" "vl s1 = vl s"
    using check_cached_miss [OF assms(1,3,4,7)] by blast
  obtain s2 where s2: "acquire ca w token digest s1 = (None, s2)"
    using acquire_answer [OF assms(1,3-5), of s1] s1(2) assms(8) by auto
  obtain r s3 where "await_result fuel ca w cd digest s2 = Some (r, s3)"
    using await_result_terminates [OF assms(2,9), of ca cd digest s2] by auto
  then show ?thesis using s1 s2 assms(6) by (cases r) (auto simp: execute_guarded_def)
qed

theorem held_lock_suppresses_witness:
  "\<exists>r s'. execute_guarded 21 (Some ex_ca) ex_world ex_codec (\<lambda>s. (Inr ''buy'', s)) ''t'' ''u'' ''d''
      ([full_key ex_ca (lock_key ''d'') \<mapsto> ''other''], 0) = Some (r, s', 0)"
proof -
  have "fst ([full_key ex_ca (lock_key ''d'') \<mapsto> ''other''], 0 :: rat) (full_key ex_ca (result_key ''d'')) = None"
    using keys_differ [of ex_ca "''d''"] by simp
  then show ?thesis
    using held_lock_suppresses [OF ex_world_laws(1,2) ex_digest(3,1), of "''t''" "''u''"
        "([full_key ex_ca (lock_key ''d'') \<mapsto> ''other''], 0)" 21 ex_codec "\<lambda>s. (Inr ''buy'', s)"] by auto
qed

text \<open>C38. The guard does not fail open. While Redis cannot be reached, every guarded call ends with the
  duplicate error and the pipeline is not run, although no other call is in flight; the guard is
  documented to degrade to no deduplication.\<close>

theorem outage_blocks_analysis:
  assumes "outage w" "clock_laws w" "0 < ca_max_retries ca" "digest_ok digest" "token \<noteq> ''''" "user_id \<noteq> ''''"
    and "21 \<le> fuel"
  shows "\<exists>s'. execute_guarded fuel (Some ca) w cd execute token user_id digest s =
    Some (Inl LLMDuplicateSuppressedError, s', 0)"
proof -
  obtain s1 where s1: "check_cached ca w cd digest s = (None, s1)" using check_cached_outage [OF assms(1,3,4)] by blast
  obtain s2 where s2: "acquire ca w token digest s1 = (None, s2)" using acquire_outage [OF assms(1,3-5)] by blast
  obtain r s3 where r: "await_result fuel ca w cd digest s2 = Some (r, s3)"
    using await_result_terminates [OF assms(2,7), of ca cd digest s2] by auto
  then have "r = None" unfolding await_result_def by (rule await_loop_outage [OF assms(1,3,4)])
  then show ?thesis using s1 s2 r assms(6) by (simp add: execute_guarded_def)
qed

theorem outage_blocks_analysis_witness:
  "\<exists>s'. execute_guarded 21 (Some ex_ca) ex_down ex_codec (\<lambda>s. (Inr ''buy'', s)) ''t'' ''u'' ''d'' (Map.empty, 0) =
    Some (Inl LLMDuplicateSuppressedError, s', 0)"
  by (rule outage_blocks_analysis [OF ex_world_laws(3,4) ex_digest(3,1)]) simp_all

end
