(* ===== verification/Connectivity.thy ===== *)
theory Connectivity
  imports Backoff
begin

text \<open>
  The broker connectivity primitives: the token bucket, the reconnect policy, the heartbeat
  and the freshness guard of \<^verbatim>\<open>engine/ta/broker/connectivity\<close>, and the clock-skew monitor of
  \<^verbatim>\<open>engine/ta/broker/mt5/clock_skew.py\<close>.

  Clock readings and random draws are arguments. Operations that run under a lock are one step.
  Metrics and logging are left out.
\<close>

section \<open>Outbound rate limiter\<close>

record OutboundRateLimiter =
  ol_provider :: string
  ol_account_id :: string
  ol_rate :: rat
  ol_burst :: int
  ol_tokens :: rat
  ol_last_refill :: rat

definition mk_OutboundRateLimiter :: "string \<Rightarrow> string \<Rightarrow> rat \<Rightarrow> int \<Rightarrow> rat \<Rightarrow> OutboundRateLimiter result" where
  "mk_OutboundRateLimiter provider account_id rate_per_second burst_size now =
     (if rate_per_second \<le> 0 then Inl (ValueError ''rate_per_second must be > 0'')
      else if burst_size \<le> 0 then Inl (ValueError ''burst_size must be > 0'')
      else Inr \<lparr>ol_provider = provider, ol_account_id = (if account_id = '''' then ''unknown'' else account_id),
        ol_rate = rate_per_second, ol_burst = burst_size, ol_tokens = of_int burst_size, ol_last_refill = now\<rparr>)"

definition refill_locked :: "rat \<Rightarrow> OutboundRateLimiter \<Rightarrow> OutboundRateLimiter" where
  "refill_locked now ol =
     (let elapsed = max 0 (now - ol_last_refill ol) in
      if elapsed \<le> 0 then ol
      else ol\<lparr>ol_tokens := min (of_int (ol_burst ol)) (ol_tokens ol + elapsed * ol_rate ol), ol_last_refill := now\<rparr>)"

text \<open>The critical section that \<^verbatim>\<open>try_acquire\<close> and \<^verbatim>\<open>acquire\<close> share.\<close>

definition take_locked :: "rat \<Rightarrow> int \<Rightarrow> OutboundRateLimiter \<Rightarrow> bool \<times> OutboundRateLimiter" where
  "take_locked now weight ol =
     (let ol1 = refill_locked now ol in
      if of_int weight \<le> ol_tokens ol1 then (True, ol1\<lparr>ol_tokens := ol_tokens ol1 - of_int weight\<rparr>)
      else (False, ol1))"

definition try_acquire :: "rat \<Rightarrow> int \<Rightarrow> OutboundRateLimiter \<Rightarrow> (bool \<times> OutboundRateLimiter) result" where
  "try_acquire now weight ol =
     (if weight \<le> 0 then Inl (ValueError ''weight must be > 0'') else Inr (take_locked now weight ol))"

record LimitDecision =
  ld_allowed :: bool
  ld_waited_secs :: rat
  ld_reason :: string

text \<open>The waiting loop. \<open>clock i\<close> gives the two clock readings of round \<open>i\<close>, and \<open>others i\<close> what the other
  tasks do to the bucket during the sleep of that round. The outer \<open>None\<close> is running out of fuel.\<close>

fun acquire_loop :: "nat \<Rightarrow> (nat \<Rightarrow> rat \<times> rat) \<Rightarrow> (nat \<Rightarrow> OutboundRateLimiter \<Rightarrow> OutboundRateLimiter) \<Rightarrow> int \<Rightarrow>
    rat option \<Rightarrow> rat \<Rightarrow> nat \<Rightarrow> OutboundRateLimiter \<Rightarrow> (LimitDecision \<times> OutboundRateLimiter) option" where
  "acquire_loop 0 clock others weight deadline_secs start i ol = None"
| "acquire_loop (Suc fuel) clock others weight deadline_secs start i ol =
     (let (now1, now2) = clock i; deadline = start + (case deadline_secs of None \<Rightarrow> 0 | Some d \<Rightarrow> d) in
      case take_locked now1 weight ol of
        (True, ol1) \<Rightarrow> Some (\<lparr>ld_allowed = True, ld_waited_secs = now1 - start, ld_reason = ''allowed''\<rparr>, ol1)
      | (False, ol1) \<Rightarrow>
          if (case deadline_secs of None \<Rightarrow> True | Some d \<Rightarrow> d \<le> 0)
          then Some (\<lparr>ld_allowed = False, ld_waited_secs = 0, ld_reason = ''exhausted''\<rparr>, ol1)
          else if deadline - now2 \<le> 0
          then Some (\<lparr>ld_allowed = False, ld_waited_secs = now2 - start, ld_reason = ''exhausted''\<rparr>, ol1)
          else acquire_loop fuel clock others weight deadline_secs start (i + 1) (others i ol1))"

definition limiter_acquire :: "nat \<Rightarrow> (nat \<Rightarrow> rat \<times> rat) \<Rightarrow> (nat \<Rightarrow> OutboundRateLimiter \<Rightarrow> OutboundRateLimiter) \<Rightarrow>
    int \<Rightarrow> rat option \<Rightarrow> rat \<Rightarrow> OutboundRateLimiter \<Rightarrow> (LimitDecision \<times> OutboundRateLimiter) option result" where
  "limiter_acquire fuel clock others weight deadline_secs start ol =
     (if weight \<le> 0 then Inl (ValueError ''weight must be > 0'')
      else Inr (acquire_loop fuel clock others weight deadline_secs start 0 ol))"

definition raise_if_exhausted :: "nat \<Rightarrow> (nat \<Rightarrow> rat \<times> rat) \<Rightarrow> (nat \<Rightarrow> OutboundRateLimiter \<Rightarrow> OutboundRateLimiter) \<Rightarrow>
    int \<Rightarrow> rat option \<Rightarrow> rat \<Rightarrow> OutboundRateLimiter \<Rightarrow> (string option \<times> OutboundRateLimiter) option result" where
  "raise_if_exhausted fuel clock others weight deadline_secs start ol =
     bindR (limiter_acquire fuel clock others weight deadline_secs start ol)
       (\<lambda>r. Inr (map_option (\<lambda>(d, ol1). (if ld_allowed d then None else Some ''OutboundRateLimitExceededError'', ol1)) r))"

section \<open>Reconnect policy\<close>

record ReconnectPolicy =
  rp_base_secs :: rat
  rp_cap_secs :: rat
  rp_max_attempts :: nat

definition next_delay :: "ReconnectPolicy \<Rightarrow> (nat \<Rightarrow> rat) \<Rightarrow> nat \<Rightarrow> rat" where
  "next_delay rp jit attempt =
     (if attempt < 1 then 0
      else let schedule = min (rp_cap_secs rp) (rp_base_secs rp * 2 ^ (attempt - 1)) in jit attempt * schedule)"

definition exhausted :: "ReconnectPolicy \<Rightarrow> nat \<Rightarrow> bool" where
  "exhausted rp attempt = (rp_max_attempts rp < attempt)"

text \<open>What awaiting the coroutine of an attempt gives: a value, an exception of a type in
  \<^verbatim>\<open>retry_on\<close>, or another exception.\<close>

datatype ('e, 'a) outcome = Value 'a | Retryable 'e | Fatal 'e

datatype 'e retry_error = Reraised 'e | NoExceptionCaptured

function run_loop :: "ReconnectPolicy \<Rightarrow> (nat \<Rightarrow> rat) \<Rightarrow> (nat \<Rightarrow> ('e, 'a) outcome) \<Rightarrow> nat \<Rightarrow> 'e option \<Rightarrow>
    ('e retry_error + 'a) \<times> rat list" where
  "run_loop rp jit coro attempt last_exc =
     (if exhausted rp attempt
      then (Inl (case last_exc of Some e \<Rightarrow> Reraised e | None \<Rightarrow> NoExceptionCaptured), [])
      else case coro attempt of
        Value x \<Rightarrow> (Inr x, [])
      | Fatal e \<Rightarrow> (Inl (Reraised e), [])
      | Retryable e \<Rightarrow>
          (case run_loop rp jit coro (attempt + 1) (Some e) of (r, sl) \<Rightarrow> (r, next_delay rp jit attempt # sl)))"
  by pat_completeness auto
termination
  by (relation "measure (\<lambda>(rp, _, _, attempt, _). rp_max_attempts rp + 1 - attempt)") (auto simp: exhausted_def)

declare run_loop.simps [simp del]

definition run_with_retry :: "ReconnectPolicy \<Rightarrow> (nat \<Rightarrow> rat) \<Rightarrow> (nat \<Rightarrow> ('e, 'a) outcome) \<Rightarrow>
    ('e retry_error + 'a) \<times> rat list" where
  "run_with_retry rp jit coro = run_loop rp jit coro 1 None"

section \<open>Heartbeat\<close>

datatype HeartbeatState = CONNECTED | DEGRADED | DISCONNECTED | UNKNOWN

record HeartbeatResult =
  hr_ok :: bool
  hr_broker_connected :: bool
  hr_authenticated :: bool
  hr_uptime_seconds :: rat
  hr_raw :: json
  hr_error_type :: string
  hr_error_message :: string

record ConnState =
  cs_provider :: string
  cs_account_id :: string
  cs_consecutive_failures :: int
  cs_state :: HeartbeatState
  cs_last_success_ts :: rat
  cs_task :: nat      \<comment> \<open>the number of its task\<close>

record HeartbeatService =
  hb_interval :: rat
  hb_timeout :: rat
  hb_failure_threshold :: int
  hb_connections :: "string \<times> string \<rightharpoonup> ConnState"
  hb_tasks :: "nat set"      \<comment> \<open>tasks that are not done\<close>
  hb_next_task :: nat
  hb_stopped :: bool

definition mk_HeartbeatService :: "rat \<Rightarrow> rat \<Rightarrow> int \<Rightarrow> HeartbeatService result" where
  "mk_HeartbeatService interval_secs timeout_secs failure_threshold =
     (if interval_secs \<le> 0 then Inl (ValueError ''interval_secs must be > 0'')
      else if timeout_secs \<le> 0 \<or> interval_secs < timeout_secs
      then Inl (ValueError ''timeout_secs must be > 0 and <= interval_secs'')
      else if failure_threshold < 1 then Inl (ValueError ''failure_threshold must be >= 1'')
      else Inr \<lparr>hb_interval = interval_secs, hb_timeout = timeout_secs, hb_failure_threshold = failure_threshold,
        hb_connections = Map.empty, hb_tasks = {}, hb_next_task = 0, hb_stopped = False\<rparr>)"

definition cancel_task :: "ConnState option \<Rightarrow> HeartbeatService \<Rightarrow> HeartbeatService" where
  "cancel_task existing hb =
     (case existing of None \<Rightarrow> hb | Some cs \<Rightarrow> hb\<lparr>hb_tasks := hb_tasks hb - {cs_task cs}\<rparr>)"

definition register :: "string \<Rightarrow> string \<Rightarrow> HeartbeatService \<Rightarrow> HeartbeatService" where
  "register provider account_id hb =
     (let key = (provider, account_id); hb1 = cancel_task (hb_connections hb key) hb; t = hb_next_task hb1;
          state = \<lparr>cs_provider = provider, cs_account_id = account_id, cs_consecutive_failures = 0,
            cs_state = UNKNOWN, cs_last_success_ts = 0, cs_task = t\<rparr>
      in hb1\<lparr>hb_tasks := insert t (hb_tasks hb1), hb_next_task := t + 1,
             hb_connections := (hb_connections hb1)(key \<mapsto> state)\<rparr>)"

definition unregister :: "string \<Rightarrow> string \<Rightarrow> HeartbeatService \<Rightarrow> HeartbeatService" where
  "unregister provider account_id hb =
     (case hb_connections hb (provider, account_id) of
        None \<Rightarrow> hb
      | Some cs \<Rightarrow> (cancel_task (Some cs) hb)\<lparr>hb_connections := (hb_connections hb)((provider, account_id) := None)\<rparr>)"

definition stop_service :: "HeartbeatService \<Rightarrow> HeartbeatService" where
  "stop_service hb =
     hb\<lparr>hb_stopped := True, hb_tasks := hb_tasks hb - cs_task ` ran (hb_connections hb), hb_connections := Map.empty\<rparr>"

definition state_of :: "string \<Rightarrow> string \<Rightarrow> HeartbeatService \<Rightarrow> HeartbeatState" where
  "state_of provider account_id hb =
     (case hb_connections hb (provider, account_id) of Some s \<Rightarrow> cs_state s | None \<Rightarrow> UNKNOWN)"

definition apply_result :: "int \<Rightarrow> rat \<Rightarrow> HeartbeatResult \<Rightarrow> ConnState \<Rightarrow> ConnState" where
  "apply_result failure_threshold now res cs =
     (if hr_ok res
      then cs\<lparr>cs_consecutive_failures := 0, cs_last_success_ts := now, cs_state := CONNECTED\<rparr>
      else let cs1 = cs\<lparr>cs_consecutive_failures := cs_consecutive_failures cs + 1\<rparr> in
        if failure_threshold \<le> cs_consecutive_failures cs1
        then cs1\<lparr>cs_state := (if \<not> hr_broker_connected res then DISCONNECTED else DEGRADED)\<rparr>
        else cs1)"

datatype probe = ProbeResult HeartbeatResult | ProbeTimeout | ProbeRaised string string

definition failed_result :: "string \<Rightarrow> string \<Rightarrow> HeartbeatResult" where
  "failed_result error_type error_message =
     \<lparr>hr_ok = False, hr_broker_connected = False, hr_authenticated = False, hr_uptime_seconds = 0,
      hr_raw = JObj [], hr_error_type = error_type, hr_error_message = error_message\<rparr>"

fun probe_result :: "(rat \<Rightarrow> string) \<Rightarrow> rat \<Rightarrow> probe \<Rightarrow> HeartbeatResult" where
  "probe_result fmt timeout (ProbeResult r) = r"
| "probe_result fmt timeout ProbeTimeout =
     failed_result ''TimeoutError'' (''probe timed out after '' @ fmt timeout @ ''s'')"
| "probe_result fmt timeout (ProbeRaised t msg) = failed_result t (take 500 msg)"

text \<open>One round of the loop of a connection, at time \<open>now\<close>.\<close>

definition heartbeat_round :: "(rat \<Rightarrow> string) \<Rightarrow> HeartbeatService \<Rightarrow> rat \<times> probe \<Rightarrow> ConnState \<Rightarrow> ConnState" where
  "heartbeat_round fmt hb = (\<lambda>(now, p) cs.
     apply_result (hb_failure_threshold hb) now (probe_result fmt (hb_timeout hb) p) cs)"

fun state_value :: "HeartbeatState \<Rightarrow> string" where
  "state_value CONNECTED = ''connected''"
| "state_value DEGRADED = ''degraded''"
| "state_value DISCONNECTED = ''disconnected''"
| "state_value UNKNOWN = ''unknown''"

text \<open>\<^verbatim>\<open>int(x)\<close> of a float.\<close>

definition py_trunc :: "rat \<Rightarrow> int" where
  "py_trunc x = (if 0 \<le> x then \<lfloor>x\<rfloor> else \<lceil>x\<rceil>)"

text \<open>The Redis hash of a connection with its time to live, written and deleted on a best-effort basis; the JSON text of \<^verbatim>\<open>raw\<close> and the
  decimal text of an integer are arguments.\<close>

definition hash_key :: "string \<Rightarrow> string \<Rightarrow> string" where
  "hash_key provider account_id = ''etradie:broker:hb:'' @ provider @ '':'' @ account_id"

definition write_hash :: "(int \<Rightarrow> string) \<Rightarrow> (json \<Rightarrow> string) \<Rightarrow> rat \<Rightarrow> rat \<Rightarrow> ConnState \<Rightarrow> HeartbeatResult \<Rightarrow>
    string \<times> (string \<times> string) list \<times> int" where
  "write_hash istr jstr interval now cs res =
     (let bit = (\<lambda>b. if b then ''1'' else ''0'') in
      (hash_key (cs_provider cs) (cs_account_id cs),
       [(''state'', state_value (cs_state cs)), (''ok'', bit (hr_ok res)),
        (''broker_connected'', bit (hr_broker_connected res)), (''authenticated'', bit (hr_authenticated res)),
        (''uptime_seconds'', istr (py_trunc (hr_uptime_seconds res))), (''last_seen_at'', istr (py_trunc now)),
        (''consecutive_failures'', istr (cs_consecutive_failures cs)), (''error_type'', hr_error_type res),
        (''raw'', take 2000 (jstr (hr_raw res)))],
       py_trunc (interval * 4)))"

section \<open>Tick freshness\<close>

datatype stale = StaleBySession | StaleByAge rat

definition assert_fresh :: "rat \<Rightarrow> rat \<Rightarrow> rat \<Rightarrow> stale + unit" where
  "assert_fresh max_age_seconds now_ts tick_unix_ts =
     (if max_age_seconds \<le> 0 then Inr ()
      else if tick_unix_ts \<le> 0 then Inl StaleBySession
      else let age = now_ts - tick_unix_ts in if max_age_seconds < age then Inl (StaleByAge age) else Inr ())"

section \<open>Clock skew\<close>

record EAClockSample =
  ea_server_time :: int
  ea_local_time :: int
  ea_tick_time :: int

record ClockSkewMonitor =
  sk_window :: "rat list"
  sk_window_size :: nat
  sk_max_skew :: rat

definition mk_ClockSkewMonitor :: "nat \<Rightarrow> rat \<Rightarrow> ClockSkewMonitor result" where
  "mk_ClockSkewMonitor window_size max_acceptable_skew_secs =
     (if window_size < 3 then Inl (ValueError ''window_size must be >= 3 for a useful median'')
      else if max_acceptable_skew_secs \<le> 0 then Inl (ValueError ''max_acceptable_skew_secs must be > 0'')
      else Inr \<lparr>sk_window = [], sk_window_size = window_size, sk_max_skew = max_acceptable_skew_secs\<rparr>)"

text \<open>\<^verbatim>\<open>statistics.median\<close> of a non-empty list, and \<^verbatim>\<open>append\<close> on a bounded deque.\<close>

definition median :: "rat list \<Rightarrow> rat" where
  "median xs =
     (let ys = sort xs; n = length ys in
      if n mod 2 = 1 then ys ! (n div 2) else (ys ! (n div 2 - 1) + ys ! (n div 2)) / 2)"

definition deque_append :: "nat \<Rightarrow> 'a list \<Rightarrow> 'a \<Rightarrow> 'a list" where
  "deque_append maxlen xs x = (let ys = xs @ [x] in drop (length ys - maxlen) ys)"

definition skew_seconds :: "ClockSkewMonitor \<Rightarrow> rat" where
  "skew_seconds sk = (if sk_window sk = [] then 0 else median (sk_window sk))"

definition sample_skew :: "rat \<Rightarrow> EAClockSample \<Rightarrow> ClockSkewMonitor \<Rightarrow> rat \<times> ClockSkewMonitor" where
  "sample_skew engine_now_unix smp sk =
     (if ea_server_time smp \<le> 0 then (skew_seconds sk, sk)
      else let skew = engine_now_unix - of_int (ea_server_time smp);
               sk1 = sk\<lparr>sk_window := deque_append (sk_window_size sk) (sk_window sk) skew\<rparr>
           in (median (sk_window sk1), sk1))"

definition now_compensated :: "rat \<Rightarrow> ClockSkewMonitor \<Rightarrow> rat" where
  "now_compensated engine_now_unix sk = engine_now_unix - skew_seconds sk"

definition is_degraded :: "ClockSkewMonitor \<Rightarrow> bool" where
  "is_degraded sk = (sk_max_skew sk < \<bar>skew_seconds sk\<bar>)"

definition assert_within_tolerance :: "ClockSkewMonitor \<Rightarrow> rat + unit" where
  "assert_within_tolerance sk = (let skew = skew_seconds sk in if sk_max_skew sk < \<bar>skew\<bar> then Inl skew else Inr ())"

section \<open>Token bucket\<close>

definition wf_limiter :: "OutboundRateLimiter \<Rightarrow> bool" where
  "wf_limiter ol = (0 < ol_rate ol \<and> 0 < ol_burst ol \<and> 0 \<le> ol_tokens ol \<and> ol_tokens ol \<le> of_int (ol_burst ol))"

text \<open>The weight granted by a sequence of requests, by any callers, each at its own time.\<close>

fun granted :: "(rat \<times> int) list \<Rightarrow> OutboundRateLimiter \<Rightarrow> int \<times> OutboundRateLimiter" where
  "granted [] ol = (0, ol)"
| "granted ((now, weight) # calls) ol =
     (case take_locked now weight ol of (b, ol1) \<Rightarrow>
        case granted calls ol1 of (g, ol2) \<Rightarrow> ((if b then weight else 0) + g, ol2))"

lemma mk_limiter_wf: "mk_OutboundRateLimiter p a r b now = Inr ol \<Longrightarrow> wf_limiter ol \<and> ol_last_refill ol = now"
  by (auto simp: mk_OutboundRateLimiter_def wf_limiter_def split: if_splits)

lemma refill_step:
  assumes "wf_limiter ol" "ol_last_refill ol \<le> T" "now \<le> T"
  shows "wf_limiter (refill_locked now ol) \<and> ol_last_refill (refill_locked now ol) \<le> T \<and>
    ol_rate (refill_locked now ol) = ol_rate ol \<and> ol_burst (refill_locked now ol) = ol_burst ol \<and>
    ol_tokens (refill_locked now ol) \<le>
      ol_tokens ol + ol_rate ol * (ol_last_refill (refill_locked now ol) - ol_last_refill ol)"
proof (cases "now \<le> ol_last_refill ol")
  case False
  define e where "e = (now - ol_last_refill ol) * ol_rate ol"
  have "0 < e" using False assms(1) by (simp add: wf_limiter_def e_def)
  moreover have "ol_rate ol * (now - ol_last_refill ol) = e" by (simp add: e_def mult.commute)
  ultimately show ?thesis using False assms
    by (auto simp: refill_locked_def wf_limiter_def max_def Let_def e_def [symmetric] min_def)
qed (use assms in \<open>simp add: refill_locked_def\<close>)

lemma take_step:
  assumes "wf_limiter ol" "ol_last_refill ol \<le> T" "now \<le> T" "0 < weight" "take_locked now weight ol = (b, ol1)"
  shows "wf_limiter ol1 \<and> ol_last_refill ol1 \<le> T \<and> ol_rate ol1 = ol_rate ol \<and> ol_burst ol1 = ol_burst ol \<and>
    of_int (if b then weight else 0) + ol_tokens ol1 \<le>
      ol_tokens ol + ol_rate ol * (ol_last_refill ol1 - ol_last_refill ol)"
proof -
  note r = refill_step [OF assms(1-3)]
  have "(0 :: rat) < of_int weight" using assms(4) by simp
  then show ?thesis using r assms(5) unfolding take_locked_def Let_def wf_limiter_def
    by (auto split: if_splits simp: algebra_simps)
qed

lemma granted_bound:
  assumes "wf_limiter ol" "ol_last_refill ol \<le> T" "list_all (\<lambda>(now, weight). now \<le> T \<and> 0 < weight) calls"
    and "granted calls ol = (g, ol')"
  shows "wf_limiter ol' \<and> ol_last_refill ol' \<le> T \<and> ol_rate ol' = ol_rate ol \<and>
    of_int g + ol_tokens ol' \<le> ol_tokens ol + ol_rate ol * (ol_last_refill ol' - ol_last_refill ol)"
  using assms
proof (induction calls arbitrary: ol g)
  case (Cons call calls)
  obtain now weight where call: "call = (now, weight)" by (cases call)
  obtain b ol1 where t: "take_locked now weight ol = (b, ol1)" by (cases "take_locked now weight ol")
  obtain g2 where g2: "granted calls ol1 = (g2, ol')" "g = (if b then weight else 0) + g2"
    using Cons.prems(4) call t by (cases "granted calls ol1") auto
  have st: "wf_limiter ol1" "ol_last_refill ol1 \<le> T" "ol_rate ol1 = ol_rate ol"
    "of_int (if b then weight else 0) + ol_tokens ol1 \<le>
      ol_tokens ol + ol_rate ol * (ol_last_refill ol1 - ol_last_refill ol)"
    using take_step [OF Cons.prems(1,2) _ _ t] Cons.prems(3) call by auto
  have "wf_limiter ol' \<and> ol_last_refill ol' \<le> T \<and> ol_rate ol' = ol_rate ol1 \<and>
    of_int g2 + ol_tokens ol' \<le> ol_tokens ol1 + ol_rate ol1 * (ol_last_refill ol' - ol_last_refill ol1)"
    using Cons.IH [OF st(1,2) _ g2(1)] Cons.prems(3) by simp
  then show ?case using st g2(2) by (simp add: algebra_simps)
qed simp

section \<open>Retries\<close>

interpretation reconnect: backoff next_delay rp_cap_secs "\<lambda>rp. 0 \<le> rp_base_secs rp \<and> 0 \<le> rp_cap_secs rp"
proof
  fix rp :: ReconnectPolicy and jit :: "nat \<Rightarrow> rat" and n :: nat
  assume rp: "0 \<le> rp_base_secs rp \<and> 0 \<le> rp_cap_secs rp" and j: "0 \<le> jit n" "jit n \<le> 1"
  let ?s = "min (rp_cap_secs rp) (rp_base_secs rp * 2 ^ (n - 1))"
  have s: "0 \<le> ?s" "?s \<le> rp_cap_secs rp" using rp by auto
  then show "0 \<le> next_delay rp jit n" using j by (simp add: next_delay_def Let_def)
  have "jit n * ?s \<le> 1 * ?s" using j(2) s(1) by (intro mult_right_mono) auto
  then show "next_delay rp jit n \<le> rp_cap_secs rp" using s rp by (auto simp: next_delay_def Let_def)
qed

lemma run_loop_spec:
  "(fst (run_loop rp jit coro a le) = Inr x \<longleftrightarrow>
     (\<exists>k. a \<le> k \<and> k \<le> rp_max_attempts rp \<and> coro k = Value x \<and> (\<forall>j. a \<le> j \<and> j < k \<longrightarrow> (\<exists>e. coro j = Retryable e)))) \<and>
   (\<exists>n. snd (run_loop rp jit coro a le) = map (next_delay rp jit) [a..<a + n] \<and> a + n \<le> max a (rp_max_attempts rp + 1))"
proof (induction rp jit coro a le rule: run_loop.induct)
  case (1 rp jit coro a le)
  let ?R = "\<lambda>b k. b \<le> k \<and> k \<le> rp_max_attempts rp \<and> coro k = Value x \<and> (\<forall>j. b \<le> j \<and> j < k \<longrightarrow> (\<exists>e. coro j = Retryable e))"
  show ?case
  proof (cases "exhausted rp a")
    case True
    then show ?thesis by (subst (1 2) run_loop.simps) (auto simp: exhausted_def intro!: exI [of _ 0])
  next
    case f: False
    then have a: "a \<le> rp_max_attempts rp" by (simp add: exhausted_def)
    show ?thesis
    proof (cases "coro a")
      case (Value y)
      have "(\<exists>k. ?R a k) \<longleftrightarrow> y = x"
      proof
        assume "\<exists>k. ?R a k"
        then obtain k where k: "?R a k" ..
        then have "k = a" using Value by (metis le_neq_implies_less order_refl outcome.distinct(1))
        then show "y = x" using k Value by simp
      qed (use Value a in auto)
      then show ?thesis using f Value by (subst (1 2) run_loop.simps) (auto intro!: exI [of _ 0])
    next
      case (Fatal e)
      have "\<not> ?R a k" for k using Fatal by (cases "k = a") auto
      then show ?thesis using f Fatal by (subst (1 2) run_loop.simps) (auto intro!: exI [of _ 0])
    next
      case (Retryable e)
      obtain r sl where r: "run_loop rp jit coro (a + 1) (Some e) = (r, sl)" by (cases "run_loop rp jit coro (a + 1) (Some e)")
      have eq: "run_loop rp jit coro a le = (r, next_delay rp jit a # sl)"
        using f Retryable r by (subst run_loop.simps) simp
      note IH = "1.IH" [OF f Retryable]
      obtain n where n: "sl = map (next_delay rp jit) [a + 1..<a + 1 + n]" "a + 1 + n \<le> max (a + 1) (rp_max_attempts rp + 1)"
        using IH r by auto
      have "next_delay rp jit a # sl = map (next_delay rp jit) [a..<a + Suc n]" using n(1)
        by (simp add: upt_conv_Cons del: upt_Suc)
      moreover have "a + Suc n \<le> max a (rp_max_attempts rp + 1)" using n(2) a by simp
      ultimately have Q: "\<exists>n. snd (run_loop rp jit coro a le) = map (next_delay rp jit) [a..<a + n] \<and>
          a + n \<le> max a (rp_max_attempts rp + 1)"
        unfolding eq snd_conv by (intro exI [of _ "Suc n"] conjI)
      have "(\<exists>k. ?R a k) \<longleftrightarrow> (\<exists>k. ?R (a + 1) k)"
      proof
        assume "\<exists>k. ?R a k"
        then obtain k where k: "?R a k" ..
        then have "k \<noteq> a" using Retryable by auto
        then have "?R (a + 1) k" using k by auto
        then show "\<exists>k. ?R (a + 1) k" ..
      next
        assume "\<exists>k. ?R (a + 1) k"
        then obtain k where k: "?R (a + 1) k" ..
        then have "\<exists>e. coro j = Retryable e" if "a \<le> j" "j < k" for j
          using that Retryable by (cases "j = a") auto
        then have "?R a k" using k by auto
        then show "\<exists>k. ?R a k" ..
      qed
      then have "fst (run_loop rp jit coro a le) = Inr x \<longleftrightarrow> (\<exists>k. ?R a k)" unfolding eq using IH r by simp
      then show ?thesis using Q by blast
    qed
  qed
qed

lemma refill_absorb:
  assumes "wf_limiter ol" "S \<le> now"
  shows "refill_locked now (refill_locked S ol) = refill_locked now ol"
proof (cases "S \<le> ol_last_refill ol \<or> S = now")
  case True
  then show ?thesis using assms by (auto simp: refill_locked_def Let_def)
next
  case False
  then have S: "ol_last_refill ol < S" "S < now" using assms(2) by auto
  define x y where "x = (S - ol_last_refill ol) * ol_rate ol" and "y = (now - S) * ol_rate ol"
  have "0 < ol_rate ol" using assms(1) by (simp add: wf_limiter_def)
  then have "0 < x" "0 < y" using S by (simp_all add: x_def y_def)
  moreover have "(now - ol_last_refill ol) * ol_rate ol = x + y" by (simp add: x_def y_def algebra_simps)
  ultimately show ?thesis using S
    by (simp add: refill_locked_def Let_def max_def x_def [symmetric] y_def [symmetric] min_def)
qed

lemma granted_after_refill:
  assumes "wf_limiter ol" "list_all (\<lambda>(now, weight). S \<le> now \<and> 0 < weight) calls" "calls \<noteq> []"
  shows "fst (granted calls (refill_locked S ol)) = fst (granted calls ol)"
proof -
  obtain now weight calls' where c: "calls = (now, weight) # calls'" using assms(3) by (metis list.exhaust prod.exhaust)
  then have "take_locked now weight (refill_locked S ol) = take_locked now weight ol"
    using refill_absorb [OF assms(1), of S now] assms(2) by (simp add: take_locked_def)
  then show ?thesis unfolding c granted.simps by simp
qed

section \<open>Heartbeat states\<close>

definition heartbeat_run :: "int \<Rightarrow> (rat \<times> HeartbeatResult) list \<Rightarrow> ConnState \<Rightarrow> ConnState" where
  "heartbeat_run threshold rs cs = fold (\<lambda>(now, r). apply_result threshold now r) rs cs"

lemma heartbeat_fails:
  assumes "list_all (\<lambda>(now, r). \<not> hr_ok r) fails"
  shows "cs_consecutive_failures (heartbeat_run thr fails cs) = cs_consecutive_failures cs + int (length fails) \<and>
    cs_state (heartbeat_run thr fails cs) =
      (if fails \<noteq> [] \<and> thr \<le> cs_consecutive_failures cs + int (length fails)
       then if hr_broker_connected (snd (last fails)) then DEGRADED else DISCONNECTED
       else cs_state cs)"
  using assms
proof (induction fails rule: rev_induct)
  case (snoc x fails)
  obtain now r where x: "x = (now, r)" by (cases x)
  have "heartbeat_run thr (fails @ [x]) cs = apply_result thr now r (heartbeat_run thr fails cs)"
    by (simp add: heartbeat_run_def x)
  then show ?case using snoc x by (auto simp: apply_result_def Let_def)
qed (simp add: heartbeat_run_def)

section \<open>Median\<close>

lemma sorted_below:
  fixes ys :: "rat list"
  assumes "sorted ys" "m < length ys" "ys ! m < a"
  shows "length (filter (\<lambda>y. a \<le> y \<and> y \<le> b) ys) \<le> length ys - (m + 1)"
proof -
  have "\<not> a \<le> ys ! i" if "i \<le> m" for i using sorted_nth_mono [OF assms(1) that assms(2)] assms(3) by linarith
  then have "{i. i < length ys \<and> (a \<le> ys ! i \<and> ys ! i \<le> b)} \<subseteq> {m + 1..<length ys}"
    by (auto simp: Suc_le_eq simp flip: not_le)
  then have "card {i. i < length ys \<and> (a \<le> ys ! i \<and> ys ! i \<le> b)} \<le> length ys - (m + 1)"
    using card_mono [of "{m + 1..<length ys}"] by fastforce
  then show ?thesis by (simp add: length_filter_conv_card)
qed

lemma sorted_above:
  fixes ys :: "rat list"
  assumes "sorted ys" "m < length ys" "b < ys ! m"
  shows "length (filter (\<lambda>y. a \<le> y \<and> y \<le> b) ys) \<le> m"
proof -
  have "\<not> ys ! i \<le> b" if "m \<le> i" "i < length ys" for i using sorted_nth_mono [OF assms(1) that] assms(3) by linarith
  then have "{i. i < length ys \<and> (a \<le> ys ! i \<and> ys ! i \<le> b)} \<subseteq> {0..<m}"
    by (auto simp flip: not_le)
  then have "card {i. i < length ys \<and> (a \<le> ys ! i \<and> ys ! i \<le> b)} \<le> m"
    using card_mono [of "{0..<m}"] by fastforce
  then show ?thesis by (simp add: length_filter_conv_card)
qed

lemma median_majority:
  assumes "length xs < 2 * length (filter (\<lambda>x. a \<le> x \<and> x \<le> b) xs)"
  shows "a \<le> median xs \<and> median xs \<le> b"
proof -
  define ys where "ys = sort xs"
  define n where "n = length ys"
  have cnt: "n < 2 * length (filter (\<lambda>y. a \<le> y \<and> y \<le> b) ys)" using assms
    by (simp add: n_def ys_def filter_sort)
  have s: "sorted ys" by (simp add: ys_def)
  have pos: "0 < n" using cnt by (cases ys) (auto simp: n_def)
  have inside: "a \<le> ys ! m \<and> ys ! m \<le> b" if "m < n" "n \<le> 2 * (m + 1)" "2 * m \<le> n" for m
  proof (rule conjI; rule ccontr)
    assume "\<not> a \<le> ys ! m"
    then have "length (filter (\<lambda>y. a \<le> y \<and> y \<le> b) ys) \<le> n - (m + 1)"
      using sorted_below [OF s] that n_def by (simp add: not_le)
    then show False using cnt that by arith
  next
    assume "\<not> ys ! m \<le> b"
    then have "length (filter (\<lambda>y. a \<le> y \<and> y \<le> b) ys) \<le> m"
      using sorted_above [OF s] that n_def by (simp add: not_le)
    then show False using cnt that by linarith
  qed
  show ?thesis
  proof (cases "n mod 2 = 1")
    case True
    then have "n div 2 < n" "n \<le> 2 * (n div 2 + 1)" "2 * (n div 2) \<le> n" by presburger+
    then show ?thesis using inside True by (simp add: median_def ys_def [symmetric] n_def [symmetric] Let_def)
  next
    case False
    then have "2 * (n div 2) = n" by presburger
    then have "a \<le> ys ! (n div 2) \<and> ys ! (n div 2) \<le> b" "a \<le> ys ! (n div 2 - 1) \<and> ys ! (n div 2 - 1) \<le> b"
      using inside [of "n div 2"] inside [of "n div 2 - 1"] pos by auto
    then show ?thesis using False by (simp add: median_def ys_def [symmetric] n_def [symmetric] Let_def)
  qed
qed

section \<open>Properties\<close>

text \<open>C14. The token bucket bound. In every time window from \<open>S\<close> to \<open>T\<close>, whatever the callers do and in
  whatever order, the limiter grants at most its burst size plus the rate times the length of the
  window, and the bucket always holds between zero tokens and the burst size.\<close>

theorem token_bucket_window:
  assumes "wf_limiter ol" "ol_last_refill ol \<le> S" "S \<le> T"
    and "list_all (\<lambda>(now, weight). S \<le> now \<and> now \<le> T \<and> 0 < weight) calls"
    and "granted calls ol = (g, ol')"
  shows "of_int g \<le> of_int (ol_burst ol) + ol_rate ol * (T - S) \<and> wf_limiter ol'"
proof (cases "calls = []")
  case True
  then show ?thesis using assms by (simp add: wf_limiter_def)
next
  case False
  let ?r = "refill_locked S ol"
  have r: "wf_limiter ?r" "ol_last_refill ?r = S" "ol_rate ?r = ol_rate ol" "ol_burst ?r = ol_burst ol"
    using refill_step [OF assms(1,2), of S] assms(1,2)
    by (auto simp: refill_locked_def wf_limiter_def Let_def max_def)
  have calls: "list_all (\<lambda>(now, weight). now \<le> T \<and> 0 < weight) calls"
    "list_all (\<lambda>(now, weight). S \<le> now \<and> 0 < weight) calls"
    using assms(4) by (auto simp: list_all_iff)
  obtain o2 where o2: "granted calls ?r = (g, o2)"
    using granted_after_refill [OF assms(1) calls(2) False] assms(5) by (cases "granted calls ?r") auto
  have b: "of_int g + ol_tokens o2 \<le> ol_tokens ?r + ol_rate ol * (ol_last_refill o2 - S)" "ol_last_refill o2 \<le> T"
    "0 \<le> ol_tokens o2" "ol_tokens ?r \<le> of_int (ol_burst ol)"
    using granted_bound [OF r(1) _ calls(1) o2] r assms(3) by (auto simp: wf_limiter_def)
  moreover have "ol_rate ol * (ol_last_refill o2 - S) \<le> ol_rate ol * (T - S)"
    using b(2) assms(1) by (intro mult_left_mono) (auto simp: wf_limiter_def)
  moreover have "wf_limiter ol'"
    using granted_bound [OF assms(1) _ calls(1) assms(5)] assms(2,3) by auto
  ultimately show ?thesis by linarith
qed

definition ex_ol :: OutboundRateLimiter where
  "ex_ol = \<lparr>ol_provider = ''zmq'', ol_account_id = ''1'', ol_rate = 2, ol_burst = 3, ol_tokens = 3, ol_last_refill = 0\<rparr>"

theorem token_bucket_window_witness:
  "fst (granted [(1, 3), (1, 1), (2, 2)] ex_ol) = 5 \<and> (5 :: rat) \<le> of_int (ol_burst ex_ol) + ol_rate ex_ol * (2 - 1)"
proof -
  have g: "fst (granted [(1, 3), (1, 1), (2, 2)] ex_ol) = 5"
    by (simp add: ex_ol_def take_locked_def refill_locked_def Let_def)
  obtain ol' where "granted [(1, 3), (1, 1), (2, 2)] ex_ol = (5, ol')"
    using g by (cases "granted [(1, 3), (1, 1), (2, 2)] ex_ol") auto
  then show ?thesis using g token_bucket_window [of ex_ol 1 2 "[(1, 3), (1, 1), (2, 2)]" 5 ol']
    by (simp add: ex_ol_def wf_limiter_def)
qed

text \<open>C30. The reconnect loop ends. It returns the value of the first attempt that gives one, provided that
  every attempt before it failed with a retryable exception and that its number does not exceed the
  configured maximum; otherwise it raises. It never sleeps longer, in total, than the maximal
  number of attempts times the cap.\<close>

theorem reconnect_bounded:
  assumes "0 \<le> rp_base_secs rp" "0 \<le> rp_cap_secs rp" "\<forall>n. 0 \<le> jit n \<and> jit n \<le> 1"
  shows "(fst (run_with_retry rp jit coro) = Inr x \<longleftrightarrow>
      (\<exists>k \<ge> 1. k \<le> rp_max_attempts rp \<and> coro k = Value x \<and> (\<forall>j. 1 \<le> j \<and> j < k \<longrightarrow> (\<exists>e. coro j = Retryable e)))) \<and>
    sum_list (snd (run_with_retry rp jit coro)) \<le> of_nat (rp_max_attempts rp) * rp_cap_secs rp"
proof -
  obtain n where n: "snd (run_with_retry rp jit coro) = map (next_delay rp jit) [1..<1 + n]" "n \<le> rp_max_attempts rp"
    using run_loop_spec [of rp jit coro 1 None x] unfolding run_with_retry_def by auto
  have "sum_list (snd (run_with_retry rp jit coro)) \<le> of_nat (length [1..<1 + n]) * rp_cap_secs rp"
    unfolding n(1) using assms by (intro reconnect.total_le) auto
  also have "\<dots> \<le> of_nat (rp_max_attempts rp) * rp_cap_secs rp"
    using n(2) assms(2) by (intro mult_right_mono) auto
  finally show ?thesis using run_loop_spec [of rp jit coro 1 None x] unfolding run_with_retry_def by blast
qed

definition ex_rp :: ReconnectPolicy where
  "ex_rp = \<lparr>rp_base_secs = 1, rp_cap_secs = 30, rp_max_attempts = 10\<rparr>"

theorem reconnect_bounded_witness:
  "fst (run_with_retry ex_rp (\<lambda>_. 1) (\<lambda>n. if n < 3 then Retryable ''lost'' else Value ''up'')) = Inr ''up''"
proof -
  have "\<exists>k \<ge> 1. k \<le> rp_max_attempts ex_rp \<and> (if k < 3 then Retryable ''lost'' else Value ''up'') = Value ''up'' \<and>
      (\<forall>j. 1 \<le> j \<and> j < k \<longrightarrow> (\<exists>e. (if j < 3 then Retryable ''lost'' else Value ''up'') = Retryable e))"
    by (intro exI [of _ 3]) (auto simp: ex_rp_def)
  then show ?thesis
    using reconnect_bounded [of ex_rp "\<lambda>_. 1" "\<lambda>n. if n < 3 then Retryable ''lost'' else Value ''up''" "''up''"]
    by (simp add: ex_rp_def)
qed

text \<open>C31. The heartbeat state after any history. After a successful probe followed by failures only, the
  connection is still CONNECTED while the failures are fewer than the threshold; from the
  threshold on it is DEGRADED or DISCONNECTED, according to what the last failed probe reported. A
  connection that never had a successful probe stays UNKNOWN until the threshold.\<close>

theorem heartbeat_state_spec:
  assumes "0 < thr" "hr_ok r" "list_all (\<lambda>(now, r). \<not> hr_ok r) fails"
  defines "down \<equiv> (if hr_broker_connected (snd (last fails)) then DEGRADED else DISCONNECTED)"
  shows "cs_state (heartbeat_run thr (pre @ [(t, r)] @ fails) cs) = (if int (length fails) < thr then CONNECTED else down) \<and>
    (cs_state cs = UNKNOWN \<and> cs_consecutive_failures cs = 0 \<longrightarrow>
       cs_state (heartbeat_run thr fails cs) = (if int (length fails) < thr then UNKNOWN else down))"
proof -
  define c where "c = heartbeat_run thr (pre @ [(t, r)]) cs"
  have "c = apply_result thr t r (heartbeat_run thr pre cs)" by (simp add: c_def heartbeat_run_def)
  then have "cs_state c = CONNECTED" "cs_consecutive_failures c = 0" using assms(2) by (simp_all add: apply_result_def)
  moreover have "heartbeat_run thr (pre @ [(t, r)] @ fails) cs = heartbeat_run thr fails c"
    by (simp add: c_def heartbeat_run_def)
  ultimately show ?thesis using heartbeat_fails [OF assms(3)] assms(1) by (auto simp: down_def)
qed

theorem heartbeat_state_spec_witness:
  "cs_state (heartbeat_run 2 ([] @ [(0, (failed_result [] [])\<lparr>hr_ok := True\<rparr>)] @ [(1, failed_result [] []), (2, failed_result [] [])])
     \<lparr>cs_provider = [], cs_account_id = [], cs_consecutive_failures = 0, cs_state = UNKNOWN, cs_last_success_ts = 0, cs_task = 0\<rparr>) =
   DISCONNECTED"
  using heartbeat_state_spec [of 2 "(failed_result [] [])\<lparr>hr_ok := True\<rparr>" "[(1, failed_result [] []), (2, failed_result [] [])]"
      "[]" 0 "\<lparr>cs_provider = [], cs_account_id = [], cs_consecutive_failures = 0, cs_state = UNKNOWN, cs_last_success_ts = 0, cs_task = 0\<rparr>"]
  by (simp add: failed_result_def)

text \<open>The measured clock skew is robust. If a strict majority of the samples in the window lie between
  two bounds, so does the reported skew, whatever the remaining samples are.\<close>

theorem clock_skew_robust:
  assumes "sk_window sk \<noteq> []"
    and "length (sk_window sk) < 2 * length (filter (\<lambda>x. a \<le> x \<and> x \<le> b) (sk_window sk))"
  shows "a \<le> skew_seconds sk \<and> skew_seconds sk \<le> b"
  using median_majority [OF assms(2)] assms(1) by (simp add: skew_seconds_def)

theorem clock_skew_robust_witness:
  "0 \<le> skew_seconds \<lparr>sk_window = [1, 900, 0], sk_window_size = 16, sk_max_skew = 10\<rparr>"
  using clock_skew_robust [of "\<lparr>sk_window = [1, 900, 0], sk_window_size = 16, sk_max_skew = 10\<rparr>" 0 1] by simp

end
