(* ===== verification/Spec2Isabelle.thy ===== *)
theory Spec2Isabelle
  imports Zones LiquidityPatterns Orchestrator Gate HttpClient Idempotency Connectivity
begin

text \<open>
  Verification of the analysis engine under \<^verbatim>\<open>src/src/engine\<close> of the eTradie repository, a Python
  service. All source paths below are relative to that directory.

  \<^bold>\<open>The program.\<close> For one symbol the orchestrator (\<^verbatim>\<open>ta/orchestrator.py\<close>) fetches candles of up to
  thirteen timeframes from a table or a broker. On every timeframe the analyzers and detectors find
  swings, breaks of structure, liquidity events and price zones, which a snapshot collects. On adjacent
  timeframes two pattern detectors, SMC (\<^verbatim>\<open>ta/smc\<close>) and supply and demand (\<^verbatim>\<open>ta/snd\<close>), build trade
  candidates with entry, stop and target. The candidates go to a language model, whose answer passes
  the response gate (\<^verbatim>\<open>processor/parsing\<close>) before anything trades. Before an order fills, the
  confirmation service (\<^verbatim>\<open>ta/common/services/ltf_confirmation\<close>) decides whether the setup still stands.
  Around this are the HTTP client with its circuit breaker, the Redis cache with its locks, the
  idempotency guard of the analysis call, and the broker connectivity primitives.

  \<^bold>\<open>How the code is modelled.\<close> A Python function is a HOL function. A call that may raise returns
  \<open>py_error + 'a\<close>, with \<^const>\<open>bindR\<close> for a statement that may raise and \<^const>\<open>mapR\<close>,
  \<^const>\<open>collectR\<close>, \<^const>\<open>firstR\<close> and \<^const>\<open>foldR\<close> for the loops (theory \<open>Prelude\<close>). A pydantic class is
  a record with a constructor \<open>mk_X\<close> that carries its validators. A class with state is a record that
  each operation returns updated. A \<^verbatim>\<open>float\<close> is a rational, so rounding of doubles is outside the model;
  a \<^verbatim>\<open>datetime\<close> is a number of seconds, UTC. Brokers, databases, Redis, the clock, random jitter and the
  text of an exception are arguments; what a theorem needs of them is a named hypothesis (for instance
  \<^const>\<open>fit_broker\<close> and \<^const>\<open>fit_store\<close>), shown satisfiable by the theorem's witness. Logging and metrics
  are left out.

  \<^bold>\<open>Theories and what they show.\<close>

  \<^item> \<open>Prelude\<close>, \<open>Selection\<close>, \<open>Backoff\<close>: results and loops, dictionary loops that keep the best or the
    first element of a key (locale \<open>first_best\<close>), and the contract of a retry schedule (locale \<open>backoff\<close>).

  \<^item> \<open>Constants\<close>, \<open>PriceMath\<close>, \<open>Candle\<close>: \<^verbatim>\<open>ta/constants.py\<close>, \<^verbatim>\<open>ta/common/timeframe/manager.py\<close>,
    \<^verbatim>\<open>ta/common/utils/price/math.py\<close> and \<^verbatim>\<open>ta/models/candle.py\<close>, with the invariant \<^const>\<open>wf_seq\<close> of a
    constructed sequence.

  \<^item> \<open>Swing\<close>, \<open>CandleAnalysis\<close>, \<open>Compression\<close>, \<open>Liquidity\<close>, \<open>Sweeps\<close>, \<open>Sessions\<close>, \<open>Fibonacci\<close>, with the
    models in \<open>LiquidityModels\<close>: the analyzers of \<^verbatim>\<open>ta/common/analyzers\<close>. They never raise on a
    well-formed market and compute: strict window maxima, maximal marubozu runs, the compression scan
    and its termination, greedy grouping, genuine sweeps reported once, one active session per hour (Asia
    until 9:00 UTC, although the London window opens at 7:00).

  \<^item> \<open>StructureModels\<close>, \<open>Structure\<close>: \<^verbatim>\<open>ta/smc/detectors\<close> for breaks (BMS), changes of character and
    shifts. The two sides of the market are the interpretations of the locale \<open>break_side\<close>.

  \<^item> \<open>ZoneModels\<close>, \<open>Zones\<close>, \<open>LiquidityPatterns\<close>, \<open>SnD\<close>: gaps, order blocks, breakers, inducements, turtle
    soups, the AMD phases, and the supply and demand detectors, each with an exact description of what
    is reported. The conversions of the five zone classes share the locale \<open>zone_model\<close>.

  \<^item> \<open>StopLoss\<close>, \<open>Candidates\<close>, \<open>SmcValidators\<close>, \<open>SmcBuilders\<close>, \<open>SmcDetector\<close>, \<open>SndBuilders\<close>,
    \<open>SndDetector\<close>: from structure to candidates. Every candidate is a consistent trade with the promised
    reward; which patterns can be confirmed; how the best candidate of a direction is selected.

  \<^item> \<open>Snapshot\<close>: \<^verbatim>\<open>ta/models/snapshot.py\<close>, \<^verbatim>\<open>ta/common/services/snapshot\<close> and
    \<^verbatim>\<open>ta/common/services/alignment\<close>; the newest break or major change of character decides a trend.

  \<^item> \<open>LtfConfirmation\<close>: when an order is invalidated, and what a confirmed order rests on, its session
    hours included.

  \<^item> \<open>Orchestrator\<close>: \<^verbatim>\<open>TAOrchestrator\<close> as a whole. The analysis always returns and reports sound,
    deduplicated candidates (composing the theorems on fetching and on both detectors); exactly when a
    timeframe is lost; the deduplication by zone refines its specification (locale \<open>zone_dedupe\<close>, which
    extends \<open>first_best\<close>).

  \<^item> \<open>Gate\<close>: \<^verbatim>\<open>processor/parsing\<close> with the models of \<^verbatim>\<open>processor/models/analysis.py\<close>. An accepted
    analysis meets the trade rules and vice versa; JSON is recovered from a fenced answer.

  \<^item> \<open>HttpClient\<close>, \<open>Cache\<close>, \<open>Idempotency\<close>, \<open>Connectivity\<close>: \<^verbatim>\<open>shared/http/client.py\<close>,
    \<^verbatim>\<open>shared/cache/redis_cache.py\<close>, \<^verbatim>\<open>processor/idempotency.py\<close> and \<^verbatim>\<open>ta/broker/connectivity\<close>. Retries are
    bounded and exact, an open circuit blocks and recovers, a duplicate call runs nothing while the
    result is cached, the token bucket keeps its rate in every window.

  \<^bold>\<open>Bounds.\<close> The wait for another owner's result polls every 0.25 seconds for at most 5 seconds; its
  loop takes fuel, and 21 rounds, one more than the polls that fit, are proved to be enough. The loops of
  the HTTP client, the cache and the reconnect policy run over the list of their attempts. The wait of
  the rate limiter takes fuel, since it may wait forever; its theorems are about single steps and about
  every sequence of grants. All other loops are structural or have a termination proof.

  \<^bold>\<open>Not modelled.\<close>
  The language model clients, prompts and generators, whose behaviour is that of the models; the
  SQLAlchemy storage, the broker clients, the hosted terminals, the routers and the wiring of the
  application, which are input and output around the modelled parts; retrieval and macro collection;
  authentication and encryption; and the Go services, the front end and the deployment files, which are
  programs of their own. Of \<^verbatim>\<open>processor/service.py\<close> only the guarded execution is modelled, and of
  \<^verbatim>\<open>config.py\<close> only the timeframes the orchestrator reads.
\<close>

end
